(* ===== verification/PyBase.thy ===== *)
theory PyBase
  imports Main "HOL-Library.Char_ord" "HOL-Library.List_Lexorder"
begin

text \<open>
  The prelude of the development: what the Python source uses of its language and that
  several components share. Python 2.7 byte strings are \<open>char\<close> lists (a \<open>char\<close> is one
  byte), exceptions are values of \<open>pyexc\<close>, a call that may raise returns
  \<open>pyexc + 'a\<close>, and a method that also changes the object returns the outcome paired with the
  new object (\<open>bindE\<close> chains two such calls and stops at the first exception, keeping the
  changes made before it). Slices, \<open>find\<close>, \<open>split\<close>, \<open>strip\<close>, \<open>replace\<close> and \<open>lower\<close> of
  byte strings are spelled out as functions with the facts the components use.
\<close>

section \<open>Exceptions and outcomes\<close>

type_synonym bytes = "char list"

datatype pyexc =
    IOError string
  | OSError string
  | ValueError string
  | TypeError string
  | IndexError string
  | KeyError string
  | AttributeError string
  | OverflowError string
  | ZeroDivisionError string
  | UnboundLocalError string
  | NotImplementedError string
  | AssertionError string
  | StructError string
  | UnicodeError string
  | ParseError string
  | RuntimeError string
  | NameError string
  | ImportError string
  | SocketError string
  | SocketTimeout string
  | SSLError string
  | CertificateError string
  | ImapError string
  | ImapAbort string
  | ImapReadOnly string

named_theorems outcome "equations and rules of the outcome monads"

definition sbind :: "pyexc + 'a \<Rightarrow> ('a \<Rightarrow> pyexc + 'b) \<Rightarrow> pyexc + 'b" where
  "sbind r f = (case r of Inl e \<Rightarrow> Inl e | Inr x \<Rightarrow> f x)"

lemma sbind_simps [simp, outcome]:
  "sbind (Inl e) f = Inl e"
  "sbind (Inr x) f = f x"
  by (simp_all add: sbind_def)

lemma sbind_Inr_iff [outcome]: "sbind r f = Inr y \<longleftrightarrow> (\<exists>x. r = Inr x \<and> f x = Inr y)"
  by (cases r) auto

lemma sbind_Inl_iff [outcome]:
  "sbind r f = Inl e \<longleftrightarrow> r = Inl e \<or> (\<exists>x. r = Inr x \<and> f x = Inl e)"
  by (cases r) auto

text \<open>Stateful calls: the outcome and the object after the call.\<close>

type_synonym ('s, 'a) act = "'s \<Rightarrow> (pyexc + 'a) \<times> 's"

definition retE :: "'a \<Rightarrow> ('s, 'a) act" where
  "retE x s = (Inr x, s)"

definition raiseE :: "pyexc \<Rightarrow> ('s, 'a) act" where
  "raiseE e s = (Inl e, s)"

definition getE :: "('s \<Rightarrow> 'a) \<Rightarrow> ('s, 'a) act" where
  "getE f s = (Inr (f s), s)"

definition modE :: "('s \<Rightarrow> 's) \<Rightarrow> ('s, unit) act" where
  "modE f s = (Inr (), f s)"

definition liftE :: "pyexc + 'a \<Rightarrow> ('s, 'a) act" where
  "liftE r s = (r, s)"

definition bindE :: "('s, 'a) act \<Rightarrow> ('a \<Rightarrow> ('s, 'b) act) \<Rightarrow> ('s, 'b) act" where
  "bindE m f s = (case m s of (Inl e, t) \<Rightarrow> (Inl e, t) | (Inr x, t) \<Rightarrow> f x t)"

definition whenE :: "bool \<Rightarrow> ('s, unit) act \<Rightarrow> ('s, unit) act" where
  "whenE b m = (if b then m else retE ())"

lemma act_simps [simp, outcome]:
  "retE x s = (Inr x, s)"
  "raiseE e s = (Inl e, s)"
  "getE g s = (Inr (g s), s)"
  "modE h s = (Inr (), h s)"
  "liftE r s = (r, s)"
  "whenE True m = m"
  "whenE False m = retE ()"
  by (simp_all add: retE_def raiseE_def getE_def modE_def liftE_def whenE_def)

lemma bindE_simps [simp, outcome]:
  "bindE (retE x) fa s = fa x s"
  "bindE (raiseE e) fb s = (Inl e, s)"
  "bindE (getE g) fc s = fc (g s) s"
  "bindE (modE h) fd s = fd () (h s)"
  "bindE (liftE (Inl e)) fe s = (Inl e, s)"
  "bindE (liftE (Inr y)) ff s = ff y s"
  by (simp_all add: bindE_def)

lemma bindE_Pair [simp, outcome]:
  "bindE (Pair (Inl e)) fa s = (Inl e, s)"
  "bindE (Pair (Inr x)) fb s = fb x s"
  by (simp_all add: bindE_def)

lemma bindE_Inr: "m s = (Inr x, t) \<Longrightarrow> bindE m f s = f x t"
  by (simp add: bindE_def)

lemma bindE_Inl: "m s = (Inl e, t) \<Longrightarrow> bindE m f s = (Inl e, t)"
  by (simp add: bindE_def)

lemma bindE_Inr_iff [outcome]:
  "bindE m f s = (Inr y, t) \<longleftrightarrow> (\<exists>x u. m s = (Inr x, u) \<and> f x u = (Inr y, t))"
  by (auto simp: bindE_def split: prod.splits sum.splits)

lemma bindE_Inl_iff [outcome]:
  "bindE m f s = (Inl e, t) \<longleftrightarrow>
     m s = (Inl e, t) \<or> (\<exists>x u. m s = (Inr x, u) \<and> f x u = (Inl e, t))"
  by (auto simp: bindE_def split: prod.splits sum.splits)

lemma bindE_assoc [simp]: "bindE (bindE m f) g = bindE m (\<lambda>x. bindE (f x) g)"
  by (rule ext) (auto simp: bindE_def split: prod.splits sum.splits)

text \<open>
  A property of the object that every call keeps, whether it returns or raises: the rule by
  which an invariant is carried through a sequence of calls.
\<close>

definition keeps :: "('s \<Rightarrow> bool) \<Rightarrow> ('s, 'a) act \<Rightarrow> bool" where
  "keeps P m \<longleftrightarrow> (\<forall>s. P s \<longrightarrow> P (snd (m s)))"

named_theorems keeps_rule "invariant preservation, one rule per operation"

lemma keepsD: "keeps P m \<Longrightarrow> P s \<Longrightarrow> P (snd (m s))"
  by (simp add: keeps_def)

lemma keeps_basic [keeps_rule, intro]:
  "keeps P (retE x)" "keeps P (raiseE e)" "keeps P (getE g)" "keeps P (liftE r)"
  by (simp_all add: keeps_def)

lemma keeps_bindE [keeps_rule, intro]:
  assumes m: "keeps P m" and f: "\<And>x. keeps P (f x)"
  shows "keeps P (bindE m f)"
  unfolding keeps_def
proof (intro allI impI)
  fix s assume "P s"
  then have "P (snd (m s))" using m by (rule keepsD[rotated])
  then show "P (snd (bindE m f s))"
    using f by (auto simp: bindE_def keeps_def split: prod.splits sum.splits)
qed

lemma keeps_whenE [keeps_rule, intro]: "keeps P m \<Longrightarrow> keeps P (whenE b m)"
  by (cases b) (auto simp: keeps_def)

lemma keeps_Pair [simp, keeps_rule, intro]: "keeps P (Pair r)"
  by (simp add: keeps_def)

lemma keeps_modE: "(\<And>s. P s \<Longrightarrow> P (h s)) \<Longrightarrow> keeps P (modE h)"
  by (simp add: keeps_def)

section \<open>Sequences: slices and joins\<close>

definition slice :: "nat \<Rightarrow> nat \<Rightarrow> 'a list \<Rightarrow> 'a list" where
  \<comment> \<open>\<open>xs[i:j]\<close> with non-negative bounds\<close>
  "slice i j xs = take (j - i) (drop i xs)"

definition py_take :: "int \<Rightarrow> 'a list \<Rightarrow> 'a list" where
  \<comment> \<open>\<open>xs[:n]\<close>, a negative \<open>n\<close> counting from the end\<close>
  "py_take n xs = (if 0 \<le> n then take (nat n) xs else take (nat (int (length xs) + n)) xs)"

definition py_index :: "'a list \<Rightarrow> int \<Rightarrow> pyexc + 'a" where
  \<comment> \<open>\<open>xs[i]\<close>, a negative \<open>i\<close> counting from the end\<close>
  "py_index xs i =
     (if i < - int (length xs) \<or> int (length xs) \<le> i then Inl (IndexError ''index out of range'')
      else Inr (xs ! nat (i mod int (length xs))))"

lemma length_slice [simp]: "length (slice i j xs) = min (j - i) (length xs - i)"
  by (simp add: slice_def)

lemma slice_append_left: "j \<le> length xs \<Longrightarrow> slice i j (xs @ ys) = slice i j xs"
  by (simp add: slice_def)

lemma slice_whole: "slice (length xs) (length xs + length ys) (xs @ ys @ zs) = ys"
  by (simp add: slice_def)

lemma py_take_nonneg [simp]: "py_take (int n) xs = take n xs"
  by (simp add: py_take_def)

lemma py_index_nat: "i < length xs \<Longrightarrow> py_index xs (int i) = Inr (xs ! i)"
  by (simp add: py_index_def)

lemma py_index_neg:
  assumes "0 < k" and "k \<le> length xs"
  shows "py_index xs (- int k) = Inr (xs ! (length xs - k))"
proof -
  have "(- int k) mod int (length xs) = (int (length xs) - int k) mod int (length xs)"
    by (metis add.commute add_uminus_conv_diff mod_add_self1)
  also have "\<dots> = int (length xs - k)" using assms by (subst mod_pos_pos_trivial) (simp_all add: of_nat_diff)
  finally show ?thesis using assms by (simp add: py_index_def del: of_nat_diff)
qed

lemma concat_take_drop_blocks:
  "(\<And>b. b \<in> set bs \<Longrightarrow> length b = n) \<Longrightarrow> i < length bs \<Longrightarrow>
     take n (drop (i * n) (concat bs)) = bs ! i"
proof (induction bs arbitrary: i)
  case Nil
  then show ?case by simp
next
  case (Cons b bs)
  then show ?case by (cases i) (simp_all add: drop_append)
qed

lemma length_concat_blocks:
  "(\<And>b. b \<in> set bs \<Longrightarrow> length b = n) \<Longrightarrow> length (concat bs) = length bs * n"
  by (induction bs) auto

definition withE :: "('s \<Rightarrow> ('s, 'a) act) \<Rightarrow> ('s, 'a) act" where
  \<comment> \<open>a call whose arguments read the object\<close>
  "withE f s = f s s"

lemma withE_simp [simp, outcome]: "withE f s = f s s"
  by (simp add: withE_def)

lemma bindE_withE [simp, outcome]: "bindE (withE g) f s = bindE (g s) f s"
  by (simp add: bindE_def)

lemma keeps_withE [keeps_rule, intro]: "(\<And>s. keeps P (f s)) \<Longrightarrow> keeps P (withE f)"
  by (auto simp: keeps_def)

fun each :: "('a \<Rightarrow> ('s, unit) act) \<Rightarrow> 'a list \<Rightarrow> ('s, unit) act" where
  "each f [] = retE ()"
| "each f (x # xs) = bindE (f x) (\<lambda>_. each f xs)"

definition on_object :: "('s, 'a) act \<Rightarrow> ('s \<times> 'd, 'a) act" where
  \<comment> \<open>a call on an object that is kept together with something else\<close>
  "on_object m st = (case m (fst st) of (r, c) \<Rightarrow> (r, (c, snd st)))"

lemma on_object_keeps: "keeps I m \<Longrightarrow> keeps (\<lambda>st. I (fst st)) (on_object m)"
  unfolding keeps_def on_object_def by (force split: prod.splits)

section \<open>Byte-string methods\<close>

definition lower_char :: "char \<Rightarrow> char" where
  "lower_char c = (if 65 \<le> (of_char c :: nat) \<and> (of_char c :: nat) \<le> 90
                   then char_of ((of_char c :: nat) + 32) else c)"

definition py_lower :: "bytes \<Rightarrow> bytes" where
  "py_lower s = map lower_char s"

definition upper_char :: "char \<Rightarrow> char" where
  "upper_char c = (if 97 \<le> (of_char c :: nat) \<and> (of_char c :: nat) \<le> 122
                   then char_of ((of_char c :: nat) - 32) else c)"

definition py_upper :: "bytes \<Rightarrow> bytes" where
  "py_upper s = map upper_char s"

fun py_split :: "char \<Rightarrow> bytes \<Rightarrow> bytes list" where
  \<comment> \<open>\<open>s.split(sep)\<close> for a one-byte separator\<close>
  "py_split sep [] = [[]]"
| "py_split sep (c # cs) =
     (if c = sep then [] # py_split sep cs
      else (case py_split sep cs of [] \<Rightarrow> [[c]] | w # ws \<Rightarrow> (c # w) # ws))"

fun py_join :: "'a list \<Rightarrow> 'a list list \<Rightarrow> 'a list" where
  \<comment> \<open>\<open>sep.join(ws)\<close>\<close>
  "py_join sep [] = []"
| "py_join sep [w] = w"
| "py_join sep (w # ws) = w @ sep @ py_join sep ws"

lemma py_split_ne [simp]: "py_split sep s \<noteq> []"
  by (induction s) (auto split: list.splits)

lemma py_split_no_sep: "sep \<notin> set s \<Longrightarrow> py_split sep s = [s]"
  by (induction s) auto

lemma py_split_append_sep: "sep \<notin> set w \<Longrightarrow> py_split sep (w @ sep # s) = w # py_split sep s"
  by (induction w) auto

lemma py_join_Cons: "ws \<noteq> [] \<Longrightarrow> py_join sep (w # ws) = w @ sep @ py_join sep ws"
  by (cases ws) simp_all

lemma py_split_join:
  "ws \<noteq> [] \<Longrightarrow> (\<And>w. w \<in> set ws \<Longrightarrow> sep \<notin> set w) \<Longrightarrow> py_split sep (py_join [sep] ws) = ws"
proof (induction ws)
  case Nil
  then show ?case by simp
next
  case (Cons w ws)
  then show ?case
    by (cases "ws = []") (simp_all add: py_split_no_sep py_join_Cons py_split_append_sep)
qed

lemma py_join_split: "py_join [sep] (py_split sep s) = s"
proof (induction s)
  case Nil
  then show ?case by simp
next
  case (Cons c cs)
  obtain w ws where "py_split sep cs = w # ws" using py_split_ne by (meson neq_Nil_conv)
  with Cons show ?case by (cases ws) (auto simp: py_join_Cons)
qed

lemma set_py_split: "w \<in> set (py_split sep s) \<Longrightarrow> sep \<notin> set w"
proof (induction s arbitrary: w)
  case Nil
  then show ?case by simp
next
  case (Cons c cs)
  obtain v vs where "py_split sep cs = v # vs" using py_split_ne by (meson neq_Nil_conv)
  with Cons show ?case by (auto split: if_splits)
qed

lemma lower_char_idem [simp]: "lower_char (lower_char c) = lower_char c"
  by (simp add: lower_char_def)

lemma py_lower_idem [simp]: "py_lower (py_lower s) = py_lower s"
  by (simp add: py_lower_def)

lemma length_py_lower [simp]: "length (py_lower s) = length s"
  by (simp add: py_lower_def)

section \<open>Decimal numbers\<close>

definition is_ascii :: "bytes \<Rightarrow> bool" where
  "is_ascii b \<longleftrightarrow> list_all (\<lambda>c. (of_char c :: nat) < 128) b"

definition is_digit :: "char \<Rightarrow> bool" where
  "is_digit c \<longleftrightarrow> (let n = of_char c :: nat in 48 \<le> n \<and> n \<le> 57)"

text \<open>The value of a string of digits, and the digits of a number.\<close>

fun dec_value :: "bytes \<Rightarrow> nat \<Rightarrow> nat" where
  "dec_value [] acc = acc"
| "dec_value (c # cs) acc = dec_value cs (acc * 10 + (of_char c - 48))"

fun dec :: "nat \<Rightarrow> bytes" where
  \<comment> \<open>\<open>str(n)\<close>\<close>
  "dec n = (if n < 10 then [char_of (48 + n)] else dec (n div 10) @ [char_of (48 + n mod 10)])"

declare dec.simps [simp del]

lemma is_digit_char: "(d::nat) < 10 \<Longrightarrow> is_digit (char_of (48 + d))"
  by (simp add: is_digit_def)

lemma dec_digits: "list_all is_digit (dec n)" "dec n \<noteq> []"
proof (induction n rule: dec.induct)
  case (1 n)
  case 1
  show ?case using "1.IH"(1) by (subst dec.simps) (simp add: is_digit_char)
  case 2
  show ?case by (subst dec.simps) simp
qed

lemma dec_value_append: "dec_value (a @ b) acc = dec_value b (dec_value a acc)"
  by (induction a acc rule: dec_value.induct) simp_all

lemma dec_value_dec [simp]: "dec_value (dec n) 0 = n"
proof (induction n rule: dec.induct)
  case (1 n)
  then show ?case by (subst dec.simps) (simp add: dec_value_append)
qed

definition dec_int :: "int \<Rightarrow> bytes" where
  \<comment> \<open>\<open>str(n)\<close>\<close>
  "dec_int n = (if n < 0 then ''-'' else []) @ dec (nat \<bar>n\<bar>)"

end
