(* ===== verification/OleBytes.thy ===== *)
theory OleBytes
  imports PyBase
begin

text \<open>
  The byte-level vocabulary of olefile.py: the constants of the compound file format, the
  readers \<open>i8\<close>, \<open>i16\<close>, \<open>i32\<close>, the little-endian fields that \<open>struct.unpack\<close> reads, the
  CLSID formatter, FILETIME conversion, the UTF-16LE decoder with replacement and the UTF-8
  encoder that \<open>_decode_utf16_str\<close> chains, and \<open>isOleFile\<close>. Byte values are naturals below
  256; the readers raise IndexError out of range.
\<close>

section \<open>Constants\<close>

definition MAGIC :: bytes where
  "MAGIC = map char_of [0xD0, 0xCF, 0x11, 0xE0, 0xA1, 0xB1, 0x1A, 0xE1 :: nat]"

definition DIFSECT :: nat where "DIFSECT = 0xFFFFFFFC"
definition FATSECT :: nat where "FATSECT = 0xFFFFFFFD"
definition ENDOFCHAIN :: nat where "ENDOFCHAIN = 0xFFFFFFFE"
definition FREESECT :: nat where "FREESECT = 0xFFFFFFFF"
definition NOSTREAM :: nat where "NOSTREAM = 0xFFFFFFFF"

definition STGTY_EMPTY :: nat where "STGTY_EMPTY = 0"
definition STGTY_STORAGE :: nat where "STGTY_STORAGE = 1"
definition STGTY_STREAM :: nat where "STGTY_STREAM = 2"
definition STGTY_ROOT :: nat where "STGTY_ROOT = 5"

definition MINIMAL_OLEFILE_SIZE :: nat where "MINIMAL_OLEFILE_SIZE = 1536"

definition UNKNOWN_SIZE :: nat where
  \<comment> \<open>the default \<open>size\<close> of \<open>_open\<close>, which \<open>_OleStream\<close> reads as "size not known"\<close>
  "UNKNOWN_SIZE = 0x7FFFFFFF"

named_theorems ole_consts "values of the format constants"

lemmas ole_const_defs [ole_consts] =
  DIFSECT_def FATSECT_def ENDOFCHAIN_def FREESECT_def NOSTREAM_def
  STGTY_EMPTY_def STGTY_STORAGE_def STGTY_STREAM_def STGTY_ROOT_def
  MINIMAL_OLEFILE_SIZE_def UNKNOWN_SIZE_def

lemma length_MAGIC [simp]: "length MAGIC = 8"
  by (simp add: MAGIC_def)

section \<open>Defect levels\<close>

text \<open>
  The four levels the code documents. \<open>_raise_defect\<close> compares their numeric values; the
  order on the type is that comparison.
\<close>

datatype defect = DEFECT_UNSURE | DEFECT_POTENTIAL | DEFECT_INCORRECT | DEFECT_FATAL

primrec defect_level :: "defect \<Rightarrow> nat" where
  "defect_level DEFECT_UNSURE = 10"
| "defect_level DEFECT_POTENTIAL = 20"
| "defect_level DEFECT_INCORRECT = 30"
| "defect_level DEFECT_FATAL = 40"

instantiation defect :: linorder
begin

definition less_eq_defect :: "defect \<Rightarrow> defect \<Rightarrow> bool" where
  "less_eq_defect a b \<longleftrightarrow> defect_level a \<le> defect_level b"

definition less_defect :: "defect \<Rightarrow> defect \<Rightarrow> bool" where
  "less_defect a b \<longleftrightarrow> defect_level a < defect_level b"

instance
proof
  fix a b c :: defect
  show "a < b \<longleftrightarrow> a \<le> b \<and> \<not> b \<le> a"
    by (auto simp: less_eq_defect_def less_defect_def)
  show "a \<le> a" by (simp add: less_eq_defect_def)
  show "a \<le> b \<Longrightarrow> b \<le> c \<Longrightarrow> a \<le> c" by (simp add: less_eq_defect_def)
  show "a \<le> b \<Longrightarrow> b \<le> a \<Longrightarrow> a = b"
    by (cases a; cases b) (simp_all add: less_eq_defect_def)
  show "a \<le> b \<or> b \<le> a" by (auto simp: less_eq_defect_def)
qed

end

lemma defect_le_FATAL [simp]: "d \<le> DEFECT_FATAL"
  by (cases d) (simp_all add: less_eq_defect_def)

lemma defect_order_simps [simp]:
  "\<not> DEFECT_FATAL \<le> DEFECT_INCORRECT" "DEFECT_INCORRECT \<le> DEFECT_INCORRECT"
  "\<not> DEFECT_FATAL \<le> DEFECT_POTENTIAL" "\<not> DEFECT_FATAL \<le> DEFECT_UNSURE"
  by (simp_all add: less_eq_defect_def)

section \<open>Reading little-endian integers\<close>

definition i8 :: "char \<Rightarrow> nat" where
  "i8 c = of_char c"

definition byte_at :: "bytes \<Rightarrow> nat \<Rightarrow> pyexc + nat" where
  "byte_at c o' = (if o' < length c then Inr (i8 (c ! o'))
                   else Inl (IndexError ''string index out of range''))"

definition i16 :: "bytes \<Rightarrow> nat \<Rightarrow> pyexc + nat" where
  "i16 c o' = sbind (byte_at c o') (\<lambda>b0. sbind (byte_at c (o' + 1)) (\<lambda>b1.
     Inr (or b0 (push_bit 8 b1))))"

definition i32 :: "bytes \<Rightarrow> nat \<Rightarrow> pyexc + nat" where
  "i32 c o' = sbind (byte_at c o') (\<lambda>b0. sbind (byte_at c (o' + 1)) (\<lambda>b1.
     sbind (byte_at c (o' + 2)) (\<lambda>b2. sbind (byte_at c (o' + 3)) (\<lambda>b3.
     Inr (or (or (or b0 (push_bit 8 b1)) (push_bit 16 b2)) (push_bit 24 b3))))))"

text \<open>Little-endian value of a byte string: what a \<open>struct\<close> field of that width holds.\<close>

fun le_nat :: "bytes \<Rightarrow> nat" where
  "le_nat [] = 0"
| "le_nat (c # cs) = i8 c + 256 * le_nat cs"

fun le_bytes :: "nat \<Rightarrow> nat \<Rightarrow> bytes" where
  "le_bytes 0 v = []"
| "le_bytes (Suc n) v = char_of v # le_bytes n (v div 256)"

lemma i8_less [simp]: "i8 c < 256"
proof -
  have "of_char c = (of_char c mod 256 :: nat)"
    by (metis char_of_char of_char_of)
  then show ?thesis
    unfolding i8_def by (metis mod_less_divisor zero_less_numeral)
qed

lemma i8_char_of [simp]: "i8 (char_of n) = n mod 256"
  by (simp add: i8_def)

lemma length_le_bytes [simp]: "length (le_bytes n v) = n"
  by (induction n arbitrary: v) simp_all

lemma le_nat_le_bytes: "v < 256 ^ n \<Longrightarrow> le_nat (le_bytes n v) = v"
proof (induction n arbitrary: v)
  case 0
  then show ?case by simp
next
  case (Suc n)
  then have "v div 256 < 256 ^ n" by (simp add: less_mult_imp_div_less mult.commute)
  then have "le_nat (le_bytes n (v div 256)) = v div 256" by (rule Suc.IH)
  then show ?case by simp
qed

lemma le_nat_bound: "le_nat cs < 256 ^ length cs"
proof (induction cs)
  case Nil
  then show ?case by simp
next
  case (Cons c cs)
  have "i8 c + 256 * le_nat cs < 256 + 256 * le_nat cs" by simp
  also have "\<dots> = 256 * Suc (le_nat cs)" by simp
  also have "\<dots> \<le> 256 * 256 ^ length cs" using Cons.IH by (simp add: Suc_le_eq)
  finally show ?case by simp
qed

lemma or_push_bit_add: "a < 2 ^ n \<Longrightarrow> or a (push_bit n b) = a + push_bit n b" for a b :: nat
proof -
  assume "a < 2 ^ n"
  then have "take_bit n a = a" by (simp add: take_bit_nat_eq_self)
  then have "\<not> (bit a k \<and> n \<le> k)" for k
    by (metis bit_take_bit_iff not_le)
  then have "and a (push_bit n b) = 0"
    by (intro bit_eqI) (auto simp: bit_simps)
  then show ?thesis by (simp add: disjunctive_add_eq_or)
qed

text \<open>The shift-and-or readers compute the little-endian value of the bytes they cover.\<close>

lemma i16_le_nat:
  "i16 c o' = (if o' + 2 \<le> length c then Inr (le_nat (slice o' (o' + 2) c))
              else Inl (IndexError ''string index out of range''))"
proof (cases "o' + 2 \<le> length c")
  case True
  then have "slice o' (o' + 2) c = [c ! o', c ! (o' + 1)]"
    by (simp add: slice_def numeral_2_eq_2 take_Suc_conv_app_nth)
  moreover have "or (i8 (c ! o')) (push_bit 8 (i8 (c ! (o' + 1))))
      = i8 (c ! o') + push_bit 8 (i8 (c ! (o' + 1)))"
    by (rule or_push_bit_add) simp
  ultimately show ?thesis
    using True by (simp add: i16_def byte_at_def push_bit_eq_mult mult.commute)
next
  case False
  then show ?thesis by (auto simp: i16_def byte_at_def)
qed

lemma i32_le_nat:
  "i32 c o' = (if o' + 4 \<le> length c then Inr (le_nat (slice o' (o' + 4) c))
              else Inl (IndexError ''string index out of range''))"
proof (cases "o' + 4 \<le> length c")
  case True
  let ?b = "\<lambda>k. i8 (c ! (o' + k))"
  have sl: "slice o' (o' + 4) c = [c ! o', c ! (o' + 1), c ! (o' + 2), c ! (o' + 3)]"
    using True by (simp add: slice_def eval_nat_numeral take_Suc_conv_app_nth)
  have 1: "or (?b 0) (push_bit 8 (?b 1)) = ?b 0 + 256 * ?b 1"
    by (subst or_push_bit_add) (simp_all add: push_bit_eq_mult)
  have b: "?b k < 256" for k by simp
  have lt2: "?b 0 + 256 * ?b 1 < 2 ^ 16" using b[of 0] b[of 1] by (simp del: i8_less)
  have 2: "or (?b 0 + 256 * ?b 1) (push_bit 16 (?b 2)) = ?b 0 + 256 * ?b 1 + 65536 * ?b 2"
    by (subst or_push_bit_add[OF lt2]) (simp add: push_bit_eq_mult)
  have lt3: "?b 0 + 256 * ?b 1 + 65536 * ?b 2 < 2 ^ 24" using b[of 0] b[of 1] b[of 2] by (simp del: i8_less)
  have 3: "or (?b 0 + 256 * ?b 1 + 65536 * ?b 2) (push_bit 24 (?b 3))
      = ?b 0 + 256 * ?b 1 + 65536 * ?b 2 + 16777216 * ?b 3"
    by (subst or_push_bit_add[OF lt3]) (simp add: push_bit_eq_mult)
  show ?thesis
    using True 1 2 3 by (simp add: i32_def byte_at_def sl)
next
  case False
  then show ?thesis by (auto simp: i32_def byte_at_def)
qed

text \<open>A field of a packed little-endian structure: offset and width in bytes.\<close>

definition unpack_field :: "nat \<Rightarrow> nat \<Rightarrow> bytes \<Rightarrow> nat" where
  "unpack_field off n bs = le_nat (slice off (off + n) bs)"

lemma unpack_field_bound: "unpack_field off n bs < 256 ^ n"
proof -
  have "le_nat (slice off (off + n) bs) < 256 ^ length (slice off (off + n) bs)"
    by (rule le_nat_bound)
  also have "\<dots> \<le> 256 ^ n" by (rule power_increasing) auto
  finally show ?thesis by (simp add: unpack_field_def)
qed

section \<open>CLSIDs\<close>

definition hex_digit :: "nat \<Rightarrow> char" where
  "hex_digit d = ''0123456789ABCDEF'' ! d"

text \<open>\<open>%0nX\<close> of a value below \<open>16 ^ n\<close>: exactly \<open>n\<close> digits.\<close>

fun hexX :: "nat \<Rightarrow> nat \<Rightarrow> string" where
  "hexX 0 v = []"
| "hexX (Suc n) v = hexX n (v div 16) @ [hex_digit (v mod 16)]"

definition clsid_fmt :: "bytes \<Rightarrow> pyexc + string" where
  \<comment> \<open>\<open>_clsid\<close>\<close>
  "clsid_fmt clsid =
     (if length clsid \<noteq> 16 then Inl (AssertionError '''')
      else if list_all (\<lambda>c. c = char_of (0::nat)) clsid then Inr []
      else sbind (i32 clsid 0) (\<lambda>a. sbind (i16 clsid 4) (\<lambda>b. sbind (i16 clsid 6) (\<lambda>c.
        (let t = map i8 (slice 8 16 clsid) in
         Inr (hexX 8 a @ ''-'' @ hexX 4 b @ ''-'' @ hexX 4 c @ ''-''
              @ concat (map (hexX 2) (take 2 t)) @ ''-'' @ concat (map (hexX 2) (drop 2 t))))))))"

lemma length_hexX [simp]: "length (hexX n v) = n"
  by (induction n arbitrary: v) simp_all

lemma hex_digit_inj: "a < 16 \<Longrightarrow> b < 16 \<Longrightarrow> hex_digit a = hex_digit b \<Longrightarrow> a = b"
proof -
  assume ab: "a < 16" "b < 16" and eq: "hex_digit a = hex_digit b"
  have "distinct ''0123456789ABCDEF''" by simp
  moreover have "length ''0123456789ABCDEF'' = 16" by simp
  ultimately show "a = b"
    using ab eq nth_eq_iff_index_eq unfolding hex_digit_def by metis
qed

lemma hexX_inj: "a < 16 ^ n \<Longrightarrow> b < 16 ^ n \<Longrightarrow> hexX n a = hexX n b \<Longrightarrow> a = b"
proof (induction n arbitrary: a b)
  case 0
  then show ?case by simp
next
  case (Suc n)
  from Suc.prems(3) have "hexX n (a div 16) = hexX n (b div 16)"
    and d: "hex_digit (a mod 16) = hex_digit (b mod 16)" by simp_all
  moreover have "a div 16 < 16 ^ n" "b div 16 < 16 ^ n"
    using Suc.prems by (simp_all add: less_mult_imp_div_less mult.commute)
  ultimately have "a div 16 = b div 16" by (metis Suc.IH)
  moreover have "a mod 16 = b mod 16" using d by (intro hex_digit_inj) simp_all
  ultimately show ?case by (metis div_mult_mod_eq)
qed

lemma clsid_fmt_16:
  assumes "length c = 16" and "\<not> list_all (\<lambda>x. x = char_of (0::nat)) c"
  shows "clsid_fmt c = Inr (hexX 8 (le_nat (slice 0 4 c)) @ ''-'' @ hexX 4 (le_nat (slice 4 6 c))
     @ ''-'' @ hexX 4 (le_nat (slice 6 8 c)) @ ''-''
     @ concat (map (hexX 2) (take 2 (map i8 (slice 8 16 c)))) @ ''-''
     @ concat (map (hexX 2) (drop 2 (map i8 (slice 8 16 c)))))"
  using assms by (simp add: clsid_fmt_def i32_le_nat i16_le_nat Let_def)

lemma length_concat_hexX2: "length (concat (map (hexX 2) xs)) = 2 * length xs"
  by (induction xs) auto

lemma clsid_fmt_length: "clsid_fmt c = Inr s \<Longrightarrow> s = [] \<or> length s = 36"
  by (cases "length c = 16"; cases "list_all (\<lambda>x. x = char_of (0::nat)) c")
     (auto simp: clsid_fmt_16 length_concat_hexX2, auto simp: clsid_fmt_def)

lemma i8_inj: "i8 a = i8 b \<Longrightarrow> a = b"
  by (simp add: i8_def)

lemma le_nat_inj: "length xs = length ys \<Longrightarrow> le_nat xs = le_nat ys \<Longrightarrow> xs = ys"
proof (induction xs ys rule: list_induct2)
  case (Cons x xs y ys)
  then have "i8 x + 256 * le_nat xs = i8 y + 256 * le_nat ys" by simp
  moreover have "i8 x < 256" "i8 y < 256" by simp_all
  ultimately have "i8 x = i8 y" "le_nat xs = le_nat ys"
    by (metis mod_less mod_mult_self2, metis add_diff_cancel_left' div_mult_self1_is_m div_less div_mult_self2 add_0 add.commute zero_neq_numeral)
  with Cons show ?case using i8_inj by blast
qed simp

lemma concat_hexX_inj:
  "length xs = length ys \<Longrightarrow> list_all (\<lambda>v. v < 256) xs \<Longrightarrow> list_all (\<lambda>v. v < 256) ys \<Longrightarrow>
     concat (map (hexX 2) xs) = concat (map (hexX 2) ys) \<Longrightarrow> xs = ys"
proof (induction xs ys rule: list_induct2)
  case (Cons x xs y ys)
  then have "hexX 2 x = hexX 2 y" and "concat (map (hexX 2) xs) = concat (map (hexX 2) ys)" by auto
  with Cons hexX_inj[of x 2 y] show ?case by simp
qed simp

lemma sixteen_slices:
  assumes "length b = 16"
  shows "b = slice 0 4 b @ slice 4 6 b @ slice 6 8 b @ slice 8 16 b"
proof -
  have "b = take 4 b @ take 2 (drop 4 b) @ take 2 (drop 6 b) @ drop 8 b"
    by (metis append_take_drop_id drop_drop numeral_plus_numeral add_num_simps(2,4) semiring_norm(2,3,4,5,6))
  then show ?thesis using assms by (simp add: slice_def)
qed

lemma hex_slice_inj:
  assumes "hexX n (le_nat (slice i j c)) = hexX n (le_nat (slice i j d))"
    and "length (slice i j c) * 2 = n" and "length (slice i j d) * 2 = n"
  shows "slice i j c = slice i j d"
proof -
  have "le_nat (slice i j b) < 16 ^ n" if "length (slice i j b) * 2 = n" for b
    using le_nat_bound[of "slice i j b"] that power_mult[of "16::nat" 2 "length (slice i j b)"]
    by (simp add: mult.commute)
  with hexX_inj assms have "le_nat (slice i j c) = le_nat (slice i j d)" by blast
  with assms(2,3) show ?thesis by (intro le_nat_inj) auto
qed

lemma clsid_fmt_inj:
  assumes c: "clsid_fmt c = Inr u" and d: "clsid_fmt d = Inr u"
  shows "c = d"
proof -
  let ?z = "list_all (\<lambda>x. x = char_of (0::nat))"
  have l: "length c = 16" "length d = 16" using c d by (auto simp: clsid_fmt_def split: if_splits)
  have zero: "?z b \<Longrightarrow> length b = 16 \<Longrightarrow> b = replicate 16 (char_of (0::nat)) \<and> clsid_fmt b = Inr []" for b
    by (auto simp: clsid_fmt_def list_all_iff intro: replicate_eqI)
  have nz: "\<not> ?z b \<Longrightarrow> length b = 16 \<Longrightarrow> clsid_fmt b \<noteq> Inr []" for b
    by (simp add: clsid_fmt_16)
  show ?thesis
  proof (cases "?z c \<or> ?z d")
    case True
    then show ?thesis using zero[of c] zero[of d] nz[of c] nz[of d] c d l by auto
  next
    case False
    let ?t = "\<lambda>b. map i8 (slice 8 16 b)"
    have "clsid_fmt c = clsid_fmt d" using c d by simp
    moreover have "length (concat (map (hexX 2) (take 2 (?t c)))) = length (concat (map (hexX 2) (take 2 (?t d))))"
      using l by (simp add: length_concat_hexX2)
    ultimately have h: "hexX 8 (le_nat (slice 0 4 c)) = hexX 8 (le_nat (slice 0 4 d))"
      "hexX 4 (le_nat (slice 4 6 c)) = hexX 4 (le_nat (slice 4 6 d))"
      "hexX 4 (le_nat (slice 6 8 c)) = hexX 4 (le_nat (slice 6 8 d))"
      "concat (map (hexX 2) (take 2 (?t c))) = concat (map (hexX 2) (take 2 (?t d)))"
      "concat (map (hexX 2) (drop 2 (?t c))) = concat (map (hexX 2) (drop 2 (?t d)))"
      using False l by (simp_all add: clsid_fmt_16)
    have s: "slice 0 4 c = slice 0 4 d" "slice 4 6 c = slice 4 6 d" "slice 6 8 c = slice 6 8 d"
      using l by (intro hex_slice_inj[OF h(1)] hex_slice_inj[OF h(2)] hex_slice_inj[OF h(3)]; simp)+
    have "take 2 (?t c) = take 2 (?t d)" "drop 2 (?t c) = drop 2 (?t d)"
      using h(4,5) l by (intro concat_hexX_inj; simp add: list_all_iff; fastforce dest: in_set_takeD in_set_dropD)+
    then have "?t c = ?t d" by (metis append_take_drop_id)
    then have "slice 8 16 c = slice 8 16 d" using i8_inj by (auto dest!: map_injective simp: inj_def)
    with s sixteen_slices[OF l(1)] sixteen_slices[OF l(2)] show ?thesis by metis
  qed
qed

section \<open>FILETIME\<close>

text \<open>
  A \<open>datetime\<close> is the number of microseconds since 1601-01-01, the base the code adds to;
  the largest one Python can represent is 9999-12-31 23:59:59.999999.
\<close>

definition MAX_DATETIME :: nat where
  "MAX_DATETIME = 265046774399999999"

definition filetime2datetime :: "nat \<Rightarrow> pyexc + nat" where
  "filetime2datetime filetime =
     (if filetime div 10 \<le> MAX_DATETIME then Inr (filetime div 10)
      else Inl (OverflowError ''date value out of range''))"

section \<open>UTF-16LE to UTF-8, with replacement\<close>

text \<open>
  \<open>utf16_str.decode('UTF-16LE', 'replace')\<close>: code points, U+FFFD for an unpaired
  surrogate, and one U+FFFD for an odd trailing byte or a surrogate with less than two bytes
  after it.
\<close>

fun utf16le_decode :: "bytes \<Rightarrow> nat list" where
  "utf16le_decode [] = []"
| "utf16le_decode [a] = [0xFFFD]"
| "utf16le_decode (a # b # rest) =
     (let u = i8 a + 256 * i8 b in
      if u < 0xD800 \<or> 0xDFFF < u then u # utf16le_decode rest
      else (case rest of
        [] \<Rightarrow> [0xFFFD]
      | [c] \<Rightarrow> [0xFFFD]
      | c # d # rest' \<Rightarrow>
          (let v = i8 c + 256 * i8 d in
           if u \<le> 0xDBFF \<and> 0xDC00 \<le> v \<and> v \<le> 0xDFFF
           then (0x10000 + (u - 0xD800) * 0x400 + (v - 0xDC00)) # utf16le_decode rest'
           else 0xFFFD # utf16le_decode rest)))"

fun utf8_char :: "nat \<Rightarrow> bytes" where
  "utf8_char u = map char_of
     (if u < 0x80 then [u]
      else if u < 0x800 then [0xC0 + u div 64, 0x80 + u mod 64]
      else if u < 0x10000 then [0xE0 + u div 4096, 0x80 + u div 64 mod 64, 0x80 + u mod 64]
      else [0xF0 + u div 262144, 0x80 + u div 4096 mod 64, 0x80 + u div 64 mod 64,
            0x80 + u mod 64])"

definition utf8_encode :: "nat list \<Rightarrow> bytes" where
  "utf8_encode us = concat (map utf8_char us)"

definition decode_utf16_str :: "bytes \<Rightarrow> bytes" where
  \<comment> \<open>\<open>_decode_utf16_str\<close> with the default \<open>path_encoding\<close> of Python 2, UTF-8\<close>
  "decode_utf16_str utf16_str = utf8_encode (utf16le_decode utf16_str)"

text \<open>An ASCII name stored as UTF-16LE comes back as the same bytes.\<close>

definition utf16le_ascii :: "bytes \<Rightarrow> bytes" where
  "utf16le_ascii s = concat (map (\<lambda>c. [c, char_of (0::nat)]) s)"

lemma utf16le_decode_ascii: "utf16le_decode (utf16le_ascii s) = map i8 s"
proof (induction s)
  case Nil
  then show ?case by (simp add: utf16le_ascii_def)
next
  case (Cons c s)
  have "i8 c < 55296" using i8_less[of c] by linarith
  with Cons show ?case by (simp add: utf16le_ascii_def)
qed

lemma decode_utf16_ascii:
  "list_all (\<lambda>c. i8 c < 128) s \<Longrightarrow> decode_utf16_str (utf16le_ascii s) = s"
  unfolding decode_utf16_str_def utf16le_decode_ascii utf8_encode_def
  by (induction s) (auto simp: i8_def)

section \<open>isOleFile\<close>

definition isOleFile :: "bytes \<Rightarrow> bool" where
  \<comment> \<open>on the content of the file, the byte string or the file-like object\<close>
  "isOleFile content \<longleftrightarrow> take (length MAGIC) content = MAGIC"

end
