(* ===== verification/OleStream.thy ===== *)
theory OleStream
  imports OleBytes
begin

text \<open>
  \<open>_OleStream.__init__\<close> of olefile.py: a stream is read by following its sector chain
  through the FAT (or the MiniFAT), at most as many steps as the declared size allows. The
  relation \<open>fat_chain\<close> is the abstract object, the linked list of sectors that ends in
  ENDOFCHAIN; the lemmas show that a chain is unique and acyclic and that the constructor
  succeeds exactly on the well-formed chains. The locale \<open>sector_store\<close> is the interface of
  sector-wise storage (what a read returns after a write), interpreted on file contents.
\<close>

section \<open>Files\<close>

definition SEEK_LIMIT :: nat where
  \<comment> \<open>\<open>fp.seek\<close> raises for an offset that does not fit a signed 64-bit integer\<close>
  "SEEK_LIMIT = 2 ^ 63"

definition fp_read :: "bytes \<Rightarrow> nat \<Rightarrow> nat \<Rightarrow> bytes" where
  \<comment> \<open>\<open>fp.seek(pos); fp.read(n)\<close>\<close>
  "fp_read fp pos n = take n (drop pos fp)"

definition fp_write :: "bytes \<Rightarrow> nat \<Rightarrow> bytes \<Rightarrow> bytes" where
  \<comment> \<open>\<open>fp.seek(pos); fp.write(data)\<close>: a gap after the old end reads as null bytes\<close>
  "fp_write fp pos d =
     take pos fp @ replicate (pos - length fp) (char_of (0::nat)) @ d @ drop (pos + length d) fp"

lemma fp_read_write_same: "fp_read (fp_write fp pos d) pos (length d) = d"
  by (simp add: fp_read_def fp_write_def drop_append)

lemma fp_read_write_before: "pos + n \<le> p \<Longrightarrow> p \<le> length fp \<Longrightarrow>
    fp_read (fp_write fp p d) pos n = fp_read fp pos n"
  by (simp add: fp_read_def fp_write_def take_drop min_def)

lemma fp_read_write_before': "pos + n \<le> p \<Longrightarrow> pos + n \<le> length fp \<Longrightarrow>
    fp_read (fp_write fp p d) pos n = fp_read fp pos n"
  by (simp add: fp_read_def fp_write_def drop_take take_append, arith)

lemma fp_read_write_after: "p + length d \<le> pos \<Longrightarrow>
    fp_read (fp_write fp p d) pos n = fp_read fp pos n"
  by (cases "p \<le> length fp") (simp_all add: fp_read_def fp_write_def)

lemma length_fp_write: "length (fp_write fp p d) = max (length fp) (p + length d)"
  by (simp add: fp_write_def)

section \<open>Sector-wise storage\<close>

locale sector_store =
  fixes rd :: "'f \<Rightarrow> nat \<Rightarrow> bytes"
    and wr :: "nat \<Rightarrow> bytes \<Rightarrow> 'f \<Rightarrow> 'f"
    and fits :: "'f \<Rightarrow> nat \<Rightarrow> bool"
    and blk :: nat
  assumes rd_wr_same: "length b = blk \<Longrightarrow> rd (wr i b f) i = b"
    and rd_wr_other: "length b = blk \<Longrightarrow> i \<noteq> j \<Longrightarrow> fits f j \<Longrightarrow> rd (wr i b f) j = rd f j"
    and fits_wr_same: "length b = blk \<Longrightarrow> fits (wr i b f) i"
    and fits_wr: "length b = blk \<Longrightarrow> fits f j \<Longrightarrow> fits (wr i b f) j"
begin

lemma fits_wr_all:
  "list_all (\<lambda>(i, b). length b = blk) ibs \<Longrightarrow> fits f j \<Longrightarrow>
     fits (fold (\<lambda>(i, b). wr i b) ibs f) j"
proof (induction ibs arbitrary: f)
  case (Cons ib ibs)
  then show ?case by (cases ib) (simp add: fits_wr)
qed simp

lemma rd_wr_all_other:
  "list_all (\<lambda>(i, b). length b = blk) ibs \<Longrightarrow> j \<notin> fst ` set ibs \<Longrightarrow> fits f j \<Longrightarrow>
     rd (fold (\<lambda>(i, b). wr i b) ibs f) j = rd f j"
proof (induction ibs arbitrary: f)
  case (Cons ib ibs)
  then show ?case by (cases ib) (simp add: fits_wr rd_wr_other)
qed simp

lemma rd_wr_all:
  "list_all (\<lambda>(i, b). length b = blk) ibs \<Longrightarrow> distinct (map fst ibs) \<Longrightarrow>
     map (rd (fold (\<lambda>(i, b). wr i b) ibs f)) (map fst ibs) = map snd ibs"
proof (induction ibs arbitrary: f)
  case Nil
  then show ?case by simp
next
  case (Cons ib ibs)
  obtain i b where ib: "ib = (i, b)" by (cases ib)
  have "rd (fold (\<lambda>(i, b). wr i b) ibs (wr i b f)) i = rd (wr i b f) i"
    using Cons.prems by (intro rd_wr_all_other) (auto simp: ib intro: fits_wr_same)
  moreover have "rd (wr i b f) i = b" using Cons.prems by (simp add: ib rd_wr_same)
  ultimately show ?case using Cons.IH[of "wr i b f"] Cons.prems by (simp add: ib)
qed

end

definition sector_at :: "nat \<Rightarrow> nat \<Rightarrow> bytes \<Rightarrow> nat \<Rightarrow> bytes" where
  "sector_at off ss fp i = fp_read fp (off + ss * i) ss"

definition put_sector :: "nat \<Rightarrow> nat \<Rightarrow> nat \<Rightarrow> bytes \<Rightarrow> bytes \<Rightarrow> bytes" where
  "put_sector off ss i b fp = fp_write fp (off + ss * i) b"

definition sector_fits :: "nat \<Rightarrow> nat \<Rightarrow> bytes \<Rightarrow> nat \<Rightarrow> bool" where
  "sector_fits off ss fp i \<longleftrightarrow> off + ss * (i + 1) \<le> length fp"

lemma sector_ranges_disjoint: "i \<noteq> j \<Longrightarrow> ss * i + ss \<le> ss * j \<or> ss * j + ss \<le> ss * i" for i j ss :: nat
proof -
  assume "i \<noteq> j"
  then have "i + 1 \<le> j \<or> j + 1 \<le> i" by arith
  then show ?thesis by (metis mult_le_mono2 add_mult_distrib2 mult.right_neutral)
qed

interpretation file_sectors: sector_store "sector_at off ss" "put_sector off ss" "sector_fits off ss" ss
  for off ss
proof unfold_locales
  fix b :: bytes and i j f
  assume len: "length b = ss"
  show "sector_at off ss (put_sector off ss i b f) i = b"
    using fp_read_write_same[of f "off + ss * i" b] by (simp add: sector_at_def put_sector_def len)
  show "sector_fits off ss (put_sector off ss i b f) i"
    by (simp add: sector_fits_def put_sector_def length_fp_write len)
  show "sector_fits off ss f j \<Longrightarrow> sector_fits off ss (put_sector off ss i b f) j"
    by (simp add: sector_fits_def put_sector_def length_fp_write)
  assume ij: "i \<noteq> j" and fits: "sector_fits off ss f j"
  from sector_ranges_disjoint[OF ij, of ss] show
    "sector_at off ss (put_sector off ss i b f) j = sector_at off ss f j"
    using fits len
    by (auto simp: sector_at_def put_sector_def sector_fits_def
        intro: fp_read_write_before' fp_read_write_after)
qed

section \<open>Sector chains\<close>

inductive fat_chain :: "nat list \<Rightarrow> nat \<Rightarrow> nat list \<Rightarrow> bool" for fat where
  stop: "fat_chain fat ENDOFCHAIN []"
| link: "s \<noteq> ENDOFCHAIN \<Longrightarrow> s < length fat \<Longrightarrow> fat_chain fat (fat ! s mod 2 ^ 32) xs \<Longrightarrow>
    fat_chain fat s (s # xs)"

inductive_cases fat_chain_NilE: "fat_chain fat s []"
inductive_cases fat_chain_ConsE: "fat_chain fat s (x # xs)"
inductive_simps fat_chain_Nil [simp]: "fat_chain fat s []"
inductive_simps fat_chain_Cons [simp]: "fat_chain fat s (x # xs)"
inductive_simps fat_chain_end [simp]: "fat_chain fat ENDOFCHAIN xs"

lemma fat_chain_unique: "fat_chain fat s xs \<Longrightarrow> fat_chain fat s ys \<Longrightarrow> xs = ys"
proof (induction xs arbitrary: s ys)
  case Nil
  then show ?case by (auto elim: fat_chain.cases)
next
  case (Cons x xs)
  from Cons.prems obtain ys' where "ys = x # ys'" and "fat_chain fat (fat ! x mod 2 ^ 32) ys'"
    by (auto elim: fat_chain.cases)
  with Cons show ?case by auto
qed

lemma fat_chain_suffix: "fat_chain fat s (xs @ x # ys) \<Longrightarrow> fat_chain fat x (x # ys)"
  by (induction xs arbitrary: s) auto

lemma fat_chain_distinct: "fat_chain fat s xs \<Longrightarrow> distinct xs"
proof (induction xs arbitrary: s)
  case Nil
  then show ?case by simp
next
  case (Cons x xs)
  have "x \<notin> set xs"
  proof
    assume "x \<in> set xs"
    then obtain us vs where xs: "xs = us @ x # vs" by (meson split_list)
    from Cons.prems have "s = x" by simp
    with Cons.prems have whole: "fat_chain fat x ((x # us) @ x # vs)" by (simp only: xs append_Cons)
    then have "fat_chain fat x (x # vs)" by (rule fat_chain_suffix)
    moreover note whole
    ultimately have "x # vs = (x # us) @ x # vs" by (rule fat_chain_unique)
    then show False by simp
  qed
  with Cons show ?case by auto
qed

lemma fat_chain_range: "fat_chain fat s xs \<Longrightarrow> set xs \<subseteq> {..<length fat}"
  by (induction rule: fat_chain.induct) auto

lemma fat_chain_length: "fat_chain fat s xs \<Longrightarrow> length xs \<le> length fat"
  by (metis card_lessThan card_mono distinct_card fat_chain_distinct fat_chain_range finite_lessThan)

section \<open>The stream constructor\<close>

record ole_strm =
  contents :: bytes
  strm_size :: nat

text \<open>
  The loop of the constructor, with \<open>n\<close> iterations left: the sector index, and the data
  read so far. It returns the index it stopped at and the sectors read.
\<close>

fun stream_loop ::
  "bytes \<Rightarrow> nat \<Rightarrow> nat \<Rightarrow> nat list \<Rightarrow> bool \<Rightarrow> nat \<Rightarrow> nat \<Rightarrow> bytes list \<Rightarrow> pyexc + (nat \<times> bytes list)"
where
  "stream_loop fp offset sectorsize fat unknown_size 0 sect d = Inr (sect, d)"
| "stream_loop fp offset sectorsize fat unknown_size (Suc n) sect d =
     (if sect = ENDOFCHAIN then
        (if unknown_size then Inr (sect, d) else Inl (IOError ''incomplete OLE stream''))
      else if length fat \<le> sect then
        Inl (IOError ''incorrect OLE FAT, sector index out of range'')
      else if SEEK_LIMIT \<le> offset + sectorsize * sect then
        Inl (IOError ''OLE sector index out of range'')
      else
        let sector_data = fp_read fp (offset + sectorsize * sect) sectorsize in
        if length sector_data \<noteq> sectorsize \<and> sect \<noteq> length fat - 1 then
          Inl (IOError ''incomplete OLE sector'')
        else stream_loop fp offset sectorsize fat unknown_size n
               (fat ! sect mod 2 ^ 32) (d @ [sector_data]))"

definition ole_stream ::
  "bytes \<Rightarrow> nat \<Rightarrow> nat \<Rightarrow> nat \<Rightarrow> nat \<Rightarrow> nat list \<Rightarrow> pyexc + ole_strm" where
  "ole_stream fp sect size0 offset sectorsize fat =
     (let unknown_size = (size0 = UNKNOWN_SIZE);
          size = (if unknown_size then length fat * sectorsize else size0);
          nb_sectors = (size + (sectorsize - 1)) div sectorsize
      in
      if length fat < nb_sectors then Inl (IOError ''malformed OLE document, stream too large'')
      else if size = 0 \<and> sect \<noteq> ENDOFCHAIN then
        Inl (IOError ''incorrect OLE sector index for empty stream'')
      else
        sbind (stream_loop fp offset sectorsize fat unknown_size nb_sectors sect []) (\<lambda>(sect', d).
          if sect' \<noteq> ENDOFCHAIN then Inl (IOError ''incorrect last sector index in OLE stream'')
          else let d' = concat d in
            if size \<le> length d' then Inr \<lparr>contents = take size d', strm_size = size\<rparr>
            else if unknown_size then Inr \<lparr>contents = d', strm_size = length d'\<rparr>
            else Inl (IOError ''OLE stream size is less than declared'')))"

text \<open>A sector the constructor can read: full, or the last one of the table.\<close>

definition readable :: "bytes \<Rightarrow> nat \<Rightarrow> nat \<Rightarrow> nat list \<Rightarrow> nat \<Rightarrow> bool" where
  "readable fp off ss fat i \<longleftrightarrow>
     off + ss * i < SEEK_LIMIT \<and> (length (sector_at off ss fp i) = ss \<or> i = length fat - 1)"

definition chain_data :: "bytes \<Rightarrow> nat \<Rightarrow> nat \<Rightarrow> nat list \<Rightarrow> bytes" where
  "chain_data fp off ss xs = concat (map (sector_at off ss fp) xs)"

lemma length_sector_at_le: "length (sector_at off ss fp i) \<le> ss"
  by (simp add: sector_at_def fp_read_def)

lemma length_chain_data_le: "length (chain_data fp off ss xs) \<le> length xs * ss"
  by (induction xs) (auto simp: chain_data_def add_mono length_sector_at_le)

text \<open>What the loop does along a chain, and that it reaches ENDOFCHAIN only along one.\<close>

lemma stream_loop_chain:
  assumes "fat_chain fat s xs" and "\<forall>x\<in>set xs. readable fp off ss fat x"
    and "if u then length xs \<le> n else length xs = n"
  shows "stream_loop fp off ss fat u n s d = Inr (ENDOFCHAIN, d @ map (sector_at off ss fp) xs)"
  using assms
proof (induction arbitrary: n d rule: fat_chain.induct)
  case stop
  then show ?case by (cases n) (auto split: if_splits)
next
  case (link s xs)
  then obtain m where n: "n = Suc m" and m: "if u then length xs \<le> m else length xs = m"
    by (cases n) (auto split: if_splits)
  have "stream_loop fp off ss fat u m (fat ! s mod 2 ^ 32) (d @ [sector_at off ss fp s])
      = Inr (ENDOFCHAIN, (d @ [sector_at off ss fp s]) @ map (sector_at off ss fp) xs)"
    using link.prems m by (intro link.IH) auto
  with link.hyps link.prems show ?case
    by (auto simp: n readable_def sector_at_def Let_def not_le)
qed

lemma stream_loop_only_chain:
  assumes "stream_loop fp off ss fat u n s d = Inr (ENDOFCHAIN, d')"
  shows "\<exists>xs. fat_chain fat s xs \<and> (\<forall>x\<in>set xs. readable fp off ss fat x)
    \<and> (if u then length xs \<le> n else length xs = n) \<and> d' = d @ map (sector_at off ss fp) xs"
  using assms
proof (induction n arbitrary: s d)
  case 0
  then show ?case by (intro exI[of _ "[]"]) auto
next
  case (Suc n)
  show ?case
  proof (cases "s = ENDOFCHAIN")
    case True
    with Suc.prems show ?thesis by (intro exI[of _ "[]"]) (auto split: if_splits)
  next
    case False
    with Suc.prems have s: "s < length fat" "readable fp off ss fat s"
      and rec: "stream_loop fp off ss fat u n (fat ! s mod 2 ^ 32) (d @ [sector_at off ss fp s])
        = Inr (ENDOFCHAIN, d')"
      by (auto simp: readable_def sector_at_def Let_def not_le split: if_splits)
    from Suc.IH[OF rec] obtain xs where "fat_chain fat (fat ! s mod 2 ^ 32) xs"
      "\<forall>x\<in>set xs. readable fp off ss fat x" "if u then length xs \<le> n else length xs = n"
      "d' = (d @ [sector_at off ss fp s]) @ map (sector_at off ss fp) xs" by blast
    with s False show ?thesis by (intro exI[of _ "s # xs"]) (auto split: if_splits)
  qed
qed

text \<open>
  Known size: the constructor succeeds exactly on a chain of the length the size calls for,
  all of whose sectors can be read and together hold the declared size.
\<close>

lemma ole_stream_known:
  assumes "sz \<noteq> UNKNOWN_SIZE" and "0 < ss"
  shows "ole_stream fp sect sz off ss fat = Inr st \<longleftrightarrow>
    (\<exists>xs. fat_chain fat sect xs \<and> (\<forall>x\<in>set xs. readable fp off ss fat x)
       \<and> length xs = (sz + (ss - 1)) div ss \<and> sz \<le> length (chain_data fp off ss xs)
       \<and> st = \<lparr>contents = take sz (chain_data fp off ss xs), strm_size = sz\<rparr>)"
    (is "?lhs \<longleftrightarrow> (\<exists>xs. ?P xs)")
proof
  assume ?lhs
  then obtain d where "stream_loop fp off ss fat False ((sz + (ss - 1)) div ss) sect []
      = Inr (ENDOFCHAIN, d)"
    and "sz \<le> length (concat d)"
    and "st = \<lparr>contents = take sz (concat d), strm_size = sz\<rparr>"
    using assms by (auto simp: ole_stream_def Let_def outcome split: if_splits)
  with stream_loop_only_chain[of fp off ss fat False "(sz + (ss - 1)) div ss" sect "[]" d]
  show "\<exists>xs. ?P xs" by (auto simp: chain_data_def)
next
  assume "\<exists>xs. ?P xs"
  then obtain xs where P: "?P xs" by blast
  then have "length xs \<le> length fat" using fat_chain_length by blast
  moreover have "sz = 0 \<Longrightarrow> sect = ENDOFCHAIN"
    using P assms by (cases xs) auto
  moreover have "stream_loop fp off ss fat False ((sz + (ss - 1)) div ss) sect []
      = Inr (ENDOFCHAIN, [] @ map (sector_at off ss fp) xs)"
    using P by (intro stream_loop_chain) auto
  ultimately show ?lhs
    using P assms by (auto simp: ole_stream_def Let_def chain_data_def)
qed

text \<open>
  Unknown size: the bound of one step per table entry is enough for every chain, because a
  chain never visits a sector twice.
\<close>

lemma div_ceil_mult: "0 < (s::nat) \<Longrightarrow> (n * s + s - Suc 0) div s = n"
  by (rule div_nat_eqI) (simp_all add: mult.commute)

lemma ole_stream_unknown:
  assumes "0 < ss"
  shows "ole_stream fp sect UNKNOWN_SIZE off ss fat = Inr st \<longleftrightarrow>
    (\<exists>xs. fat_chain fat sect xs \<and> (\<forall>x\<in>set xs. readable fp off ss fat x)
       \<and> st = \<lparr>contents = chain_data fp off ss xs, strm_size = length (chain_data fp off ss xs)\<rparr>)"
    (is "?lhs \<longleftrightarrow> (\<exists>xs. ?P xs)")
proof
  assume ?lhs
  then obtain d where loop: "stream_loop fp off ss fat True (length fat) sect []
      = Inr (ENDOFCHAIN, d)"
    and st: "if length fat * ss \<le> length (concat d)
             then st = \<lparr>contents = take (length fat * ss) (concat d), strm_size = length fat * ss\<rparr>
             else st = \<lparr>contents = concat d, strm_size = length (concat d)\<rparr>"
    using assms by (auto simp: ole_stream_def Let_def outcome div_ceil_mult split: if_splits)
  from stream_loop_only_chain[OF loop] obtain xs where xs: "fat_chain fat sect xs"
    "\<forall>x\<in>set xs. readable fp off ss fat x" "length xs \<le> length fat"
    "d = map (sector_at off ss fp) xs" by auto
  have "length (concat d) \<le> length fat * ss"
    using order.trans[OF length_chain_data_le mult_le_mono1[OF xs(3)], of fp off ss] xs(4)
    by (simp add: chain_data_def)
  with st have "st = \<lparr>contents = concat d, strm_size = length (concat d)\<rparr>"
    by (auto split: if_splits)
  with xs show "\<exists>xs. ?P xs" by (auto simp: chain_data_def)
next
  assume "\<exists>xs. ?P xs"
  then obtain xs where P: "?P xs" by blast
  then have len: "length xs \<le> length fat" using fat_chain_length by blast
  have loop: "stream_loop fp off ss fat True (length fat) sect []
      = Inr (ENDOFCHAIN, [] @ map (sector_at off ss fp) xs)"
    using P len by (intro stream_loop_chain) auto
  have le: "length (chain_data fp off ss xs) \<le> length fat * ss"
    by (rule order.trans[OF length_chain_data_le mult_le_mono1[OF len]])
  have "length fat * ss = 0 \<Longrightarrow> sect = ENDOFCHAIN"
    using P len assms by (cases xs) auto
  with P loop le assms show ?lhs
    by (auto simp: ole_stream_def Let_def chain_data_def div_ceil_mult)
qed

end
