(* ===== verification/OleState.thy ===== *)
theory OleState
  imports OleStream
begin

text \<open>
  The \<open>OleFileIO\<close> object of olefile.py: its attributes as a record, the defect policy
  (\<open>_raise_defect\<close>), the duplicate-stream check, sector access and the loading of the FAT
  with its DIFAT. Methods are state-passing functions of the record; the facts show the frame
  of each (what it leaves unchanged), that the lists of stream starts never hold a duplicate,
  and that the FAT loaded is the concatenation of the sectors the header lists.
\<close>

section \<open>The object\<close>

record dirent =
  de_sid :: nat
  de_name :: bytes
  de_entry_type :: nat
  de_color :: nat
  de_sid_left :: nat
  de_sid_right :: nat
  de_sid_child :: nat
  de_clsid :: string
  de_dwUserFlags :: nat
  de_createTime :: nat
  de_modifyTime :: nat
  de_isectStart :: nat
  de_size :: nat
  de_kids :: "nat list"
  de_kids_dict :: "bytes list"
  de_used :: bool

record ole =
  raise_defects_level :: defect
  parsing_issues :: "pyexc list"
  ole_fp :: bytes
  ole_writable :: bool
  used_streams_fat :: "nat list"
  used_streams_minifat :: "nat list"
  sectorsize :: nat
  minisectorsize :: nat
  minisectorcutoff :: nat
  nb_sect :: int
  csectFat :: nat
  csectMiniFat :: nat
  sectDifStart :: nat
  csectDif :: nat
  minifatsect :: nat
  ole_fat :: "nat list"
  ole_minifat :: "nat list"
  ministream :: "ole_strm option option"
  directory_fp :: ole_strm
  direntries :: "dirent option list"

text \<open>
  \<open>ministream\<close> is \<open>None\<close> while the attribute does not exist yet, then \<open>Some None\<close>.
  \<open>de_kids\<close> holds references, as indexes into \<open>direntries\<close>; \<open>de_kids_dict\<close> holds the keys
  of the dictionary, which is only tested for membership.
\<close>

section \<open>Defects\<close>

definition raise_defect :: "defect \<Rightarrow> pyexc \<Rightarrow> (ole, unit) act" where
  "raise_defect lvl e s =
     (if raise_defects_level s \<le> lvl then (Inl e, s)
      else (Inr (), s\<lparr>parsing_issues := parsing_issues s @ [e]\<rparr>))"

lemma raise_defect_FATAL [simp]: "raise_defect DEFECT_FATAL e s = (Inl e, s)"
  by (simp add: raise_defect_def)

lemma bindE_raise_FATAL [simp]: "bindE (raise_defect DEFECT_FATAL e) f s = (Inl e, s)"
  by (simp add: bindE_def)

text \<open>
  The policy as an interface: recording a defect never changes anything but the list of
  issues, so any property of the other attributes is kept.
\<close>

definition issue_blind :: "(ole \<Rightarrow> bool) \<Rightarrow> bool" where
  "issue_blind P \<longleftrightarrow> (\<forall>s is. P s \<longrightarrow> P (s\<lparr>parsing_issues := is\<rparr>))"

lemma keeps_raise_defect [keeps_rule]: "issue_blind P \<Longrightarrow> keeps P (raise_defect lvl e)"
  by (simp add: keeps_def raise_defect_def issue_blind_def)

definition check_duplicate_stream :: "nat \<Rightarrow> bool \<Rightarrow> (ole, unit) act" where
  "check_duplicate_stream first_sect minifat = withE (\<lambda>s.
     if minifat then
       (if first_sect \<in> set (used_streams_minifat s)
        then raise_defect DEFECT_INCORRECT (IOError ''Stream referenced twice'')
        else modE (\<lambda>s. s\<lparr>used_streams_minifat := used_streams_minifat s @ [first_sect]\<rparr>))
     else if first_sect \<in> {DIFSECT, FATSECT, ENDOFCHAIN, FREESECT} then retE ()
     else if first_sect \<in> set (used_streams_fat s)
       then raise_defect DEFECT_INCORRECT (IOError ''Stream referenced twice'')
       else modE (\<lambda>s. s\<lparr>used_streams_fat := used_streams_fat s @ [first_sect]\<rparr>))"

definition starts_distinct :: "ole \<Rightarrow> bool" where
  "starts_distinct s \<longleftrightarrow> distinct (used_streams_fat s) \<and> distinct (used_streams_minifat s)"

lemma issue_blind_starts [simp]: "issue_blind starts_distinct"
  by (simp add: issue_blind_def starts_distinct_def)

lemma keeps_check_duplicate [keeps_rule]: "keeps starts_distinct (check_duplicate_stream sect mf)"
  by (auto simp: keeps_def check_duplicate_stream_def raise_defect_def starts_distinct_def)

section \<open>Sectors\<close>

definition getsect :: "nat \<Rightarrow> (ole, bytes) act" where
  "getsect sect = withE (\<lambda>s.
     bindE (whenE (SEEK_LIMIT \<le> sectorsize s * (sect + 1))
              (raise_defect DEFECT_FATAL (IOError ''OLE sector index out of range''))) (\<lambda>_.
     let sector = fp_read (ole_fp s) (sectorsize s * (sect + 1)) (sectorsize s) in
     bindE (whenE (length sector \<noteq> sectorsize s)
              (raise_defect DEFECT_FATAL (IOError ''incomplete OLE sector''))) (\<lambda>_.
     retE sector)))"

text \<open>A 32-bit array from raw bytes; \<open>array.array\<close> refuses a length that is no multiple of 4.\<close>

fun le_words :: "bytes \<Rightarrow> nat list" where
  "le_words (a # b # c # d # r) = le_nat [a, b, c, d] # le_words r"
| "le_words _ = []"

definition sect2array :: "bytes \<Rightarrow> pyexc + nat list" where
  "sect2array sect =
     (if length sect mod 4 = 0 then Inr (le_words sect)
      else Inl (ValueError ''string length not a multiple of item size''))"

lemma getsect_cases:
  "getsect i s =
     (if SEEK_LIMIT \<le> sectorsize s * (i + 1) then (Inl (IOError ''OLE sector index out of range''), s)
      else if length (sector_at (sectorsize s) (sectorsize s) (ole_fp s) i) \<noteq> sectorsize s
      then (Inl (IOError ''incomplete OLE sector''), s)
      else (Inr (sector_at (sectorsize s) (sectorsize s) (ole_fp s) i), s))"
proof -
  have "sectorsize s + sectorsize s * i = sectorsize s * (i + 1)" by simp
  then show ?thesis
    by (simp only: getsect_def sector_at_def) (auto simp: Let_def whenE_def)
qed

lemma getsect_state [simp]: "snd (getsect i s) = s"
  by (simp add: getsect_cases)

lemma getsect_Inr: "getsect i s = (Inr b, t) \<Longrightarrow>
    t = s \<and> b = sector_at (sectorsize s) (sectorsize s) (ole_fp s) i \<and> length b = sectorsize s"
  by (auto simp: getsect_cases split: if_splits)

lemma keeps_getsect [keeps_rule]: "keeps P (getsect i)"
  by (simp add: keeps_def)

lemma length_le_words: "length xs mod 4 = 0 \<Longrightarrow> length (le_words xs) = length xs div 4"
  by (induction xs rule: le_words.induct) auto

lemma le_words_bound: "w \<in> set (le_words xs) \<Longrightarrow> w < 2 ^ 32"
proof (induction xs rule: le_words.induct)
  case (1 a b c d r)
  have "le_nat [a, b, c, d] < 256 ^ length [a, b, c, d]" by (rule le_nat_bound)
  with 1 show ?case by auto
qed auto

lemma le_words_le_bytes: "v < 2 ^ 32 \<Longrightarrow> le_words (le_bytes 4 v @ r) = v # le_words r"
proof -
  assume v: "v < 2 ^ 32"
  have four: "(4::nat) = Suc (Suc (Suc (Suc 0)))" by simp
  have "le_nat (le_bytes 4 v) = v" using v by (intro le_nat_le_bytes) simp
  then show ?thesis unfolding four by (simp only: le_bytes.simps append.simps le_words.simps)
qed

lemma le_words_concat_le_bytes:
  "(\<And>v. v \<in> set vs \<Longrightarrow> v < 2 ^ 32) \<Longrightarrow> le_words (concat (map (le_bytes 4) vs)) = vs"
  by (induction vs) (auto simp: le_words_le_bytes)

section \<open>The FAT\<close>

fun loadfat_loop :: "nat list \<Rightarrow> nat option \<Rightarrow> (ole, nat) act" where
  \<comment> \<open>the loop of \<open>loadfat_sect\<close>; the second argument is \<open>isect\<close>, unbound at first\<close>
  "loadfat_loop [] last_isect =
     (case last_isect of None \<Rightarrow> raiseE (UnboundLocalError ''isect'') | Some i \<Rightarrow> retE i)"
| "loadfat_loop (x # xs) last_isect =
     (let isect = x mod 2 ^ 32 in
      if isect = ENDOFCHAIN \<or> isect = FREESECT then retE isect
      else bindE (getsect isect) (\<lambda>s.
           bindE (liftE (sect2array s)) (\<lambda>nextfat.
           bindE (modE (\<lambda>ol. ol\<lparr>ole_fat := ole_fat ol @ nextfat\<rparr>)) (\<lambda>_.
           loadfat_loop xs (Some isect)))))"

definition loadfat_sect :: "bytes \<Rightarrow> (ole, nat) act" where
  "loadfat_sect sect = bindE (liftE (sect2array sect)) (\<lambda>fat1. loadfat_loop fat1 None)"

fun difat_loop :: "nat \<Rightarrow> nat \<Rightarrow> int \<Rightarrow> (ole, nat) act" where
  \<comment> \<open>the DIFAT loop of \<open>loadfat\<close>: blocks left, current sector, pointers per sector\<close>
  "difat_loop 0 isect_difat nds = retE isect_difat"
| "difat_loop (Suc n) isect_difat nds =
     bindE (getsect isect_difat) (\<lambda>sector_difat.
     bindE (liftE (sect2array sector_difat)) (\<lambda>difat.
     bindE (loadfat_loop (py_take nds difat) None) (\<lambda>_.
     bindE (liftE (py_index difat nds)) (\<lambda>isect'.
     difat_loop n isect' nds))))"

definition load_difat :: "(ole, unit) act" where
  "load_difat = withE (\<lambda>s.
     bindE (whenE (csectFat s \<le> 109)
       (raise_defect DEFECT_INCORRECT (IOError ''incorrect DIFAT, not enough sectors''))) (\<lambda>_.
     bindE (whenE (nb_sect s \<le> int (sectDifStart s))
       (raise_defect DEFECT_FATAL (IOError ''incorrect DIFAT, first index out of range''))) (\<lambda>_.
     let nb_difat_sectors = int (sectorsize s div 4) - 1 in
     if nb_difat_sectors = 0 then
       raiseE (ZeroDivisionError ''integer division or modulo by zero'')
     else
       let nb_difat = (int (csectFat s) - 109 + nb_difat_sectors - 1) div nb_difat_sectors in
       if int (csectDif s) \<noteq> nb_difat then raiseE (IOError ''incorrect DIFAT'')
       else bindE (difat_loop (nat nb_difat) (sectDifStart s) nb_difat_sectors) (\<lambda>isect_difat.
         if isect_difat \<in> {ENDOFCHAIN, FREESECT} then retE ()
         else raiseE (IOError ''incorrect end of DIFAT'')))))"

definition loadfat :: "bytes \<Rightarrow> (ole, unit) act" where
  "loadfat header =
     bindE (modE (\<lambda>s. s\<lparr>ole_fat := []\<rparr>)) (\<lambda>_.
     bindE (loadfat_sect (slice 76 512 header)) (\<lambda>_.
     bindE (withE (\<lambda>s. whenE (csectDif s \<noteq> 0) load_difat)) (\<lambda>_.
     modE (\<lambda>s. if nb_sect s < int (length (ole_fat s))
                then s\<lparr>ole_fat := py_take (nb_sect s) (ole_fat s)\<rparr> else s))))"

text \<open>What each FAT method can change: only the table itself and the list of issues.\<close>

definition fat_frame :: "ole \<Rightarrow> ole \<Rightarrow> bool" where
  "fat_frame s t \<longleftrightarrow> (\<exists>f is. t = s\<lparr>ole_fat := f, parsing_issues := is\<rparr>)"

lemma fat_frame_refl [simp]: "fat_frame s s"
proof -
  have "s = s\<lparr>ole_fat := ole_fat s, parsing_issues := parsing_issues s\<rparr>" by simp
  then show ?thesis unfolding fat_frame_def by blast
qed

lemma fat_frame_fields:
  assumes "fat_frame s t"
  shows "raise_defects_level t = raise_defects_level s" "ole_fp t = ole_fp s"
    "sectorsize t = sectorsize s" "minisectorsize t = minisectorsize s"
    "minisectorcutoff t = minisectorcutoff s" "direntries t = direntries s"
    "used_streams_fat t = used_streams_fat s" "used_streams_minifat t = used_streams_minifat s"
  using assms by (auto simp: fat_frame_def)

text \<open>
  \<open>keeps\<close> with the frame predicate of a fixed starting object carries the frame through every
  method, on the exceptional exits too.
\<close>

lemma keeps_frameI: "keeps (fat_frame s) m \<Longrightarrow> fat_frame s (snd (m s))"
  by (simp add: keepsD)

lemma fat_frame_upd:
  assumes "fat_frame s t"
  shows "fat_frame s (t\<lparr>ole_fat := f\<rparr>)" and "fat_frame s (t\<lparr>parsing_issues := js\<rparr>)"
proof -
  obtain g "is" where t: "t = s\<lparr>ole_fat := g, parsing_issues := is\<rparr>"
    using assms unfolding fat_frame_def by blast
  have "t\<lparr>ole_fat := f\<rparr> = s\<lparr>ole_fat := f, parsing_issues := is\<rparr>"
    and "t\<lparr>parsing_issues := js\<rparr> = s\<lparr>ole_fat := g, parsing_issues := js\<rparr>" by (simp_all add: t)
  then show "fat_frame s (t\<lparr>ole_fat := f\<rparr>)" and "fat_frame s (t\<lparr>parsing_issues := js\<rparr>)"
    unfolding fat_frame_def by blast+
qed

lemma issue_blind_frame [simp]: "issue_blind (fat_frame s)"
  by (simp add: issue_blind_def fat_frame_upd)

lemma keeps_modfat [keeps_rule]: "keeps (fat_frame s) (modE (\<lambda>ol. ol\<lparr>ole_fat := f ol\<rparr>))"
  by (simp add: keeps_def fat_frame_upd)

lemma keeps_loadfat_loop [keeps_rule]: "keeps (fat_frame s) (loadfat_loop xs l)"
  by (induction xs arbitrary: l)
     (auto simp: Let_def split: option.split intro!: keeps_rule)

lemma keeps_difat_loop [keeps_rule]: "keeps (fat_frame s) (difat_loop n i nds)"
  by (induction n arbitrary: i) (auto intro!: keeps_rule)

lemma keeps_load_difat [keeps_rule]: "keeps (fat_frame s) load_difat"
  by (auto simp: load_difat_def Let_def intro!: keeps_rule)

lemma keeps_loadfat: "keeps (fat_frame s) (loadfat h)"
  unfolding loadfat_def loadfat_sect_def
proof (intro keeps_rule)
  show "keeps (fat_frame s) (modE (\<lambda>s. if nb_sect s < int (length (ole_fat s))
      then s\<lparr>ole_fat := py_take (nb_sect s) (ole_fat s)\<rparr> else s))"
    by (simp add: keeps_def fat_frame_upd)
qed

text \<open>The table that a list of FAT sectors describes, and the loop that collects it.\<close>

definition sect_ok :: "ole \<Rightarrow> nat \<Rightarrow> bool" where
  "sect_ok s i \<longleftrightarrow> sectorsize s * (i + 1) < SEEK_LIMIT \<and> sectorsize s * (i + 2) \<le> length (ole_fp s)"

definition fat_of :: "ole \<Rightarrow> nat list \<Rightarrow> nat list" where
  "fat_of s is = concat (map (\<lambda>i. le_words (sector_at (sectorsize s) (sectorsize s) (ole_fp s) i)) is)"

definition listed :: "nat list \<Rightarrow> nat list" where
  \<comment> \<open>the sector numbers before the first end or free marker\<close>
  "listed ws = takeWhile (\<lambda>w. w \<noteq> ENDOFCHAIN \<and> w \<noteq> FREESECT) ws"

lemma getsect_sect_ok:
  assumes "sect_ok s i"
  shows "getsect i s = (Inr (sector_at (sectorsize s) (sectorsize s) (ole_fp s) i), s)"
    and "length (sector_at (sectorsize s) (sectorsize s) (ole_fp s) i) = sectorsize s"
proof -
  have "sectorsize s + (sectorsize s + sectorsize s * i) \<le> length (ole_fp s)"
    using assms by (simp add: sect_ok_def)
  then show len: "length (sector_at (sectorsize s) (sectorsize s) (ole_fp s) i) = sectorsize s"
    by (simp add: sector_at_def fp_read_def)
  show "getsect i s = (Inr (sector_at (sectorsize s) (sectorsize s) (ole_fp s) i), s)"
    using assms len by (simp add: getsect_cases sect_ok_def)
qed

lemma loadfat_loop_listed:
  assumes "\<forall>w\<in>set ws. w < 2 ^ 32" and "\<forall>i\<in>set (listed ws). sect_ok s i"
    and "sectorsize s mod 4 = 0" and "ws \<noteq> [] \<or> l \<noteq> None"
  shows "\<exists>i. loadfat_loop ws l s = (Inr i, s\<lparr>ole_fat := ole_fat s @ fat_of s (listed ws)\<rparr>)"
  using assms
proof (induction ws arbitrary: l s)
  case Nil
  then show ?case by (auto simp: listed_def fat_of_def)
next
  case (Cons w ws)
  show ?case
  proof (cases "w = ENDOFCHAIN \<or> w = FREESECT")
    case True
    moreover have "w mod 2 ^ 32 = w" using Cons.prems(1) by simp
    ultimately have "loadfat_loop (w # ws) l s = (Inr w, s)"
      by (simp only: loadfat_loop.simps Let_def if_True act_simps)
    moreover have "listed (w # ws) = []" using True by (auto simp: listed_def)
    ultimately show ?thesis by (simp add: fat_of_def)
  next
    case False
    let ?b = "sector_at (sectorsize s) (sectorsize s) (ole_fp s) w"
    let ?t = "s\<lparr>ole_fat := ole_fat s @ le_words ?b\<rparr>"
    from False have listed: "listed (w # ws) = w # listed ws" by (simp add: listed_def)
    with Cons.prems have w: "sect_ok s w" by simp
    have arr: "sect2array ?b = Inr (le_words ?b)"
      using getsect_sect_ok(2)[OF w] Cons.prems by (simp add: sect2array_def)
    have "\<exists>i. loadfat_loop ws (Some w) ?t
        = (Inr i, ?t\<lparr>ole_fat := ole_fat ?t @ fat_of ?t (listed ws)\<rparr>)"
      using Cons.prems listed by (intro Cons.IH) (auto simp: sect_ok_def)
    then obtain i where i: "loadfat_loop ws (Some w) ?t
        = (Inr i, ?t\<lparr>ole_fat := ole_fat ?t @ fat_of ?t (listed ws)\<rparr>)" ..
    have "?t\<lparr>ole_fat := ole_fat ?t @ fat_of ?t (listed ws)\<rparr>
        = s\<lparr>ole_fat := ole_fat s @ fat_of s (listed (w # ws))\<rparr>"
      by (simp add: fat_of_def listed)
    moreover have "loadfat_loop (w # ws) l s = loadfat_loop ws (Some w) ?t"
      using False Cons.prems by (simp add: Let_def bindE_Inr[where m = "getsect w", OF getsect_sect_ok(1)[OF w]] arr)
    ultimately show ?thesis using i by metis
  qed
qed

lemma loadfat_no_difat:
  assumes "length header = 512" and "csectDif s = 0" and "0 \<le> nb_sect s"
    and "sectorsize s mod 4 = 0"
    and "\<forall>i\<in>set (listed (le_words (slice 76 512 header))). sect_ok s i"
  shows "loadfat header s = (Inr (), s\<lparr>ole_fat :=
    take (nat (nb_sect s)) (fat_of s (listed (le_words (slice 76 512 header))))\<rparr>)"
proof -
  let ?h = "slice 76 512 header" let ?ws = "le_words ?h" let ?s = "s\<lparr>ole_fat := []\<rparr>"
  have len: "length ?h = 436" using assms(1) by simp
  then have "length ?ws = 109" by (simp add: length_le_words)
  then have ne: "?ws \<noteq> []" by auto
  have "\<exists>i. loadfat_loop ?ws None ?s
      = (Inr i, ?s\<lparr>ole_fat := ole_fat ?s @ fat_of ?s (listed ?ws)\<rparr>)"
    using assms ne by (intro loadfat_loop_listed) (auto simp: sect_ok_def dest!: le_words_bound)
  then obtain i where i: "loadfat_loop ?ws None ?s
      = (Inr i, ?s\<lparr>ole_fat := ole_fat ?s @ fat_of ?s (listed ?ws)\<rparr>)" ..
  have "sect2array ?h = Inr ?ws" using len by (simp add: sect2array_def)
  with i have "loadfat_sect ?h ?s = (Inr i, s\<lparr>ole_fat := fat_of s (listed ?ws)\<rparr>)"
    by (simp add: loadfat_sect_def fat_of_def)
  then have "loadfat header s = (Inr (), (\<lambda>s. if nb_sect s < int (length (ole_fat s))
      then s\<lparr>ole_fat := py_take (nb_sect s) (ole_fat s)\<rparr> else s) (s\<lparr>ole_fat := fat_of s (listed ?ws)\<rparr>))"
    using assms(2) by (simp add: loadfat_def bindE_Inr)
  with assms(3) show ?thesis by (auto simp: py_take_def)
qed

end
