(* ===== verification/OleDir.thy ===== *)
theory OleDir
  imports OleState
begin

text \<open>
  Streams and the directory of olefile.py: \<open>_open\<close> with the MiniFAT and the ministream, the
  parser of a 128-byte directory entry, \<open>_load_direntry\<close>, and the two mutually recursive
  methods that rebuild the storage tree. Entries live in \<open>direntries\<close> and refer to each other
  by index, as the Python objects do by reference. The recursion of the tree walk is cut by the
  interpreter's recursion limit: the \<open>fuel\<close> argument is the number of nested calls of
  \<open>append_kids\<close> and \<open>build_storage_tree\<close> left, and running out raises RuntimeError. In the
  strict mode a fuel of twice the number of entries is proved to be enough; in the default mode
  no fuel is enough for a cyclic directory.
\<close>

section \<open>Opening streams\<close>

definition root_entry :: "ole \<Rightarrow> pyexc + dirent" where
  "root_entry s = (case direntries s of Some d # _ \<Rightarrow> Inr d | _ \<Rightarrow> Inl (AttributeError ''root''))"

definition open_fat :: "nat \<Rightarrow> nat \<Rightarrow> (ole, ole_strm) act" where
  \<comment> \<open>the \<open>else\<close> branch of \<open>_open\<close>: a standard stream\<close>
  "open_fat start sz = withE (\<lambda>s. liftE
     (ole_stream (ole_fp s) start sz (sectorsize s) (sectorsize s) (ole_fat s)))"

definition loadminifat :: "(ole, unit) act" where
  "loadminifat = withE (\<lambda>s. bindE (liftE (root_entry s)) (\<lambda>root.
     let stream_size = csectMiniFat s * sectorsize s;
         nb_minisectors = (de_size root + (minisectorsize s - 1)) div minisectorsize s;
         used_size = nb_minisectors * 4
     in
     bindE (whenE (stream_size < used_size)
       (raise_defect DEFECT_INCORRECT (IOError ''OLE MiniStream is larger than MiniFAT''))) (\<lambda>_.
     bindE (open_fat (minifatsect s) stream_size) (\<lambda>st.
     bindE (liftE (sect2array (contents st))) (\<lambda>minifat.
     modE (\<lambda>s. s\<lparr>ole_minifat := take nb_minisectors minifat\<rparr>))))))"

definition load_ministream :: "(ole, unit) act" where
  \<comment> \<open>the body of \<open>if not self.ministream\<close> in \<open>_open\<close>\<close>
  "load_ministream =
     bindE loadminifat (\<lambda>_.
     withE (\<lambda>s. bindE (liftE (root_entry s)) (\<lambda>root.
     bindE (open_fat (de_isectStart root) (de_size root)) (\<lambda>ms.
     modE (\<lambda>s. s\<lparr>ministream := Some (Some ms)\<rparr>)))))"

definition ole_open :: "nat \<Rightarrow> nat \<Rightarrow> bool \<Rightarrow> (ole, ole_strm) act" where
  \<comment> \<open>\<open>_open\<close>\<close>
  "ole_open start sz force_FAT = withE (\<lambda>s.
     if sz < minisectorcutoff s \<and> \<not> force_FAT then
       bindE (case ministream s of
           None \<Rightarrow> raiseE (AttributeError ''ministream'')
         | Some None \<Rightarrow> load_ministream
         | Some (Some ms) \<Rightarrow> retE ()) (\<lambda>_.
       withE (\<lambda>s. case ministream s of
           Some (Some ms) \<Rightarrow>
             liftE (ole_stream (contents ms) start sz 0 (minisectorsize s) (ole_minifat s))
         | _ \<Rightarrow> raiseE (AttributeError ''ministream'')))
     else open_fat start sz)"

section \<open>Directory entries\<close>

definition DIRENTRY_SIZE :: nat where "DIRENTRY_SIZE = 128"

definition entry_name :: "bytes \<Rightarrow> bytes" where
  \<comment> \<open>the stored name without its terminator, decoded; a length over 64 is cut to 64\<close>
  "entry_name entry =
     (let namelength = unpack_field 64 2 entry;
          namelength' = (if 64 < namelength then 64 else namelength)
      in decode_utf16_str (py_take (int namelength' - 2) (slice 0 64 entry)))"

definition entry_size :: "nat \<Rightarrow> bytes \<Rightarrow> nat" where
  "entry_size ss entry =
     (if ss = 512 then unpack_field 120 4 entry
      else unpack_field 120 4 entry + push_bit 32 (unpack_field 124 4 entry))"

definition new_dirent :: "bytes \<Rightarrow> nat \<Rightarrow> (ole, dirent) act" where
  \<comment> \<open>\<open>_OleDirectoryEntry.__init__\<close>\<close>
  "new_dirent entry sid = withE (\<lambda>s.
     if length entry \<noteq> DIRENTRY_SIZE then
       raiseE (StructError ''unpack requires a string argument of length 128'')
     else
     let namelength = unpack_field 64 2 entry; entry_type = unpack_field 66 1 entry;
         isectStart = unpack_field 116 4 entry; sizeHigh = unpack_field 124 4 entry;
         sz = entry_size (sectorsize s) entry in
     bindE (whenE (entry_type \<notin> {STGTY_ROOT, STGTY_STORAGE, STGTY_STREAM, STGTY_EMPTY})
       (raise_defect DEFECT_INCORRECT (IOError ''unhandled OLE storage type''))) (\<lambda>_.
     bindE (whenE (entry_type = STGTY_ROOT \<and> sid \<noteq> 0)
       (raise_defect DEFECT_INCORRECT (IOError ''duplicate OLE root entry''))) (\<lambda>_.
     bindE (whenE (sid = 0 \<and> entry_type \<noteq> STGTY_ROOT)
       (raise_defect DEFECT_INCORRECT (IOError ''incorrect OLE root entry''))) (\<lambda>_.
     bindE (whenE (64 < namelength)
       (raise_defect DEFECT_INCORRECT (IOError ''incorrect DirEntry name length''))) (\<lambda>_.
     bindE (whenE (sectorsize s = 512 \<and> sizeHigh \<noteq> 0 \<and> sizeHigh \<noteq> 0xFFFFFFFF)
       (raise_defect DEFECT_UNSURE (IOError ''incorrect OLE stream size''))) (\<lambda>_.
     bindE (liftE (clsid_fmt (slice 80 96 entry))) (\<lambda>clsid.
     bindE (whenE (entry_type = STGTY_STORAGE \<and> sz \<noteq> 0)
       (raise_defect DEFECT_POTENTIAL (IOError ''OLE storage with size>0''))) (\<lambda>_.
     bindE (whenE (entry_type \<in> {STGTY_ROOT, STGTY_STREAM} \<and> 0 < sz)
       (check_duplicate_stream isectStart
          (sz < minisectorcutoff s \<and> entry_type = STGTY_STREAM))) (\<lambda>_.
     retE \<lparr>de_sid = sid, de_name = entry_name entry, de_entry_type = entry_type,
       de_color = unpack_field 67 1 entry, de_sid_left = unpack_field 68 4 entry,
       de_sid_right = unpack_field 72 4 entry, de_sid_child = unpack_field 76 4 entry,
       de_clsid = clsid, de_dwUserFlags = unpack_field 96 4 entry,
       de_createTime = unpack_field 100 8 entry, de_modifyTime = unpack_field 108 8 entry,
       de_isectStart = isectStart, de_size = sz,
       de_kids = [], de_kids_dict = [], de_used = False\<rparr>)))))))))"

definition load_direntry :: "nat \<Rightarrow> (ole, dirent) act" where
  \<comment> \<open>\<open>_load_direntry\<close>\<close>
  "load_direntry sid = withE (\<lambda>s.
     if length (direntries s) \<le> sid then
       bindE (raise_defect DEFECT_FATAL (IOError ''OLE directory index out of range''))
         (\<lambda>_. raiseE (IndexError ''list index out of range''))
     else case direntries s ! sid of
       Some d \<Rightarrow>
         bindE (raise_defect DEFECT_INCORRECT (IOError ''double reference for OLE stream/storage''))
           (\<lambda>_. retE d)
     | None \<Rightarrow>
         bindE (new_dirent (fp_read (contents (directory_fp s)) (sid * 128) 128) sid) (\<lambda>d.
         bindE (modE (\<lambda>s. s\<lparr>direntries := (direntries s)[sid := Some d]\<rparr>)) (\<lambda>_.
         retE d)))"

section \<open>The storage tree\<close>

definition entry_of :: "ole \<Rightarrow> nat \<Rightarrow> dirent option" where
  "entry_of s sid = (if sid < length (direntries s) then direntries s ! sid else None)"

definition get_entry :: "nat \<Rightarrow> (ole, dirent) act" where
  "get_entry sid s = (case entry_of s sid of
     Some d \<Rightarrow> (Inr d, s) | None \<Rightarrow> (Inl (AttributeError ''NoneType''), s))"

definition upd_entry :: "nat \<Rightarrow> (dirent \<Rightarrow> dirent) \<Rightarrow> ole \<Rightarrow> ole" where
  \<comment> \<open>an assignment through the reference \<open>direntries[sid]\<close>\<close>
  "upd_entry sid f s = s\<lparr>direntries := (direntries s)[sid := map_option f (direntries s ! sid)]\<rparr>"

definition name_of :: "ole \<Rightarrow> nat \<Rightarrow> bytes" where
  "name_of s sid = (case entry_of s sid of Some d \<Rightarrow> de_name d | None \<Rightarrow> [])"

definition sort_kids :: "nat \<Rightarrow> (ole, unit) act" where
  \<comment> \<open>\<open>self.kids.sort()\<close>: a stable sort by \<open>__lt__\<close>, that is by name\<close>
  "sort_kids sid = modE (\<lambda>s. upd_entry sid (\<lambda>d. d\<lparr>de_kids := sort_key (name_of s) (de_kids d)\<rparr>) s)"

text \<open>
  The step of \<open>append_kids\<close> between the walks of the two subtrees: the child becomes a kid of
  the parent and is marked as used.
\<close>

definition add_kid :: "nat \<Rightarrow> dirent \<Rightarrow> (ole, unit) act" where
  "add_kid parent child =
     (let name_lower = py_lower (de_name child) in
      bindE (get_entry parent) (\<lambda>p.
      bindE (whenE (name_lower \<in> set (de_kids_dict p))
        (raise_defect DEFECT_INCORRECT (IOError ''Duplicate filename in OLE storage''))) (\<lambda>_.
      bindE (modE (upd_entry parent (\<lambda>p. p\<lparr>de_kids := de_kids p @ [de_sid child],
               de_kids_dict := de_kids_dict p @ [name_lower]\<rparr>))) (\<lambda>_.
      bindE (get_entry (de_sid child)) (\<lambda>c.
      bindE (whenE (de_used c)
        (raise_defect DEFECT_INCORRECT (IOError ''OLE Entry referenced more than once''))) (\<lambda>_.
      modE (upd_entry (de_sid child) (\<lambda>c. c\<lparr>de_used := True\<rparr>))))))))"

fun append_kids :: "nat \<Rightarrow> nat \<Rightarrow> nat \<Rightarrow> (ole, unit) act"
and build_storage_tree :: "nat \<Rightarrow> nat \<Rightarrow> (ole, unit) act" where
  "append_kids 0 self child_sid = raiseE (RuntimeError ''maximum recursion depth exceeded'')"
| "append_kids (Suc fuel) self child_sid =
     (if child_sid = NOSTREAM then retE ()
      else
      bindE (withE (\<lambda>s. whenE (length (direntries s) \<le> child_sid)
        (raise_defect DEFECT_FATAL (IOError ''OLE DirEntry index out of range'')))) (\<lambda>_.
      bindE (load_direntry child_sid) (\<lambda>child.
      bindE (append_kids fuel self (de_sid_left child)) (\<lambda>_.
      bindE (add_kid self child) (\<lambda>_.
      bindE (append_kids fuel self (de_sid_right child)) (\<lambda>_.
      build_storage_tree fuel (de_sid child)))))))"
| "build_storage_tree 0 self = raiseE (RuntimeError ''maximum recursion depth exceeded'')"
| "build_storage_tree (Suc fuel) self =
     bindE (get_entry self) (\<lambda>d.
     if de_sid_child d \<noteq> NOSTREAM then
       bindE (append_kids fuel self (de_sid_child d)) (\<lambda>_. sort_kids self)
     else retE ())"

definition loaddirectory :: "nat \<Rightarrow> nat \<Rightarrow> (ole, unit) act" where
  "loaddirectory fuel sect =
     bindE (ole_open sect UNKNOWN_SIZE False) (\<lambda>st.
     bindE (modE (\<lambda>s. s\<lparr>directory_fp := st,
              direntries := replicate (strm_size st div 128) None\<rparr>)) (\<lambda>_.
     bindE (load_direntry 0) (\<lambda>root_entry.
     build_storage_tree fuel 0)))"

section \<open>Paths\<close>

datatype path = PStr bytes | PList "bytes list"

definition path_names :: "path \<Rightarrow> bytes list" where
  \<comment> \<open>a string is split on slashes\<close>
  "path_names p = (case p of PStr f \<Rightarrow> py_split (CHR ''/'') f | PList ns \<Rightarrow> ns)"

definition kids_of :: "ole \<Rightarrow> nat \<Rightarrow> nat list" where
  "kids_of s sid = (case entry_of s sid of Some d \<Rightarrow> de_kids d | None \<Rightarrow> [])"

fun find_walk :: "ole \<Rightarrow> nat \<Rightarrow> bytes list \<Rightarrow> pyexc + nat" where
  "find_walk s node [] = Inr node"
| "find_walk s node (n # ns) =
     (case find (\<lambda>k. py_lower (name_of s k) = py_lower n) (kids_of s node) of
        None \<Rightarrow> Inl (IOError ''file not found'')
      | Some kid \<Rightarrow> find_walk s kid ns)"

definition ole_find :: "ole \<Rightarrow> path \<Rightarrow> pyexc + nat" where
  \<comment> \<open>\<open>_find\<close>: the sid of the entry; the root is \<open>direntries[0]\<close>\<close>
  "ole_find s filename =
     sbind (root_entry s) (\<lambda>root. sbind (find_walk s 0 (path_names filename)) Inr)"

fun list_node :: "nat \<Rightarrow> bytes list list \<Rightarrow> bytes list \<Rightarrow> nat \<Rightarrow> bool \<Rightarrow> bool \<Rightarrow> (ole, bytes list list) act"
and list_kids :: "nat \<Rightarrow> bytes list list \<Rightarrow> bytes list \<Rightarrow> nat list \<Rightarrow> bool \<Rightarrow> bool \<Rightarrow> (ole, bytes list list) act"
where
  "list_node 0 files prefix node streams storages =
     raiseE (RuntimeError ''maximum recursion depth exceeded'')"
| "list_node (Suc fuel) files prefix node streams storages =
     bindE (get_entry node) (\<lambda>d.
     list_kids fuel files (prefix @ [de_name d]) (de_kids d) streams storages)"
| "list_kids fuel files prefix [] streams storages = retE files"
| "list_kids fuel files prefix (k # ks) streams storages =
     bindE (get_entry k) (\<lambda>entry.
     bindE (if de_entry_type entry = STGTY_STORAGE then
              list_node fuel
                (if storages then files @ [drop 1 prefix @ [de_name entry]] else files)
                prefix k streams storages
            else if de_entry_type entry = STGTY_STREAM then
              retE (if streams then files @ [drop 1 prefix @ [de_name entry]] else files)
            else
              bindE (raise_defect DEFECT_INCORRECT (IOError
                ''The directory tree contains an entry which is not a stream nor a storage.''))
                (\<lambda>_. retE files)) (\<lambda>files'.
     list_kids fuel files' prefix ks streams storages))"

definition listdir :: "nat \<Rightarrow> bool \<Rightarrow> bool \<Rightarrow> (ole, bytes list list) act" where
  "listdir fuel streams storages = list_node fuel [] [] 0 streams storages"

section \<open>Frames and measures of the directory methods\<close>

definition dir_is :: "defect \<Rightarrow> dirent option list \<Rightarrow> ole \<Rightarrow> bool" where
  "dir_is L D t \<longleftrightarrow> raise_defects_level t = L \<and> direntries t = D"

lemma issue_blind_dir_is [simp]: "issue_blind (dir_is L D)"
  by (simp add: issue_blind_def dir_is_def)

lemma keeps_check_duplicate_dir [keeps_rule]: "keeps (dir_is L D) (check_duplicate_stream i mf)"
  by (auto simp: keeps_def check_duplicate_stream_def raise_defect_def dir_is_def)

lemma keeps_new_dirent [keeps_rule]: "keeps (dir_is L D) (new_dirent e i)"
  unfolding new_dirent_def Let_def by (auto intro!: keeps_rule)

lemma keeps_new_dirent_starts [keeps_rule]: "keeps starts_distinct (new_dirent e i)"
  unfolding new_dirent_def Let_def by (auto intro!: keeps_rule)

lemma new_dirent_frame:
  assumes "new_dirent e i s = (r, t)"
  shows "direntries t = direntries s" and "raise_defects_level t = raise_defects_level s"
  using keepsD[OF keeps_new_dirent[of "raise_defects_level s" "direntries s" e i], of s] assms
  by (simp_all add: dir_is_def)

lemma whenE_Inr_iff: "whenE b m s = (Inr (), t) \<longleftrightarrow> (if b then m s = (Inr (), t) else t = s)"
  by auto

lemma new_dirent_Inr:
  assumes "new_dirent e i s = (Inr d, t)"
  shows "de_sid d = i" "de_kids d = []" "de_kids_dict d = []" "\<not> de_used d"
    "de_sid_left d = unpack_field 68 4 e" "de_sid_right d = unpack_field 72 4 e"
    "de_sid_child d = unpack_field 76 4 e" "de_name d = entry_name e"
    "de_entry_type d = unpack_field 66 1 e" "de_isectStart d = unpack_field 116 4 e"
    "length e = DIRENTRY_SIZE"
  using assms unfolding new_dirent_def Let_def
  by (auto simp: bindE_Inr_iff split: if_splits)

definition unloaded :: "ole \<Rightarrow> nat" where
  "unloaded s = length (filter (\<lambda>d. d = None) (direntries s))"

lemma length_filter_update:
  "i < length xs \<Longrightarrow> length (filter P (xs[i := y])) + (if P (xs ! i) then 1 else 0)
     = length (filter P xs) + (if P y then 1 else 0)"
proof (induction xs arbitrary: i)
  case Nil
  then show ?case by simp
next
  case (Cons x xs)
  show ?case
  proof (cases i)
    case 0
    then show ?thesis by simp
  next
    case (Suc j)
    with Cons.IH[of j] Cons.prems show ?thesis by (auto split: if_splits)
  qed
qed

lemma unloaded_upd_entry [simp]: "unloaded (upd_entry i f s) = unloaded s"
proof (cases "i < length (direntries s)")
  case True
  from length_filter_update[OF this, of "\<lambda>d. d = None" "map_option f (direntries s ! i)"]
  show ?thesis by (auto simp: unloaded_def upd_entry_def split: if_splits)
next
  case False
  then show ?thesis by (simp add: unloaded_def upd_entry_def list_update_beyond)
qed

lemma upd_entry_fields [simp]:
  "raise_defects_level (upd_entry i f s) = raise_defects_level s"
  "length (direntries (upd_entry i f s)) = length (direntries s)"
  by (simp_all add: upd_entry_def)

lemma entry_of_upd [simp]:
  "entry_of (upd_entry i f s) j = (if i = j then map_option f (entry_of s j) else entry_of s j)"
  by (auto simp: entry_of_def upd_entry_def)

lemma load_direntry_Inr:
  assumes "load_direntry i s = (Inr d, t)"
  shows "i < length (direntries s)"
    and "(entry_of s i = Some d \<and> \<not> raise_defects_level s \<le> DEFECT_INCORRECT
          \<and> (\<exists>is. t = s\<lparr>parsing_issues := is\<rparr>))
       \<or> (entry_of s i = None \<and> (\<exists>u. direntries u = direntries s \<and>
            raise_defects_level u = raise_defects_level s \<and>
            t = u\<lparr>direntries := (direntries s)[i := Some d]\<rparr> \<and>
            new_dirent (fp_read (contents (directory_fp s)) (i * 128) 128) i s = (Inr d, u)))"
proof -
  show len: "i < length (direntries s)"
    using assms by (auto simp: load_direntry_def split: if_splits)
  show "(entry_of s i = Some d \<and> \<not> raise_defects_level s \<le> DEFECT_INCORRECT
          \<and> (\<exists>is. t = s\<lparr>parsing_issues := is\<rparr>))
       \<or> (entry_of s i = None \<and> (\<exists>u. direntries u = direntries s \<and>
            raise_defects_level u = raise_defects_level s \<and>
            t = u\<lparr>direntries := (direntries s)[i := Some d]\<rparr> \<and>
            new_dirent (fp_read (contents (directory_fp s)) (i * 128) 128) i s = (Inr d, u)))"
  proof (cases "direntries s ! i")
    case None
    with assms len obtain u where
      u: "new_dirent (fp_read (contents (directory_fp s)) (i * 128) 128) i s = (Inr d, u)"
      and t: "t = u\<lparr>direntries := (direntries u)[i := Some d]\<rparr>"
      by (auto simp: load_direntry_def bindE_Inr_iff)
    with new_dirent_frame[OF u] None len show ?thesis by (auto simp: entry_of_def)
  next
    case (Some e)
    with assms len show ?thesis
      by (auto simp: load_direntry_def bindE_Inr_iff raise_defect_def entry_of_def split: if_splits)
  qed
qed

text \<open>
  Every method of the tree walk keeps the level, the number of slots and never forgets a
  loaded entry.
\<close>

definition shrinks :: "defect \<Rightarrow> nat \<Rightarrow> nat \<Rightarrow> ole \<Rightarrow> bool" where
  "shrinks L n N t \<longleftrightarrow>
     raise_defects_level t = L \<and> unloaded t \<le> n \<and> length (direntries t) = N"

lemma issue_blind_shrinks [simp]: "issue_blind (shrinks L n N)"
  by (simp add: issue_blind_def shrinks_def unloaded_def)

lemma keeps_shrinks_upd [keeps_rule]: "keeps (shrinks L n N) (modE (upd_entry i f))"
  by (simp add: keeps_def shrinks_def)

lemma keeps_get_entry [keeps_rule]: "keeps P (get_entry i)"
  by (simp add: keeps_def get_entry_def split: option.split)

lemma keeps_sort_kids [keeps_rule]: "keeps (shrinks L n N) (sort_kids i)"
  by (simp add: keeps_def shrinks_def sort_kids_def)

lemma keeps_load_direntry [keeps_rule]: "keeps (shrinks L n N) (load_direntry i)"
  unfolding keeps_def
proof (intro allI impI)
  fix s assume s: "shrinks L n N s"
  obtain r t where rt: "load_direntry i s = (r, t)" by fastforce
  show "shrinks L n N (snd (load_direntry i s))"
  proof (cases r)
    case (Inr d)
    have i: "i < length (direntries s)" using load_direntry_Inr(1) rt Inr by blast
    have "unloaded (t\<lparr>direntries := (direntries s)[i := Some d]\<rparr>) \<le> unloaded s"
      using length_filter_update[OF i, of "\<lambda>d. d = None" "Some d"]
      by (auto simp: unloaded_def split: if_splits)
    with load_direntry_Inr(2)[of i s d t] rt Inr s show ?thesis
      by (auto simp: shrinks_def unloaded_def)
  next
    case (Inl e)
    have "direntries t = direntries s \<and> raise_defects_level t = raise_defects_level s"
    proof (cases "length (direntries s) \<le> i")
      case True
      with rt show ?thesis by (simp add: load_direntry_def)
    next
      case False
      with rt Inl show ?thesis
        by (auto simp: load_direntry_def bindE_Inl_iff raise_defect_def dest: new_dirent_frame
            split: option.splits if_splits)
    qed
    with rt s show ?thesis by (simp add: shrinks_def unloaded_def)
  qed
qed

lemma keeps_add_kid [keeps_rule]: "keeps (shrinks L n N) (add_kid p c)"
  unfolding add_kid_def Let_def by (auto intro!: keeps_rule)

lemma keeps_tree:
  "keeps (shrinks L n N) (append_kids fuel p c)"
  "keeps (shrinks L n N) (build_storage_tree fuel p)"
proof (induction fuel p c and fuel p rule: append_kids_build_storage_tree.induct)
  case (2 fuel self child_sid)
  then show ?case by (auto intro!: keeps_rule)
next
  case (4 fuel self)
  then show ?case by (auto intro!: keeps_rule)
qed auto

section \<open>The recursion limit\<close>

definition is_rt :: "pyexc + 'a \<Rightarrow> bool" where
  "is_rt r \<longleftrightarrow> (case r of Inl (RuntimeError _) \<Rightarrow> True | _ \<Rightarrow> False)"

definition rt_free :: "('s, 'a) act \<Rightarrow> bool" where
  "rt_free m \<longleftrightarrow> (\<forall>s. \<not> is_rt (fst (m s)))"

named_theorems rt_rule "methods that never exceed the recursion limit"

lemma is_rt_simps [simp]:
  "\<not> is_rt (Inr x)" "is_rt (Inl (RuntimeError m))" "\<not> is_rt (Inl (IOError m))"
  "\<not> is_rt (Inl (StructError m))" "\<not> is_rt (Inl (AttributeError m))"
  "\<not> is_rt (Inl (IndexError m))" "\<not> is_rt (Inl (AssertionError m))"
  by (simp_all add: is_rt_def)

lemma rt_free_basic [rt_rule]:
  "rt_free (retE x)" "rt_free (getE g)" "rt_free (modE h)" "rt_free (Pair (Inr y))"
  "\<not> is_rt r \<Longrightarrow> rt_free (liftE r)" "\<not> is_rt (Inl e :: pyexc + unit) \<Longrightarrow> rt_free (raiseE e)"
  by (simp_all add: rt_free_def is_rt_def)

lemma bindE_rt_cases:
  assumes "is_rt (fst (bindE m f s))"
  obtains "is_rt (fst (m s))" | x t where "m s = (Inr x, t)" "is_rt (fst (f x t))"
  using assms by (cases "m s") (auto simp: bindE_def is_rt_def split: sum.splits)

lemma bindE_not_rt:
  "\<not> is_rt (fst (m s)) \<Longrightarrow> (\<And>x t. m s = (Inr x, t) \<Longrightarrow> \<not> is_rt (fst (f x t))) \<Longrightarrow>
     \<not> is_rt (fst (bindE m f s))"
  by (meson bindE_rt_cases)

lemma rt_free_bindE [rt_rule]: "rt_free m \<Longrightarrow> (\<And>x. rt_free (f x)) \<Longrightarrow> rt_free (bindE m f)"
  unfolding rt_free_def by (intro allI bindE_not_rt) auto

lemma rt_free_whenE [rt_rule]: "rt_free m \<Longrightarrow> rt_free (whenE b m)"
  by (cases b) (simp_all add: rt_free_def)

lemma rt_free_withE [rt_rule]: "(\<And>s. rt_free (f s)) \<Longrightarrow> rt_free (withE f)"
  by (simp add: rt_free_def)

lemma rt_free_raise_defect [rt_rule]: "rt_free (raise_defect lvl (IOError m))"
  by (simp add: rt_free_def raise_defect_def)

lemma rt_free_check_duplicate [rt_rule]: "rt_free (check_duplicate_stream i mf)"
  unfolding check_duplicate_stream_def by (auto intro!: rt_rule)

lemma clsid_not_rt [simp]: "\<not> is_rt (clsid_fmt c)"
  by (auto simp: clsid_fmt_def i32_le_nat i16_le_nat Let_def)

lemma rt_free_new_dirent [rt_rule]: "rt_free (new_dirent e i)"
  unfolding new_dirent_def Let_def by (auto intro!: rt_rule)

lemma rt_free_load_direntry [rt_rule]: "rt_free (load_direntry i)"
  unfolding load_direntry_def by (auto intro!: rt_rule split: option.split)

lemma rt_free_get_entry [rt_rule]: "rt_free (get_entry i)"
  by (simp add: rt_free_def get_entry_def split: option.split)

lemma rt_free_add_kid [rt_rule]: "rt_free (add_kid p c)"
  unfolding add_kid_def Let_def by (auto intro!: rt_rule)

lemma rt_free_sort_kids [rt_rule]: "rt_free (sort_kids i)"
  unfolding sort_kids_def by (auto intro!: rt_rule)

lemma strict_load_unloads:
  assumes "load_direntry i s = (Inr d, t)" and "raise_defects_level s \<le> DEFECT_INCORRECT"
  shows "unloaded t < unloaded s" and "raise_defects_level t = raise_defects_level s"
    and "direntries t = (direntries s)[i := Some d]" and "entry_of s i = None"
proof -
  from load_direntry_Inr[OF assms(1)] assms(2) obtain u where
    i: "i < length (direntries s)" and none: "entry_of s i = None"
    and "raise_defects_level u = raise_defects_level s"
    and t: "t = u\<lparr>direntries := (direntries s)[i := Some d]\<rparr>" by blast
  then show "raise_defects_level t = raise_defects_level s"
    and "direntries t = (direntries s)[i := Some d]" and "entry_of s i = None" by simp_all
  have "direntries s ! i = None" using none i by (simp add: entry_of_def)
  with length_filter_update[OF i, of "\<lambda>d. d = None" "Some d"] t
  show "unloaded t < unloaded s" by (simp add: unloaded_def)
qed

lemma shrinks_step:
  assumes "keeps (shrinks (raise_defects_level s) (unloaded s) (length (direntries s))) m"
    and "m s = (r, t)"
  shows "raise_defects_level t = raise_defects_level s" and "unloaded t \<le> unloaded s"
    and "length (direntries t) = length (direntries s)"
  using keepsD[OF assms(1), of s] assms(2) by (simp_all add: shrinks_def)

text \<open>
  In the strict mode each call that loads an entry uses one up, so a fuel of twice the number
  of entries not yet loaded is enough.
\<close>

definition room :: "nat \<Rightarrow> ole \<Rightarrow> bool" where
  "room k s \<longleftrightarrow> raise_defects_level s \<le> DEFECT_INCORRECT \<and> 2 * unloaded s + 2 \<le> k"

definition rt_free_in :: "('s \<Rightarrow> bool) \<Rightarrow> ('s, 'a) act \<Rightarrow> bool" where
  "rt_free_in P m \<longleftrightarrow> (\<forall>s. P s \<longrightarrow> \<not> is_rt (fst (m s)))"

lemma rt_free_in_weaken: "rt_free m \<Longrightarrow> rt_free_in P m" "rt_free_in P m \<Longrightarrow> (\<And>s. Q s \<Longrightarrow> P s) \<Longrightarrow> rt_free_in Q m"
  by (simp_all add: rt_free_def rt_free_in_def)

lemma rt_free_in_bindE:
  assumes m: "rt_free_in P m" "keeps P m" and f: "\<And>x. rt_free_in P (f x)"
  shows "rt_free_in P (bindE m f)"
  unfolding rt_free_in_def
proof (intro allI impI bindE_not_rt)
  fix s assume "P s"
  then show "\<not> is_rt (fst (m s))" using m(1) by (simp add: rt_free_in_def)
  fix x t assume "m s = (Inr x, t)"
  with keepsD[OF m(2) \<open>P s\<close>] have "P t" by simp
  with f show "\<not> is_rt (fst (f x t))" by (simp add: rt_free_in_def)
qed

lemma issue_blind_room [simp]: "issue_blind (room k)"
  by (simp add: issue_blind_def room_def unloaded_def)

lemma keeps_room: "(\<And>L n N. keeps (shrinks L n N) m) \<Longrightarrow> keeps (room k) m"
  unfolding keeps_def[of "room k"] room_def using shrinks_step(1,2)[of _ m] by (metis (no_types, lifting) add_le_mono1 le_trans mult_le_mono2 surj_pair snd_conv)

lemma load_uses_room:
  "(\<And>child. rt_free_in (room k) (f child)) \<Longrightarrow> rt_free_in (room (Suc (Suc k))) (bindE (load_direntry i) f)"
  unfolding rt_free_in_def
proof (intro allI impI bindE_not_rt)
  fix s d t assume "room (Suc (Suc k)) s" and ld: "load_direntry i s = (Inr d, t)"
    and f: "\<And>child. \<forall>s. room k s \<longrightarrow> \<not> is_rt (fst (f child s))"
  with strict_load_unloads(1,2)[OF ld] have "room k t" by (simp add: room_def)
  with f show "\<not> is_rt (fst (f d t))" by blast
next
  show "\<not> is_rt (fst (load_direntry i s))" for s using rt_free_load_direntry by (simp add: rt_free_def)
qed

lemma tree_rt_free:
  "rt_free_in (room (Suc fuel)) (append_kids fuel p c)"
  "rt_free_in (room fuel) (build_storage_tree fuel p)"
proof (induction fuel p c and fuel p rule: append_kids_build_storage_tree.induct)
  case (2 fuel self child)
  have kids: "rt_free_in (room fuel) (append_kids fuel self c)" if "rt_free_in (room (Suc fuel)) (append_kids fuel self c)" for c
    using that by (rule rt_free_in_weaken) (simp add: room_def)
  show ?case
  proof (cases "child = NOSTREAM")
    case False
    have loads: "rt_free_in (room (Suc (Suc fuel))) (bindE (load_direntry child) (\<lambda>ch.
        bindE (append_kids fuel self (de_sid_left ch)) (\<lambda>_. bindE (add_kid self ch) (\<lambda>_.
        bindE (append_kids fuel self (de_sid_right ch)) (\<lambda>_. build_storage_tree fuel (de_sid ch))))))"
      by (intro load_uses_room rt_free_in_bindE keeps_room keeps_tree keeps_add_kid rt_free_in_weaken(1)[OF rt_free_add_kid]
          kids "2.IH" False)
    have "rt_free (withE (\<lambda>s. whenE (length (direntries s) \<le> child) (raise_defect DEFECT_FATAL (IOError m))))"
      "keeps (room k) (withE (\<lambda>s. whenE (length (direntries s) \<le> child) (raise_defect DEFECT_FATAL (IOError m))))" for m k
      by (auto intro!: rt_rule keeps_room keeps_rule)
    from rt_free_in_bindE[OF rt_free_in_weaken(1)[OF this(1)] this(2) loads] show ?thesis
      unfolding append_kids.simps if_not_P[OF False] .
  qed (simp add: rt_free_in_def)
next
  case (4 fuel self)
  then show ?case
    by (auto intro!: rt_free_in_bindE rt_free_in_weaken(1)[OF rt_free_get_entry] rt_free_in_weaken(1)[OF rt_free_sort_kids]
        keeps_get_entry keeps_room keeps_tree keeps_sort_kids rt_free_in_weaken(1)[OF rt_free_basic(1)])
qed (simp_all add: rt_free_in_def room_def)

lemma tree_enough_fuel:
  "raise_defects_level s \<le> DEFECT_INCORRECT \<Longrightarrow> 2 * unloaded s + 1 \<le> fuel \<Longrightarrow> \<not> is_rt (fst (append_kids fuel p c s))"
  "raise_defects_level s \<le> DEFECT_INCORRECT \<Longrightarrow> 2 * unloaded s + 2 \<le> fuel \<Longrightarrow> \<not> is_rt (fst (build_storage_tree fuel p s))"
  using tree_rt_free by (auto simp: rt_free_in_def room_def)

end
