(* ===== verification/OleTree.thy ===== *)
theory OleTree
  imports OleDir "HOL-Library.Multiset"
begin

text \<open>
  What the directory methods of \<open>OleDir\<close> establish. In the strict mode the storage tree has,
  in every storage, names that differ even when case is ignored and kids sorted by name, so a
  path determines its entry: every path that \<open>listdir\<close> reports is found again by \<open>_find\<close>.
  In the default mode a directory entry that is its own left sibling defeats any recursion
  limit.
\<close>

section \<open>A cyclic directory in the default mode\<close>

lemma entry_of_less: "entry_of s i = Some d \<Longrightarrow> i < length (direntries s)"
  by (auto simp: entry_of_def split: if_splits)

lemma entry_of_issues [simp]: "entry_of (s\<lparr>parsing_issues := is\<rparr>) i = entry_of s i"
  by (simp add: entry_of_def)

lemma load_again:
  assumes "entry_of s i = Some d" and "raise_defects_level s = DEFECT_FATAL"
  shows "\<exists>is. load_direntry i s = (Inr d, s\<lparr>parsing_issues := is\<rparr>)"
proof -
  have "i < length (direntries s)" and "direntries s ! i = Some d"
    using assms(1) entry_of_less[OF assms(1)] by (simp_all add: entry_of_def)
  then show ?thesis
    using assms(2) by (auto simp: load_direntry_def raise_defect_def less_eq_defect_def bindE_def)
qed

lemma self_left_exhausts:
  assumes "entry_of s i = Some d" and "raise_defects_level s = DEFECT_FATAL"
    and "de_sid_left d = i" and "i \<noteq> NOSTREAM"
  shows "is_rt (fst (append_kids fuel p i s))"
  using assms(1,2)
proof (induction fuel arbitrary: s)
  case 0
  then show ?case by simp
next
  case (Suc fuel)
  obtain "is" where ld: "load_direntry i s = (Inr d, s\<lparr>parsing_issues := is\<rparr>)"
    using load_again[OF Suc.prems] by blast
  have "i < length (direntries s)" using Suc.prems(1) by (rule entry_of_less)
  moreover have "is_rt (fst (append_kids fuel p i (s\<lparr>parsing_issues := is\<rparr>)))"
    using Suc.prems by (intro Suc.IH) auto
  then have "is_rt (fst (bindE (append_kids fuel p i) f (s\<lparr>parsing_issues := is\<rparr>)))" for f
    by (auto simp: bindE_def is_rt_def split: prod.splits sum.splits)
  ultimately show ?case
    using assms(3,4) by (simp add: bindE_Inr[where m = "load_direntry i", OF ld])
qed

section \<open>Unambiguous names\<close>

definition lname :: "ole \<Rightarrow> nat \<Rightarrow> bytes" where
  "lname s k = py_lower (name_of s k)"

definition dir_inv :: "ole \<Rightarrow> bool" where
  "dir_inv s \<longleftrightarrow> (\<forall>i d. entry_of s i = Some d \<longrightarrow>
     de_sid d = i \<and> (\<forall>k\<in>set (de_kids d). entry_of s k \<noteq> None)
     \<and> distinct (map (lname s) (de_kids d)) \<and> lname s ` set (de_kids d) = set (de_kids_dict d))"

definition tree_inv :: "defect \<Rightarrow> (nat \<times> bytes) set \<Rightarrow> ole \<Rightarrow> bool" where
  \<comment> \<open>the invariant, the level, and some entries known to be loaded under a given name\<close>
  "tree_inv L A s \<longleftrightarrow> raise_defects_level s = L \<and> dir_inv s
     \<and> (\<forall>(i, n)\<in>A. \<exists>d. entry_of s i = Some d \<and> de_name d = n)"

lemma tree_inv_insert:
  "tree_inv L (insert (i, n) A) s \<longleftrightarrow>
     tree_inv L A s \<and> (\<exists>d. entry_of s i = Some d \<and> de_name d = n)"
  by (auto simp: tree_inv_def)

lemma entry_of_cong: "direntries s = direntries t \<Longrightarrow> entry_of s = entry_of t"
  by (auto simp: entry_of_def)

lemma name_of_upd:
  "(\<And>d. de_name (f d) = de_name d) \<Longrightarrow> name_of (upd_entry i f s) k = name_of s k"
  by (auto simp: name_of_def split: option.split)

lemma dir_inv_cong: "entry_of s = entry_of t \<Longrightarrow> dir_inv s = dir_inv t"
proof -
  assume e: "entry_of s = entry_of t"
  then have "lname s = lname t" by (intro ext) (simp add: lname_def name_of_def)
  with e show ?thesis by (simp add: dir_inv_def)
qed

lemma tree_inv_dirs:
  "direntries t = direntries s \<Longrightarrow> raise_defects_level t = raise_defects_level s \<Longrightarrow>
     tree_inv L A s \<Longrightarrow> tree_inv L A t"
  using entry_of_cong[of t s] dir_inv_cong[of t s] by (simp add: tree_inv_def)

lemma issue_blind_tree_inv [simp]: "issue_blind (tree_inv L A)"
  by (auto simp: issue_blind_def intro: tree_inv_dirs[rotated 2])

text \<open>An update through a reference that leaves name, sid and the kid fields alone.\<close>

lemma tree_inv_upd:
  assumes f: "\<And>d. de_name (f d) = de_name d" "\<And>d. de_sid (f d) = de_sid d"
    and kids: "\<And>d. entry_of s i = Some d \<Longrightarrow> set (de_kids (f d)) = set (de_kids d)
      \<and> distinct (map (lname s) (de_kids (f d))) = distinct (map (lname s) (de_kids d))
      \<and> de_kids_dict (f d) = de_kids_dict d"
    and inv: "tree_inv L A s"
  shows "tree_inv L A (upd_entry i f s)"
proof -
  have nm: "lname (upd_entry i f s) = lname s" by (rule ext) (simp add: lname_def name_of_upd f)
  have "dir_inv (upd_entry i f s)"
    unfolding dir_inv_def nm
  proof (intro allI impI)
    fix j d
    assume "entry_of (upd_entry i f s) j = Some d"
    then obtain e where e: "entry_of s j = Some e" "d = (if i = j then f e else e)"
      by (auto split: if_splits)
    moreover have "dir_inv s" using inv by (simp add: tree_inv_def)
    ultimately show "de_sid d = j \<and> (\<forall>k\<in>set (de_kids d). entry_of (upd_entry i f s) k \<noteq> None)
      \<and> distinct (map (lname s) (de_kids d)) \<and> lname s ` set (de_kids d) = set (de_kids_dict d)"
      using kids[of e] f by (auto simp: dir_inv_def split: if_splits)
  qed
  then show ?thesis using inv f by (force simp: tree_inv_def)
qed

lemma keeps_tree_inv_sort [keeps_rule]: "keeps (tree_inv L A) (sort_kids i)"
  unfolding sort_kids_def
proof (rule keeps_modE)
  fix s assume "tree_inv L A s"
  then show "tree_inv L A (upd_entry i (\<lambda>d. d\<lparr>de_kids := sort_key (name_of s) (de_kids d)\<rparr>) s)"
  proof (intro tree_inv_upd)
    fix d
    let ?d = "d\<lparr>de_kids := sort_key (name_of s) (de_kids d)\<rparr>"
    have "mset (map (lname s) (de_kids ?d)) = mset (map (lname s) (de_kids d))" by simp
    then have "distinct (map (lname s) (de_kids ?d)) = distinct (map (lname s) (de_kids d))"
      by (metis mset_eq_imp_distinct_iff)
    then show "set (de_kids ?d) = set (de_kids d)
      \<and> distinct (map (lname s) (de_kids ?d)) = distinct (map (lname s) (de_kids d))
      \<and> de_kids_dict ?d = de_kids_dict d" by simp
  qed auto
qed

lemma tree_inv_load:
  assumes inv: "tree_inv L A s" and strict: "L \<le> DEFECT_INCORRECT"
    and ld: "load_direntry i s = (Inr d, t)"
  shows "tree_inv L (insert (de_sid d, de_name d) A) t" and "de_sid d = i"
proof -
  have lvl: "raise_defects_level s = L" using inv by (simp add: tree_inv_def)
  note st = strict_load_unloads[OF ld, unfolded lvl, OF strict]
  note i = load_direntry_Inr(1)[OF ld]
  obtain u e where nd: "new_dirent e i s = (Inr d, u)"
    using load_direntry_Inr(2)[OF ld] st(4) by auto
  have d: "de_sid d = i" "de_kids d = []" "de_kids_dict d = []"
    using new_dirent_Inr[OF nd] by simp_all
  then show "de_sid d = i" by simp
  have ent: "entry_of t j = (if j = i then Some d else entry_of s j)" for j
    using i st(3) by (auto simp: entry_of_def)
  have nm: "lname t k = lname s k" if "entry_of s k \<noteq> None" for k
    using that st(4) ent by (auto simp: lname_def name_of_def)
  have "dir_inv t"
    unfolding dir_inv_def
  proof (intro allI impI)
    fix j e assume "entry_of t j = Some e"
    then show "de_sid e = j \<and> (\<forall>k\<in>set (de_kids e). entry_of t k \<noteq> None)
      \<and> distinct (map (lname t) (de_kids e)) \<and> lname t ` set (de_kids e) = set (de_kids_dict e)"
    proof (cases "j = i")
      case True
      then show ?thesis using \<open>entry_of t j = Some e\<close> d ent by simp
    next
      case False
      then have e: "entry_of s j = Some e" using \<open>entry_of t j = Some e\<close> ent by simp
      then have "de_sid e = j" and k: "\<forall>k\<in>set (de_kids e). entry_of s k \<noteq> None"
        and "distinct (map (lname s) (de_kids e))"
        and "lname s ` set (de_kids e) = set (de_kids_dict e)"
        using inv by (auto simp: tree_inv_def dir_inv_def)
      moreover have "map (lname t) (de_kids e) = map (lname s) (de_kids e)" using nm k by simp
      ultimately have "distinct (map (lname t) (de_kids e))"
        and "lname t ` set (de_kids e) = set (de_kids_dict e)"
        by (metis, metis list.set_map)
      with \<open>de_sid e = j\<close> k ent show ?thesis by auto
    qed
  qed
  moreover have "entry_of s j = Some x \<Longrightarrow> entry_of t j = Some x" for j x
    using ent st(4) by auto
  ultimately show "tree_inv L (insert (de_sid d, de_name d) A) t"
    using inv lvl st(2) ent d by (fastforce simp: tree_inv_def)
qed

lemma get_entry_Inr: "get_entry i s = (Inr d, t) \<longleftrightarrow> entry_of s i = Some d \<and> t = s"
  by (auto simp: get_entry_def split: option.splits)

lemma tree_inv_add:
  assumes inv: "tree_inv L A s" and p: "entry_of s p = Some pd"
    and c: "entry_of s c = Some cd" "de_name cd = n"
    and new: "py_lower n \<notin> set (de_kids_dict pd)"
  shows "tree_inv L A (upd_entry p (\<lambda>p. p\<lparr>de_kids := de_kids p @ [c],
           de_kids_dict := de_kids_dict p @ [py_lower n]\<rparr>) s)"
proof -
  let ?f = "\<lambda>p. p\<lparr>de_kids := de_kids p @ [c], de_kids_dict := de_kids_dict p @ [py_lower n]\<rparr>"
  have nm: "lname (upd_entry p ?f s) = lname s" by (rule ext) (simp add: lname_def name_of_upd)
  have cn: "lname s c = py_lower n" using c by (simp add: lname_def name_of_def)
  have "dir_inv (upd_entry p ?f s)"
    unfolding dir_inv_def nm
  proof (intro allI impI)
    fix j d
    assume "entry_of (upd_entry p ?f s) j = Some d"
    then obtain e where e: "entry_of s j = Some e" "d = (if p = j then ?f e else e)"
      by (auto split: if_splits)
    moreover have "dir_inv s" using inv by (simp add: tree_inv_def)
    ultimately have "de_sid e = j" "\<forall>k\<in>set (de_kids e). entry_of s k \<noteq> None"
      "distinct (map (lname s) (de_kids e))" "lname s ` set (de_kids e) = set (de_kids_dict e)"
      by (auto simp: dir_inv_def)
    then show "de_sid d = j \<and> (\<forall>k\<in>set (de_kids d). entry_of (upd_entry p ?f s) k \<noteq> None)
      \<and> distinct (map (lname s) (de_kids d)) \<and> lname s ` set (de_kids d) = set (de_kids_dict d)"
      using e p c new cn by (cases "p = j") auto
  qed
  then show ?thesis using inv by (force simp: tree_inv_def)
qed

lemma keeps_tree_inv_add_kid:
  assumes strict: "L \<le> DEFECT_INCORRECT" and c: "(de_sid ch, de_name ch) \<in> A"
  shows "keeps (tree_inv L A) (add_kid p ch)"
  unfolding keeps_def
proof (intro allI impI)
  fix s assume s: "tree_inv L A s"
  let ?n = "py_lower (de_name ch)"
  let ?f = "\<lambda>p. p\<lparr>de_kids := de_kids p @ [de_sid ch], de_kids_dict := de_kids_dict p @ [?n]\<rparr>"
  let ?rest = "bindE (get_entry (de_sid ch)) (\<lambda>c.
      bindE (whenE (de_used c)
        (raise_defect DEFECT_INCORRECT (IOError ''OLE Entry referenced more than once''))) (\<lambda>_.
      modE (upd_entry (de_sid ch) (\<lambda>c. c\<lparr>de_used := True\<rparr>))))"
  have rest: "keeps (tree_inv L A) ?rest"
    by (auto intro!: keeps_rule keeps_modE tree_inv_upd)
  show "tree_inv L A (snd (add_kid p ch s))"
  proof (cases "entry_of s p")
    case None
    with s show ?thesis by (simp add: add_kid_def get_entry_def bindE_def Let_def)
  next
    case (Some pd)
    then have g: "get_entry p s = (Inr pd, s)" by (simp add: get_entry_Inr)
    show ?thesis
    proof (cases "?n \<in> set (de_kids_dict pd)")
      case True
      with s strict show ?thesis
        by (simp add: add_kid_def Let_def bindE_Inr[where m = "get_entry p", OF g])
           (simp add: bindE_def raise_defect_def tree_inv_def)
    next
      case False
      obtain cd where "entry_of s (de_sid ch) = Some cd" "de_name cd = de_name ch"
        using s c by (auto simp: tree_inv_def)
      then have "tree_inv L A (upd_entry p ?f s)"
        using s Some False by (intro tree_inv_add)
      then show ?thesis
        using False keepsD[OF rest]
        by (simp add: add_kid_def Let_def bindE_Inr[where m = "get_entry p", OF g])
    qed
  qed
qed

lemma keeps_tree_inv_load:
  assumes strict: "L \<le> DEFECT_INCORRECT"
  shows "keeps (tree_inv L A) (load_direntry i)"
  unfolding keeps_def
proof (intro allI impI)
  fix s assume s: "tree_inv L A s"
  obtain r t where rt: "load_direntry i s = (r, t)" by fastforce
  show "tree_inv L A (snd (load_direntry i s))"
  proof (cases r)
    case (Inr d)
    with tree_inv_load(1)[OF s strict] rt show ?thesis by (auto simp: tree_inv_insert)
  next
    case (Inl e)
    have "direntries t = direntries s \<and> raise_defects_level t = raise_defects_level s"
    proof (cases "length (direntries s) \<le> i")
      case True
      with rt show ?thesis by (simp add: load_direntry_def)
    next
      case False
      with rt Inl show ?thesis
        by (auto simp: load_direntry_def bindE_Inl_iff raise_defect_def dest: new_dirent_frame
            split: option.splits if_splits)
    qed
    with rt s show ?thesis by (auto intro: tree_inv_dirs)
  qed
qed

lemma keeps_tree_inv:
  "L \<le> DEFECT_INCORRECT \<Longrightarrow> keeps (tree_inv L A) (append_kids fuel p c)"
  "L \<le> DEFECT_INCORRECT \<Longrightarrow> keeps (tree_inv L A) (build_storage_tree fuel p)"
proof (induction fuel p c and fuel p arbitrary: A and A rule: append_kids_build_storage_tree.induct)
  case (2 fuel self child)
  show ?case
  proof (cases "child = NOSTREAM")
    case False
    have "keeps (tree_inv L A) (bindE (load_direntry child) (\<lambda>ch.
      bindE (append_kids fuel self (de_sid_left ch)) (\<lambda>_.
      bindE (add_kid self ch) (\<lambda>_.
      bindE (append_kids fuel self (de_sid_right ch)) (\<lambda>_.
      build_storage_tree fuel (de_sid ch))))))"
      unfolding keeps_def
    proof (intro allI impI)
      fix s assume s: "tree_inv L A s"
      obtain r t where rt: "load_direntry child s = (r, t)" by fastforce
      show "tree_inv L A (snd (bindE (load_direntry child) (\<lambda>ch.
        bindE (append_kids fuel self (de_sid_left ch)) (\<lambda>_.
        bindE (add_kid self ch) (\<lambda>_.
        bindE (append_kids fuel self (de_sid_right ch)) (\<lambda>_.
        build_storage_tree fuel (de_sid ch))))) s))"
      proof (cases r)
        case (Inl e)
        then show ?thesis
          using rt keepsD[OF keeps_tree_inv_load[OF "2.prems"] s, of child] by (simp add: bindE_def)
      next
        case (Inr ch)
        let ?A = "insert (de_sid ch, de_name ch) A"
        have t: "tree_inv L ?A t" using tree_inv_load(1)[OF s "2.prems"] rt Inr by simp
        have "keeps (tree_inv L ?A) (bindE (append_kids fuel self (de_sid_left ch)) (\<lambda>_.
          bindE (add_kid self ch) (\<lambda>_.
          bindE (append_kids fuel self (de_sid_right ch)) (\<lambda>_.
          build_storage_tree fuel (de_sid ch)))))"
          using False "2.IH" "2.prems"
          by (intro keeps_bindE keeps_tree_inv_add_kid) auto
        from keepsD[OF this t] show ?thesis
          using rt Inr by (simp add: bindE_def tree_inv_insert)
      qed
    qed
    then have "keeps (tree_inv L A) (bindE (withE (\<lambda>s. whenE (length (direntries s) \<le> child)
        (raise_defect DEFECT_FATAL (IOError ''OLE DirEntry index out of range'')))) (\<lambda>_.
      bindE (load_direntry child) (\<lambda>ch.
      bindE (append_kids fuel self (de_sid_left ch)) (\<lambda>_.
      bindE (add_kid self ch) (\<lambda>_.
      bindE (append_kids fuel self (de_sid_right ch)) (\<lambda>_.
      build_storage_tree fuel (de_sid ch)))))))" (is "keeps _ (bindE ?guard _)")
      by (rule keeps_bindE[of _ ?guard, rotated]) (intro keeps_withE keeps_whenE keeps_raise_defect, simp)
    with False show ?thesis by (simp only: append_kids.simps if_False)
  qed simp
next
  case (4 fuel self)
  then show ?case by (auto intro!: keeps_rule)
qed auto

text \<open>The tree rebuilt in the strict mode, whether the walk returns or raises.\<close>

lemma strict_load_dir_inv:
  assumes "raise_defects_level s \<le> DEFECT_INCORRECT" and "dir_inv s"
  shows "dir_inv (snd (build_storage_tree fuel p s))"
  using keepsD[OF keeps_tree_inv(2)[OF assms(1), of "{}" fuel p], of s] assms(2)
  by (simp add: tree_inv_def)

section \<open>Listing and finding\<close>

definition type_of :: "ole \<Rightarrow> nat \<Rightarrow> nat" where
  "type_of s k = (case entry_of s k of Some d \<Rightarrow> de_entry_type d | None \<Rightarrow> STGTY_EMPTY)"

text \<open>The paths of the tree below a list of kids: every entry passed through is a storage.\<close>

inductive tree_path :: "ole \<Rightarrow> nat list \<Rightarrow> bytes list \<Rightarrow> nat \<Rightarrow> bool" for s where
  here: "k \<in> set ks \<Longrightarrow> tree_path s ks [name_of s k] k"
| down: "k \<in> set ks \<Longrightarrow> type_of s k = STGTY_STORAGE \<Longrightarrow> tree_path s (kids_of s k) ns m \<Longrightarrow>
    tree_path s ks (name_of s k # ns) m"

inductive_simps tree_path_no_kids [simp]: "tree_path s [] ns m"
inductive_simps tree_path_empty [simp]: "tree_path s ks [] m"
inductive_simps tree_path_kids: "tree_path s (k # ks) ns m"

lemma tree_path_mono: "tree_path s ks ns m \<Longrightarrow> set ks \<subseteq> set ls \<Longrightarrow> tree_path s ls ns m"
  by (induction arbitrary: ls rule: tree_path.induct) (auto intro: tree_path.intros)

lemma tree_path_Cons_kids:
  "tree_path s (k # ks) ns m \<longleftrightarrow>
     (ns = [name_of s k] \<and> m = k)
   \<or> (\<exists>ns'. ns = name_of s k # ns' \<and> type_of s k = STGTY_STORAGE \<and> tree_path s (kids_of s k) ns' m)
   \<or> tree_path s ks ns m"
proof
  assume "tree_path s (k # ks) ns m"
  then show "(ns = [name_of s k] \<and> m = k)
   \<or> (\<exists>ns'. ns = name_of s k # ns' \<and> type_of s k = STGTY_STORAGE \<and> tree_path s (kids_of s k) ns' m)
   \<or> tree_path s ks ns m"
    by cases (auto intro: tree_path.intros)
qed (auto intro: tree_path.intros tree_path_mono)

definition wanted :: "ole \<Rightarrow> bool \<Rightarrow> bool \<Rightarrow> nat \<Rightarrow> bool" where
  "wanted s streams storages m \<longleftrightarrow>
     (type_of s m = STGTY_STREAM \<and> streams) \<or> (type_of s m = STGTY_STORAGE \<and> storages)"

lemma same_tree:
  "direntries t = direntries s \<Longrightarrow> entry_of t = entry_of s"
  "direntries t = direntries s \<Longrightarrow> name_of t = name_of s"
  "direntries t = direntries s \<Longrightarrow> kids_of t = kids_of s"
  "direntries t = direntries s \<Longrightarrow> type_of t = type_of s"
  by (auto simp: entry_of_def name_of_def kids_of_def type_of_def fun_eq_iff)

lemma tree_path_same:
  assumes "direntries t = direntries s"
  shows "tree_path t = tree_path s"
proof -
  have "tree_path u ks ns m \<Longrightarrow> direntries v = direntries u \<Longrightarrow> tree_path v ks ns m" for u v ks ns m
  proof (induction rule: tree_path.induct)
    case (here k ks)
    then show ?case using tree_path.here[of k ks v] same_tree[of v u] by simp
  next
    case (down k ks ns m)
    then show ?case using tree_path.down[of k ks v ns m] same_tree[of v u] by simp
  qed
  with assms show ?thesis by (auto simp: fun_eq_iff)
qed

lemma wanted_same: "direntries t = direntries s \<Longrightarrow> wanted t = wanted s"
  by (auto simp: wanted_def fun_eq_iff dest: same_tree(4))

definition below :: "ole \<Rightarrow> bytes list \<Rightarrow> nat list \<Rightarrow> bool \<Rightarrow> bool \<Rightarrow> bytes list set" where
  "below s prefix ks streams storages =
     {drop 1 prefix @ ns | ns m. tree_path s ks ns m \<and> wanted s streams storages m}"

lemma below_Nil [simp]: "below s prefix [] streams storages = {}"
  by (simp add: below_def)

lemma below_Cons:
  assumes "prefix \<noteq> []"
  shows "below s prefix (k # ks) streams storages =
    (if wanted s streams storages k then {drop 1 prefix @ [name_of s k]} else {})
    \<union> (if type_of s k = STGTY_STORAGE
       then below s (prefix @ [name_of s k]) (kids_of s k) streams storages else {})
    \<union> below s prefix ks streams storages"
proof -
  obtain a p where p: "prefix = a # p" using assms by (cases prefix) auto
  show ?thesis
    by (rule set_eqI) (simp add: below_def tree_path_Cons_kids p, blast)
qed

lemma below_same: "direntries t = direntries s \<Longrightarrow> below t = below s"
  using tree_path_same[of t s] wanted_same[of t s] by (simp add: below_def fun_eq_iff)

lemma list_tree:
  "list_node fuel files prefix node streams storages s = (Inr fs, t) \<Longrightarrow>
     direntries t = direntries s \<and>
     set fs = set files \<union> below s (prefix @ [name_of s node]) (kids_of s node) streams storages"
  "prefix \<noteq> [] \<Longrightarrow> list_kids fuel files prefix ks streams storages s = (Inr fs, t) \<Longrightarrow>
     direntries t = direntries s \<and> set fs = set files \<union> below s prefix ks streams storages"
proof (induction fuel files prefix node streams storages and fuel files prefix ks streams storages
    arbitrary: s fs t and s fs t rule: list_node_list_kids.induct)
  case (1 files prefix node streams storages)
  then show ?case by simp
next
  case (2 fuel files prefix node streams storages)
  then obtain d where d: "entry_of s node = Some d"
    and lk: "list_kids fuel files (prefix @ [de_name d]) (de_kids d) streams storages s = (Inr fs, t)"
    by (auto simp: bindE_Inr_iff get_entry_Inr)
  from "2.IH"[OF _ lk] d show ?case by (simp add: name_of_def kids_of_def)
next
  case (3 fuel files prefix streams storages)
  then show ?case by simp
next
  case (4 fuel files prefix k ks streams storages)
  let ?add = "\<lambda>b nm. if b then files @ [drop 1 prefix @ [nm]] else files"
  let ?step = "\<lambda>d. if de_entry_type d = STGTY_STORAGE then
      list_node fuel (?add storages (de_name d)) prefix k streams storages
    else if de_entry_type d = STGTY_STREAM then retE (?add streams (de_name d))
    else bindE (raise_defect DEFECT_INCORRECT (IOError
      ''The directory tree contains an entry which is not a stream nor a storage.'')) (\<lambda>_. retE files)"
  from "4.prems"(2) obtain d f1 u where d: "entry_of s k = Some d"
    and st: "?step d s = (Inr f1, u)"
    and rest: "list_kids fuel f1 prefix ks streams storages u = (Inr fs, t)"
    by (auto simp: bindE_Inr_iff get_entry_Inr)
  have nm: "name_of s k = de_name d" "type_of s k = de_entry_type d"
    using d by (simp_all add: name_of_def type_of_def)
  have u: "direntries u = direntries s \<and> set f1 = set files
    \<union> (if wanted s streams storages k then {drop 1 prefix @ [name_of s k]} else {})
    \<union> (if type_of s k = STGTY_STORAGE
       then below s (prefix @ [name_of s k]) (kids_of s k) streams storages else {})"
  proof (cases "de_entry_type d = STGTY_STORAGE")
    case True
    with st have "list_node fuel (?add storages (de_name d)) prefix k streams storages s = (Inr f1, u)"
      by simp
    from "4.IH"(1)[OF True this] True show ?thesis
      by (auto simp: nm wanted_def STGTY_STORAGE_def STGTY_STREAM_def)
  next
    case False
    with st show ?thesis
      by (auto simp: nm wanted_def bindE_Inr_iff raise_defect_def split: if_splits)
  qed
  have "direntries t = direntries u \<and> set fs = set f1 \<union> below u prefix ks streams storages"
    using "4.IH"(2)[OF "4.prems"(1) rest] by blast
  with u show ?case
    by (auto simp: below_Cons[OF "4.prems"(1)] below_same[of u s])
qed

text \<open>In a tree with unambiguous names a path leads back to its entry, whatever its case.\<close>

lemma find_unique:
  "k \<in> set ks \<Longrightarrow> distinct (map f ks) \<Longrightarrow> find (\<lambda>j. f j = f k) ks = Some k"
  by (induction ks) (auto simp: image_iff)

lemma find_walk_path:
  assumes "dir_inv s" and "tree_path s (kids_of s node) ns m"
    and "map py_lower qs = map py_lower ns"
  shows "find_walk s node qs = Inr m"
proof -
  have "tree_path s ks ns m \<Longrightarrow> map py_lower qs = map py_lower ns \<Longrightarrow> ks = kids_of s node \<Longrightarrow>
      find_walk s node qs = Inr m" for ks
  proof (induction arbitrary: node qs rule: tree_path.induct)
    case (here k ks)
    then obtain q where q: "qs = [q]" "py_lower q = lname s k"
      by (cases qs) (auto simp: lname_def)
    have "distinct (map (lname s) ks)"
      using here assms(1) by (auto simp: kids_of_def dir_inv_def split: option.splits)
    with find_unique[OF here(1), of "lname s"] have "find (\<lambda>j. lname s j = lname s k) ks = Some k" .
    then show ?case using here q by (simp add: lname_def)
  next
    case (down k ks ns m)
    then obtain q qs' where q: "qs = q # qs'" "py_lower q = lname s k"
      and qs': "map py_lower qs' = map py_lower ns"
      by (cases qs) (auto simp: lname_def)
    have "distinct (map (lname s) ks)"
      using down.prems assms(1) by (auto simp: kids_of_def dir_inv_def split: option.splits)
    with find_unique[OF down.hyps(1), of "lname s"]
    have "find (\<lambda>j. lname s j = lname s k) ks = Some k" .
    then show ?case using down.IH[OF qs'] down.prems q by (simp add: lname_def)
  qed
  with assms show ?thesis by blast
qed

lemma find_walk_sound:
  "find_walk s node qs = Inr m \<Longrightarrow> qs \<noteq> [] \<Longrightarrow>
     \<exists>k \<in> set (kids_of s node). py_lower (name_of s k) = py_lower (hd qs)
       \<and> find_walk s k (tl qs) = Inr m"
  by (cases qs) (auto split: option.splits simp: find_Some_iff)

lemma listdir_paths:
  assumes "listdir fuel streams storages s = (Inr fs, t)"
  shows "direntries t = direntries s"
    and "set fs = {ns. \<exists>m. tree_path s (kids_of s 0) ns m \<and> wanted s streams storages m}"
  using list_tree(1)[OF assms[unfolded listdir_def]] by (auto simp: below_def)

lemma ole_find_path:
  assumes "dir_inv s" and "root_entry s = Inr r" and "tree_path s (kids_of s 0) ns m"
    and "map py_lower qs = map py_lower ns"
  shows "ole_find s (PList qs) = Inr m"
  using find_walk_path[OF assms(1,3,4)] assms(2) by (simp add: ole_find_def path_names_def)

end
