(* ===== verification/OleOpen.thy ===== *)
theory OleOpen
  imports OleFile
begin

text \<open>
  What \<open>open\<close> of olefile.py establishes. The header tests accept exactly the conforming
  headers in the strict mode and only insist on signature and byte order in the default one; a
  file that opens has no stream start listed twice, in the strict mode an unambiguous tree, and
  in the strict mode the number of nested calls is bounded by the size of the file.
\<close>

section \<open>Headers\<close>

definition header_conforms :: "header \<Rightarrow> bool" where
  "header_conforms h \<longleftrightarrow>
     hd_Sig h = MAGIC \<and> hd_clsid h = replicate 16 (char_of (0::nat)) \<and> hd_ByteOrder h = 0xFFFE
     \<and> (hd_DllVersion h, hd_SectorShift h) \<in> {(3, 9), (4, 12)} \<and> hd_MiniSectorShift h = 6
     \<and> hd_Reserved h = 0 \<and> hd_Reserved1 h = 0 \<and> (hd_DllVersion h = 3 \<longrightarrow> hd_csectDir h = 0)
     \<and> hd_MiniSectorCutoff h = 4096"

lemma raise_defect_Inr_iff:
  "raise_defect lvl e s = (Inr (), t) \<longleftrightarrow>
     \<not> raise_defects_level s \<le> lvl \<and> t = s\<lparr>parsing_issues := parsing_issues s @ [e]\<rparr>"
  by (auto simp: raise_defect_def)

lemma guard_Inr_iff:
  "whenE b (raise_defect lvl e) s = (Inr (), t) \<longleftrightarrow>
     (if b then \<not> raise_defects_level s \<le> lvl \<and> t = s\<lparr>parsing_issues := parsing_issues s @ [e]\<rparr>
      else t = s)"
  by (cases b) (auto simp: raise_defect_def)

lemma guard_strict:
  assumes "raise_defects_level s \<le> lvl"
  shows "bindE (whenE b (raise_defect lvl e)) f s = (Inr y, t) \<longleftrightarrow> \<not> b \<and> f () s = (Inr y, t)"
  using assms by (cases b) (auto simp: raise_defect_def bindE_def)

lemma two_powers:
  "(2::nat) ^ n = 512 \<longleftrightarrow> n = 9" "(2::nat) ^ n = 4096 \<longleftrightarrow> n = 12" "(2::nat) ^ n = 64 \<longleftrightarrow> n = 6"
  using power_inject_exp[of "2::nat" n 9] power_inject_exp[of "2::nat" n 12]
    power_inject_exp[of "2::nat" n 6] by simp_all

lemma defect_level_le:
  "l \<le> DEFECT_POTENTIAL \<Longrightarrow> l \<le> DEFECT_INCORRECT" for l
  by (cases l) (simp_all add: less_eq_defect_def)

lemma check_header_strict:
  assumes "raise_defects_level s \<le> DEFECT_POTENTIAL"
  shows "check_header h s = (Inr (), t) \<longleftrightarrow> header_conforms h \<and> hd_signature h = 0 \<and> t = s"
  using assms defect_level_le[OF assms]
  unfolding check_header_def
  by (simp add: guard_strict guard_Inr_iff del: bindE_simps)
     (auto simp: header_conforms_def SectorSize_def MiniSectorSize_def two_powers)

definition header_usable :: "header \<Rightarrow> bool" where
  "header_usable h \<longleftrightarrow> hd_Sig h = MAGIC \<and> hd_ByteOrder h = 0xFFFE"

lemma bind_guard_lenient:
  assumes "\<not> raise_defects_level s \<le> lvl"
  shows "bindE (whenE b (raise_defect lvl e)) f s
    = f () (s\<lparr>parsing_issues := parsing_issues s @ (if b then [e] else [])\<rparr>)"
  using assms by (cases b) (auto simp: raise_defect_def bindE_def)

definition header_issues :: "header \<Rightarrow> nat" where
  \<comment> \<open>the tests of the header that a file fails, short of the two fatal ones\<close>
  "header_issues h = sum_list (map of_bool
     [hd_clsid h \<noteq> replicate 16 (char_of (0::nat)), hd_DllVersion h \<notin> {3, 4},
      SectorSize h \<notin> {512, 4096},
      (hd_DllVersion h = 3 \<and> SectorSize h \<noteq> 512) \<or> (hd_DllVersion h = 4 \<and> SectorSize h \<noteq> 4096),
      MiniSectorSize h \<notin> {64}, hd_Reserved h \<noteq> 0 \<or> hd_Reserved1 h \<noteq> 0,
      SectorSize h = 512 \<and> hd_csectDir h \<noteq> 0, hd_signature h \<noteq> 0,
      hd_MiniSectorCutoff h \<noteq> 0x1000])"

lemma bind_guard_fatal:
  "bindE (whenE b (raise_defect DEFECT_FATAL e)) f s = (if b then (Inl e, s) else f () s)"
  by (cases b) simp_all

lemma guard_lenient:
  assumes "\<not> raise_defects_level s \<le> lvl"
  shows "whenE b (raise_defect lvl e) s
    = (Inr (), s\<lparr>parsing_issues := parsing_issues s @ (if b then [e] else [])\<rparr>)"
  using assms by (cases b) (auto simp: raise_defect_def)

lemma length_if_single [simp]: "length (if b then [x] else []) = of_bool b"
  by simp

lemma check_header_lenient:
  assumes "raise_defects_level s = DEFECT_FATAL"
  shows "header_usable h \<Longrightarrow> \<exists>is. length is = header_issues h \<and>
      check_header h s = (Inr (), s\<lparr>parsing_issues := parsing_issues s @ is\<rparr>)"
    and "\<not> header_usable h \<Longrightarrow> \<exists>e t. check_header h s = (Inl (IOError e), t)"
proof -
  have lvl: "\<not> DEFECT_FATAL \<le> DEFECT_INCORRECT" "\<not> DEFECT_FATAL \<le> DEFECT_POTENTIAL" by simp_all
  assume u: "header_usable h"
  have "\<exists>is. length is = header_issues h \<and>
      snd (check_header h s) = s\<lparr>parsing_issues := parsing_issues s @ is\<rparr> \<and> fst (check_header h s) = Inr ()"
    using u assms lvl unfolding check_header_def header_usable_def
    by (simp add: bind_guard_lenient guard_lenient bind_guard_fatal split del: if_split)
       (intro exI conjI[rotated], rule refl, simp add: header_issues_def split del: if_split)
  then show "\<exists>is. length is = header_issues h \<and>
      check_header h s = (Inr (), s\<lparr>parsing_issues := parsing_issues s @ is\<rparr>)"
    by (metis prod.collapse)
next
  have lvl: "\<not> DEFECT_FATAL \<le> DEFECT_INCORRECT" "\<not> DEFECT_FATAL \<le> DEFECT_POTENTIAL" by simp_all
  assume u: "\<not> header_usable h"
  then consider "hd_Sig h \<noteq> MAGIC" | "hd_Sig h = MAGIC" "hd_ByteOrder h \<noteq> 0xFFFE"
    by (auto simp: header_usable_def)
  then show "\<exists>e t. check_header h s = (Inl (IOError e), t)"
    using assms lvl unfolding check_header_def
    by cases (simp_all add: bind_guard_lenient bind_guard_fatal)
qed

text \<open>The on-disk form of a header, and that decoding inverts it.\<close>

definition pack_header :: "header \<Rightarrow> bytes" where
  "pack_header h = hd_Sig h @ hd_clsid h
     @ concat (map (le_bytes 2) [hd_MinorVersion h, hd_DllVersion h, hd_ByteOrder h,
         hd_SectorShift h, hd_MiniSectorShift h, hd_Reserved h])
     @ concat (map (le_bytes 4) [hd_Reserved1 h, hd_csectDir h, hd_csectFat h, hd_sectDirStart h,
         hd_signature h, hd_MiniSectorCutoff h, hd_MiniFatStart h, hd_csectMiniFat h,
         hd_sectDifStart h, hd_csectDif h])"

definition header_in_range :: "header \<Rightarrow> bool" where
  "header_in_range h \<longleftrightarrow> length (hd_Sig h) = 8 \<and> length (hd_clsid h) = 16
     \<and> list_all (\<lambda>v. v < 2 ^ 16) [hd_MinorVersion h, hd_DllVersion h, hd_ByteOrder h,
         hd_SectorShift h, hd_MiniSectorShift h, hd_Reserved h]
     \<and> list_all (\<lambda>v. v < 2 ^ 32) [hd_Reserved1 h, hd_csectDir h, hd_csectFat h, hd_sectDirStart h,
         hd_signature h, hd_MiniSectorCutoff h, hd_MiniFatStart h, hd_csectMiniFat h,
         hd_sectDifStart h, hd_csectDif h]"

lemma slice_prefix: "length a = i \<Longrightarrow> length b = n \<Longrightarrow> slice i (i + n) (a @ b @ c) = b"
  by (simp add: slice_def)

lemma unpack_le_bytes:
  "length a = i \<Longrightarrow> v < 256 ^ n \<Longrightarrow> unpack_field i n (a @ le_bytes n v @ c) = v"
  by (simp add: unpack_field_def slice_prefix le_nat_le_bytes)

lemma unpack_field_skip:
  "length a \<le> i \<Longrightarrow> unpack_field i n (a @ b) = unpack_field (i - length a) n b"
  by (simp add: unpack_field_def slice_def)

lemma unpack_field_head: "v < 256 ^ n \<Longrightarrow> unpack_field 0 n (le_bytes n v @ b) = v"
  using unpack_le_bytes[of "[]" 0 v n b] by simp

lemma unpack_field_last: "v < 256 ^ n \<Longrightarrow> unpack_field 0 n (le_bytes n v) = v"
  using unpack_le_bytes[of "[]" 0 v n "[]"] by simp

lemma unpack_pack_header:
  assumes "header_in_range h"
  shows "unpack_header (pack_header h) = Inr h"
proof -
  note r = assms[unfolded header_in_range_def, simplified]
  have len: "length (pack_header h) = header_size"
    using r by (simp add: pack_header_def header_size_def)
  show ?thesis
    unfolding unpack_header_def len
    unfolding pack_header_def
    using r by (simp add: slice_def unpack_field_skip unpack_field_head unpack_field_last
      del: le_bytes.simps)
qed

lemma unpack_header_range: "unpack_header b = Inr h \<Longrightarrow> header_in_range h"
  using unpack_field_bound[of _ 2 b] unpack_field_bound[of _ 4 b]
  by (auto simp: unpack_header_def header_in_range_def header_size_def split: if_splits)

section \<open>What a file that opens satisfies\<close>

lemma keeps_starts_mod [keeps_rule]:
  "keeps starts_distinct (modE (\<lambda>s. s\<lparr>ole_fat := g1 s\<rparr>))"
  "keeps starts_distinct (modE (\<lambda>s. s\<lparr>ole_minifat := g2 s\<rparr>))"
  "keeps starts_distinct (modE (\<lambda>s. s\<lparr>ministream := g3 s\<rparr>))"
  "keeps starts_distinct (modE (\<lambda>s. s\<lparr>nb_sect := g4 s\<rparr>))"
  "keeps starts_distinct (modE (\<lambda>s. s\<lparr>direntries := g5 s\<rparr>))"
  "keeps starts_distinct (modE (\<lambda>s. s\<lparr>directory_fp := g6 s, direntries := g7 s\<rparr>))"
  "keeps starts_distinct (modE (\<lambda>s. s\<lparr>ministream := g8 s, minifatsect := g9 s\<rparr>))"
  "keeps starts_distinct (modE (\<lambda>s. s\<lparr>sectorsize := g10 s, minisectorsize := g11 s, minisectorcutoff := g12 s\<rparr>))"
  "keeps starts_distinct (modE (\<lambda>s. s\<lparr>csectFat := g13 s, csectMiniFat := g14 s, sectDifStart := g15 s, csectDif := g16 s\<rparr>))"
  "keeps starts_distinct (modE (upd_entry i f))"
  "keeps starts_distinct (modE (\<lambda>s. upd_entry i (f' s) s))"
  by (simp_all add: keeps_def starts_distinct_def upd_entry_def)

lemma keeps_starts_loadfat [keeps_rule]: "keeps starts_distinct (loadfat h)"
  unfolding keeps_def
proof (intro allI impI)
  fix s assume "starts_distinct s"
  with fat_frame_fields(7,8)[OF keeps_frameI[OF keeps_loadfat, of s h]]
  show "starts_distinct (snd (loadfat h s))" by (simp add: starts_distinct_def)
qed

lemma keeps_open_fat [keeps_rule]: "keeps P (open_fat i n)"
  by (simp add: open_fat_def keeps_def)

lemma keeps_starts_ole_open [keeps_rule]: "keeps starts_distinct (ole_open i n f)"
  unfolding ole_open_def load_ministream_def loadminifat_def Let_def
  by (auto intro!: keeps_rule split: option.split)

lemma keeps_starts_load_direntry [keeps_rule]: "keeps starts_distinct (load_direntry i)"
  unfolding load_direntry_def by (auto intro!: keeps_rule split: option.split)

lemma keeps_starts_add_kid [keeps_rule]: "keeps starts_distinct (add_kid p c)"
  unfolding add_kid_def Let_def by (auto intro!: keeps_rule)

lemma keeps_starts_tree [keeps_rule]:
  "keeps starts_distinct (append_kids fuel p c)"
  "keeps starts_distinct (build_storage_tree fuel p)"
  by (induction fuel p c and fuel p rule: append_kids_build_storage_tree.induct)
     (auto simp: sort_kids_def intro!: keeps_rule)

lemma keeps_starts_check_header [keeps_rule]: "keeps starts_distinct (check_header h)"
  unfolding check_header_def by (intro keeps_rule) auto

lemma keeps_starts_loaddirectory [keeps_rule]: "keeps starts_distinct (loaddirectory fuel i)"
  unfolding loaddirectory_def by (intro keeps_rule)

lemma ole_open_file_starts: "starts_distinct (new_ole lvl)"
  by (simp add: starts_distinct_def new_ole_def)

lemma keeps_starts_reset: "keeps starts_distinct
    (modE (\<lambda>s. s\<lparr>ole_fp := fp, ole_writable := w, used_streams_fat := [], used_streams_minifat := []\<rparr>))"
  by (simp add: keeps_def starts_distinct_def)

lemma keeps_starts_open_file: "keeps starts_distinct (ole_open_file fs fuel f w)"
  unfolding ole_open_file_def open_tables_def Let_def split_def
  by (intro keeps_rule keeps_starts_reset) auto

text \<open>The directory: in the strict mode its names are unambiguous once it is loaded.\<close>

lemma ole_open_level [keeps_rule]: "keeps (\<lambda>s. raise_defects_level s = L) (ole_open i n f)"
  unfolding ole_open_def load_ministream_def loadminifat_def Let_def
  by (auto intro!: keeps_rule keeps_modE simp: issue_blind_def split: option.split)

lemma dir_inv_fresh: "dir_inv (s\<lparr>directory_fp := g, direntries := replicate n None\<rparr>)"
  by (auto simp: dir_inv_def entry_of_def)

lemma loaddirectory_dir_inv:
  assumes "raise_defects_level s \<le> DEFECT_INCORRECT" and "loaddirectory fuel i s = (Inr (), t)"
  shows "dir_inv t" and "entry_of t 0 \<noteq> None"
proof -
  from assms(2) obtain st u d v where o1: "ole_open i UNKNOWN_SIZE False s = (Inr st, u)"
    and ld: "load_direntry 0 (u\<lparr>directory_fp := st, direntries := replicate (strm_size st div 128) None\<rparr>)
       = (Inr d, v)"
    and bt: "build_storage_tree fuel 0 v = (Inr (), t)"
    by (auto simp: loaddirectory_def bindE_Inr_iff)
  have lvl: "raise_defects_level u = raise_defects_level s"
    using keepsD[OF ole_open_level, of s "raise_defects_level s" i UNKNOWN_SIZE False] o1 by simp
  let ?u = "u\<lparr>directory_fp := st, direntries := replicate (strm_size st div 128) None\<rparr>"
  have "tree_inv (raise_defects_level s) {} ?u"
    using dir_inv_fresh lvl by (simp add: tree_inv_def)
  from tree_inv_load[OF this assms(1) ld]
  have "tree_inv (raise_defects_level s) {(0, de_name d)} v" by simp
  from keepsD[OF keeps_tree_inv(2)[OF assms(1)] this, of fuel 0]
  have "tree_inv (raise_defects_level s) {(0, de_name d)} t" by (simp add: bt)
  then show "dir_inv t" and "entry_of t 0 \<noteq> None" by (auto simp: tree_inv_def)
qed

text \<open>The invariants of a file that has been opened.\<close>

lemma whenE_Inr: "whenE b m s = (Inr (), t) \<longleftrightarrow> (if b then m s = (Inr (), t) else t = s)"
  by auto

lemma keeps_level_check [keeps_rule]: "keeps (\<lambda>s. raise_defects_level s = L) (check_duplicate_stream i mf)"
  by (auto simp: keeps_def check_duplicate_stream_def raise_defect_def)

lemma keeps_level_loadfat [keeps_rule]: "keeps (\<lambda>s. raise_defects_level s = L) (loadfat h)"
  unfolding keeps_def
  using fat_frame_fields(1)[OF keeps_frameI[OF keeps_loadfat]] by auto

lemma issue_blind_level [simp]: "issue_blind (\<lambda>s. raise_defects_level s = L)"
  by (simp add: issue_blind_def)

lemma keeps_level_check_header [keeps_rule]: "keeps (\<lambda>s. raise_defects_level s = L) (check_header h)"
  unfolding check_header_def by (intro keeps_rule) auto

lemma keeps_level_mod [keeps_rule]:
  "(\<And>s. raise_defects_level (h s) = raise_defects_level s) \<Longrightarrow>
     keeps (\<lambda>s. raise_defects_level s = L) (modE h)"
  by (simp add: keeps_def)

lemma bindE_keeps_Inr:
  assumes "bindE m f s = (Inr y, t)" and "keeps P m" and "P s"
  obtains x u where "m s = (Inr x, u)" "P u" "f x u = (Inr y, t)"
  using assms keepsD[OF assms(2,3)] by (auto simp: bindE_Inr_iff)

lemma keeps_level_prefix: "keeps (\<lambda>s. raise_defects_level s = L) (open_tables fs f w)"
  unfolding open_tables_def Let_def split_def by (intro keeps_rule) auto

lemma dir_inv_stream_attrs: "dir_inv (s\<lparr>ministream := a, minifatsect := b\<rparr>) = dir_inv s"
  by (rule dir_inv_cong) (simp add: entry_of_def fun_eq_iff)

lemma ole_open_file_dir_inv:
  assumes "raise_defects_level s \<le> DEFECT_INCORRECT" and "ole_open_file fs fuel f w s = (Inr (), t)"
  shows "dir_inv t" and "\<exists>r. root_entry t = Inr r" and "ministream t = Some None"
proof -
  from assms(2) obtain h u v where op: "open_tables fs f w s = (Inr h, u)"
    and ld: "loaddirectory fuel (hd_sectDirStart h) u = (Inr (), v)"
    and t: "t = v\<lparr>ministream := Some None, minifatsect := hd_MiniFatStart h\<rparr>"
    by (auto simp: ole_open_file_def bindE_Inr_iff)
  have "raise_defects_level u = raise_defects_level s"
    using keepsD[OF keeps_level_prefix, of s "raise_defects_level s" fs f w] op by simp
  with loaddirectory_dir_inv[OF _ ld] assms(1) have "dir_inv v" and "entry_of v 0 \<noteq> None"
    by simp_all
  then show "dir_inv t" and "\<exists>r. root_entry t = Inr r"
    by (auto simp: t dir_inv_stream_attrs root_entry_def entry_of_def split: list.splits option.splits)
  show "ministream t = Some None" by (simp add: t)
qed

section \<open>How deep the recursion goes\<close>

lemma sum_sectors: "(\<Sum>i<n. length (sector_at off ss fp i)) = min (n * ss) (length fp - off)"
proof (induction n)
  case (Suc n)
  have len: "length (sector_at off ss fp n) = min ss (length fp - (off + ss * n))"
    by (simp add: sector_at_def fp_read_def min.commute)
  have "min (n * ss) (length fp - off) + min ss (length fp - (off + ss * n))
      = min (Suc n * ss) (length fp - off)"
    by (simp add: min_def mult.commute, arith)
  with Suc len show ?case by simp
qed simp

lemma chain_data_le_file:
  assumes "distinct xs"
  shows "length (chain_data fp off ss xs) \<le> length fp"
proof -
  have "length (chain_data fp off ss xs) = (\<Sum>i\<leftarrow>xs. length (sector_at off ss fp i))"
    by (simp add: chain_data_def length_concat comp_def)
  also have "\<dots> = (\<Sum>i\<in>set xs. length (sector_at off ss fp i))"
    using assms by (simp add: sum_list_distinct_conv_sum_set)
  also have "\<dots> \<le> (\<Sum>i<Suc (Max (insert 0 (set xs))). length (sector_at off ss fp i))"
    by (intro sum_mono2) (auto simp: less_Suc_eq_le)
  also have "\<dots> \<le> length fp" by (simp only: sum_sectors)
  finally show ?thesis .
qed

lemma ole_stream_unknown_bound:
  assumes "0 < ss" and "ole_stream fp sect UNKNOWN_SIZE off ss fat = Inr st"
  shows "strm_size st \<le> length fp"
  using assms ole_stream_unknown[OF assms(1), of fp sect off fat st]
  by (auto intro: chain_data_le_file[OF fat_chain_distinct])

lemma rt_free_check_header [rt_rule]: "rt_free (check_header h)"
  unfolding check_header_def by (intro rt_rule)

lemma rt_free_getsect [rt_rule]: "rt_free (getsect i)"
  unfolding getsect_def Let_def by (intro rt_rule)

lemma not_rt_lifted [simp]:
  "\<not> is_rt (sect2array b)" "\<not> is_rt (py_index xs i)" "\<not> is_rt (unpack_header b)"
  "\<not> is_rt (Inl (ValueError m))" "\<not> is_rt (Inl (TypeError m))" "\<not> is_rt (Inl (UnboundLocalError m))"
  "\<not> is_rt (Inl (ZeroDivisionError m))" "\<not> is_rt (open_source fs f w)" "\<not> is_rt (root_entry s)"
  by (auto simp: is_rt_def sect2array_def py_index_def unpack_header_def open_source_def root_entry_def
      Let_def split: source.splits option.splits list.splits)

lemma is_rt_sbind: "\<not> is_rt r \<Longrightarrow> (\<And>x. \<not> is_rt (f x)) \<Longrightarrow> \<not> is_rt (sbind r f)"
  by (cases r) (auto simp: is_rt_def)

lemma is_rt_sbindD: "is_rt (sbind r f) \<Longrightarrow> is_rt r \<or> (\<exists>x. is_rt (f x))"
  using is_rt_sbind by blast

lemma stream_loop_not_rt [simp]: "\<not> is_rt (stream_loop fp off ss fat u n i d)"
  by (induction n arbitrary: i d) (auto simp: Let_def)

lemma ole_stream_not_rt [simp]: "\<not> is_rt (ole_stream fp sect sz off ss fat)"
  by (auto simp: ole_stream_def Let_def dest!: is_rt_sbindD split: if_splits)

lemma rt_free_loadfat_loop [rt_rule]: "rt_free (loadfat_loop xs l)"
  by (induction xs arbitrary: l) (auto simp: Let_def split: option.split intro!: rt_rule)

lemma rt_free_difat_loop [rt_rule]: "rt_free (difat_loop n i nds)"
  by (induction n arbitrary: i) (auto intro!: rt_rule)

lemma rt_free_loadfat [rt_rule]: "rt_free (loadfat h)"
  unfolding loadfat_def loadfat_sect_def load_difat_def Let_def
  by (intro rt_rule) (auto intro!: rt_rule)

lemma rt_free_open_fat [rt_rule]: "rt_free (open_fat i n)"
  unfolding open_fat_def by (intro rt_rule) simp

lemma rt_free_ole_open [rt_rule]: "rt_free (ole_open i n f)"
  unfolding ole_open_def load_ministream_def loadminifat_def Let_def
  by (auto intro!: rt_rule split: option.split)

lemma rt_free_tables [rt_rule]: "rt_free (open_tables fs f w)"
  unfolding open_tables_def Let_def split_def by (intro rt_rule) simp_all

text \<open>
  A directory stream cannot be larger than the file, so the number of entries, and with it the
  depth of the walk in the strict mode, is bounded by the file's size.
\<close>

lemma loaddirectory_not_rt:
  assumes lvl: "raise_defects_level s \<le> DEFECT_INCORRECT" and ms: "ministream s = None"
    and ss: "0 < sectorsize s" and fuel: "2 * (length (ole_fp s) div 128) + 2 \<le> fuel"
  shows "\<not> is_rt (fst (loaddirectory fuel i s))"
  unfolding loaddirectory_def
proof (rule bindE_not_rt)
  show "\<not> is_rt (fst (ole_open i UNKNOWN_SIZE False s))"
    using rt_free_ole_open by (simp add: rt_free_def)
  fix st u assume op: "ole_open i UNKNOWN_SIZE False s = (Inr st, u)"
  then have str: "ole_stream (ole_fp s) i UNKNOWN_SIZE (sectorsize s) (sectorsize s) (ole_fat s) = Inr st"
    and u: "u = s"
    using ms by (auto simp: ole_open_def open_fat_def bindE_Inr_iff split: if_splits)
  let ?v = "u\<lparr>directory_fp := st, direntries := replicate (strm_size st div 128) None\<rparr>"
  have n: "2 * unloaded ?v + 2 \<le> fuel"
    using div_le_mono[OF ole_stream_unknown_bound[OF ss str], of 128] fuel by (simp add: unloaded_def)
  have "\<not> is_rt (fst (bindE (load_direntry 0) (\<lambda>_. build_storage_tree fuel 0) ?v))"
  proof (rule bindE_not_rt)
    show "\<not> is_rt (fst (load_direntry 0 ?v))"
      using rt_free_load_direntry by (simp add: rt_free_def)
    fix d w assume "load_direntry 0 ?v = (Inr d, w)"
    from shrinks_step[OF keeps_load_direntry this] lvl n u
    show "\<not> is_rt (fst (build_storage_tree fuel 0 w))"
      by (intro tree_enough_fuel(2)) auto
  qed
  then show "\<not> is_rt (fst (bindE (modE (\<lambda>s. s\<lparr>directory_fp := st,
      direntries := replicate (strm_size st div 128) None\<rparr>)) (\<lambda>_.
      bindE (load_direntry 0) (\<lambda>root_entry. build_storage_tree fuel 0)) u))" by simp
qed

text \<open>The state in which \<open>open\<close> loads the directory.\<close>

definition in_open :: "defect \<Rightarrow> bytes \<Rightarrow> bool \<Rightarrow> header \<Rightarrow> ole \<Rightarrow> bool" where
  "in_open L fp w h s \<longleftrightarrow> raise_defects_level s = L \<and> ministream s = None \<and> ole_fp s = fp
     \<and> ole_writable s = w \<and> sectorsize s = SectorSize h \<and> minisectorsize s = MiniSectorSize h
     \<and> minisectorcutoff s = hd_MiniSectorCutoff h
     \<and> nb_sect s = int ((length fp + SectorSize h - 1) div SectorSize h) - 1"

lemma keeps_in_open_check [keeps_rule]: "keeps (in_open L fp w h) (check_duplicate_stream i mf)"
  by (auto simp: keeps_def check_duplicate_stream_def raise_defect_def in_open_def)

lemma keeps_in_open_loadfat [keeps_rule]: "keeps (in_open L fp w h) (loadfat b)"
  unfolding keeps_def
proof (intro allI impI)
  fix s assume s: "in_open L fp w h s"
  from keeps_frameI[OF keeps_loadfat, of s b] obtain f "is"
    where "snd (loadfat b s) = s\<lparr>ole_fat := f, parsing_issues := is\<rparr>" by (auto simp: fat_frame_def)
  with s show "in_open L fp w h (snd (loadfat b s))" by (simp add: in_open_def)
qed

lemma keeps_ministream [keeps_rule]:
  "keeps (\<lambda>s. raise_defects_level s = L \<and> ministream s = M \<and> ole_fp s = F \<and> ole_writable s = W)
     (check_header h)"
  unfolding check_header_def
  by (intro keeps_rule) (auto simp: issue_blind_def)

lemma open_tables_Inr:
  assumes "open_tables fs f w s = (Inr h, t)" and "ministream s = None"
  shows "\<exists>fp w'. open_source fs f w = Inr (fp, w') \<and> in_open (raise_defects_level s) fp w' h t
    \<and> unpack_header (take header_size (take 512 fp)) = Inr h \<and> 512 \<le> length fp
    \<and> (\<exists>u v. check_header h u = (Inr (), v) \<and> raise_defects_level u = raise_defects_level s)"
proof -
  let ?g = "\<lambda>fp. length (take 512 fp) \<noteq> 512 \<or> take 8 (take 512 fp) \<noteq> MAGIC"
  let ?h = "\<lambda>s. s\<lparr>csectFat := hd_csectFat h, csectMiniFat := hd_csectMiniFat h,
      sectDifStart := hd_sectDifStart h, csectDif := hd_csectDif h\<rparr>"
  let ?n = "\<lambda>fp s. s\<lparr>nb_sect := int ((length fp + SectorSize h - 1) div SectorSize h) - 1,
         sectorsize := SectorSize h, minisectorsize := MiniSectorSize h,
         minisectorcutoff := hd_MiniSectorCutoff h\<rparr>"
  from assms(1) obtain fp w' u0 u2 u3 u4 u5 where src: "open_source fs f w = Inr (fp, w')"
    and g: "whenE (?g fp) (raise_defect DEFECT_FATAL (IOError ''not an OLE2 structured storage file''))
      (s\<lparr>ole_fp := fp, ole_writable := w', used_streams_fat := [], used_streams_minifat := []\<rparr>)
      = (Inr (), u0)"
    and up: "unpack_header (take header_size (take 512 fp)) = Inr h"
    and ck: "check_header h (?h u0) = (Inr (), u2)"
    and d3: "check_duplicate_stream (hd_sectDirStart h) False
      (?n fp u2) = (Inr (), u3)"
    and d4: "whenE (hd_csectMiniFat h \<noteq> 0) (check_duplicate_stream (hd_MiniFatStart h) False) u3
      = (Inr (), u4)"
    and d5: "whenE (hd_csectDif h \<noteq> 0) (check_duplicate_stream (hd_sectDifStart h) False) u4
      = (Inr (), u5)"
    and lf: "loadfat (take 512 fp) u5 = (Inr (), t)"
    by (simp only: open_tables_def Let_def bindE_Inr_iff) (simp add: bindE_Inr_iff split: prod.splits, blast)
  have len: "512 \<le> length fp"
    and u0: "u0 = s\<lparr>ole_fp := fp, ole_writable := w', used_streams_fat := [], used_streams_minifat := []\<rparr>"
    using g by (auto simp: guard_Inr_iff split: if_splits)
  have lvl: "raise_defects_level (?h u0) = raise_defects_level s" by (simp add: u0)
  have "raise_defects_level u2 = raise_defects_level s \<and> ministream u2 = None \<and> ole_fp u2 = fp
      \<and> ole_writable u2 = w'"
    using keepsD[OF keeps_ministream, of "?h u0" "raise_defects_level s" None fp w' h] ck assms(2)
    by (simp add: u0)
  then have "in_open (raise_defects_level s) fp w' h (?n fp u2)" by (simp add: in_open_def)
  from keepsD[OF keeps_in_open_check this, of "hd_sectDirStart h" False] d3
  have "in_open (raise_defects_level s) fp w' h u3" by simp
  from keepsD[OF keeps_whenE[OF keeps_in_open_check] this] d4
  have "in_open (raise_defects_level s) fp w' h u4" by (metis (no_types) snd_conv)
  from keepsD[OF keeps_whenE[OF keeps_in_open_check] this] d5
  have "in_open (raise_defects_level s) fp w' h u5" by (metis (no_types) snd_conv)
  from keepsD[OF keeps_in_open_loadfat this, of "take 512 fp"] lf
  have "in_open (raise_defects_level s) fp w' h t" by simp
  with src len up ck lvl show ?thesis by blast
qed

lemma ole_open_file_not_rt:
  assumes lvl: "raise_defects_level s \<le> DEFECT_INCORRECT" and ms: "ministream s = None"
    and src: "open_source fs f w = Inr (fp, w')" and fuel: "2 * (length fp div 128) + 2 \<le> fuel"
  shows "\<not> is_rt (fst (ole_open_file fs fuel f w s))"
  unfolding ole_open_file_def
proof (rule bindE_not_rt)
  show "\<not> is_rt (fst (open_tables fs f w s))" using rt_free_tables by (simp add: rt_free_def)
  fix h t assume "open_tables fs f w s = (Inr h, t)"
  from open_tables_Inr[OF this ms] src
  have t: "in_open (raise_defects_level s) fp w' h t" by auto
  show "\<not> is_rt (fst (bindE (loaddirectory fuel (hd_sectDirStart h)) (\<lambda>_.
      modE (\<lambda>s. s\<lparr>ministream := Some None, minifatsect := hd_MiniFatStart h\<rparr>)) t))"
  proof (rule bindE_not_rt)
    show "\<not> is_rt (fst (loaddirectory fuel (hd_sectDirStart h) t))"
      using t lvl fuel by (intro loaddirectory_not_rt) (auto simp: in_open_def SectorSize_def)
  qed simp
qed

end
