(* ===== verification/OleWrite.thy ===== *)
theory OleWrite
  imports OleFile
begin

text \<open>
  Replacing a stream: \<open>write_stream\<close> of olefile.py follows the chain of the stream and writes
  one padded sector per step. The lemmas give the file it leaves as a sequence of sector writes,
  so that the interface \<open>file_sectors\<close> yields what a later read returns, and show the two
  weak spots of the writer: a start outside the FAT is written to before it is rejected, and
  \<open>write_sect\<close> does not reject data larger than a sector.
\<close>

section \<open>Padded sectors\<close>

definition pad_sector :: "nat \<Rightarrow> bytes \<Rightarrow> bytes" where
  "pad_sector ss d = d @ replicate (ss - length d) (char_of (0::nat))"

fun sector_blocks :: "nat \<Rightarrow> nat \<Rightarrow> bytes \<Rightarrow> bytes list" where
  "sector_blocks ss 0 d = []"
| "sector_blocks ss (Suc n) d = pad_sector ss (take ss d) # sector_blocks ss n (drop ss d)"

lemma length_pad_sector: "length d \<le> ss \<Longrightarrow> length (pad_sector ss d) = ss"
  by (simp add: pad_sector_def)

lemma length_sector_blocks [simp]: "length (sector_blocks ss n d) = n"
  by (induction n arbitrary: d) simp_all

lemma sector_blocks_width: "b \<in> set (sector_blocks ss n d) \<Longrightarrow> length b = ss"
  by (induction n arbitrary: d) (auto simp: length_pad_sector)

lemma concat_sector_blocks:
  "length d \<le> n * ss \<Longrightarrow> take (length d) (concat (sector_blocks ss n d)) = d"
proof (induction n arbitrary: d)
  case 0
  then show ?case by simp
next
  case (Suc n)
  show ?case
  proof (cases "length d \<le> ss")
    case True
    then show ?thesis by (simp add: pad_sector_def)
  next
    case False
    then have "length (drop ss d) \<le> n * ss" using Suc.prems by simp
    from Suc.IH[OF this] False show ?thesis
      by (simp add: pad_sector_def min_def)
  qed
qed

section \<open>One sector\<close>

lemma write_sect_fits:
  assumes "length d \<le> sectorsize s"
  shows "write_sect i d [char_of (0::nat)] s =
    (if SEEK_LIMIT \<le> sectorsize s * (i + 1) then (Inl (IOError ''OLE sector index out of range''), s)
     else if \<not> ole_writable s then (Inl (IOError ''File not open for writing''), s)
     else (Inr (), s\<lparr>ole_fp := put_sector (sectorsize s) (sectorsize s) i (pad_sector (sectorsize s) d)
                      (ole_fp s)\<rparr>))"
proof -
  have rep: "concat (replicate n [x]) = replicate n x" for n and x :: char
    by (induction n) simp_all
  have off: "sectorsize s * (i + 1) = sectorsize s + sectorsize s * i" by simp
  have full: "pad_sector (sectorsize s) d = d" if "\<not> length d < sectorsize s"
    using that assms by (simp add: pad_sector_def)
  show ?thesis
    unfolding write_sect_def off
    using full by (auto simp: whenE_def Let_def rep pad_sector_def put_sector_def)
qed

text \<open>The length test of \<open>write_sect\<close> is the same twice, so nothing is ever too large.\<close>

lemma write_sect_oversize:
  assumes "sectorsize s < length d" and "ole_writable s" and "sectorsize s * (i + 1) < SEEK_LIMIT"
  shows "write_sect i d [p] s
    = (Inr (), s\<lparr>ole_fp := fp_write (ole_fp s) (sectorsize s * (i + 1)) d\<rparr>)"
proof -
  have "whenE (SEEK_LIMIT \<le> sectorsize s * (i + 1)) m = retE ()" for m :: "(ole, unit) act"
    using assms(3) by (simp add: whenE_def)
  with assms show ?thesis by (simp add: write_sect_def)
qed

section \<open>The chain of a stream\<close>

text \<open>The sectors from one index to another along the FAT.\<close>

fun fat_path :: "nat list \<Rightarrow> nat \<Rightarrow> nat list \<Rightarrow> nat \<Rightarrow> bool" where
  "fat_path fat a [] b \<longleftrightarrow> a = b"
| "fat_path fat a (x # xs) b \<longleftrightarrow> x = a \<and> x < length fat \<and> fat_path fat (fat ! x) xs b"

lemma fat_path_chain:
  "fat_path fat a xs ENDOFCHAIN \<Longrightarrow> \<forall>w\<in>set fat. w < 2 ^ 32 \<Longrightarrow> length fat \<le> ENDOFCHAIN \<Longrightarrow>
     fat_chain fat a xs"
  by (induction xs arbitrary: a) (auto intro: nth_mem)

lemma fat_chain_path:
  "fat_chain fat a xs \<Longrightarrow> \<forall>w\<in>set fat. w < 2 ^ 32 \<Longrightarrow> fat_path fat a xs ENDOFCHAIN"
  by (induction rule: fat_chain.induct) (auto intro: nth_mem)

text \<open>What is left of the data at iteration \<open>i\<close>, and the sector it writes.\<close>

lemma this_sector:
  assumes "i < nb" and "length data \<le> nb * ss" and "(nb - 1) * ss < length data"
  shows "(if i < nb - 1 then slice (i * ss) ((i + 1) * ss) data else drop (i * ss) data)
      = take ss (drop (i * ss) data)"
    and "i < nb - 1 \<Longrightarrow> length (slice (i * ss) ((i + 1) * ss) data) = ss"
proof -
  have "i < nb - 1 \<Longrightarrow> (i + 1) * ss \<le> length data"
  proof -
    assume "i < nb - 1"
    then have "(i + 1) * ss \<le> (nb - 1) * ss" by (intro mult_le_mono1) simp
    with assms show ?thesis by auto
  qed
  then show "i < nb - 1 \<Longrightarrow> length (slice (i * ss) ((i + 1) * ss) data) = ss"
    by (simp add: algebra_simps)
  show "(if i < nb - 1 then slice (i * ss) ((i + 1) * ss) data else drop (i * ss) data)
      = take ss (drop (i * ss) data)"
  proof (cases "i < nb - 1")
    case False
    then have "nb = i + 1" using assms(1) by simp
    then have "length (drop (i * ss) data) \<le> ss" using assms(2) by (simp add: algebra_simps)
    with False show ?thesis by simp
  qed (simp add: slice_def algebra_simps)
qed

definition put_all :: "nat \<Rightarrow> (nat \<times> bytes) list \<Rightarrow> bytes \<Rightarrow> bytes" where
  "put_all ss ibs fp = fold (\<lambda>(i, b). put_sector ss ss i b) ibs fp"

lemma put_all_simps [simp]:
  "put_all ss [] fp = fp"
  "put_all ss ((i, b) # ibs) fp = put_all ss ibs (put_sector ss ss i b fp)"
  by (simp_all add: put_all_def)

lemma write_loop_step:
  assumes "i < nb" and "length data \<le> nb * sectorsize s" and "(nb - 1) * sectorsize s < length data"
  shows "write_loop (Suc n) i nb data x s =
    bindE (write_sect x (take (sectorsize s) (drop (i * sectorsize s) data)) [char_of (0::nat)]) (\<lambda>_.
      withE (\<lambda>s. if x < length (ole_fat s) then write_loop n (i + 1) nb data (ole_fat s ! x)
        else raiseE (IOError ''incorrect OLE FAT, sector index out of range''))) s"
proof -
  note ts = this_sector[OF assms]
  have le: "i * sectorsize s \<le> length data"
  proof -
    have "i * sectorsize s \<le> (nb - 1) * sectorsize s" using assms(1) by (intro mult_le_mono1) simp
    with assms(3) show ?thesis by linarith
  qed
  then obtain m where "length data = i * sectorsize s + m" by (auto simp: le_iff_add)
  then have "length (drop (i * sectorsize s) data) mod sectorsize s = length data mod sectorsize s"
    by simp
  with ts have ok: "(if i < nb - 1
      then length (take (sectorsize s) (drop (i * sectorsize s) data)) \<noteq> sectorsize s
      else length (take (sectorsize s) (drop (i * sectorsize s) data)) mod sectorsize s
        \<noteq> length data mod sectorsize s) = False"
    by (cases "i < nb - 1") (simp_all only: if_True if_False simp_thms)
  show ?thesis
    by (simp only: write_loop.simps withE_simp Let_def ts(1) ok act_simps bindE_simps)
qed

lemma write_loop_step_cases:
  fixes a :: nat
  assumes "i < nb" and "length data \<le> nb * ss" and "(nb - 1) * ss < length data" and "sectorsize s = ss"
  defines "t \<equiv> s\<lparr>ole_fp := put_sector ss ss a (pad_sector ss (take ss (drop (i * ss) data))) (ole_fp s)\<rparr>"
  shows "write_loop (Suc n) i nb data a s =
    (if SEEK_LIMIT \<le> ss * (a + 1) then (Inl (IOError ''OLE sector index out of range''), s)
     else if \<not> ole_writable s then (Inl (IOError ''File not open for writing''), s)
     else if a < length (ole_fat s) then write_loop n (i + 1) nb data (ole_fat s ! a) t
     else (Inl (IOError ''incorrect OLE FAT, sector index out of range''), t))"
proof -
  have w: "write_sect a (take ss (drop (i * ss) data)) [char_of (0::nat)] s =
    (if SEEK_LIMIT \<le> ss * (a + 1) then (Inl (IOError ''OLE sector index out of range''), s)
     else if \<not> ole_writable s then (Inl (IOError ''File not open for writing''), s)
     else (Inr (), t))"
    using write_sect_fits[of "take ss (drop (i * ss) data)" s a] assms(4) by (simp add: t_def)
  note st = write_loop_step[of i nb data s n a, unfolded assms(4), OF assms(1-3)]
  show ?thesis unfolding st by (simp add: bindE_def w) (simp add: t_def)
qed

lemma write_loop_Inr:
  assumes "n = nb - i" and "i \<le> nb" and "length data \<le> nb * ss" and "(nb - 1) * ss < length data"
    and "sectorsize s = ss"
  shows "write_loop n i nb data a s = (Inr e, t) \<longleftrightarrow>
    (\<exists>xs. length xs = n \<and> fat_path (ole_fat s) a xs e \<and> (xs \<noteq> [] \<longrightarrow> ole_writable s)
      \<and> (\<forall>x\<in>set xs. ss * (x + 1) < SEEK_LIMIT)
      \<and> t = s\<lparr>ole_fp := put_all ss (zip xs (sector_blocks ss n (drop (i * ss) data))) (ole_fp s)\<rparr>)"
  using assms
proof (induction n arbitrary: i a s)
  case 0
  then show ?case by auto
next
  case (Suc n)
  let ?d = "take ss (drop (i * ss) data)"
  let ?s = "s\<lparr>ole_fp := put_sector ss ss a (pad_sector ss ?d) (ole_fp s)\<rparr>"
  have i: "i < nb" "n = nb - (i + 1)" "i + 1 \<le> nb" using Suc.prems by auto
  note step = write_loop_step_cases[OF i(1) Suc.prems(3-5), of n a]
  have IH: "write_loop n (i + 1) nb data (ole_fat s ! a) ?s = (Inr e, t) \<longleftrightarrow>
    (\<exists>xs. length xs = n \<and> fat_path (ole_fat s) (ole_fat s ! a) xs e \<and> (xs \<noteq> [] \<longrightarrow> ole_writable s)
      \<and> (\<forall>x\<in>set xs. ss * (x + 1) < SEEK_LIMIT)
      \<and> t = ?s\<lparr>ole_fp := put_all ss (zip xs (sector_blocks ss n (drop ((i + 1) * ss) data))) (ole_fp ?s)\<rparr>)"
    using Suc.IH[OF i(2,3) Suc.prems(3,4), of ?s "ole_fat s ! a"] Suc.prems(5) by simp
  have dr: "drop ss (drop (i * ss) data) = drop ((i + 1) * ss) data"
    by (simp add: algebra_simps)
  have blk: "put_all ss (zip (a # ys) (sector_blocks ss (Suc n) (drop (i * ss) data))) (ole_fp s)
      = put_all ss (zip ys (sector_blocks ss n (drop ((i + 1) * ss) data))) (ole_fp ?s)" for ys
    by (simp only: sector_blocks.simps zip_Cons_Cons put_all_simps dr) simp
  have fp: "?s\<lparr>ole_fp := f\<rparr> = s\<lparr>ole_fp := f\<rparr>" for f by simp
  show ?case (is "?L = (\<exists>xs. ?R xs)")
  proof
    assume ?L
    then have a: "ss * (a + 1) < SEEK_LIMIT" "ole_writable s" "a < length (ole_fat s)"
      and rec: "write_loop n (i + 1) nb data (ole_fat s ! a) ?s = (Inr e, t)"
      unfolding step by (auto split: if_splits)
    from rec[unfolded IH fp] obtain ys where "length ys = n" "fat_path (ole_fat s) (ole_fat s ! a) ys e"
      "\<forall>x\<in>set ys. ss * (x + 1) < SEEK_LIMIT"
      "t = s\<lparr>ole_fp := put_all ss (zip ys (sector_blocks ss n (drop ((i + 1) * ss) data))) (ole_fp ?s)\<rparr>"
      by blast
    then have "?R (a # ys)" unfolding blk using a by simp
    then show "\<exists>xs. ?R xs" ..
  next
    assume "\<exists>xs. ?R xs"
    then obtain xs where xs: "?R xs" ..
    then obtain ys where ys: "xs = a # ys" by (cases xs) auto
    from xs have a: "ss * (a + 1) < SEEK_LIMIT" "ole_writable s" "a < length (ole_fat s)"
      by (simp_all add: ys)
    have "write_loop n (i + 1) nb data (ole_fat s ! a) ?s = (Inr e, t)"
      unfolding IH fp by (rule exI[of _ ys]) (use xs[unfolded ys blk] in simp)
    with a show ?L unfolding step by simp
  qed
qed

section \<open>Replacing a stream and reading it back\<close>

definition nb_sectors :: "nat \<Rightarrow> nat \<Rightarrow> nat" where
  "nb_sectors ss sz = (sz + (ss - 1)) div ss"

lemma nb_sectors_bounds:
  assumes "0 < ss"
  shows "sz \<le> nb_sectors ss sz * ss" and "0 < sz \<Longrightarrow> (nb_sectors ss sz - 1) * ss < sz"
    and "sz = 0 \<Longrightarrow> nb_sectors ss sz = 0"
proof -
  let ?q = "nb_sectors ss sz"
  have q: "?q * ss + (sz + (ss - 1)) mod ss = sz + (ss - 1)"
    by (simp only: nb_sectors_def div_mult_mod_eq)
  moreover have r: "(sz + (ss - 1)) mod ss < ss" using assms by simp
  ultimately show "sz \<le> ?q * ss" by linarith
  show "sz = 0 \<Longrightarrow> ?q = 0" using assms by (simp add: nb_sectors_def)
  assume "0 < sz"
  show "(?q - 1) * ss < sz"
  proof (cases ?q)
    case 0
    with \<open>0 < sz\<close> show ?thesis by simp
  next
    case (Suc n)
    with q assms show ?thesis by simp
  qed
qed

lemma write_stream_Inr:
  assumes ss: "sectorsize s = ss" "0 < ss"
  shows "write_stream p data s = (Inr (), t) \<longleftrightarrow>
    (\<exists>d xs. entry_at s p = Inr d \<and> de_entry_type d = STGTY_STREAM \<and> de_size d = length data
      \<and> minisectorcutoff s \<le> length data \<and> length xs = nb_sectors ss (length data)
      \<and> fat_path (ole_fat s) (de_isectStart d) xs ENDOFCHAIN \<and> (xs \<noteq> [] \<longrightarrow> ole_writable s)
      \<and> (\<forall>x\<in>set xs. ss * (x + 1) < SEEK_LIMIT)
      \<and> t = s\<lparr>ole_fp := put_all ss (zip xs (sector_blocks ss (nb_sectors ss (length data)) data)) (ole_fp s)\<rparr>)"
    (is "?L \<longleftrightarrow> (\<exists>d. \<exists>xs. ?R d xs)")
proof -
  let ?n = "nb_sectors ss (length data)"
  have loop: "write_loop ?n 0 ?n data a s = (Inr e, t) \<longleftrightarrow>
    (\<exists>xs. length xs = ?n \<and> fat_path (ole_fat s) a xs e \<and> (xs \<noteq> [] \<longrightarrow> ole_writable s)
      \<and> (\<forall>x\<in>set xs. ss * (x + 1) < SEEK_LIMIT)
      \<and> t = s\<lparr>ole_fp := put_all ss (zip xs (sector_blocks ss ?n data)) (ole_fp s)\<rparr>)" for a e
  proof (cases "data = []")
    case True
    then have "?n = 0" using nb_sectors_bounds(3)[OF ss(2)] by simp
    then show ?thesis by auto
  next
    case False
    then show ?thesis
      using write_loop_Inr[of ?n ?n 0 data ss s a e t] nb_sectors_bounds[OF ss(2), of "length data"] ss
      by simp
  qed
  have L: "?L \<longleftrightarrow> (\<exists>d. entry_at s p = Inr d \<and> de_entry_type d = STGTY_STREAM \<and> de_size d = length data
      \<and> minisectorcutoff s \<le> length data
      \<and> write_loop ?n 0 ?n data (de_isectStart d) s = (Inr ENDOFCHAIN, t))"
  proof (cases "entry_at s p")
    case (Inr d)
    then show ?thesis
      using ss by (auto simp: write_stream_def nb_sectors_def bindE_Inr_iff Let_def)
  qed (simp add: write_stream_def)
  show ?thesis unfolding L loop by blast
qed

lemma write_stream_sectors:
  assumes ss: "sectorsize s = ss" "0 < ss" and w: "write_stream p data s = (Inr (), t)"
  obtains d xs where "entry_at s p = Inr d" "de_entry_type d = STGTY_STREAM" "de_size d = length data"
    "minisectorcutoff s \<le> length data" "fat_path (ole_fat s) (de_isectStart d) xs ENDOFCHAIN"
    "length xs = nb_sectors ss (length data)" "\<forall>x\<in>set xs. ss * (x + 1) < SEEK_LIMIT"
    "\<exists>fp. t = s\<lparr>ole_fp := fp\<rparr>"
    "distinct xs \<Longrightarrow> map (sector_at ss ss (ole_fp t)) xs
        = sector_blocks ss (nb_sectors ss (length data)) data"
    "\<And>j. j \<notin> set xs \<Longrightarrow> sector_fits ss ss (ole_fp s) j \<Longrightarrow>
        sector_at ss ss (ole_fp t) j = sector_at ss ss (ole_fp s) j"
proof -
  let ?n = "nb_sectors ss (length data)"
  let ?bs = "sector_blocks ss ?n data"
  from w[unfolded write_stream_Inr[OF ss]] obtain d xs where R:
    "entry_at s p = Inr d" "de_entry_type d = STGTY_STREAM" "de_size d = length data"
    "minisectorcutoff s \<le> length data" "length xs = ?n"
    "fat_path (ole_fat s) (de_isectStart d) xs ENDOFCHAIN" "\<forall>x\<in>set xs. ss * (x + 1) < SEEK_LIMIT"
    and t: "t = s\<lparr>ole_fp := put_all ss (zip xs ?bs) (ole_fp s)\<rparr>" by blast
  have width: "list_all (\<lambda>(i, b). length b = ss) (zip xs ?bs)"
    by (auto simp: list_all_iff dest: set_zip_rightD sector_blocks_width)
  have maps: "map fst (zip xs ?bs) = xs" "map snd (zip xs ?bs) = ?bs" using R(5) by simp_all
  have fsts: "fst ` set (zip xs ?bs) = set xs" using maps(1) by (metis list.set_map)
  show thesis
  proof (rule that[OF R(1-4,6) R(5) R(7)])
    show "\<exists>fp. t = s\<lparr>ole_fp := fp\<rparr>" using t by blast
    show "map (sector_at ss ss (ole_fp t)) xs = ?bs" if "distinct xs"
      using file_sectors.rd_wr_all[OF width, of ss "ole_fp s"] that maps by (simp add: t put_all_def)
    show "sector_at ss ss (ole_fp t) j = sector_at ss ss (ole_fp s) j"
      if "j \<notin> set xs" "sector_fits ss ss (ole_fp s) j" for j
      using file_sectors.rd_wr_all_other[OF width, of j ss "ole_fp s"] that fsts
      by (simp add: t put_all_def)
  qed
qed

definition fat_ok :: "ole \<Rightarrow> bool" where
  \<comment> \<open>the table holds 32-bit numbers and is shorter than the largest of them\<close>
  "fat_ok s \<longleftrightarrow> (\<forall>w\<in>set (ole_fat s). w < 2 ^ 32) \<and> length (ole_fat s) \<le> ENDOFCHAIN"

lemma entry_at_fp [simp]: "entry_at (s\<lparr>ole_fp := fp\<rparr>) p = entry_at s p"
proof -
  have e: "entry_of (s\<lparr>ole_fp := fp\<rparr>) = entry_of s" by (simp add: entry_of_def fun_eq_iff)
  then have "find_walk (s\<lparr>ole_fp := fp\<rparr>) n ns = find_walk s n ns" for n ns
    by (induction ns arbitrary: n) (simp_all add: kids_of_def name_of_def split: option.split)
  then show ?thesis using e by (simp add: entry_at_def ole_find_def root_entry_def)
qed

lemma write_then_open:
  assumes ss: "sectorsize s = ss" "0 < ss" and w: "write_stream p data s = (Inr (), t)"
    and ok: "fat_ok s" and sz: "length data \<noteq> UNKNOWN_SIZE"
  shows "openstream p t = (Inr \<lparr>contents = data, strm_size = length data\<rparr>, t)"
proof -
  from write_stream_sectors[OF ss w] obtain d xs where d: "entry_at s p = Inr d"
    "de_entry_type d = STGTY_STREAM" "de_size d = length data" "minisectorcutoff s \<le> length data"
    and path: "fat_path (ole_fat s) (de_isectStart d) xs ENDOFCHAIN"
    and len: "length xs = nb_sectors ss (length data)"
    and seek: "\<forall>x\<in>set xs. ss * (x + 1) < SEEK_LIMIT"
    and t: "\<exists>fp. t = s\<lparr>ole_fp := fp\<rparr>"
    and secs: "distinct xs \<Longrightarrow> map (sector_at ss ss (ole_fp t)) xs
        = sector_blocks ss (nb_sectors ss (length data)) data" by metis
  let ?bs = "sector_blocks ss (nb_sectors ss (length data)) data"
  have chain: "fat_chain (ole_fat s) (de_isectStart d) xs"
    using path ok by (intro fat_path_chain) (simp_all add: fat_ok_def)
  note secs = secs[OF fat_chain_distinct[OF chain]]
  have cd: "chain_data (ole_fp t) ss ss xs = concat ?bs" by (simp add: chain_data_def secs)
  have rd: "readable (ole_fp t) ss ss (ole_fat s) x" if "x \<in> set xs" for x
  proof -
    have "sector_at ss ss (ole_fp t) x \<in> set ?bs" using that by (simp flip: secs)
    then show ?thesis using seek that by (simp add: readable_def sector_blocks_width)
  qed
  have "length (concat ?bs) = nb_sectors ss (length data) * ss"
    using length_concat_blocks[of ?bs ss] sector_blocks_width by auto
  then have "length data \<le> length (concat ?bs)" using nb_sectors_bounds(1)[OF ss(2)] by simp
  moreover have "take (length data) (concat ?bs) = data"
    using nb_sectors_bounds(1)[OF ss(2)] by (intro concat_sector_blocks)
  ultimately have "ole_stream (ole_fp t) (de_isectStart d) (length data) ss ss (ole_fat s)
      = Inr \<lparr>contents = data, strm_size = length data\<rparr>"
    unfolding ole_stream_known[OF sz ss(2)]
    using chain rd len by (intro exI[of _ xs]) (simp add: cd nb_sectors_def)
  then show ?thesis
    using d ss t by (auto simp: openstream_def ole_open_def open_fat_def)
qed

text \<open>A stream whose chain shares no sector with the one written reads as before.\<close>

lemma stream_loop_cong:
  assumes "fat_chain fat a ys" and "\<forall>y\<in>set ys. sector_at off ss fp y = sector_at off ss fp' y"
  shows "stream_loop fp off ss fat u n a acc = stream_loop fp' off ss fat u n a acc"
  using assms
proof (induction arbitrary: n acc rule: fat_chain.induct)
  case stop
  then show ?case by (cases n) auto
next
  case (link a ys)
  then show ?case by (cases n) (auto simp: sector_at_def Let_def)
qed

lemma ole_stream_cong:
  assumes "fat_chain fat a ys" and "\<forall>y\<in>set ys. sector_at off ss fp y = sector_at off ss fp' y"
  shows "ole_stream fp a sz off ss fat = ole_stream fp' a sz off ss fat"
  by (simp only: ole_stream_def Let_def stream_loop_cong[OF assms])

lemma write_keeps_others:
  assumes ss: "sectorsize s = ss" "0 < ss" and w: "write_stream p data s = (Inr (), t)"
    and ok: "fat_ok s" and d: "entry_at s p = Inr d" and e: "entry_at s q = Inr e"
    and big: "minisectorcutoff s \<le> de_size e"
    and xs: "fat_chain (ole_fat s) (de_isectStart d) xs"
    and ys: "fat_chain (ole_fat s) (de_isectStart e) ys"
    and disj: "set xs \<inter> set ys = {}" and fits: "\<forall>y\<in>set ys. sector_fits ss ss (ole_fp s) y"
  shows "fst (openstream q t) = fst (openstream q s)"
proof -
  from write_stream_sectors[OF ss w] obtain d' zs where d': "entry_at s p = Inr d'"
    and path: "fat_path (ole_fat s) (de_isectStart d') zs ENDOFCHAIN"
    and t: "\<exists>fp. t = s\<lparr>ole_fp := fp\<rparr>"
    and same: "\<And>j. j \<notin> set zs \<Longrightarrow> sector_fits ss ss (ole_fp s) j \<Longrightarrow>
        sector_at ss ss (ole_fp t) j = sector_at ss ss (ole_fp s) j" by metis
  have "fat_chain (ole_fat s) (de_isectStart d') zs"
    using path ok by (intro fat_path_chain) (simp_all add: fat_ok_def)
  then have "zs = xs" using fat_chain_unique xs d d' by auto
  then have "\<forall>y\<in>set ys. sector_at ss ss (ole_fp t) y = sector_at ss ss (ole_fp s) y"
    using same disj fits by blast
  from ole_stream_cong[OF ys this] show ?thesis
    using t e big ss by (auto simp: openstream_def ole_open_def open_fat_def)
qed

text \<open>A start that is not in the FAT is written to before it is looked up.\<close>

lemma write_out_of_fat:
  assumes d: "entry_at s p = Inr d" "de_entry_type d = STGTY_STREAM" "de_size d = length data"
    and big: "minisectorcutoff s \<le> length data" "0 < length data" and ss: "0 < sectorsize s"
    and out: "length (ole_fat s) \<le> de_isectStart d" "ole_writable s"
      "sectorsize s * (de_isectStart d + 1) < SEEK_LIMIT"
  shows "write_stream p data s = (Inl (IOError ''incorrect OLE FAT, sector index out of range''),
    s\<lparr>ole_fp := put_sector (sectorsize s) (sectorsize s) (de_isectStart d)
        (pad_sector (sectorsize s) (take (sectorsize s) data)) (ole_fp s)\<rparr>)"
proof -
  let ?n = "nb_sectors (sectorsize s) (length data)"
  note b = nb_sectors_bounds[OF ss, of "length data"]
  obtain m where m: "?n = Suc m" using b(1) big by (cases ?n) auto
  have wl: "write_loop (Suc m) 0 (Suc m) data (de_isectStart d) s
    = (Inl (IOError ''incorrect OLE FAT, sector index out of range''),
    s\<lparr>ole_fp := put_sector (sectorsize s) (sectorsize s) (de_isectStart d)
        (pad_sector (sectorsize s) (take (sectorsize s) data)) (ole_fp s)\<rparr>)"
  proof -
    have 1: "write_sect (de_isectStart d) (take (sectorsize s) data) [char_of (0::nat)] s = (Inr (),
      s\<lparr>ole_fp := put_sector (sectorsize s) (sectorsize s) (de_isectStart d)
        (pad_sector (sectorsize s) (take (sectorsize s) data)) (ole_fp s)\<rparr>)"
      using write_sect_fits[of "take (sectorsize s) data" s "de_isectStart d"] out by simp
    have 2: "write_loop (Suc m) 0 (Suc m) data (de_isectStart d) s =
      bindE (write_sect (de_isectStart d) (take (sectorsize s) data) [char_of (0::nat)]) (\<lambda>_.
      withE (\<lambda>s. if de_isectStart d < length (ole_fat s)
        then write_loop m (0 + 1) (Suc m) data (ole_fat s ! de_isectStart d)
        else raiseE (IOError ''incorrect OLE FAT, sector index out of range''))) s"
      using write_loop_step[of 0 "Suc m" data s m "de_isectStart d"] b m big
      by (simp del: write_loop.simps)
    show ?thesis unfolding 2 using out(1) by (simp add: bindE_def 1)
  qed
  have "write_stream p data s = bindE (write_loop ?n 0 ?n data (de_isectStart d)) (\<lambda>sect.
      if sect \<noteq> ENDOFCHAIN then raiseE (IOError ''incorrect last sector index in OLE stream'')
      else retE ()) s"
    using d big by (simp add: write_stream_def nb_sectors_def Let_def)
  then show ?thesis
    by (simp only: m bindE_Inl[where m = "write_loop (Suc m) 0 (Suc m) data (de_isectStart d)", OF wl])
qed

end
