(* ===== verification/OleSample.thy ===== *)
theory OleSample
  imports OleOpen OleWrite
begin

text \<open>
  A whole compound file, byte for byte: a header, one FAT sector and one directory sector with
  the root entry and one empty stream. Opening it runs every stage of \<open>open\<close>, and the facts here
  follow it through them; they show that the hypotheses of the properties about opened files can
  be met.
\<close>

section \<open>The bytes\<close>

definition sample_header :: header where
  "sample_header = \<lparr>hd_Sig = MAGIC, hd_clsid = replicate 16 (char_of (0::nat)),
     hd_MinorVersion = 0x3E, hd_DllVersion = 3, hd_ByteOrder = 0xFFFE, hd_SectorShift = 9,
     hd_MiniSectorShift = 6, hd_Reserved = 0, hd_Reserved1 = 0, hd_csectDir = 0,
     hd_csectFat = 1, hd_sectDirStart = 1, hd_signature = 0, hd_MiniSectorCutoff = 4096,
     hd_MiniFatStart = ENDOFCHAIN, hd_csectMiniFat = 0, hd_sectDifStart = ENDOFCHAIN,
     hd_csectDif = 0\<rparr>"

definition sample_difat :: "nat list" where
  "sample_difat = 0 # replicate 108 FREESECT"

definition sample_fat :: "nat list" where
  "sample_fat = FATSECT # ENDOFCHAIN # replicate 126 FREESECT"

definition words :: "nat list \<Rightarrow> bytes" where
  "words ws = concat (map (le_bytes 4) ws)"

definition dirent_bytes :: "bytes \<Rightarrow> nat \<Rightarrow> nat \<Rightarrow> nat \<Rightarrow> bytes" where
  \<comment> \<open>an entry without siblings: ASCII name, type, child, first sector; size 0\<close>
  "dirent_bytes name etype child start =
     utf16le_ascii name @ replicate (64 - 2 * length name) (char_of (0::nat))
     @ le_bytes 2 (2 * length name + 2) @ le_bytes 1 etype @ le_bytes 1 1
     @ le_bytes 4 NOSTREAM @ le_bytes 4 NOSTREAM @ le_bytes 4 child
     @ replicate 16 (char_of (0::nat)) @ replicate 20 (char_of (0::nat))
     @ le_bytes 4 start @ le_bytes 4 0 @ le_bytes 4 0"

definition sample_root :: bytes where
  "sample_root = dirent_bytes ''R'' STGTY_ROOT 1 ENDOFCHAIN"

definition sample_stream :: bytes where
  "sample_stream = dirent_bytes ''a'' STGTY_STREAM NOSTREAM ENDOFCHAIN"

definition sample_dir :: bytes where
  "sample_dir = sample_root @ sample_stream @ replicate 256 (char_of (0::nat))"

definition sample_file :: bytes where
  "sample_file = (pack_header sample_header @ words sample_difat) @ words sample_fat @ sample_dir"

lemma length_words [simp]: "length (words ws) = 4 * length ws"
  by (induction ws) (simp_all add: words_def)

lemma le_words_words: "\<forall>w\<in>set ws. w < 2 ^ 32 \<Longrightarrow> le_words (words ws) = ws"
  unfolding words_def by (rule le_words_concat_le_bytes) auto

lemma length_dirent_bytes: "length name \<le> 32 \<Longrightarrow> length (dirent_bytes name etype child start) = 128"
proof -
  have "length (utf16le_ascii name) = 2 * length name"
    by (induction name) (simp_all add: utf16le_ascii_def)
  then show "length name \<le> 32 \<Longrightarrow> length (dirent_bytes name etype child start) = 128"
    by (simp add: dirent_bytes_def)
qed

lemma sample_lengths:
  "length (pack_header sample_header) = 76" "length (words sample_difat) = 436"
  "length (words sample_fat) = 512" "length sample_root = 128" "length sample_stream = 128"
  "length sample_dir = 512" "length sample_file = 1536"
proof -
  show 1: "length (pack_header sample_header) = 76" by (simp add: pack_header_def sample_header_def)
  show 2: "length (words sample_difat) = 436" by (simp add: sample_difat_def)
  show 3: "length (words sample_fat) = 512" by (simp add: sample_fat_def)
  show 4: "length sample_root = 128" "length sample_stream = 128"
    by (simp_all add: sample_root_def sample_stream_def length_dirent_bytes)
  show 5: "length sample_dir = 512" using 4 by (simp add: sample_dir_def)
  show "length sample_file = 1536" using 1 2 3 5 by (simp add: sample_file_def)
qed

lemma sample_header_range: "header_in_range sample_header"
  by (simp add: header_in_range_def sample_header_def ENDOFCHAIN_def)

lemma sample_conforms: "header_conforms sample_header"
  by (simp add: header_conforms_def sample_header_def)

section \<open>A directory entry\<close>

lemma field_skip: "length a = k \<Longrightarrow> k \<le> i \<Longrightarrow> unpack_field i n (a @ b) = unpack_field (i - k) n b"
  using unpack_field_skip by blast

lemma dirent_fields:
  assumes "length name \<le> 31" and "etype < 256" "child < 2 ^ 32" "start < 2 ^ 32"
  defines "e \<equiv> dirent_bytes name etype child start"
  shows "unpack_field 64 2 e = 2 * length name + 2" "unpack_field 66 1 e = etype"
    "unpack_field 68 4 e = NOSTREAM" "unpack_field 72 4 e = NOSTREAM" "unpack_field 76 4 e = child"
    "unpack_field 116 4 e = start" "unpack_field 120 4 e = 0" "unpack_field 124 4 e = 0"
    "slice 80 96 e = replicate 16 (char_of (0::nat))"
proof -
  let ?nm = "utf16le_ascii name @ replicate (64 - 2 * length name) (char_of (0::nat))"
  have len: "length ?nm = 64"
    using assms(1) by (induction name) (simp_all add: utf16le_ascii_def)
  have e: "e = ?nm @ le_bytes 2 (2 * length name + 2) @ le_bytes 1 etype @ le_bytes 1 1
     @ le_bytes 4 NOSTREAM @ le_bytes 4 NOSTREAM @ le_bytes 4 child
     @ replicate 16 (char_of (0::nat)) @ replicate 20 (char_of (0::nat))
     @ le_bytes 4 start @ le_bytes 4 0 @ le_bytes 4 0"
    by (simp add: e_def dirent_bytes_def)
  note f = field_skip[OF len] field_skip unpack_field_head unpack_field_last
  have ns: "NOSTREAM < 256 ^ 4" by (simp add: NOSTREAM_def)
  show "unpack_field 64 2 e = 2 * length name + 2" "unpack_field 66 1 e = etype"
    "unpack_field 68 4 e = NOSTREAM" "unpack_field 72 4 e = NOSTREAM" "unpack_field 76 4 e = child"
    "unpack_field 116 4 e = start" "unpack_field 120 4 e = 0" "unpack_field 124 4 e = 0"
    using assms(1-4) ns unfolding e by (simp_all add: f del: le_bytes.simps append_assoc)
  show "slice 80 96 e = replicate 16 (char_of (0::nat))"
    unfolding e using len by (simp add: slice_def del: le_bytes.simps)
qed

lemma entry_name_dirent:
  assumes "length name \<le> 31" and "list_all (\<lambda>c. i8 c < 128) name"
  shows "entry_name (dirent_bytes name etype child start) = name"
proof -
  let ?e = "dirent_bytes name etype child start"
  have len: "length (utf16le_ascii name) = 2 * length name"
    by (induction name) (simp_all add: utf16le_ascii_def)
  have "unpack_field 64 2 ?e = 2 * length name + 2"
    using unpack_field_skip[of "utf16le_ascii name @ replicate (64 - 2 * length name) (char_of (0::nat))" 64 2]
      len assms(1) unpack_field_head[of "2 * length name + 2" 2]
    by (simp add: dirent_bytes_def del: le_bytes.simps)
  moreover have "slice 0 64 ?e = utf16le_ascii name @ replicate (64 - 2 * length name) (char_of (0::nat))"
    using len assms(1) by (simp add: slice_def dirent_bytes_def)
  ultimately show ?thesis
    using assms len by (simp add: entry_name_def Let_def decode_utf16_ascii py_take_def nat_diff_distrib')
qed

lemma clsid_zero: "clsid_fmt (replicate 16 (char_of (0::nat))) = Inr []"
  by (simp add: clsid_fmt_def list_all_iff)

lemma new_dirent_sample:
  assumes "length name \<le> 31" and "list_all (\<lambda>c. i8 c < 128) name" and "start < 2 ^ 32" "child < 2 ^ 32"
    and "etype \<in> {STGTY_ROOT, STGTY_STREAM}" and "(sid = 0) = (etype = STGTY_ROOT)"
    and "sectorsize s = 512"
  shows "\<exists>d. new_dirent (dirent_bytes name etype child start) sid s = (Inr d, s)
    \<and> de_sid d = sid \<and> de_name d = name \<and> de_entry_type d = etype \<and> de_sid_left d = NOSTREAM
    \<and> de_sid_right d = NOSTREAM \<and> de_sid_child d = child \<and> de_isectStart d = start \<and> de_size d = 0
    \<and> de_kids d = [] \<and> de_kids_dict d = [] \<and> \<not> de_used d"
proof -
  have et: "etype < 256" using assms(5) by (auto simp: ole_consts)
  note f = dirent_fields[OF assms(1) et assms(4,3)]
  have len: "length (dirent_bytes name etype child start) = DIRENTRY_SIZE"
    using assms(1) by (simp add: length_dirent_bytes DIRENTRY_SIZE_def)
  have "etype \<noteq> STGTY_STORAGE" using assms(5) by (auto simp: ole_consts)
  then show ?thesis
    using assms
    by (simp add: new_dirent_def len f entry_size_def clsid_zero entry_name_dirent Let_def whenE_def
        del: One_nat_def) (auto simp: ole_consts)
qed

section \<open>Opening the sample\<close>

lemma sample_take: "take 512 sample_file = pack_header sample_header @ words sample_difat"
  using sample_lengths by (simp add: sample_file_def)

lemma sample_unpack:
  "unpack_header (take header_size (take 512 sample_file)) = Inr sample_header"
  using unpack_pack_header[OF sample_header_range] sample_lengths(1)
  by (simp add: sample_take header_size_def)

lemma sample_sectors:
  "sector_at 512 512 sample_file 0 = words sample_fat" "sector_at 512 512 sample_file 1 = sample_dir"
proof -
  have l: "length (pack_header sample_header @ words sample_difat) = 512" using sample_lengths by simp
  show "sector_at 512 512 sample_file 0 = words sample_fat"
    unfolding sample_file_def sector_at_def fp_read_def using l sample_lengths by simp
  show "sector_at 512 512 sample_file 1 = sample_dir"
    unfolding sample_file_def sector_at_def fp_read_def using l sample_lengths by simp
qed

definition sample_tables :: "defect \<Rightarrow> ole" where
  \<comment> \<open>the object after the FAT has been loaded\<close>
  "sample_tables lvl = (new_ole lvl)\<lparr>ole_fp := sample_file, used_streams_fat := [1],
     sectorsize := 512, minisectorsize := 64, minisectorcutoff := 4096, nb_sect := 2,
     csectFat := 1, sectDifStart := ENDOFCHAIN, ole_fat := [FATSECT, ENDOFCHAIN]\<rparr>"

lemma sample_open_tables:
  assumes "open_source fs f w = Inr (sample_file, False)"
  shows "open_tables fs f w (new_ole lvl) = (Inr sample_header, sample_tables lvl)"
proof -
  let ?s1 = "(new_ole lvl)\<lparr>ole_fp := sample_file, ole_writable := False, used_streams_fat := [],
    used_streams_minifat := [], csectFat := 1, csectMiniFat := 0, sectDifStart := ENDOFCHAIN, csectDif := 0\<rparr>"
  let ?s2 = "?s1\<lparr>nb_sect := 2, sectorsize := 512, minisectorsize := 64, minisectorcutoff := 4096,
    used_streams_fat := [1]\<rparr>"
  have ck: "check_header sample_header ?s1 = (Inr (), ?s1)"
    by (simp add: check_header_def sample_header_def SectorSize_def MiniSectorSize_def)
  have hl: "length (take 512 sample_file) = 512" "take 8 (take 512 sample_file) = MAGIC"
    using sample_lengths by (simp_all add: sample_take pack_header_def sample_header_def)
  have cl: "clsid_fmt (slice 8 24 (take 512 sample_file)) = Inr []"
  proof -
    have "slice 8 24 (take 512 sample_file) = replicate 16 (char_of (0::nat))"
      unfolding sample_take pack_header_def by (simp add: slice_def sample_header_def)
    then show ?thesis by (simp add: clsid_zero)
  qed
  have sl: "le_words (slice 76 512 (take 512 sample_file)) = sample_difat"
  proof -
    have "slice 76 512 (take 512 sample_file) = words sample_difat"
      using sample_lengths by (simp add: sample_take slice_def)
    then show ?thesis
      by (simp only:) (rule le_words_words, simp add: sample_difat_def FREESECT_def)
  qed
  have li: "listed sample_difat = [0]" by (simp add: listed_def sample_difat_def ole_consts)
  have fa: "le_words (words sample_fat) = sample_fat"
    by (rule le_words_words) (simp add: sample_fat_def ole_consts)
  have lf: "loadfat (take 512 sample_file) ?s2 = (Inr (), sample_tables lvl)"
  proof -
    have "loadfat (take 512 sample_file) ?s2 = (Inr (), ?s2\<lparr>ole_fat :=
      take (nat (nb_sect ?s2)) (fat_of ?s2 (listed (le_words (slice 76 512 (take 512 sample_file)))))\<rparr>)"
      using hl(1) sample_lengths(7)
      by (intro loadfat_no_difat) (simp_all add: sl li sect_ok_def SEEK_LIMIT_def)
    also have "take (nat (nb_sect ?s2)) (fat_of ?s2 (listed (le_words (slice 76 512 (take 512 sample_file)))))
        = [FATSECT, ENDOFCHAIN]"
      by (simp add: sl li fat_of_def sample_sectors fa) (simp add: sample_fat_def)
    finally show ?thesis by (simp add: sample_tables_def new_ole_def)
  qed
  have sz: "SectorSize sample_header = 512" "MiniSectorSize sample_header = 64"
    by (simp_all add: SectorSize_def MiniSectorSize_def sample_header_def)
  have up: "unpack_header (take (min header_size 512) sample_file) = Inr sample_header"
    using sample_unpack by simp
  have hs: "hd_csectFat sample_header = 1" "hd_csectMiniFat sample_header = 0"
    "hd_sectDifStart sample_header = ENDOFCHAIN" "hd_csectDif sample_header = 0"
    "hd_MiniSectorCutoff sample_header = 4096" "hd_sectDirStart sample_header = 1"
    by (simp_all add: sample_header_def)
  have dup: "check_duplicate_stream 1 False (?s1\<lparr>nb_sect := 2, sectorsize := 512, minisectorsize := 64,
      minisectorcutoff := 4096\<rparr>) = (Inr (), ?s2)"
    by (simp add: check_duplicate_stream_def new_ole_def ole_consts)
  show ?thesis
    unfolding open_tables_def Let_def
    using hl(2) sample_lengths(7)
    by (simp add: assms up sz hs whenE_def
        bindE_Inr[where m = "check_header sample_header", OF ck[simplified]]
        bindE_Inr[where m = "check_duplicate_stream (Suc 0) False", OF dup[simplified]] cl
        bindE_Inr[where m = "loadfat (take 512 sample_file)", OF lf[simplified]])
qed

lemma sample_chain: "fat_chain [FATSECT, ENDOFCHAIN] 1 [1]"
  by (simp add: ole_consts)

lemma sample_dir_stream:
  assumes "sectorsize s = 512" "ole_fp s = sample_file" "ole_fat s = [FATSECT, ENDOFCHAIN]"
    "minisectorcutoff s = 4096"
  shows "ole_open 1 UNKNOWN_SIZE False s = (Inr \<lparr>contents = sample_dir, strm_size = 512\<rparr>, s)"
proof -
  have cd: "chain_data sample_file 512 512 [1] = sample_dir"
    by (simp only: chain_data_def list.map sample_sectors) simp
  have "ole_stream sample_file 1 UNKNOWN_SIZE 512 512 [FATSECT, ENDOFCHAIN]
      = Inr \<lparr>contents = sample_dir, strm_size = 512\<rparr>"
    using sample_chain cd sample_lengths(6) sample_sectors(2)
    by (subst ole_stream_unknown) (auto simp: readable_def SEEK_LIMIT_def intro!: exI[of _ "[1]"])
  then show ?thesis using assms by (simp add: ole_open_def open_fat_def UNKNOWN_SIZE_def)
qed

lemma sample_entries:
  "fp_read sample_dir 0 128 = sample_root" "fp_read sample_dir 128 128 = sample_stream"
  using sample_lengths(4,5) by (simp_all add: fp_read_def sample_dir_def)

text \<open>The object that opening the sample returns, up to the fields nothing depends on.\<close>

definition sample_opened :: "ole \<Rightarrow> bool" where
  "sample_opened s \<longleftrightarrow> (\<exists>r d. entry_of s 0 = Some r \<and> entry_of s 1 = Some d
     \<and> de_kids r = [1] \<and> de_name d = ''a'' \<and> de_entry_type d = STGTY_STREAM \<and> de_size d = 0
     \<and> de_isectStart d = ENDOFCHAIN \<and> de_kids d = [])"

lemma sample_loaddirectory:
  assumes "sectorsize s = 512" "ole_fp s = sample_file" "ole_fat s = [FATSECT, ENDOFCHAIN]"
    "minisectorcutoff s = 4096" and fuel: "6 \<le> fuel"
  shows "\<exists>t. loaddirectory fuel 1 s = (Inr (), t) \<and> sample_opened t"
proof -
  let ?b = "s\<lparr>directory_fp := \<lparr>contents = sample_dir, strm_size = 512\<rparr>\<rparr>"
  let ?s = "?b\<lparr>direntries := [None, None, None, None]\<rparr>"
  have "(4::nat) = Suc (Suc (Suc (Suc 0)))" by simp
  then have rep: "replicate 4 None = [None, None, None, None]" by (simp only: replicate.simps)
  obtain r where r: "new_dirent sample_root 0 ?s = (Inr r, ?s)" and rf: "de_sid r = 0"
    "de_name r = ''R''" "de_sid_child r = 1" "de_kids r = []" "de_kids_dict r = []" "\<not> de_used r"
    using new_dirent_sample[of "''R''" ENDOFCHAIN 1 STGTY_ROOT 0 ?s] assms(1)
    by (auto simp: sample_root_def ole_consts i8_def)
  let ?t = "?b\<lparr>direntries := [Some r, None, None, None]\<rparr>"
  obtain d where d: "new_dirent sample_stream 1 ?t = (Inr d, ?t)" and df: "de_sid d = 1"
    "de_name d = ''a''" "de_entry_type d = STGTY_STREAM" "de_sid_left d = NOSTREAM"
    "de_sid_right d = NOSTREAM" "de_sid_child d = NOSTREAM" "de_kids d = []" "\<not> de_used d"
    "de_size d = 0" "de_isectStart d = ENDOFCHAIN"
    using new_dirent_sample[of "''a''" ENDOFCHAIN NOSTREAM STGTY_STREAM 1 ?t] assms(1)
    by (auto simp: sample_stream_def ole_consts i8_def)
  let ?u = "?b\<lparr>direntries := [Some r, Some d, None, None]\<rparr>"
  have l0: "load_direntry 0 ?s = (Inr r, ?t)"
    using r by (simp add: load_direntry_def sample_entries bindE_def)
  have l1: "load_direntry 1 ?t = (Inr d, ?u)"
    using d by (simp add: load_direntry_def sample_entries bindE_def)
  let ?d = "d\<lparr>de_used := True\<rparr>"
  let ?r = "r\<lparr>de_kids := [1], de_kids_dict := [''a'']\<rparr>"
  have ak: "add_kid 0 d ?u = (Inr (), ?b\<lparr>direntries := [Some ?r, Some ?d, None, None]\<rparr>)"
    using rf df by (simp add: add_kid_def get_entry_def entry_of_def upd_entry_def py_lower_def
        lower_char_def bindE_def Let_def whenE_def)
  obtain n where "fuel = 6 + n" using fuel le_Suc_ex by blast
  then have n: "fuel = Suc (Suc (Suc (Suc (Suc (Suc n)))))" by simp
  let ?v = "?b\<lparr>direntries := [Some ?r, Some ?d, None, None]\<rparr>"
  have skip: "append_kids (Suc m) p NOSTREAM w = (Inr (), w)" for m p w by simp
  have bt: "build_storage_tree (Suc m) 1 ?v = (Inr (), ?v)" for m
    using df by (simp add: get_entry_def entry_of_def bindE_def)
  have ap: "append_kids (Suc (Suc m)) 0 1 ?t = (Inr (), ?v)" for m
    by (simp only: append_kids.simps(2)[of "Suc m" 0 1])
       (simp add: NOSTREAM_def whenE_def bindE_def l1[simplified] ak[simplified] df(1)
          df(4,5)[unfolded NOSTREAM_def] skip[unfolded NOSTREAM_def] bt[unfolded One_nat_def]
          del: append_kids.simps build_storage_tree.simps)
  have "build_storage_tree fuel 0 ?t = (Inr (), ?v)"
    using rf ap[of "Suc (Suc (Suc n))"]
    by (simp add: n get_entry_def entry_of_def bindE_def NOSTREAM_def sort_kids_def upd_entry_def
        del: append_kids.simps)
  then have "loaddirectory fuel 1 s = (Inr (), ?v)"
    using sample_dir_stream[OF assms(1-4)] l0
    by (simp add: loaddirectory_def bindE_def rep)
  moreover have "sample_opened ?v"
    using rf df by (simp add: sample_opened_def entry_of_def)
  ultimately show ?thesis by blast
qed

theorem sample_opens:
  assumes "open_source fs f w = Inr (sample_file, False)" and "6 \<le> fuel" and "f \<noteq> ByteStr []"
  shows "\<exists>s. OleFileIO_init fs fuel (Some f) lvl w = Inr s \<and> sample_opened s"
proof -
  have "\<exists>t. loaddirectory fuel 1 (sample_tables lvl) = (Inr (), t) \<and> sample_opened t"
    using assms(2) by (intro sample_loaddirectory) (simp_all add: sample_tables_def)
  then obtain t where t: "loaddirectory fuel 1 (sample_tables lvl) = (Inr (), t)" "sample_opened t" by blast
  have dir: "hd_sectDirStart sample_header = 1" by (simp add: sample_header_def)
  let ?u = "t\<lparr>ministream := Some None, minifatsect := hd_MiniFatStart sample_header\<rparr>"
  have "ole_open_file fs fuel f w (new_ole lvl) = (Inr (), ?u)"
    using t(1) by (simp add: ole_open_file_def bindE_def sample_open_tables[OF assms(1)] dir)
  moreover have "entry_of ?u = entry_of t" by (intro entry_of_cong) simp
  with t(2) have "sample_opened ?u" by (simp add: sample_opened_def)
  ultimately show ?thesis using assms(3) by (simp add: OleFileIO_init_def)
qed

lemma sample_listdir: "sample_opened s \<Longrightarrow> listdir (Suc n) True False s = (Inr [[''a'']], s)"
  by (auto simp: sample_opened_def listdir_def get_entry_def bindE_def STGTY_STREAM_def STGTY_STORAGE_def)

end
