(* ===== verification/OleProps.thy ===== *)
theory OleProps
  imports OleFile
begin

text \<open>
  Property sets of olefile.py: \<open>getproperties\<close> with the reader of each property type, and the
  \<open>OleMetadata\<close> object that \<open>get_metadata\<close> fills from the two standard streams. The lemmas show
  what each encoded value decodes to, that a set laid out as the format says is read back, and
  that a malformed set always raises: the handlers that should record a defect call the local
  variable \<open>type\<close>.
\<close>

section \<open>Property types\<close>

definition VT_I2 :: nat where "VT_I2 = 2"
definition VT_I4 :: nat where "VT_I4 = 3"
definition VT_BSTR :: nat where "VT_BSTR = 8"
definition VT_ERROR :: nat where "VT_ERROR = 10"
definition VT_BOOL :: nat where "VT_BOOL = 11"
definition VT_UI1 :: nat where "VT_UI1 = 17"
definition VT_UI2 :: nat where "VT_UI2 = 18"
definition VT_UI4 :: nat where "VT_UI4 = 19"
definition VT_INT :: nat where "VT_INT = 22"
definition VT_UINT :: nat where "VT_UINT = 23"
definition VT_LPSTR :: nat where "VT_LPSTR = 30"
definition VT_LPWSTR :: nat where "VT_LPWSTR = 31"
definition VT_FILETIME :: nat where "VT_FILETIME = 64"
definition VT_BLOB :: nat where "VT_BLOB = 65"
definition VT_CF :: nat where "VT_CF = 71"
definition VT_CLSID :: nat where "VT_CLSID = 72"

lemmas vt_defs = VT_I2_def VT_I4_def VT_BSTR_def VT_ERROR_def VT_BOOL_def VT_UI1_def VT_UI2_def
  VT_UI4_def VT_INT_def VT_UINT_def VT_LPSTR_def VT_LPWSTR_def VT_FILETIME_def VT_BLOB_def
  VT_CF_def VT_CLSID_def

datatype propval = PNone | PInt int | PBytes bytes | PBool bool | PTime nat

definition prop_value :: "bool \<Rightarrow> nat list \<Rightarrow> bytes \<Rightarrow> nat \<Rightarrow> nat \<Rightarrow> nat \<Rightarrow> pyexc + propval" where
  \<comment> \<open>the dispatch on \<open>type\<close>; \<open>s\<close> is the section, \<open>offset\<close> where the typed value starts\<close>
  "prop_value convert_time no_conversion s pid offset type =
     (if type = VT_I2 then
        sbind (i16 s (offset + 4)) (\<lambda>v. Inr (PInt (if 32768 \<le> v then int v - 65536 else int v)))
      else if type = VT_UI2 then sbind (i16 s (offset + 4)) (\<lambda>v. Inr (PInt (int v)))
      else if type \<in> {VT_I4, VT_INT, VT_ERROR} then
        sbind (i32 s (offset + 4)) (\<lambda>v. Inr (PInt (int v)))
      else if type \<in> {VT_UI4, VT_UINT} then
        sbind (i32 s (offset + 4)) (\<lambda>v. Inr (PInt (int v)))
      else if type \<in> {VT_BSTR, VT_LPSTR} then
        sbind (i32 s (offset + 4)) (\<lambda>count.
        Inr (PBytes (filter (\<lambda>c. c \<noteq> char_of (0::nat)) (slice (offset + 8) (offset + 8 + count - 1) s))))
      else if type = VT_BLOB then
        sbind (i32 s (offset + 4)) (\<lambda>count. Inr (PBytes (slice (offset + 8) (offset + 8 + count) s)))
      else if type = VT_LPWSTR then
        sbind (i32 s (offset + 4)) (\<lambda>count.
        Inr (PBytes (decode_utf16_str (slice (offset + 8) (offset + 8 + count * 2) s))))
      else if type = VT_FILETIME then
        sbind (i32 s (offset + 4)) (\<lambda>lo. sbind (i32 s (offset + 8)) (\<lambda>hi.
        let v = lo + push_bit 32 hi in
        if convert_time \<and> pid \<notin> set no_conversion then
          sbind (filetime2datetime v) (\<lambda>t. Inr (PTime t))
        else Inr (PInt (int (v div 10000000)))))
      else if type = VT_UI1 then sbind (byte_at s (offset + 4)) (\<lambda>v. Inr (PInt (int v)))
      else if type = VT_CLSID then
        sbind (clsid_fmt (slice (offset + 4) (offset + 20) s)) (\<lambda>c. Inr (PBytes c))
      else if type = VT_CF then
        sbind (i32 s (offset + 4)) (\<lambda>count. Inr (PBytes (slice (offset + 8) (offset + 8 + count) s)))
      else if type = VT_BOOL then sbind (i16 s (offset + 4)) (\<lambda>v. Inr (PBool (v \<noteq> 0)))
      else Inr PNone)"

section \<open>getproperties\<close>

text \<open>
  In both handlers \<open>type(exc)\<close> refers to the local variable \<open>type\<close>: unbound before the first
  property type has been read, an integer afterwards.
\<close>

definition type_call :: "nat option \<Rightarrow> pyexc" where
  "type_call type = (case type of
     None \<Rightarrow> UnboundLocalError ''local variable 'type' referenced before assignment''
   | Some _ \<Rightarrow> TypeError '''int' object is not callable'')"

definition prop_head :: "bytes \<Rightarrow> nat \<Rightarrow> pyexc + nat \<times> nat \<times> nat" where
  \<comment> \<open>\<open>id\<close>, \<open>offset\<close> and \<open>type\<close> of the \<open>i\<close>-th property\<close>
  "prop_head s i =
     sbind (i32 s (8 + i * 8)) (\<lambda>pid. sbind (i32 s (12 + i * 8)) (\<lambda>offset.
     sbind (i32 s offset) (\<lambda>type. Inr (pid, offset, type))))"

fun prop_loop ::
  "bool \<Rightarrow> nat list \<Rightarrow> bytes \<Rightarrow> nat \<Rightarrow> nat \<Rightarrow> nat option \<Rightarrow> (nat \<rightharpoonup> propval) \<Rightarrow> pyexc + (nat \<rightharpoonup> propval)"
where
  "prop_loop convert_time no_conversion s 0 i last_type data = Inr data"
| "prop_loop convert_time no_conversion s (Suc n) i last_type data =
     (case prop_head s i of
        Inl exc \<Rightarrow> Inl (type_call last_type)
      | Inr (pid, offset, type) \<Rightarrow>
          (case prop_value convert_time no_conversion s pid offset type of
             Inl exc \<Rightarrow> Inl (type_call (Some type))
           | Inr v \<Rightarrow> prop_loop convert_time no_conversion s n (i + 1) (Some type) (data(pid \<mapsto> v))))"

definition read_signed :: "bytes \<Rightarrow> nat \<Rightarrow> int \<Rightarrow> bytes" where
  \<comment> \<open>\<open>fp.read(n)\<close> at a position; a negative \<open>n\<close> reads everything\<close>
  "read_signed b pos n = (if n < 0 then drop pos b else take (nat n) (drop pos b))"

definition prop_section :: "bytes \<Rightarrow> pyexc + bytes \<times> nat" where
  \<comment> \<open>the first \<open>try\<close>: the section with its four-byte filler, and the number of properties\<close>
  "prop_section fp =
     sbind (clsid_fmt (slice 8 24 (take 28 fp))) (\<lambda>clsid.
     sbind (clsid_fmt (take 16 (slice 28 48 fp))) (\<lambda>fmtid.
     sbind (i32 (slice 28 48 fp) 16) (\<lambda>pos.
     sbind (i32 (slice pos (pos + 4) fp) 0) (\<lambda>sz.
     let s = ''****'' @ read_signed fp (pos + 4) (int sz - 4) in
     sbind (i32 s 4) (\<lambda>num_props. Inr (s, num_props))))))"

definition parse_properties_of :: "bool \<Rightarrow> nat list \<Rightarrow> bytes \<Rightarrow> pyexc + (nat \<rightharpoonup> propval)" where
  "parse_properties_of convert_time no_conversion fp =
     (case prop_section fp of
        Inl exc \<Rightarrow> Inl (type_call None)
      | Inr (s, num_props) \<Rightarrow>
          prop_loop convert_time no_conversion s num_props 0 None Map.empty)"

definition getproperties :: "path \<Rightarrow> bool \<Rightarrow> nat list \<Rightarrow> (ole, nat \<rightharpoonup> propval) act" where
  "getproperties filename convert_time no_conversion =
     bindE (openstream filename) (\<lambda>fp.
     liftE (parse_properties_of convert_time no_conversion (contents fp)))"

section \<open>OleMetadata\<close>

definition SUMMARY_ATTRIBS :: "string list" where
  "SUMMARY_ATTRIBS = [''codepage'', ''title'', ''subject'', ''author'', ''keywords'', ''comments'',
     ''template'', ''last_saved_by'', ''revision_number'', ''total_edit_time'',
     ''last_printed'', ''create_time'', ''last_saved_time'', ''num_pages'',
     ''num_words'', ''num_chars'', ''thumbnail'', ''creating_application'', ''security'']"

definition DOCSUM_ATTRIBS :: "string list" where
  "DOCSUM_ATTRIBS = [''codepage_doc'', ''category'', ''presentation_target'', ''bytes'', ''lines'',
     ''paragraphs'', ''slides'', ''notes'', ''hidden_slides'', ''mm_clips'',
     ''scale_crop'', ''heading_pairs'', ''titles_of_parts'', ''manager'',
     ''company'', ''links_dirty'', ''chars_with_spaces'', ''unused'', ''shared_doc'',
     ''link_base'', ''hlinks'', ''hlinks_changed'', ''version'', ''dig_sig'',
     ''content_type'', ''content_status'', ''language'', ''doc_version'']"

text \<open>The object, as its attribute values.\<close>

type_synonym metadata = "string \<Rightarrow> propval"

definition OleMetadata_init :: metadata where
  "OleMetadata_init = (\<lambda>_. PNone)"

definition props_get :: "(nat \<rightharpoonup> propval) \<Rightarrow> nat \<Rightarrow> propval" where
  \<comment> \<open>\<open>props.get(i, None)\<close>\<close>
  "props_get props i = (case props i of Some v \<Rightarrow> v | None \<Rightarrow> PNone)"

fun set_attribs :: "string list \<Rightarrow> nat \<Rightarrow> (nat \<rightharpoonup> propval) \<Rightarrow> metadata \<Rightarrow> metadata" where
  \<comment> \<open>the loop that stores the property of number \<open>i + 1\<close> in the \<open>i\<close>-th attribute\<close>
  "set_attribs [] i props m = m"
| "set_attribs (a # as) i props m = set_attribs as (i + 1) props (m(a := props_get props (i + 1)))"

definition SUMMARY_STREAM :: path where
  "SUMMARY_STREAM = PStr (char_of (5::nat) # ''SummaryInformation'')"

definition DOCSUM_STREAM :: path where
  "DOCSUM_STREAM = PStr (char_of (5::nat) # ''DocumentSummaryInformation'')"

definition parse_properties :: "metadata \<Rightarrow> (ole, metadata) act" where
  "parse_properties m0 = withE (\<lambda>s.
     let m1 = fold (\<lambda>a m. m(a := PNone)) (SUMMARY_ATTRIBS @ DOCSUM_ATTRIBS) m0 in
     bindE (if ole_exists s SUMMARY_STREAM then
              bindE (getproperties SUMMARY_STREAM True [10]) (\<lambda>props.
              retE (set_attribs SUMMARY_ATTRIBS 0 props m1))
            else retE m1) (\<lambda>m2.
     withE (\<lambda>s. if ole_exists s DOCSUM_STREAM then
              bindE (getproperties DOCSUM_STREAM True []) (\<lambda>props.
              retE (set_attribs DOCSUM_ATTRIBS 0 props m2))
            else retE m2)))"

definition get_metadata :: "(ole, metadata) act" where
  "get_metadata = parse_properties OleMetadata_init"

section \<open>Malformed sets\<close>

lemma prop_loop_error:
  "prop_loop ct nc s n i ty data = Inl e \<Longrightarrow> e = type_call None \<or> (\<exists>t. e = type_call (Some t))"
proof (induction n arbitrary: i ty data)
  case (Suc n)
  then show ?case
    by (cases ty) (auto split: sum.splits prod.splits)
qed simp

lemma parse_properties_error:
  assumes "parse_properties_of ct nc b = Inl e"
  shows "(\<exists>m. e = UnboundLocalError m) \<or> (\<exists>m. e = TypeError m)"
  using assms prop_loop_error
  by (fastforce simp: parse_properties_of_def type_call_def split: sum.splits prod.splits)

section \<open>Reading back what the format lays out\<close>

lemma i32_at: "length a = k \<Longrightarrow> v < 2 ^ 32 \<Longrightarrow> i32 (a @ le_bytes 4 v @ c) k = Inr v"
  using le_nat_le_bytes[of v 4] by (auto simp: i32_le_nat slice_def simp del: le_bytes.simps)

lemma i16_at: "length a = k \<Longrightarrow> v < 2 ^ 16 \<Longrightarrow> i16 (a @ le_bytes 2 v @ c) k = Inr v"
  using le_nat_le_bytes[of v 2] by (auto simp: i16_le_nat slice_def simp del: le_bytes.simps)

lemma slice_at: "length a = i \<Longrightarrow> j = i + length b \<Longrightarrow> slice i j (a @ b @ c) = b"
  by (simp add: slice_def)

datatype typed =
    T_I2 int | T_UI2 nat | T_I4 nat | T_UI4 nat | T_LPSTR bytes | T_LPWSTR bytes
  | T_BLOB bytes | T_FILETIME nat | T_BOOL bool | T_UI1 nat

primrec type_of_typed :: "typed \<Rightarrow> nat" where
  "type_of_typed (T_I2 v) = VT_I2"
| "type_of_typed (T_UI2 n) = VT_UI2"
| "type_of_typed (T_I4 n) = VT_I4"
| "type_of_typed (T_UI4 n) = VT_UI4"
| "type_of_typed (T_LPSTR b) = VT_LPSTR"
| "type_of_typed (T_LPWSTR b) = VT_LPWSTR"
| "type_of_typed (T_BLOB b) = VT_BLOB"
| "type_of_typed (T_FILETIME n) = VT_FILETIME"
| "type_of_typed (T_BOOL b) = VT_BOOL"
| "type_of_typed (T_UI1 n) = VT_UI1"

primrec payload :: "typed \<Rightarrow> bytes" where
  "payload (T_I2 v) = le_bytes 2 (nat (v mod 65536))"
| "payload (T_UI2 n) = le_bytes 2 n"
| "payload (T_I4 n) = le_bytes 4 n"
| "payload (T_UI4 n) = le_bytes 4 n"
| "payload (T_LPSTR b) = le_bytes 4 (length b + 1) @ b @ [char_of (0::nat)]"
| "payload (T_LPWSTR b) = le_bytes 4 (length b) @ utf16le_ascii b"
| "payload (T_BLOB b) = le_bytes 4 (length b) @ b"
| "payload (T_FILETIME n) = le_bytes 4 (n mod 2 ^ 32) @ le_bytes 4 (n div 2 ^ 32)"
| "payload (T_BOOL b) = le_bytes 2 (if b then 0xFFFF else 0)"
| "payload (T_UI1 n) = le_bytes 1 n"

primrec typed_ok :: "typed \<Rightarrow> bool" where
  "typed_ok (T_I2 v) \<longleftrightarrow> -32768 \<le> v \<and> v < 32768"
| "typed_ok (T_UI2 n) \<longleftrightarrow> n < 2 ^ 16"
| "typed_ok (T_I4 n) \<longleftrightarrow> n < 2 ^ 32"
| "typed_ok (T_UI4 n) \<longleftrightarrow> n < 2 ^ 32"
| "typed_ok (T_LPSTR b) \<longleftrightarrow> char_of (0::nat) \<notin> set b \<and> length b + 1 < 2 ^ 32"
| "typed_ok (T_LPWSTR b) \<longleftrightarrow> list_all (\<lambda>c. i8 c < 128) b \<and> length b < 2 ^ 32"
| "typed_ok (T_BLOB b) \<longleftrightarrow> length b < 2 ^ 32"
| "typed_ok (T_FILETIME n) \<longleftrightarrow> n div 10 \<le> MAX_DATETIME \<and> n < 2 ^ 64"
| "typed_ok (T_BOOL b) \<longleftrightarrow> True"
| "typed_ok (T_UI1 n) \<longleftrightarrow> n < 256"

primrec typed_value :: "bool \<Rightarrow> typed \<Rightarrow> propval" where
  "typed_value conv (T_I2 v) = PInt v"
| "typed_value conv (T_UI2 n) = PInt (int n)"
| "typed_value conv (T_I4 n) = PInt (int n)"
| "typed_value conv (T_UI4 n) = PInt (int n)"
| "typed_value conv (T_LPSTR b) = PBytes b"
| "typed_value conv (T_LPWSTR b) = PBytes b"
| "typed_value conv (T_BLOB b) = PBytes b"
| "typed_value conv (T_FILETIME n) = (if conv then PTime (n div 10) else PInt (int (n div 10000000)))"
| "typed_value conv (T_BOOL b) = PBool b"
| "typed_value conv (T_UI1 n) = PInt (int n)"

definition enc_typed :: "typed \<Rightarrow> bytes" where
  "enc_typed t = le_bytes 4 (type_of_typed t) @ payload t"

lemma length_utf16le_ascii: "length (utf16le_ascii b) = 2 * length b"
  by (induction b) (simp_all add: utf16le_ascii_def)

lemma signed16:
  fixes v :: int
  assumes "-32768 \<le> v" and "v < 32768"
  shows "32768 \<le> v mod 65536 \<Longrightarrow> v mod 65536 - 65536 = v"
    and "\<not> 32768 \<le> v mod 65536 \<Longrightarrow> v mod 65536 = v"
proof -
  have "v mod 65536 = (if v < 0 then v + 65536 else v)"
  proof (cases "v < 0")
    case True
    then have "(v + 65536) mod 65536 = v + 65536" using assms by (intro mod_pos_pos_trivial) auto
    with True show ?thesis by simp
  next
    case False
    then show ?thesis using assms by (simp add: mod_pos_pos_trivial)
  qed
  then show "32768 \<le> v mod 65536 \<Longrightarrow> v mod 65536 - 65536 = v"
    and "\<not> 32768 \<le> v mod 65536 \<Longrightarrow> v mod 65536 = v"
    using assms by (auto split: if_splits)
qed

text \<open>What the readers find behind the type of a value, \<open>b\<close> being the bytes up to there.\<close>

lemma value_cuts:
  assumes "length b = k + 4"
  shows "v < 2 ^ 32 \<Longrightarrow> i32 (b @ le_bytes 4 v @ c) (k + 4) = Inr v"
    and "w < 2 ^ 16 \<Longrightarrow> i16 (b @ le_bytes 2 w @ c) (k + 4) = Inr w"
    and "u < 2 ^ 32 \<Longrightarrow> i32 (b @ le_bytes 4 v @ le_bytes 4 u @ c) (k + 8) = Inr u"
    and "slice (k + 8) (k + (8 + length x)) (b @ le_bytes 4 n @ x @ c) = x"
proof -
  show "v < 2 ^ 32 \<Longrightarrow> i32 (b @ le_bytes 4 v @ c) (k + 4) = Inr v" "w < 2 ^ 16 \<Longrightarrow> i16 (b @ le_bytes 2 w @ c) (k + 4) = Inr w"
    using assms by (auto intro!: i32_at i16_at)
  have "length (b @ le_bytes 4 v) = k + 8" using assms by simp
  from i32_at[OF this] show "u < 2 ^ 32 \<Longrightarrow> i32 (b @ le_bytes 4 v @ le_bytes 4 u @ c) (k + 8) = Inr u"
    by (simp del: le_bytes.simps)
  have "length (b @ le_bytes 4 n) = k + 8" using assms by simp
  from slice_at[OF this, of "k + (8 + length x)" x c]
  show "slice (k + 8) (k + (8 + length x)) (b @ le_bytes 4 n @ x @ c) = x" by (simp del: le_bytes.simps)
qed

lemma prop_value_I2:
  assumes "length b = k + 4" and "typed_ok (T_I2 v)"
  shows "prop_value ct nc (b @ payload (T_I2 v) @ r) pid k VT_I2 = Inr (PInt v)"
proof -
  have "nat (v mod 65536) < 2 ^ 16" by (simp add: nat_less_iff)
  from value_cuts(2)[OF assms(1) this, of r]
  have "prop_value ct nc (b @ payload (T_I2 v) @ r) pid k VT_I2
    = Inr (PInt (if 32768 \<le> v mod 65536 then v mod 65536 - 65536 else v mod 65536))"
    by (simp add: prop_value_def vt_defs nat_le_iff le_nat_iff)
  with signed16[of v] assms(2) show ?thesis by (simp only: typed_ok.simps split: if_split) blast
qed

lemma prop_value_blocks:
  assumes "length b = k + 4"
  shows "typed_ok (T_LPSTR x) \<Longrightarrow> prop_value ct nc (b @ payload (T_LPSTR x) @ r) pid k VT_LPSTR = Inr (PBytes x)"
    and "typed_ok (T_LPWSTR x) \<Longrightarrow> prop_value ct nc (b @ payload (T_LPWSTR x) @ r) pid k VT_LPWSTR = Inr (PBytes x)"
    and "typed_ok (T_BLOB x) \<Longrightarrow> prop_value ct nc (b @ payload (T_BLOB x) @ r) pid k VT_BLOB = Inr (PBytes x)"
proof -
  note cuts = value_cuts(1)[OF assms] value_cuts(4)[OF assms]
  note ac = add.assoc add.left_commute[of 8]
  show "prop_value ct nc (b @ payload (T_LPSTR x) @ r) pid k VT_LPSTR = Inr (PBytes x)" if "typed_ok (T_LPSTR x)"
  proof -
    from that have "length x + 1 < 2 ^ 32" "filter (\<lambda>c. c \<noteq> char_of (0::nat)) x = x" by (auto simp: filter_id_conv)
    then show ?thesis
      using cuts(1)[of "length x + 1" "x @ [char_of (0::nat)] @ r"] cuts(2)[of x "length x + 1" "[char_of (0::nat)] @ r"]
      by (simp add: prop_value_def vt_defs ac)
  qed
  show "prop_value ct nc (b @ payload (T_LPWSTR x) @ r) pid k VT_LPWSTR = Inr (PBytes x)" if "typed_ok (T_LPWSTR x)"
  proof -
    from that have "length x < 2 ^ 32" "decode_utf16_str (utf16le_ascii x) = x" by (auto intro: decode_utf16_ascii)
    then show ?thesis
      using cuts(1)[of "length x" "utf16le_ascii x @ r"] cuts(2)[of "utf16le_ascii x" "length x" r]
      by (simp add: prop_value_def vt_defs length_utf16le_ascii mult.commute ac)
  qed
  show "prop_value ct nc (b @ payload (T_BLOB x) @ r) pid k VT_BLOB = Inr (PBytes x)" if "typed_ok (T_BLOB x)"
    using that cuts(1)[of "length x" "x @ r"] cuts(2)[of x "length x" r] by (simp add: prop_value_def vt_defs ac)
qed

lemma prop_value_time:
  assumes "length b = k + 4" and "typed_ok (T_FILETIME n)"
  shows "prop_value ct nc (b @ payload (T_FILETIME n) @ r) pid k VT_FILETIME
    = Inr (typed_value (ct \<and> pid \<notin> set nc) (T_FILETIME n))"
proof -
  from assms(2) have n: "n mod 2 ^ 32 < 2 ^ 32" "n div 2 ^ 32 < 2 ^ 32" by (simp_all add: less_mult_imp_div_less)
  have "n mod 2 ^ 32 + push_bit 32 (n div 2 ^ 32) = n" by (simp add: push_bit_eq_mult mult.commute)
  then show ?thesis
    using value_cuts(1)[OF assms(1) n(1), of "le_bytes 4 (n div 2 ^ 32) @ r"] value_cuts(3)[OF assms(1) n(2), of _ r] assms(2)
    by (simp add: prop_value_def vt_defs filetime2datetime_def)
qed

lemma prop_value_enc:
  assumes "typed_ok t" and "length a = k"
  shows "prop_value ct nc (a @ enc_typed t @ r) pid k (type_of_typed t)
    = Inr (typed_value (ct \<and> pid \<notin> set nc) t)"
proof -
  let ?b = "a @ le_bytes 4 (type_of_typed t)"
  have b: "length ?b = k + 4" using assms(2) by simp
  have "prop_value ct nc (?b @ payload t @ r) pid k (type_of_typed t) = Inr (typed_value (ct \<and> pid \<notin> set nc) t)"
  proof (cases t)
    case (T_I2 v)
    with prop_value_I2[OF b, of v] assms(1) show ?thesis by simp
  next
    case (T_LPSTR x)
    with prop_value_blocks(1)[OF b, of x] assms(1) show ?thesis by simp
  next
    case (T_LPWSTR x)
    with prop_value_blocks(2)[OF b, of x] assms(1) show ?thesis by simp
  next
    case (T_BLOB x)
    with prop_value_blocks(3)[OF b, of x] assms(1) show ?thesis by simp
  next
    case (T_FILETIME n)
    with prop_value_time[OF b, of n] assms(1) show ?thesis by simp
  next
    case (T_UI1 n)
    have "byte_at (?b @ le_bytes 1 n @ r) (k + 4) = Inr n"
      using b T_UI1 assms by (simp add: byte_at_def nth_append i8_def)
    with T_UI1 show ?thesis by (simp add: prop_value_def vt_defs)
  qed (use assms(1) value_cuts(1,2)[OF b, of _ r] in \<open>auto simp: prop_value_def vt_defs\<close>)
  then show ?thesis by (simp add: enc_typed_def)
qed

text \<open>A whole property set: the table of identifiers and offsets, then the typed values.\<close>

definition props_payload :: "(nat \<times> typed) list \<Rightarrow> bytes" where
  "props_payload ps = concat (map (\<lambda>(pid, t). enc_typed t) ps)"

fun props_table :: "nat \<Rightarrow> (nat \<times> typed) list \<Rightarrow> bytes" where
  "props_table off [] = []"
| "props_table off ((pid, t) # ps) =
     le_bytes 4 pid @ le_bytes 4 off @ props_table (off + length (enc_typed t)) ps"

definition props_body :: "(nat \<times> typed) list \<Rightarrow> bytes" where
  "props_body ps = le_bytes 4 (length ps) @ props_table (8 + 8 * length ps) ps @ props_payload ps"

definition props_stream :: "bytes \<Rightarrow> bytes \<Rightarrow> (nat \<times> typed) list \<Rightarrow> bytes" where
  \<comment> \<open>a 28-byte header, the format identifier, the offset 48 and the section\<close>
  "props_stream hdr fmtid ps =
     hdr @ fmtid @ le_bytes 4 48 @ le_bytes 4 (4 + length (props_body ps)) @ props_body ps"

definition props_ok :: "(nat \<times> typed) list \<Rightarrow> bool" where
  "props_ok ps \<longleftrightarrow> list_all (\<lambda>(pid, t). pid < 2 ^ 32 \<and> typed_ok t) ps
     \<and> 4 + length (props_body ps) < 2 ^ 32"

lemma props_payload_Cons [simp]:
  "props_payload [] = []" "props_payload ((pid, t) # ps) = enc_typed t @ props_payload ps"
  by (simp_all add: props_payload_def)

lemma length_props_table [simp]: "length (props_table off ps) = 8 * length ps"
  by (induction off ps rule: props_table.induct) simp_all

lemma prop_head_at:
  assumes "length a = 8 + i * 8" and "length (a @ b) + 8 = off"
    and "pid < 2 ^ 32" and "off < 2 ^ 32"
  shows "prop_head (a @ le_bytes 4 pid @ le_bytes 4 off @ b @ enc_typed t @ c) i
    = Inr (pid, off, type_of_typed t)"
proof -
  let ?s = "a @ le_bytes 4 pid @ le_bytes 4 off @ b @ enc_typed t @ c"
  have vt: "type_of_typed t < 2 ^ 32" by (cases t) (simp_all add: vt_defs)
  have 1: "i32 ?s (8 + i * 8) = Inr pid" using assms by (intro i32_at) auto
  have "?s = (a @ le_bytes 4 pid) @ le_bytes 4 off @ b @ enc_typed t @ c" by simp
  then have 2: "i32 ?s (12 + i * 8) = Inr off"
    using i32_at[of "a @ le_bytes 4 pid" "12 + i * 8" off "b @ enc_typed t @ c"] assms by simp
  have "?s = (a @ le_bytes 4 pid @ le_bytes 4 off @ b) @ le_bytes 4 (type_of_typed t) @ payload t @ c"
    by (simp add: enc_typed_def)
  then have 3: "i32 ?s off = Inr (type_of_typed t)"
    using i32_at[of "a @ le_bytes 4 pid @ le_bytes 4 off @ b" off "type_of_typed t" "payload t @ c"] assms vt
    by simp
  show ?thesis by (simp only: prop_head_def 1 2 3 sbind_simps)
qed

fun props_map :: "bool \<Rightarrow> nat list \<Rightarrow> (nat \<times> typed) list \<Rightarrow> (nat \<rightharpoonup> propval) \<Rightarrow> (nat \<rightharpoonup> propval)" where
  "props_map ct nc [] m = m"
| "props_map ct nc ((pid, t) # ps) m = props_map ct nc ps (m(pid \<mapsto> typed_value (ct \<and> pid \<notin> set nc) t))"

lemma prop_loop_enc:
  assumes "length a = 8 + i * 8" and "off = length a + 8 * length ps + length b"
    and "list_all (\<lambda>(pid, t). pid < 2 ^ 32 \<and> typed_ok t) ps"
    and "off + length (props_payload ps) < 2 ^ 32"
  shows "prop_loop ct nc (a @ props_table off ps @ b @ props_payload ps) (length ps) i ty m
    = Inr (props_map ct nc ps m)"
  using assms
proof (induction ps arbitrary: a i off b ty m)
  case Nil
  then show ?case by simp
next
  case (Cons pt ps)
  obtain pid t where pt: "pt = (pid, t)" by (cases pt)
  let ?off = "off + length (enc_typed t)"
  let ?a = "a @ le_bytes 4 pid @ le_bytes 4 off"
  let ?b = "b @ enc_typed t"
  let ?s = "a @ props_table off (pt # ps) @ b @ props_payload (pt # ps)"
  have s1: "?s = a @ le_bytes 4 pid @ le_bytes 4 off @ (props_table ?off ps @ b) @ enc_typed t @ props_payload ps"
    by (simp add: pt)
  have s2: "?s = (?a @ props_table ?off ps @ b) @ enc_typed t @ props_payload ps" by (simp add: pt)
  have s3: "?s = ?a @ props_table ?off ps @ ?b @ props_payload ps" by (simp add: pt)
  have hd: "prop_head ?s i = Inr (pid, off, type_of_typed t)"
    unfolding s1 using Cons.prems by (intro prop_head_at) (auto simp: pt)
  have vl: "prop_value ct nc ?s pid off (type_of_typed t) = Inr (typed_value (ct \<and> pid \<notin> set nc) t)"
    unfolding s2 using Cons.prems by (intro prop_value_enc) (auto simp: pt)
  have "prop_loop ct nc ?s (length ps) (i + 1) (Some (type_of_typed t))
      (m(pid \<mapsto> typed_value (ct \<and> pid \<notin> set nc) t))
    = Inr (props_map ct nc ps
        (m(pid \<mapsto> typed_value (ct \<and> pid \<notin> set nc) t)))"
    unfolding s3 using Cons.prems by (intro Cons.IH) (auto simp: pt)
  then show ?case by (simp add: hd vl) (simp add: pt)
qed

lemma clsid_fmt_ok: "length c = 16 \<Longrightarrow> \<exists>s. clsid_fmt c = Inr s"
  using clsid_fmt_16[of c] by (cases "list_all (\<lambda>x. x = char_of (0::nat)) c") (auto simp: clsid_fmt_def)

lemma parse_properties_stream:
  assumes "length hdr = 28" and "length fmtid = 16" and "props_ok ps"
  shows "parse_properties_of ct nc (props_stream hdr fmtid ps)
    = Inr (props_map ct nc ps Map.empty)"
proof -
  let ?body = "props_body ps" let ?fp = "props_stream hdr fmtid ps"
  let ?s = "''****'' @ ?body"
  have sz: "4 + length ?body < 2 ^ 32" and n: "length ps < 2 ^ 32"
    using assms(3) by (auto simp: props_ok_def props_body_def)
  obtain c1 where c1: "clsid_fmt (slice 8 24 (take 28 ?fp)) = Inr c1"
    using clsid_fmt_ok[of "slice 8 24 (take 28 ?fp)"] assms by (auto simp: props_stream_def)
  obtain c2 where c2: "clsid_fmt (take 16 (slice 28 48 ?fp)) = Inr c2"
    using clsid_fmt_ok[of "take 16 (slice 28 48 ?fp)"] assms by (auto simp: props_stream_def)
  have h: "slice 28 48 ?fp = fmtid @ le_bytes 4 48"
    using assms slice_at[of hdr 28 48 "fmtid @ le_bytes 4 48"] by (simp add: props_stream_def)
  have pos: "i32 (fmtid @ le_bytes 4 48) 16 = Inr 48"
    using i32_at[of fmtid 16 48 "[]"] assms by simp
  have "slice 48 52 ?fp = le_bytes 4 (4 + length ?body)"
    using assms slice_at[of "hdr @ fmtid @ le_bytes 4 48" 48 52 "le_bytes 4 (4 + length ?body)" ?body]
    by (simp add: props_stream_def)
  then have cnt: "i32 (slice 48 (48 + 4) ?fp) 0 = Inr (4 + length ?body)"
    using i32_at[of "[]" 0 "4 + length ?body" "[]"] sz by simp
  have body: "read_signed ?fp (48 + 4) (int (4 + length ?body) - 4) = ?body"
    using assms by (simp add: read_signed_def props_stream_def)
  have num: "i32 ?s 4 = Inr (length ps)"
    using i32_at[of "''****''" 4 "length ps"] n by (simp add: props_body_def)
  have sec: "prop_section ?fp = Inr (?s, length ps)"
    by (simp only: prop_section_def c1 c2[unfolded h] h pos cnt body num sbind_simps Let_def)
  have lay: "?s = (''****'' @ le_bytes 4 (length ps)) @ props_table (8 + 8 * length ps) ps @ [] @ props_payload ps"
    by (simp add: props_body_def)
  have "prop_loop ct nc ?s (length ps) 0 None Map.empty
    = Inr (props_map ct nc ps Map.empty)"
    unfolding lay using assms(3)
    by (intro prop_loop_enc) (auto simp: props_ok_def props_body_def)
  then show ?thesis by (simp only: parse_properties_of_def sec sum.case prod.case)
qed

end
