(* ===== verification/OleSpec.thy ===== *)
theory OleSpec
  imports OleSample OleProps
begin

text \<open>
  The properties of olefile.py, over the definitions of the theories below: opening, listing and
  finding, streams and their sector chains, writing, headers, property sets. Each has, where it
  has hypotheses, a witness that meets them on a concrete file or object.
\<close>

section \<open>Concrete objects for the witnesses\<close>

definition sample_entry :: "nat \<Rightarrow> bytes \<Rightarrow> nat \<Rightarrow> nat \<Rightarrow> nat \<Rightarrow> nat list \<Rightarrow> dirent" where
  "sample_entry sid name etype start sz kids = \<lparr>de_sid = sid, de_name = name, de_entry_type = etype,
     de_color = 1, de_sid_left = NOSTREAM, de_sid_right = NOSTREAM, de_sid_child = NOSTREAM,
     de_clsid = [], de_dwUserFlags = 0, de_createTime = 0, de_modifyTime = 0,
     de_isectStart = start, de_size = sz, de_kids = kids, de_kids_dict = [], de_used = True\<rparr>"

text \<open>An object with four-byte sectors: a header, the two sectors of a six-byte stream \<open>s\<close>, the sector of a stream \<open>t\<close>.\<close>

definition small_ole :: ole where
  "small_ole = (new_ole DEFECT_FATAL)\<lparr>ole_fp := ''HHHHaaaabbbbcccc'', ole_writable := True,
     sectorsize := 4, minisectorsize := 2, minisectorcutoff := 0, nb_sect := 3,
     ole_fat := [1, ENDOFCHAIN, ENDOFCHAIN], ministream := Some None,
     direntries := [Some (sample_entry 0 ''R'' STGTY_ROOT ENDOFCHAIN 0 [1, 2]),
                    Some (sample_entry 1 ''s'' STGTY_STREAM 0 6 []),
                    Some (sample_entry 2 ''t'' STGTY_STREAM 2 4 [])]\<rparr>"

lemma small_entries:
  "entry_at small_ole (PStr ''s'') = Inr (sample_entry 1 ''s'' STGTY_STREAM 0 6 [])"
  "entry_at small_ole (PList [''T'']) = Inr (sample_entry 2 ''t'' STGTY_STREAM 2 4 [])"
  by (simp_all add: entry_at_def ole_find_def small_ole_def root_entry_def path_names_def kids_of_def
      entry_of_def sample_entry_def name_of_def py_lower_def lower_char_def char_of_def bit_0)

lemma small_fields:
  "sectorsize small_ole = 4" "minisectorcutoff small_ole = 0" "ole_writable small_ole"
  "ole_fat small_ole = [1, ENDOFCHAIN, ENDOFCHAIN]" "ole_fp small_ole = ''HHHHaaaabbbbcccc''"
  by (simp_all add: small_ole_def)

lemma small_fat_ok: "fat_ok small_ole"
  by (simp add: fat_ok_def small_fields ENDOFCHAIN_def)

lemma small_seek: "4 < SEEK_LIMIT" "8 < SEEK_LIMIT" "12 < SEEK_LIMIT"
  by (simp_all add: SEEK_LIMIT_def)

lemma small_write:
  "write_stream (PStr ''s'') ''123456'' small_ole
    = (Inr (), small_ole\<lparr>ole_fp := ''HHHH123456'' @ [CHR 0x00, CHR 0x00] @ ''cccc''\<rparr>)"
  unfolding write_stream_Inr[where ss = 4, OF small_fields(1) zero_less_numeral]
  by (intro exI[of _ "sample_entry 1 ''s'' STGTY_STREAM 0 6 []"] exI[of _ "[0, 1]"])
     (simp add: small_entries small_fields sample_entry_def nb_sectors_def small_seek
        ENDOFCHAIN_def pad_sector_def put_sector_def fp_write_def numeral_2_eq_2 char_of_def)

section \<open>Streams and sector chains\<close>

text \<open>
  C2: A stream of known size opens exactly when the chain that starts at its sector has the number
  of sectors the size calls for, every one of them can be read and together they hold the
  declared number of bytes; the stream then is the first bytes of the chain.
\<close>
theorem stream_known_exact:
  assumes "sz \<noteq> UNKNOWN_SIZE" and "0 < ss"
  shows "ole_stream fp sect sz off ss fat = Inr st \<longleftrightarrow>
    (\<exists>xs. fat_chain fat sect xs \<and> (\<forall>x\<in>set xs. readable fp off ss fat x)
       \<and> length xs = (sz + (ss - 1)) div ss \<and> sz \<le> length (chain_data fp off ss xs)
       \<and> st = \<lparr>contents = take sz (chain_data fp off ss xs), strm_size = sz\<rparr>)"
  using assms by (rule ole_stream_known)

theorem stream_known_exact_witness:
  "ole_stream ''HHHHaaaabbbb'' 0 6 4 4 [1, ENDOFCHAIN] = Inr \<lparr>contents = ''aaaabb'', strm_size = 6\<rparr>"
proof -
  have "fat_chain [1, ENDOFCHAIN] 0 [0, 1]" by (simp add: ENDOFCHAIN_def)
  moreover have "chain_data ''HHHHaaaabbbb'' 4 4 [0, 1] = ''aaaabbbb''"
    by (simp add: chain_data_def sector_at_def fp_read_def)
  moreover have "readable ''HHHHaaaabbbb'' 4 4 [1, ENDOFCHAIN] x" if "x \<in> {0, 1}" for x
    using that by (auto simp: readable_def sector_at_def fp_read_def small_seek)
  ultimately show ?thesis
    by (subst stream_known_exact) (auto simp: UNKNOWN_SIZE_def intro!: exI[of _ "[0, 1]"])
qed

text \<open>
  A stream of unknown size (the directory) opens exactly when a readable chain starts at its
  sector, and is the whole chain: the bound of one step per table entry never cuts a chain short.
\<close>
theorem stream_unknown_exact:
  assumes "0 < ss"
  shows "ole_stream fp sect UNKNOWN_SIZE off ss fat = Inr st \<longleftrightarrow>
    (\<exists>xs. fat_chain fat sect xs \<and> (\<forall>x\<in>set xs. readable fp off ss fat x)
       \<and> st = \<lparr>contents = chain_data fp off ss xs, strm_size = length (chain_data fp off ss xs)\<rparr>)"
  using assms by (rule ole_stream_unknown)

theorem stream_unknown_exact_witness:
  "\<exists>st. ole_stream ''HHHHaaaabbbb'' 0 UNKNOWN_SIZE 4 4 [1, ENDOFCHAIN] = Inr st"
proof -
  have "fat_chain [1, ENDOFCHAIN] 0 [0, 1]" by (simp add: ENDOFCHAIN_def)
  moreover have "readable ''HHHHaaaabbbb'' 4 4 [1, ENDOFCHAIN] x" if "x \<in> {0, 1}" for x
    using that by (auto simp: readable_def sector_at_def fp_read_def small_seek)
  ultimately show ?thesis
    using stream_unknown_exact[of 4 "''HHHHaaaabbbb''" 0 4 "[1, ENDOFCHAIN]"]
    by (metis empty_iff insert_iff list.set(1) list.simps(15) zero_less_numeral)
qed

section \<open>Writing\<close>

text \<open>
  C1: A stream that \<open>write_stream\<close> has replaced without an exception reads back as exactly the data
  written, through \<open>openstream\<close> on the same object.
\<close>
theorem write_read_round_trip:
  assumes "0 < sectorsize s" and "fat_ok s" and "length data \<noteq> UNKNOWN_SIZE"
    and "write_stream p data s = (Inr (), t)"
  shows "openstream p t = (Inr \<lparr>contents = data, strm_size = length data\<rparr>, t)"
  using assms by (intro write_then_open) auto

theorem write_read_round_trip_witness:
  "\<exists>t. write_stream (PStr ''s'') ''123456'' small_ole = (Inr (), t)
     \<and> openstream (PStr ''s'') t = (Inr \<lparr>contents = ''123456'', strm_size = 6\<rparr>, t)"
  using write_read_round_trip[OF _ small_fat_ok _ small_write] small_write
  by (auto simp: small_fields UNKNOWN_SIZE_def)



text \<open>
  The writer looks its sector up only after writing it: for a stream whose first sector is not
  in the FAT, \<open>write_stream\<close> writes one sector there and then raises.
\<close>
theorem write_before_check:
  assumes "entry_at s p = Inr d" "de_entry_type d = STGTY_STREAM" "de_size d = length data"
    and "minisectorcutoff s \<le> length data" "0 < length data" and "0 < sectorsize s"
    and "length (ole_fat s) \<le> de_isectStart d" "ole_writable s"
    and "sectorsize s * (de_isectStart d + 1) < SEEK_LIMIT"
  shows "write_stream p data s = (Inl (IOError ''incorrect OLE FAT, sector index out of range''),
    s\<lparr>ole_fp := put_sector (sectorsize s) (sectorsize s) (de_isectStart d)
        (pad_sector (sectorsize s) (take (sectorsize s) data)) (ole_fp s)\<rparr>)"
  using assms by (rule write_out_of_fat)

theorem write_before_check_witness:
  "\<exists>t. write_stream (PStr ''s'') ''123456'' (small_ole\<lparr>ole_fat := []\<rparr>)
     = (Inl (IOError ''incorrect OLE FAT, sector index out of range''), t)
     \<and> ole_fp t = ''HHHH1234bbbbcccc''"
proof -
  have e: "entry_at (small_ole\<lparr>ole_fat := []\<rparr>) (PStr ''s'') = Inr (sample_entry 1 ''s'' STGTY_STREAM 0 6 [])"
    by (simp add: entry_at_def ole_find_def small_ole_def root_entry_def path_names_def kids_of_def
      entry_of_def sample_entry_def name_of_def py_lower_def lower_char_def)
  show ?thesis
    by (subst write_before_check[OF e])
       (simp_all add: sample_entry_def small_fields small_seek put_sector_def pad_sector_def fp_write_def)
qed

text \<open>
  \<open>write_sect\<close> does not reject data larger than a sector: its two length tests are the same, so
  the data is written whole, over the sectors that follow.
\<close>
theorem write_sect_accepts_oversize:
  assumes "sectorsize s < length d" and "ole_writable s" and "sectorsize s * (i + 1) < SEEK_LIMIT"
  shows "write_sect i d [p] s
    = (Inr (), s\<lparr>ole_fp := fp_write (ole_fp s) (sectorsize s * (i + 1)) d\<rparr>)"
  using assms by (rule write_sect_oversize)

theorem write_sect_accepts_oversize_witness:
  "\<exists>t. write_sect 0 ''123456'' [CHR 0x00] small_ole = (Inr (), t) \<and> ole_fp t = ''HHHH123456bbcccc''"
  by (subst write_sect_accepts_oversize)
     (simp_all add: small_fields small_seek fp_write_def)

section \<open>Opening\<close>



text \<open>
  C9: \<open>listdir\<close> reports exactly the paths of the storage tree whose entry is a stream or a storage,
  as asked for, below storages only.
\<close>
theorem listdir_exact:
  assumes "listdir n streams storages s = (Inr files, t)"
  shows "set files = {ns. \<exists>m. tree_path s (kids_of s 0) ns m \<and> wanted s streams storages m}
    \<and> direntries t = direntries s"
  using listdir_paths[OF assms] by auto

theorem listdir_exact_witness:
  "\<exists>files t. listdir 1 True False small_ole = (Inr files, t)
     \<and> set files = {ns. \<exists>m. tree_path small_ole (kids_of small_ole 0) ns m \<and> wanted small_ole True False m}"
proof -
  have "listdir 1 True False small_ole = (Inr [[''s''], [''t'']], small_ole)"
    by (simp add: listdir_def get_entry_def entry_of_def small_ole_def sample_entry_def bindE_def
        STGTY_STREAM_def STGTY_STORAGE_def)
  with listdir_exact[OF this] show ?thesis by blast
qed



text \<open>
  C27: In the default mode no recursion limit is enough for a directory entry that is its own left
  sibling: the defect is only recorded and the walk goes round.
\<close>
theorem default_mode_cycle:
  assumes "entry_of s i = Some d" and "raise_defects_level s = DEFECT_FATAL"
    and "de_sid_left d = i" and "i \<noteq> NOSTREAM"
  shows "is_rt (fst (append_kids fuel p i s))"
  using assms by (rule self_left_exhausts)

theorem default_mode_cycle_witness:
  "is_rt (fst (append_kids 1000 0 0 (small_ole\<lparr>direntries :=
     [Some ((sample_entry 0 ''R'' STGTY_ROOT 0 0 [])\<lparr>de_sid_left := 0\<rparr>)]\<rparr>)))"
  by (rule default_mode_cycle[where d = "(sample_entry 0 ''R'' STGTY_ROOT 0 0 [])\<lparr>de_sid_left := 0\<rparr>"])
     (simp_all add: entry_of_def small_ole_def new_ole_def NOSTREAM_def sample_entry_def)

text \<open>
  C11: Whatever the defect level, a file that opens has no two streams recorded as starting at the
  same sector, neither in the FAT nor in the MiniFAT.
\<close>
theorem opened_starts_distinct:
  assumes "OleFileIO_init fs fuel f lvl w = Inr s"
  shows "distinct (used_streams_fat s) \<and> distinct (used_streams_minifat s)"
proof -
  have st: "starts_distinct (new_ole lvl)" by (rule ole_open_file_starts)
  have "starts_distinct s"
  proof (cases "f = None \<or> f = Some (ByteStr [])")
    case True
    with assms st show ?thesis by (auto simp: OleFileIO_init_def)
  next
    case False
    then obtain g u where "f = Some g" "ole_open_file fs fuel g w (new_ole lvl) = (Inr u, s)"
      using assms by (auto simp: OleFileIO_init_def split: option.splits prod.splits sum.splits)
    with keepsD[OF keeps_starts_open_file st, of fs fuel g w] show ?thesis by simp
  qed
  then show ?thesis by (simp add: starts_distinct_def)
qed

theorem opened_starts_distinct_witness:
  "\<exists>s. OleFileIO_init (\<lambda>_. None) 6 (Some (FileObj sample_file False)) DEFECT_POTENTIAL False = Inr s
     \<and> distinct (used_streams_fat s)"
  using sample_opens[of "\<lambda>_. None" "FileObj sample_file False" False 6 DEFECT_POTENTIAL] opened_starts_distinct
  by (auto simp: open_source_def)

section \<open>The header and the FAT\<close>

text \<open>
  With a defect level up to DEFECT_POTENTIAL the tests of \<open>open\<close> accept exactly the conforming
  headers with a null transaction signature, and record nothing.
\<close>
theorem header_strict:
  assumes "raise_defects_level s \<le> DEFECT_POTENTIAL"
  shows "check_header h s = (Inr (), t) \<longleftrightarrow> header_conforms h \<and> hd_signature h = 0 \<and> t = s"
  using assms by (rule check_header_strict)

theorem header_strict_witness:
  "check_header sample_header (new_ole DEFECT_UNSURE) = (Inr (), new_ole DEFECT_UNSURE)"
  by (subst header_strict)
     (simp_all add: new_ole_def sample_conforms less_eq_defect_def, simp add: sample_header_def)

text \<open>
  In the default mode the tests insist on the signature and the byte order only; every other
  test that fails adds one recorded issue.
\<close>
theorem header_default:
  assumes "raise_defects_level s = DEFECT_FATAL"
  shows "if hd_Sig h = MAGIC \<and> hd_ByteOrder h = 0xFFFE
    then \<exists>is. length is = header_issues h
       \<and> check_header h s = (Inr (), s\<lparr>parsing_issues := parsing_issues s @ is\<rparr>)
    else \<exists>e u. check_header h s = (Inl (IOError e), u)"
  using check_header_lenient[OF assms] by (auto simp: header_usable_def)

theorem header_default_witness:
  "\<exists>is. length is = 2 \<and> check_header (sample_header\<lparr>hd_DllVersion := 5, hd_signature := 1\<rparr>) small_ole
     = (Inr (), small_ole\<lparr>parsing_issues := is\<rparr>)"
proof -
  have "header_issues (sample_header\<lparr>hd_DllVersion := 5, hd_signature := 1\<rparr>) = 2"
    by (simp add: header_issues_def sample_header_def SectorSize_def MiniSectorSize_def)
  then show ?thesis
    using header_default[of small_ole "sample_header\<lparr>hd_DllVersion := 5, hd_signature := 1\<rparr>"]
    by (simp add: small_ole_def new_ole_def sample_header_def)
qed

text \<open>
  Decoding a header laid out as the format says gives the header back.
\<close>
theorem header_round_trip:
  assumes "header_in_range h"
  shows "unpack_header (pack_header h) = Inr h"
  using assms by (rule unpack_pack_header)

theorem header_round_trip_witness: "unpack_header (pack_header sample_header) = Inr sample_header"
  by (rule header_round_trip[OF sample_header_range])

text \<open>
  Without a DIFAT the table loaded is the concatenation of the sectors that the header lists
  before the first end or free marker, cut to the number of sectors of the file.
\<close>
theorem fat_from_header:
  assumes "length header = 512" and "csectDif s = 0" and "0 \<le> nb_sect s"
    and "sectorsize s mod 4 = 0"
    and "\<forall>i\<in>set (listed (le_words (slice 76 512 header))). sect_ok s i"
  shows "loadfat header s = (Inr (), s\<lparr>ole_fat :=
    take (nat (nb_sect s)) (fat_of s (listed (le_words (slice 76 512 header))))\<rparr>)"
  using assms by (rule loadfat_no_difat)

theorem fat_from_header_witness:
  "loadfat (replicate 512 (char_of (255::nat))) small_ole = (Inr (), small_ole\<lparr>ole_fat := []\<rparr>)"
proof -
  have "le_words (replicate (4 * n) (char_of (255::nat))) = replicate n FREESECT" for n
  proof (induction n)
    case (Suc n)
    have four: "4 * Suc n = Suc (Suc (Suc (Suc (4 * n))))" by simp
    have "replicate (4 * Suc n) (char_of (255::nat)) = [char_of (255::nat), char_of (255::nat),
        char_of (255::nat), char_of (255::nat)] @ replicate (4 * n) (char_of (255::nat))"
      by (simp only: four replicate.simps append.simps)
    with Suc show ?case by (simp add: FREESECT_def)
  qed simp
  from this[of 109] have "listed (le_words (slice 76 512 (replicate 512 (char_of (255::nat))))) = []"
    by (simp add: slice_def listed_def)
  with fat_from_header[of "replicate 512 (char_of (255::nat))" small_ole] show ?thesis
    by (simp add: small_ole_def new_ole_def fat_of_def)
qed

section \<open>Names and property sets\<close>



text \<open>
  A property set that cannot be parsed always raises, whatever the defect level: the handlers
  that should record a defect call the local variable \<open>type\<close>, and no issue is recorded.
\<close>
theorem properties_never_tolerant:
  assumes "parse_properties_of ct nc b = Inl e"
  shows "(\<exists>m. e = UnboundLocalError m) \<or> (\<exists>m. e = TypeError m)"
  using assms by (rule parse_properties_error)

theorem properties_never_tolerant_witness:
  "\<exists>m. parse_properties_of True [] [] = Inl (UnboundLocalError m)"
proof -
  have "parse_properties_of True [] [] = Inl (type_call None)"
    by (simp add: parse_properties_of_def prop_section_def slice_def clsid_fmt_def)
  with properties_never_tolerant[OF this] show ?thesis by (auto simp: type_call_def)
qed

text \<open>
  An ASCII name of up to 31 characters stored in a directory entry as UTF-16 is decoded to
  the same name.
\<close>
theorem entry_name_round_trip:
  assumes "length name \<le> 31" and "list_all (\<lambda>c. i8 c < 128) name"
  shows "entry_name (dirent_bytes name etype child start) = name"
  using assms by (rule entry_name_dirent)

theorem entry_name_round_trip_witness:
  "entry_name (dirent_bytes ''Root Entry'' STGTY_ROOT 1 ENDOFCHAIN) = ''Root Entry''"
  by (rule entry_name_round_trip) (simp_all add: i8_def)

text \<open>
  The formatted class identifier determines the sixteen bytes it was made from.
\<close>
theorem clsid_injective:
  assumes "clsid_fmt c = Inr u" and "clsid_fmt d = Inr u"
  shows "c = d"
  using assms by (rule clsid_fmt_inj)

theorem clsid_injective_witness:
  "{d. clsid_fmt d = clsid_fmt (replicate 16 (char_of (1::nat)))} = {replicate 16 (char_of (1::nat))}"
proof -
  obtain u where "clsid_fmt (replicate 16 (char_of (1::nat))) = Inr u"
    using clsid_fmt_ok[of "replicate 16 (char_of (1::nat))"] by auto
  then show ?thesis using clsid_injective by fastforce
qed

end
