(* ===== verification/MailText.thy ===== *)
theory MailText
  imports PyBase
begin

text \<open>
  The text helpers that msg_parser.py and eml_parser.py both define: \<open>remove_tags\<close>,
  \<open>remove_eol\<close>, \<open>extract_author_mail\<close>, \<open>format_mail\<close>, with the string methods they use
  (\<open>strip\<close>, \<open>find\<close>, \<open>replace\<close>), and the small string functions of eml_parser.py. The lemmas show that the
  tag remover leaves no tag and touches nothing else, that the end-of-line remover is one pass,
  and that a formatted address list is taken apart into the authors and addresses it was built
  from.
\<close>

section \<open>String methods\<close>

definition is_space :: "char \<Rightarrow> bool" where
  "is_space c \<longleftrightarrow> c \<in> {CHR '' '', CHR 0x09, CHR 0x0A, CHR 0x0B, CHR 0x0C, CHR 0x0D}"

definition strip_by :: "(char \<Rightarrow> bool) \<Rightarrow> bytes \<Rightarrow> bytes" where
  "strip_by P s = rev (dropWhile P (rev (dropWhile P s)))"

definition py_strip :: "bytes \<Rightarrow> bytes" where
  \<comment> \<open>\<open>s.strip()\<close>\<close>
  "py_strip s = strip_by is_space s"

definition py_strip_char :: "char \<Rightarrow> bytes \<Rightarrow> bytes" where
  \<comment> \<open>\<open>s.strip(c)\<close> for a one-character string\<close>
  "py_strip_char c s = strip_by (\<lambda>x. x = c) s"

definition py_find :: "char \<Rightarrow> bytes \<Rightarrow> nat option" where
  \<comment> \<open>\<open>s.find(c)\<close>, \<open>None\<close> for -1\<close>
  "py_find c s = (if c \<in> set s then Some (length (takeWhile (\<lambda>x. x \<noteq> c) s)) else None)"

fun replace_char :: "char \<Rightarrow> char \<Rightarrow> bytes \<Rightarrow> bytes" where
  "replace_char a b [] = []"
| "replace_char a b (c # cs) = (if c = a then b else c) # replace_char a b cs"

fun replace_pair :: "char \<Rightarrow> char \<Rightarrow> char \<Rightarrow> bytes \<Rightarrow> bytes" where
  \<comment> \<open>\<open>s.replace(a1a2, b)\<close>: non-overlapping occurrences from the left\<close>
  "replace_pair a1 a2 b (x # y # cs) =
     (if x = a1 \<and> y = a2 then b # replace_pair a1 a2 b cs
      else x # replace_pair a1 a2 b (y # cs))"
| "replace_pair a1 a2 b s = s"

definition starts_with :: "bytes \<Rightarrow> bytes \<Rightarrow> bool" where
  "starts_with p s \<longleftrightarrow> take (length p) s = p"

definition ends_with :: "bytes \<Rightarrow> bytes \<Rightarrow> bool" where
  "ends_with p s \<longleftrightarrow> length p \<le> length s \<and> drop (length s - length p) s = p"

lemma strip_by_none: "s = [] \<or> (\<not> P (hd s) \<and> \<not> P (last s)) \<Longrightarrow> strip_by P s = s"
proof -
  assume s: "s = [] \<or> (\<not> P (hd s) \<and> \<not> P (last s))"
  then have "dropWhile P s = s" and "dropWhile P (rev s) = rev s"
    by (auto simp: dropWhile_eq_self_iff hd_rev)
  then show ?thesis by (simp add: strip_by_def)
qed

lemma strip_by_pad:
  assumes "list_all P a" and "list_all P b" and "s \<noteq> []" and "\<not> P (hd s)" and "\<not> P (last s)"
  shows "strip_by P (a @ s @ b) = s"
proof -
  have dw: "list_all P xs \<Longrightarrow> ys \<noteq> [] \<Longrightarrow> \<not> P (hd ys) \<Longrightarrow> dropWhile P (xs @ ys) = ys" for xs ys
    by (cases ys) (auto simp: list_all_iff dropWhile_append)
  have "dropWhile P (a @ s @ b) = s @ b" using dw[OF assms(1), of "s @ b"] assms(3,4) by simp
  moreover have "dropWhile P (rev b @ rev s) = rev s"
    using dw[of "rev b" "rev s"] assms by (simp add: hd_rev list_all_iff)
  ultimately show ?thesis by (simp add: strip_by_def)
qed

lemma strip_by_all: "list_all P a \<Longrightarrow> strip_by P a = []"
proof -
  assume "list_all P a"
  then have "dropWhile P a = []" by (induction a) auto
  then show ?thesis unfolding strip_by_def by (simp only:) simp
qed

lemma takeWhile_sep: "c \<notin> set a \<Longrightarrow> takeWhile (\<lambda>x. x \<noteq> c) (a @ c # b) = a"
  by (induction a) auto

lemma dropWhile_sep: "c \<notin> set a \<Longrightarrow> dropWhile (\<lambda>x. x \<noteq> c) (a @ c # b) = c # b"
  by (induction a) auto

lemma py_find_append: "c \<notin> set a \<Longrightarrow> py_find c (a @ c # b) = Some (length a)"
  by (simp add: py_find_def takeWhile_sep)

lemma py_find_None [simp]: "py_find c s = None \<longleftrightarrow> c \<notin> set s"
  by (simp add: py_find_def)

section \<open>remove_tags and remove_eol\<close>

text \<open>
  \<open>re.compile('<[^>]+>').sub(' ', text)\<close>: at a \<open><\<close> the match runs to the next \<open>></\<close>, with
  something in between; where it fails the character stays and the search goes on after it.
\<close>

function remove_tags :: "bytes \<Rightarrow> bytes" where
  "remove_tags [] = []"
| "remove_tags (c # cs) =
     (if c = CHR ''<'' \<and> CHR ''>'' \<in> set cs \<and> takeWhile (\<lambda>x. x \<noteq> CHR ''>'') cs \<noteq> []
      then CHR '' '' # remove_tags (tl (dropWhile (\<lambda>x. x \<noteq> CHR ''>'') cs))
      else c # remove_tags cs)"
  by pat_completeness auto
termination
proof (relation "measure length")
  show "(tl (dropWhile (\<lambda>x. x \<noteq> CHR ''>'') cs), c # cs) \<in> measure length" for c and cs :: bytes
    using length_dropWhile_le[of "\<lambda>x. x \<noteq> CHR ''>''" cs] by simp
qed auto

definition remove_eol :: "bytes \<Rightarrow> bytes" where
  "remove_eol text =
     (let res = replace_pair (CHR 0x0D) (CHR 0x0A) (CHR '' '') text;
          res = replace_char (CHR 0x0D) (CHR '' '') res;
          res = replace_char (CHR 0x09) (CHR '' '') res
      in replace_char (CHR 0x0A) (CHR '' '') res)"

definition has_tag :: "bytes \<Rightarrow> bool" where
  "has_tag s \<longleftrightarrow> (\<exists>pre body post. s = pre @ CHR ''<'' # body @ CHR ''>'' # post
     \<and> body \<noteq> [] \<and> CHR ''>'' \<notin> set body)"

lemma has_tag_Cons:
  "has_tag (c # cs) \<longleftrightarrow>
     (c = CHR ''<'' \<and> CHR ''>'' \<in> set cs \<and> takeWhile (\<lambda>x. x \<noteq> CHR ''>'') cs \<noteq> []) \<or> has_tag cs"
proof
  assume "has_tag (c # cs)"
  then obtain pre body post where h: "c # cs = pre @ CHR ''<'' # body @ CHR ''>'' # post"
    "body \<noteq> []" "CHR ''>'' \<notin> set body" by (auto simp: has_tag_def)
  show "(c = CHR ''<'' \<and> CHR ''>'' \<in> set cs \<and> takeWhile (\<lambda>x. x \<noteq> CHR ''>'') cs \<noteq> []) \<or> has_tag cs"
  proof (cases pre)
    case Nil
    with h have "cs = body @ CHR ''>'' # post" and "c = CHR ''<''" by auto
    moreover have "takeWhile (\<lambda>x. x \<noteq> CHR ''>'') (body @ CHR ''>'' # post) = body"
      using h(3) by (rule takeWhile_sep)
    ultimately show ?thesis using h(2) by simp
  next
    case (Cons a pre')
    with h show ?thesis by (auto simp: has_tag_def)
  qed
next
  assume r: "(c = CHR ''<'' \<and> CHR ''>'' \<in> set cs \<and> takeWhile (\<lambda>x. x \<noteq> CHR ''>'') cs \<noteq> []) \<or> has_tag cs"
  then show "has_tag (c # cs)"
  proof
    assume t: "c = CHR ''<'' \<and> CHR ''>'' \<in> set cs \<and> takeWhile (\<lambda>x. x \<noteq> CHR ''>'') cs \<noteq> []"
    then obtain body post where "cs = body @ CHR ''>'' # post" "CHR ''>'' \<notin> set body"
      by (meson split_list_first)
    moreover from this t have "body \<noteq> []" by (auto simp: takeWhile_sep)
    ultimately show ?thesis using t by (force simp: has_tag_def)
  next
    assume "has_tag cs"
    then show ?thesis by (force simp: has_tag_def intro: exI[of _ "c # _"])
  qed
qed

lemma has_tag_Nil [simp]: "\<not> has_tag []"
  by (simp add: has_tag_def)

lemma remove_tags_id: "\<not> has_tag s \<Longrightarrow> remove_tags s = s"
  by (induction s) (auto simp: has_tag_Cons)

lemma set_remove_tags: "set (remove_tags s) \<subseteq> insert (CHR '' '') (set s)"
proof (induction s rule: remove_tags.induct)
  case (2 c cs)
  have "set (tl (dropWhile (\<lambda>x. x \<noteq> CHR ''>'') cs)) \<subseteq> set cs"
    by (induction cs) auto
  with 2 show ?case by auto
qed simp

lemma remove_tags_no_tag: "\<not> has_tag (remove_tags s)"
proof (induction s rule: remove_tags.induct)
  case (2 c cs)
  show ?case
  proof (cases "c = CHR ''<'' \<and> CHR ''>'' \<in> set cs \<and> takeWhile (\<lambda>x. x \<noteq> CHR ''>'') cs \<noteq> []")
    case True
    with 2 show ?thesis by (simp add: has_tag_Cons)
  next
    case False
    have "\<not> (c = CHR ''<'' \<and> CHR ''>'' \<in> set (remove_tags cs)
        \<and> takeWhile (\<lambda>x. x \<noteq> CHR ''>'') (remove_tags cs) \<noteq> [])"
    proof (cases "CHR ''>'' \<in> set cs")
      case True
      with False have "c = CHR ''<'' \<Longrightarrow> \<exists>r. cs = CHR ''>'' # r" by (cases cs) (auto split: if_splits)
      then show ?thesis by auto
    next
      case False
      with set_remove_tags[of cs] show ?thesis by auto
    qed
    with False 2 show ?thesis by (simp only: remove_tags.simps if_False has_tag_Cons) auto
  qed
qed simp

lemma remove_tags_step:
  assumes "CHR ''<'' \<notin> set a" and "body \<noteq> []" and "CHR ''>'' \<notin> set body"
  shows "remove_tags (a @ CHR ''<'' # body @ CHR ''>'' # post) = a @ CHR '' '' # remove_tags post"
proof -
  have tw: "takeWhile (\<lambda>x. x \<noteq> CHR ''>'') (body @ CHR ''>'' # post) = body"
    "dropWhile (\<lambda>x. x \<noteq> CHR ''>'') (body @ CHR ''>'' # post) = CHR ''>'' # post"
    using assms(3) by (simp_all add: takeWhile_sep dropWhile_sep)
  from assms(1) show ?thesis
    by (induction a) (auto simp: tw assms(2))
qed

text \<open>One pass over the text: what the four replacements amount to.\<close>

fun eol_to_space :: "bytes \<Rightarrow> bytes" where
  "eol_to_space (c # d # cs) =
     (if c = CHR 0x0D \<and> d = CHR 0x0A then CHR '' '' # eol_to_space cs
      else (if c \<in> {CHR 0x0D, CHR 0x0A, CHR 0x09} then CHR '' '' else c) # eol_to_space (d # cs))"
| "eol_to_space [c] = [if c \<in> {CHR 0x0D, CHR 0x0A, CHR 0x09} then CHR '' '' else c]"
| "eol_to_space [] = []"

lemma remove_eol_one_pass: "remove_eol s = eol_to_space s"
proof -
  let ?f = "\<lambda>c. if c \<in> {CHR 0x0D, CHR 0x0A, CHR 0x09} then CHR '' '' else c"
  have rc: "replace_char a b t = map (\<lambda>c. if c = a then b else c) t" for a b t
    by (induction t) auto
  have "remove_eol s = map ?f (replace_pair (CHR 0x0D) (CHR 0x0A) (CHR '' '') s)"
    by (simp add: remove_eol_def rc Let_def comp_def)
  also have "\<dots> = eol_to_space s" by (induction s rule: eol_to_space.induct) auto
  finally show ?thesis .
qed

lemma eol_to_space_clean: "set (eol_to_space s) \<inter> {CHR 0x0D, CHR 0x0A, CHR 0x09} = {}"
  by (induction s rule: eol_to_space.induct) auto

lemma eol_to_space_id: "set s \<inter> {CHR 0x0D, CHR 0x0A, CHR 0x09} = {} \<Longrightarrow> eol_to_space s = s"
  by (induction s rule: eol_to_space.induct) auto

section \<open>Addresses\<close>

definition extract_author_mail :: "bytes \<Rightarrow> bytes \<times> bytes" where
  "extract_author_mail inputmail =
     (let (author, mail) =
        (case py_find (CHR ''<'') inputmail of
           Some (Suc k) \<Rightarrow> (py_strip (take k inputmail), drop (Suc k) inputmail)
         | _ \<Rightarrow> ([], inputmail));
        mail = py_strip mail;
        mail = py_strip_char (CHR ''<'') mail;
        mail = py_strip_char (CHR ''>'') mail
      in (author, mail))"

definition format_mail :: "bytes \<Rightarrow> bytes \<times> bytes" where
  "format_mail inputmails =
     (let mail_list = py_split (CHR '','') inputmails;
          pairs = map extract_author_mail mail_list
      in (py_strip (py_join '' '' (map fst pairs)), py_strip (py_join '' '' (map snd pairs))))"

section \<open>Small functions of eml_parser.py\<close>

definition construct_name :: "bytes \<Rightarrow> bytes \<Rightarrow> pyexc + bytes" where
  "construct_name key fn =
     (case py_split (CHR ''.'') key of
        a # b # _ \<Rightarrow> Inr ((a @ b) @ ''.'' @ fn)
      | _ \<Rightarrow> Inl (IndexError ''list index out of range''))"

definition drop_ends :: "bytes \<Rightarrow> bytes" where
  \<comment> \<open>\<open>s[1:-1]\<close>\<close>
  "drop_ends s = butlast (tl s)"

definition disqo :: "bytes \<Rightarrow> bytes" where
  "disqo s =
     (let s = py_strip s in
      if starts_with [CHR 0x27] s \<and> ends_with [CHR 0x27] s then drop_ends s
      else if starts_with [CHR 0x22] s \<and> ends_with [CHR 0x22] s then drop_ends s
      else s)"

definition disgra :: "bytes \<Rightarrow> bytes" where
  "disgra s =
     (let s = py_strip s in
      if starts_with ''<'' s \<and> ends_with ''>'' s then drop_ends s else s)"

section \<open>Taking formatted addresses apart\<close>

definition trimmed :: "bytes \<Rightarrow> bool" where
  "trimmed s \<longleftrightarrow> s \<noteq> [] \<and> \<not> is_space (hd s) \<and> \<not> is_space (last s)"

definition plain_author :: "bytes \<Rightarrow> bool" where
  "plain_author a \<longleftrightarrow> trimmed a \<and> CHR ''<'' \<notin> set a \<and> CHR '','' \<notin> set a"

definition plain_mail :: "bytes \<Rightarrow> bool" where
  "plain_mail m \<longleftrightarrow> trimmed m \<and> hd m \<noteq> CHR ''<'' \<and> last m \<noteq> CHR ''>'' \<and> hd m \<noteq> CHR ''>''
     \<and> last m \<noteq> CHR ''<'' \<and> CHR '','' \<notin> set m"

definition show_address :: "bytes \<times> bytes \<Rightarrow> bytes" where
  "show_address am = fst am @ '' <'' @ snd am @ ''>''"

lemma py_strip_pad:
  "list_all is_space a \<Longrightarrow> list_all is_space b \<Longrightarrow> trimmed s \<Longrightarrow> py_strip (a @ s @ b) = s"
  by (simp add: py_strip_def trimmed_def strip_by_pad)

lemma py_strip_trimmed: "trimmed s \<Longrightarrow> py_strip s = s"
  using py_strip_pad[of "[]" "[]" s] by simp

lemma is_space_simps [simp]:
  "is_space (CHR '' '')" "\<not> is_space (CHR ''<'')" "\<not> is_space (CHR ''>'')"
  by (simp_all add: is_space_def)

lemma strip_brackets:
  assumes "plain_mail m"
  shows "py_strip_char (CHR ''>'') (py_strip_char (CHR ''<'') (py_strip (CHR ''<'' # m @ [CHR ''>'']))) = m"
proof -
  have ne: "m \<noteq> []" using assms by (simp add: plain_mail_def trimmed_def)
  have 1: "py_strip (CHR ''<'' # m @ [CHR ''>'']) = CHR ''<'' # m @ [CHR ''>'']"
    by (rule py_strip_trimmed) (simp add: trimmed_def)
  have 2: "py_strip_char (CHR ''<'') (CHR ''<'' # m @ [CHR ''>'']) = m @ [CHR ''>'']"
    using strip_by_pad[of "\<lambda>x. x = CHR ''<''" "[CHR ''<'']" "[]" "m @ [CHR ''>'']"] assms ne
    by (simp add: py_strip_char_def plain_mail_def)
  have 3: "py_strip_char (CHR ''>'') (m @ [CHR ''>'']) = m"
    using strip_by_pad[of "\<lambda>x. x = CHR ''>''" "[]" "[CHR ''>'']" m] assms ne
    by (simp add: py_strip_char_def plain_mail_def)
  show ?thesis by (simp only: 1 2 3)
qed

lemma extract_show_address:
  assumes "plain_author a" and "plain_mail m" and "list_all is_space pad"
  shows "extract_author_mail (pad @ show_address (a, m)) = (a, m)"
proof -
  have nolt: "CHR ''<'' \<notin> set (pad @ a @ '' '')"
    using assms by (auto simp: plain_author_def list_all_iff)
  let ?in = "(pad @ a @ '' '') @ CHR ''<'' # m @ ''>''"
  have eq: "pad @ show_address (a, m) = ?in" by (simp add: show_address_def)
  have f: "py_find (CHR ''<'') ?in = Some (Suc (length (pad @ a)))"
    using py_find_append[OF nolt] by simp
  have st: "py_strip (take (length (pad @ a)) ?in) = a"
    using py_strip_pad[of pad "[]" a] assms by (simp add: plain_author_def)
  have dr: "drop (Suc (length (pad @ a))) ?in = CHR ''<'' # m @ ''>''" by simp
  show ?thesis
    unfolding eq extract_author_mail_def f
    by (simp only: option.case nat.case prod.case Let_def st dr strip_brackets[OF assms(2)])
qed

lemma py_strip_join_trimmed:
  assumes "ws \<noteq> []" and "\<forall>w\<in>set ws. trimmed w"
  shows "py_strip (py_join '' '' ws) = py_join '' '' ws"
proof -
  have ne: "py_join '' '' vs \<noteq> [] \<and> hd (py_join '' '' vs) = hd (hd vs)
      \<and> last (py_join '' '' vs) = last (last vs)" if "vs \<noteq> []" "\<forall>w\<in>set vs. trimmed w" for vs
    using that
  proof (induction vs)
    case (Cons w vs)
    then show ?case by (cases "vs = []") (auto simp: py_join_Cons trimmed_def)
  qed simp
  from ne[OF assms] assms have "trimmed (py_join '' '' ws)"
    by (auto simp: trimmed_def)
  then show ?thesis by (rule py_strip_trimmed)
qed

lemma format_mail_addresses:
  assumes "ams \<noteq> []" and "\<forall>am\<in>set ams. plain_author (fst am) \<and> plain_mail (snd am)"
  shows "format_mail (py_join '','' (map (\<lambda>am. '' '' @ show_address am) ams))
    = (py_join '' '' (map fst ams), py_join '' '' (map snd ams))"
proof -
  have nosep: "CHR '','' \<notin> set ('' '' @ show_address am)" if "am \<in> set ams" for am
    using assms(2) that by (auto simp: show_address_def plain_author_def plain_mail_def)
  have sp: "py_split (CHR '','') (py_join '','' (map (\<lambda>am. '' '' @ show_address am) ams))
      = map (\<lambda>am. '' '' @ show_address am) ams"
    using assms(1) nosep by (intro py_split_join) auto
  have "map extract_author_mail (map (\<lambda>am. '' '' @ show_address am) ams) = ams"
    using assms(2) extract_show_address[of "fst am" "snd am" "'' ''" for am]
    by (auto simp: comp_def intro!: map_idI)
  then have "format_mail (py_join '','' (map (\<lambda>am. '' '' @ show_address am) ams))
    = (py_strip (py_join '' '' (map fst ams)), py_strip (py_join '' '' (map snd ams)))"
    by (simp only: format_mail_def sp Let_def)
  then show ?thesis
    using assms by (simp add: py_strip_join_trimmed plain_author_def plain_mail_def)
qed

text \<open>Without a space before the bracket the last character of the author is cut off.\<close>

lemma extract_no_space:
  assumes "plain_author (a @ [c])" and "plain_mail m" and "trimmed a"
  shows "extract_author_mail ((a @ [c]) @ ''<'' @ m @ ''>'') = (a, m)"
proof -
  have "CHR ''<'' \<notin> set (a @ [c])" using assms(1) by (simp add: plain_author_def)
  from py_find_append[OF this, of "m @ ''>''"]
  have f: "py_find (CHR ''<'') ((a @ [c]) @ ''<'' @ m @ ''>'') = Some (Suc (length a))" by simp
  have st: "py_strip (take (length a) ((a @ [c]) @ ''<'' @ m @ ''>'')) = a"
    using py_strip_trimmed[OF assms(3)] by simp
  have dr: "drop (Suc (length a)) ((a @ [c]) @ ''<'' @ m @ ''>'') = CHR ''<'' # m @ ''>''" by simp
  show ?thesis
    unfolding extract_author_mail_def f
    by (simp only: option.case nat.case prod.case Let_def st dr strip_brackets[OF assms(2)])
qed

end
