(* ===== verification/Rtf.thy ===== *)
theory Rtf
  imports PyBase
begin

text \<open>
  rtf2txt.py: \<open>striprtf\<close>. The regular expression is a token scanner, the loop over its matches
  a machine with a stack of groups. The text is a byte string; what the loop appends is a
  byte string or a unicode string, and the final join decodes the byte strings as ASCII when
  there is a unicode string among them. \<open>maxunicode\<close> is \<open>sys.maxunicode\<close> of the interpreter.
  The lemmas show that the tokens cover the text, that escaped text comes out again, that a
  group restores the state it was opened in and emits nothing inside an ignorable one, and
  when the group stack underflows.
\<close>

section \<open>Tables\<close>

definition destinations :: "string list" where
  "destinations = [
    ''aftncn'', ''aftnsep'', ''aftnsepc'', ''annotation'', ''atnauthor'', ''atndate'', ''atnicn'',
    ''atnid'', ''atnparent'', ''atnref'', ''atntime'', ''atrfend'', ''atrfstart'', ''author'',
    ''background'', ''bkmkend'', ''bkmkstart'', ''blipuid'', ''buptim'', ''category'',
    ''colorschememapping'', ''colortbl'', ''comment'', ''company'', ''creatim'', ''datafield'',
    ''datastore'', ''defchp'', ''defpap'', ''do'', ''doccomm'', ''docvar'', ''dptxbxtext'',
    ''ebcend'', ''ebcstart'', ''factoidname'', ''falt'', ''fchars'', ''ffdeftext'', ''ffentrymcr'',
    ''ffexitmcr'', ''ffformat'', ''ffhelptext'', ''ffl'', ''ffname'', ''ffstattext'', ''field'',
    ''file'', ''filetbl'', ''fldinst'', ''fldrslt'', ''fldtype'', ''fname'', ''fontemb'',
    ''fontfile'', ''fonttbl'', ''footer'', ''footerf'', ''footerl'', ''footerr'', ''footnote'',
    ''formfield'', ''ftncn'', ''ftnsep'', ''ftnsepc'', ''g'', ''generator'', ''gridtbl'',
    ''header'', ''headerf'', ''headerl'', ''headerr'', ''hl'', ''hlfr'', ''hlinkbase'', ''hlloc'',
    ''hlsrc'', ''hsv'', ''htmltag'', ''info'', ''keycode'', ''keywords'', ''latentstyles'',
    ''lchars'', ''levelnumbers'', ''leveltext'', ''lfolevel'', ''linkval'', ''list'',
    ''listlevel'', ''listname'', ''listoverride'', ''listoverridetable'', ''listpicture'',
    ''liststylename'', ''listtable'', ''listtext'', ''lsdlockedexcept'', ''macc'', ''maccPr'',
    ''mailmerge'', ''maln'', ''malnScr'', ''manager'', ''margPr'', ''mbar'', ''mbarPr'',
    ''mbaseJc'', ''mbegChr'', ''mborderBox'', ''mborderBoxPr'', ''mbox'', ''mboxPr'', ''mchr'',
    ''mcount'', ''mctrlPr'', ''md'', ''mdeg'', ''mdegHide'', ''mden'', ''mdiff'', ''mdPr'', ''me'',
    ''mendChr'', ''meqArr'', ''meqArrPr'', ''mf'', ''mfName'', ''mfPr'', ''mfunc'', ''mfuncPr'',
    ''mgroupChr'', ''mgroupChrPr'', ''mgrow'', ''mhideBot'', ''mhideLeft'', ''mhideRight'',
    ''mhideTop'', ''mhtmltag'', ''mlim'', ''mlimloc'', ''mlimlow'', ''mlimlowPr'', ''mlimupp'',
    ''mlimuppPr'', ''mm'', ''mmaddfieldname'', ''mmath'', ''mmathPict'', ''mmathPr'', ''mmaxdist'',
    ''mmc'', ''mmcJc'', ''mmconnectstr'', ''mmconnectstrdata'', ''mmcPr'', ''mmcs'',
    ''mmdatasource'', ''mmheadersource'', ''mmmailsubject'', ''mmodso'', ''mmodsofilter'',
    ''mmodsofldmpdata'', ''mmodsomappedname'', ''mmodsoname'', ''mmodsorecipdata'', ''mmodsosort'',
    ''mmodsosrc'', ''mmodsotable'', ''mmodsoudl'', ''mmodsoudldata'', ''mmodsouniquetag'',
    ''mmPr'', ''mmquery'', ''mmr'', ''mnary'', ''mnaryPr'', ''mnoBreak'', ''mnum'', ''mobjDist'',
    ''moMath'', ''moMathPara'', ''moMathParaPr'', ''mopEmu'', ''mphant'', ''mphantPr'',
    ''mplcHide'', ''mpos'', ''mr'', ''mrad'', ''mradPr'', ''mrPr'', ''msepChr'', ''mshow'',
    ''mshp'', ''msPre'', ''msPrePr'', ''msSub'', ''msSubPr'', ''msSubSup'', ''msSubSupPr'',
    ''msSup'', ''msSupPr'', ''mstrikeBLTR'', ''mstrikeH'', ''mstrikeTLBR'', ''mstrikeV'', ''msub'',
    ''msubHide'', ''msup'', ''msupHide'', ''mtransp'', ''mtype'', ''mvertJc'', ''mvfmf'',
    ''mvfml'', ''mvtof'', ''mvtol'', ''mzeroAsc'', ''mzeroDesc'', ''mzeroWid'', ''nesttableprops'',
    ''nextfile'', ''nonesttables'', ''objalias'', ''objclass'', ''objdata'', ''object'',
    ''objname'', ''objsect'', ''objtime'', ''oldcprops'', ''oldpprops'', ''oldsprops'',
    ''oldtprops'', ''oleclsid'', ''operator'', ''panose'', ''password'', ''passwordhash'', ''pgp'',
    ''pgptbl'', ''picprop'', ''pict'', ''pn'', ''pnseclvl'', ''pntext'', ''pntxta'', ''pntxtb'',
    ''printim'', ''private'', ''propname'', ''protend'', ''protstart'', ''protusertbl'', ''pxe'',
    ''result'', ''revtbl'', ''revtim'', ''rsidtbl'', ''rxe'', ''shp'', ''shpgrp'', ''shpinst'',
    ''shppict'', ''shprslt'', ''shptxt'', ''sn'', ''sp'', ''staticval'', ''stylesheet'',
    ''subject'', ''sv'', ''svb'', ''tc'', ''template'', ''themedata'', ''title'', ''txe'', ''ud'',
    ''upr'', ''userprops'', ''wgrffmtfilter'', ''windowcaption'', ''writereservation'',
    ''writereservhash'', ''xe'', ''xform'', ''xmlattrname'', ''xmlattrvalue'', ''xmlclose'',
    ''xmlname'', ''xmlnstbl'', ''xmlopen'']"

datatype piece = PB bytes | PU "nat list"

definition specialchars :: "(string \<times> piece) list" where
  \<comment> \<open>\<open>u'\201C'\<close> and \<open>u'\201D'\<close> are an octal escape followed by a letter\<close>
  "specialchars = [(''par'', PB [CHR 0x0A]), (''sect'', PB [CHR 0x0A, CHR 0x0A]),
     (''page'', PB [CHR 0x0A, CHR 0x0A]), (''line'', PB [CHR 0x0A]), (''tab'', PB [CHR 0x09]),
     (''cell'', PB [CHR 0x09]), (''emdash'', PU [0x2014]), (''endash'', PU [0x2013]),
     (''emspace'', PU [0x2003]), (''enspace'', PU [0x2002]), (''qmspace'', PU [0x2005]),
     (''bullet'', PU [0x2022]), (''lquote'', PU [0x2018]), (''rquote'', PU [0x2019]),
     (''ldblquote'', PU [0x81, 0x43]), (''rdblquote'', PU [0x81, 0x44])]"

section \<open>The scanner\<close>

datatype tok =
    TWord bytes "bytes option"
  | THex bytes
  | TSym char
  | TBrace char
  | TEol
  | TChar char

definition is_alpha :: "char \<Rightarrow> bool" where
  "is_alpha c \<longleftrightarrow> (let n = of_char c :: nat in (65 \<le> n \<and> n \<le> 90) \<or> (97 \<le> n \<and> n \<le> 122))"

definition is_hex :: "char \<Rightarrow> bool" where
  "is_hex c \<longleftrightarrow> (let n = of_char c :: nat in
     (48 \<le> n \<and> n \<le> 57) \<or> (65 \<le> n \<and> n \<le> 70) \<or> (97 \<le> n \<and> n \<le> 102))"

definition is_crlf :: "char \<Rightarrow> bool" where
  "is_crlf c \<longleftrightarrow> c = CHR 0x0D \<or> c = CHR 0x0A"

definition scan_arg :: "bytes \<Rightarrow> bytes option \<times> bytes" where
  \<comment> \<open>\<open>(-?\d{1,10})?\<close>\<close>
  "scan_arg s =
     (let (sign, r) = (case s of c # r \<Rightarrow> if c = CHR ''-'' then ([c], r) else ([], s) | [] \<Rightarrow> ([], s));
          d = take 10 (takeWhile is_digit r)
      in if d = [] then (None, s) else (Some (sign @ d), drop (length d) r))"

definition skip_space :: "bytes \<Rightarrow> bytes" where
  \<comment> \<open>\<open>[ ]?\<close>\<close>
  "skip_space s = (case s of c # r \<Rightarrow> if c = CHR '' '' then r else s | [] \<Rightarrow> s)"

definition scan_word :: "bytes \<Rightarrow> tok \<times> bytes" where
  \<comment> \<open>\<open>([a-z]{1,32})(-?\d{1,10})?[ ]?\<close> after the backslash, at a letter\<close>
  "scan_word s =
     (let w = take 32 (takeWhile is_alpha s);
          (arg, r) = scan_arg (drop (length w) s)
      in (TWord w arg, skip_space r))"

definition next_tok :: "char \<Rightarrow> bytes \<Rightarrow> tok \<times> bytes" where
  \<comment> \<open>the alternatives of the pattern, in their order, at the character \<open>c\<close>\<close>
  "next_tok c s =
     (if c = CHR 0x5C then
        (case s of
           [] \<Rightarrow> (TChar c, [])
         | d # r \<Rightarrow>
             if is_alpha d then scan_word s
             else if d = CHR 0x27 \<and> 2 \<le> length r \<and> list_all is_hex (take 2 r)
               then (THex (take 2 r), drop 2 r)
             else (TSym d, r))
      else if c = CHR 0x7B \<or> c = CHR 0x7D then (TBrace c, s)
      else if is_crlf c then (TEol, dropWhile is_crlf s)
      else (TChar c, s))"

lemma scan_arg_length: "scan_arg s = (a, r) \<Longrightarrow> length r \<le> length s"
  by (auto simp: scan_arg_def Let_def split: list.splits if_splits prod.splits)

lemma skip_space_length: "length (skip_space s) \<le> length s"
  by (auto simp: skip_space_def split: list.splits)

lemma scan_word_length: "scan_word s = (t, r) \<Longrightarrow> length r \<le> length s"
  using scan_arg_length skip_space_length
  by (fastforce simp: scan_word_def Let_def split: prod.splits intro: order_trans)

lemma next_tok_length: "next_tok c s = (t, r) \<Longrightarrow> length r \<le> length s"
  using length_dropWhile_le[of is_crlf s]
  by (auto simp: next_tok_def dest: scan_word_length split: list.splits if_splits
      simp del: dropWhile.simps)

function tokens :: "bytes \<Rightarrow> tok list" where
  \<comment> \<open>\<open>pattern.finditer(text)\<close>\<close>
  "tokens [] = []"
| "tokens (c # s) = (case next_tok c s of (t, r) \<Rightarrow> t # tokens r)"
  by pat_completeness auto
termination
  by (relation "measure length") (auto dest: next_tok_length[OF sym] simp: le_imp_less_Suc)

section \<open>The machine\<close>

record rtf =
  rtf_stack :: "(int \<times> bool) list"
  rtf_ignorable :: bool
  rtf_ucskip :: int
  rtf_curskip :: int
  rtf_out :: "piece list"

definition rtf_init :: rtf where
  "rtf_init = \<lparr>rtf_stack = [], rtf_ignorable = False, rtf_ucskip = 1, rtf_curskip = 0, rtf_out = []\<rparr>"

definition emit :: "piece \<Rightarrow> rtf \<Rightarrow> rtf" where
  "emit p s = s\<lparr>rtf_out := rtf_out s @ [p]\<rparr>"

definition py_int :: "bytes option \<Rightarrow> pyexc + int" where
  \<comment> \<open>\<open>int(arg)\<close> of an argument the scanner found, or of None\<close>
  "py_int arg = (case arg of
     None \<Rightarrow> Inl (TypeError ''int() argument must be a string or a number'')
   | Some s \<Rightarrow> Inr (case s of
       c # r \<Rightarrow> if c = CHR ''-'' then - int (dec_value r 0) else int (dec_value s 0)
     | [] \<Rightarrow> 0))"

definition hex_value :: "char \<Rightarrow> nat" where
  "hex_value c = (let n = of_char c :: nat in
     if n \<le> 57 then n - 48 else if n \<le> 70 then n - 55 else n - 87)"

definition hex_int :: "bytes \<Rightarrow> nat" where
  \<comment> \<open>\<open>int(hex, 16)\<close>\<close>
  "hex_int h = fold (\<lambda>c acc. acc * 16 + hex_value c) h 0"

definition char_piece :: "nat \<Rightarrow> int \<Rightarrow> pyexc + piece" where
  \<comment> \<open>\<open>unichr(c)\<close> above 127, \<open>chr(c)\<close> below\<close>
  "char_piece maxunicode c =
     (if 127 < c then
        (if 2 ^ 31 \<le> c then Inl (OverflowError ''signed integer is greater than maximum'')
         else if int maxunicode < c then Inl (ValueError ''unichr() arg not in range'')
         else Inr (PU [nat c]))
      else if c < 0 then Inl (ValueError ''chr() arg not in range(256)'')
      else Inr (PB [char_of (nat c)]))"

definition rtf_word :: "nat \<Rightarrow> bytes \<Rightarrow> bytes option \<Rightarrow> rtf \<Rightarrow> pyexc + rtf" where
  "rtf_word maxunicode word arg s0 =
     (let s = s0\<lparr>rtf_curskip := 0\<rparr> in
      if word \<in> set destinations then Inr (s\<lparr>rtf_ignorable := True\<rparr>)
      else if rtf_ignorable s then Inr s
      else case map_of specialchars word of
        Some p \<Rightarrow> Inr (emit p s)
      | None \<Rightarrow>
          if word = ''uc'' then sbind (py_int arg) (\<lambda>n. Inr (s\<lparr>rtf_ucskip := n\<rparr>))
          else if word = ''u'' then
            sbind (py_int arg) (\<lambda>n. let c = (if n < 0 then n + 0x10000 else n) in
            sbind (char_piece maxunicode c) (\<lambda>p.
            Inr ((emit p s)\<lparr>rtf_curskip := rtf_ucskip s\<rparr>)))
          else Inr s)"

fun rtf_step :: "nat \<Rightarrow> tok \<Rightarrow> rtf \<Rightarrow> pyexc + rtf" where
  "rtf_step maxunicode (TBrace b) s =
     (if b = CHR 0x7B then
        Inr (s\<lparr>rtf_curskip := 0, rtf_stack := (rtf_ucskip s, rtf_ignorable s) # rtf_stack s\<rparr>)
      else (case rtf_stack s of
          [] \<Rightarrow> Inl (IndexError ''pop from empty list'')
        | (u, ig) # st \<Rightarrow>
            Inr (s\<lparr>rtf_curskip := 0, rtf_ucskip := u, rtf_ignorable := ig, rtf_stack := st\<rparr>)))"
| "rtf_step maxunicode (TSym c) s0 =
     (let s = s0\<lparr>rtf_curskip := 0\<rparr> in
      Inr (if c = CHR ''~'' then (if rtf_ignorable s then s else emit (PU [0xA0]) s)
           else if c \<in> {CHR 0x7B, CHR 0x7D, CHR 0x5C} then
             (if rtf_ignorable s then s else emit (PB [c]) s)
           else if c = CHR ''*'' then s\<lparr>rtf_ignorable := True\<rparr>
           else s))"
| "rtf_step maxunicode (TWord w arg) s = rtf_word maxunicode w arg s"
| "rtf_step maxunicode (THex h) s =
     (if 0 < rtf_curskip s then Inr (s\<lparr>rtf_curskip := rtf_curskip s - 1\<rparr>)
      else if rtf_ignorable s then Inr s
      else sbind (char_piece maxunicode (int (hex_int h))) (\<lambda>p. Inr (emit p s)))"
| "rtf_step maxunicode (TChar c) s =
     (if 0 < rtf_curskip s then Inr (s\<lparr>rtf_curskip := rtf_curskip s - 1\<rparr>)
      else if rtf_ignorable s then Inr s
      else Inr (emit (PB [c]) s))"
| "rtf_step maxunicode TEol s = Inr s"

fun rtf_run :: "nat \<Rightarrow> tok list \<Rightarrow> rtf \<Rightarrow> pyexc + rtf" where
  "rtf_run maxunicode [] s = Inr s"
| "rtf_run maxunicode (t # ts) s = sbind (rtf_step maxunicode t s) (rtf_run maxunicode ts)"

section \<open>The final join\<close>

fun piece_unicode :: "piece \<Rightarrow> pyexc + nat list" where
  "piece_unicode (PU u) = Inr u"
| "piece_unicode (PB b) =
     (if is_ascii b then Inr (map of_char b)
      else Inl (UnicodeError ''ordinal not in range(128)''))"

fun join_unicode :: "piece list \<Rightarrow> pyexc + nat list" where
  "join_unicode [] = Inr []"
| "join_unicode (p # ps) =
     sbind (piece_unicode p) (\<lambda>u. sbind (join_unicode ps) (\<lambda>us. Inr (u @ us)))"

fun is_PU :: "piece \<Rightarrow> bool" where
  "is_PU (PU u) = True"
| "is_PU (PB b) = False"

fun piece_bytes :: "piece \<Rightarrow> bytes" where
  "piece_bytes (PB b) = b"
| "piece_bytes (PU u) = []"

definition join_pieces :: "piece list \<Rightarrow> pyexc + piece" where
  "join_pieces out =
     (if list_ex is_PU out then sbind (join_unicode out) (\<lambda>us. Inr (PU us))
      else Inr (PB (concat (map piece_bytes out))))"

definition striprtf :: "nat \<Rightarrow> bytes \<Rightarrow> pyexc + piece" where
  "striprtf maxunicode text =
     sbind (rtf_run maxunicode (tokens text) rtf_init) (\<lambda>s. join_pieces (rtf_out s))"

section \<open>What the scanner matches\<close>

fun tok_matches :: "tok \<Rightarrow> bytes \<Rightarrow> bool" where
  \<comment> \<open>the alternatives of the pattern, read as a relation between a match and its groups\<close>
  "tok_matches (TWord w arg) u \<longleftrightarrow>
     (\<exists>sp. u = CHR 0x5C # w @ (case arg of None \<Rightarrow> [] | Some a \<Rightarrow> a) @ sp \<and> sp \<in> {[], [CHR '' '']})
     \<and> 1 \<le> length w \<and> length w \<le> 32 \<and> list_all is_alpha w
     \<and> (\<forall>a. arg = Some a \<longrightarrow> (\<exists>d. (a = d \<or> a = CHR ''-'' # d) \<and> 1 \<le> length d \<and> length d \<le> 10
            \<and> list_all is_digit d))"
| "tok_matches (THex h) u \<longleftrightarrow> u = CHR 0x5C # CHR 0x27 # h \<and> length h = 2 \<and> list_all is_hex h"
| "tok_matches (TSym c) u \<longleftrightarrow> u = [CHR 0x5C, c] \<and> \<not> is_alpha c"
| "tok_matches (TBrace b) u \<longleftrightarrow> u = [b] \<and> b \<in> {CHR 0x7B, CHR 0x7D}"
| "tok_matches TEol u \<longleftrightarrow> u \<noteq> [] \<and> list_all is_crlf u"
| "tok_matches (TChar c) u \<longleftrightarrow> u = [c] \<and> c \<noteq> CHR 0x0A"

lemma list_all_takeWhile: "list_all P (takeWhile P xs)"
  by (induction xs) auto

lemma list_all_take: "list_all P xs \<Longrightarrow> list_all P (take n xs)"
  by (auto simp: list_all_iff dest: in_set_takeD)

lemma take_takeWhile_prefix:
  "take n (takeWhile P s) @ drop (length (take n (takeWhile P s))) s = s"
proof -
  have "s = take n (takeWhile P s) @ drop n (takeWhile P s) @ dropWhile P s"
    by (metis append.assoc append_take_drop_id takeWhile_dropWhile_id)
  then show ?thesis by (metis append_eq_conv_conj)
qed

lemma skip_space_cases: "\<exists>sp. s = sp @ skip_space s \<and> sp \<in> {[], [CHR '' '']}"
  by (auto simp: skip_space_def split: list.splits)

lemma scan_arg_cases:
  assumes "scan_arg s = (a, r)"
  shows "s = (case a of None \<Rightarrow> [] | Some x \<Rightarrow> x) @ r
    \<and> (\<forall>x. a = Some x \<longrightarrow> (\<exists>d. (x = d \<or> x = CHR ''-'' # d) \<and> 1 \<le> length d \<and> length d \<le> 10
            \<and> list_all is_digit d))"
proof -
  obtain sign q where sq: "(case s of c # r \<Rightarrow> if c = CHR ''-'' then ([c], r) else ([], s) | [] \<Rightarrow> ([], s))
    = (sign, q)" by fastforce
  then have s: "s = sign @ q" "sign \<in> {[], [CHR ''-'']}" by (auto split: list.splits if_splits)
  let ?d = "take 10 (takeWhile is_digit q)"
  have d: "list_all is_digit ?d" "length ?d \<le> 10" by (simp_all add: list_all_take list_all_takeWhile)
  have q: "?d @ drop (length ?d) q = q" by (rule take_takeWhile_prefix)
  have ar: "(a, r) = (if ?d = [] then (None, s) else (Some (sign @ ?d), drop (length ?d) q))"
    using assms sq by (simp add: scan_arg_def Let_def)
  show ?thesis
  proof (cases "?d = []")
    case True
    with ar show ?thesis by simp
  next
    case False
    with ar have a: "a = Some (sign @ ?d)" and r: "r = drop (length ?d) q" by (auto split: if_splits)
    from q r have "q = ?d @ r" by simp
    moreover have "1 \<le> length ?d" using False by (cases ?d) auto
    with s(2) d have "\<exists>e. (sign @ ?d = e \<or> sign @ ?d = CHR ''-'' # e) \<and> 1 \<le> length e \<and> length e \<le> 10
        \<and> list_all is_digit e" by (intro exI[of _ ?d]) auto
    ultimately show ?thesis using s(1) a by simp
  qed
qed

lemma scan_word_matches:
  assumes "scan_word s = (t, r)" and "s \<noteq> []" and "is_alpha (hd s)"
  shows "\<exists>u. CHR 0x5C # s = u @ r \<and> tok_matches t u"
proof -
  let ?w = "take 32 (takeWhile is_alpha s)"
  obtain arg q where sa: "scan_arg (drop (length ?w) s) = (arg, q)" by fastforce
  with assms(1) have t: "t = TWord ?w arg" and r: "r = skip_space q"
    by (auto simp: scan_word_def Let_def)
  let ?s = "drop (length ?w) s"
  have s': "?w @ ?s = s" by (rule take_takeWhile_prefix)
  from scan_arg_cases[OF sa] have q: "?s = (case arg of None \<Rightarrow> [] | Some x \<Rightarrow> x) @ q"
    and ok: "\<forall>x. arg = Some x \<longrightarrow> (\<exists>d. (x = d \<or> x = CHR ''-'' # d) \<and> 1 \<le> length d \<and> length d \<le> 10
            \<and> list_all is_digit d)" by auto
  obtain sp where sp: "q = sp @ r" "sp \<in> {[], [CHR '' '']}" using skip_space_cases[of q] r by auto
  let ?u = "CHR 0x5C # ?w @ (case arg of None \<Rightarrow> [] | Some a \<Rightarrow> a) @ sp"
  have "CHR 0x5C # ?w @ ?s = ?u @ r" by (simp only: q sp append.assoc append_Cons)
  then have "CHR 0x5C # s = ?u @ r" by (simp only: s')
  moreover have "1 \<le> length ?w" using assms(2,3) by (cases s) auto
  then have "tok_matches t ?u"
    using ok sp(2) by (simp only: t tok_matches.simps) (auto simp: list_all_take list_all_takeWhile)
  ultimately show ?thesis by blast
qed

lemma next_tok_matches:
  assumes "next_tok c s = (t, r)"
  shows "\<exists>u. c # s = u @ r \<and> tok_matches t u"
proof (cases "c = CHR 0x5C")
  case True
  show ?thesis
  proof (cases s)
    case Nil
    with True assms show ?thesis by (auto simp: next_tok_def)
  next
    case (Cons d q)
    consider "is_alpha d" | "\<not> is_alpha d" "d = CHR 0x27 \<and> 2 \<le> length q \<and> list_all is_hex (take 2 q)"
      | "\<not> is_alpha d" "\<not> (d = CHR 0x27 \<and> 2 \<le> length q \<and> list_all is_hex (take 2 q))" by blast
    then show ?thesis
    proof cases
      case 1
      with True Cons assms have "scan_word s = (t, r)" by (simp add: next_tok_def)
      with scan_word_matches[of s t r] Cons 1 True show ?thesis by simp
    next
      case 2
      with True Cons assms have "t = THex (take 2 q)" "r = drop 2 q" by (simp_all add: next_tok_def)
      with 2 True Cons show ?thesis
        by (intro exI[of _ "CHR 0x5C # CHR 0x27 # take 2 q"]) simp
    next
      case 3
      with True Cons assms have "t = TSym d" "r = q" by (auto simp: next_tok_def)
      with 3 True Cons show ?thesis by (intro exI[of _ "[CHR 0x5C, d]"]) simp
    qed
  qed
next
  case False
  consider "c = CHR 0x7B \<or> c = CHR 0x7D" | "is_crlf c" | "\<not> (c = CHR 0x7B \<or> c = CHR 0x7D)" "\<not> is_crlf c"
    by blast
  then show ?thesis
  proof cases
    case 1
    with assms False show ?thesis by (auto simp: next_tok_def intro!: exI[of _ "[c]"])
  next
    case 2
    then have "t = TEol" "r = dropWhile is_crlf s"
      using assms by (auto simp: next_tok_def is_crlf_def)
    with 2 show ?thesis
      by (intro exI[of _ "c # takeWhile is_crlf s"]) (simp add: list_all_takeWhile)
  next
    case 3
    with assms False show ?thesis by (auto simp: next_tok_def is_crlf_def intro!: exI[of _ "[c]"])
  qed
qed

lemma tokens_cover: "\<exists>us. concat us = s \<and> list_all2 tok_matches (tokens s) us"
proof (induction s rule: tokens.induct)
  case (2 c s)
  obtain t r where tr: "next_tok c s = (t, r)" by fastforce
  from next_tok_matches[OF this] obtain u where u: "c # s = u @ r" "tok_matches t u" by blast
  from 2 tr obtain us where us: "concat us = r" "list_all2 tok_matches (tokens r) us" by auto
  have "tokens (c # s) = t # tokens r" by (simp add: tr)
  with u us show ?case by (intro exI[of _ "u # us"]) (simp del: tokens.simps)
qed (simp add: exI[of _ "[]"])

section \<open>Escaped text\<close>

definition rtf_special :: "char \<Rightarrow> bool" where
  "rtf_special c \<longleftrightarrow> c \<in> {CHR 0x5C, CHR 0x7B, CHR 0x7D}"

definition rtf_escape :: "bytes \<Rightarrow> bytes" where
  "rtf_escape s = concat (map (\<lambda>c. if rtf_special c then [CHR 0x5C, c] else [c]) s)"

lemma rtf_escape_Cons:
  "rtf_escape [] = []" "rtf_escape (c # s) = (if rtf_special c then [CHR 0x5C, c] else [c]) @ rtf_escape s"
  by (simp_all add: rtf_escape_def)

lemma tokens_escape:
  "list_all (\<lambda>c. \<not> is_crlf c) s \<Longrightarrow>
     tokens (rtf_escape s) = map (\<lambda>c. if rtf_special c then TSym c else TChar c) s"
proof (induction s)
  case (Cons c s)
  show ?case
  proof (cases "rtf_special c")
    case True
    then have "next_tok (CHR 0x5C) (c # r) = (TSym c, r)" for r
      by (auto simp: rtf_special_def next_tok_def is_alpha_def)
    with Cons True show ?thesis by (simp add: rtf_escape_Cons)
  next
    case False
    with Cons have "next_tok c r = (TChar c, r)" for r by (simp add: rtf_special_def next_tok_def)
    with Cons False show ?thesis by (simp add: rtf_escape_Cons)
  qed
qed (simp add: rtf_escape_Cons)

lemma run_escape:
  assumes "\<not> rtf_ignorable st" and "rtf_curskip st = 0"
  shows "rtf_run m (map (\<lambda>c. if rtf_special c then TSym c else TChar c) s) st
    = Inr (st\<lparr>rtf_out := rtf_out st @ map (\<lambda>c. PB [c]) s\<rparr>)"
  using assms
proof (induction s arbitrary: st)
  case (Cons c s)
  have upd: "st\<lparr>rtf_curskip := 0\<rparr> = st" using Cons.prems by simp
  have "rtf_step m (if rtf_special c then TSym c else TChar c) st = Inr (emit (PB [c]) st)"
    using Cons.prems by (cases "rtf_special c") (auto simp: rtf_special_def Let_def upd)
  with Cons.IH[of "emit (PB [c]) st"] Cons.prems show ?case by (simp add: emit_def)
qed simp

lemma striprtf_escape:
  assumes "list_all (\<lambda>c. \<not> is_crlf c) s"
  shows "striprtf m (rtf_escape s) = Inr (PB s)"
proof -
  have "\<not> list_ex is_PU (map (\<lambda>c. PB [c]) s)" by (induction s) auto
  moreover have "concat (map piece_bytes (map (\<lambda>c. PB [c]) s)) = s" by (induction s) auto
  ultimately show ?thesis
    using run_escape[of rtf_init m s]
    by (simp add: striprtf_def tokens_escape[OF assms] rtf_init_def join_pieces_def)
qed

section \<open>Groups\<close>

inductive balanced :: "tok list \<Rightarrow> bool" where
  empty: "balanced []"
| other: "balanced ts \<Longrightarrow> (\<And>b. t \<noteq> TBrace b) \<Longrightarrow> balanced (t # ts)"
| group: "balanced xs \<Longrightarrow> balanced ys \<Longrightarrow>
    balanced (TBrace (CHR 0x7B) # xs @ TBrace (CHR 0x7D) # ys)"

lemma rtf_run_append: "rtf_run m (xs @ ys) s = sbind (rtf_run m xs s) (rtf_run m ys)"
  by (induction xs arbitrary: s) (auto simp: sbind_def split: sum.split)

lemma step_keeps_stack:
  "rtf_step m t s = Inr u \<Longrightarrow> (\<And>b. t \<noteq> TBrace b) \<Longrightarrow> rtf_stack u = rtf_stack s"
  by (cases t)
     (auto simp: rtf_word_def Let_def emit_def outcome split: if_splits option.splits)

lemma balanced_stack: "balanced ts \<Longrightarrow> rtf_run m ts s = Inr u \<Longrightarrow> rtf_stack u = rtf_stack s"
proof (induction arbitrary: s u rule: balanced.induct)
  case (other ts t)
  then obtain v where "rtf_step m t s = Inr v" "rtf_run m ts v = Inr u" by (auto simp: outcome)
  with other step_keeps_stack[of m t s v] show ?case by metis
next
  case (group xs ys)
  let ?s = "s\<lparr>rtf_curskip := 0, rtf_stack := (rtf_ucskip s, rtf_ignorable s) # rtf_stack s\<rparr>"
  from group.prems obtain v w where v: "rtf_run m xs ?s = Inr v"
    and w: "rtf_step m (TBrace (CHR 0x7D)) v = Inr w" "rtf_run m ys w = Inr u"
    by (auto simp: rtf_run_append outcome)
  from group.IH(1)[OF v] w(1) have "rtf_stack w = rtf_stack s" by auto
  with group.IH(2)[OF w(2)] show ?case by simp
qed simp

lemma group_restores:
  assumes "balanced ts" and "rtf_run m (TBrace (CHR 0x7B) # ts @ [TBrace (CHR 0x7D)]) s = Inr u"
  shows "rtf_stack u = rtf_stack s" "rtf_ucskip u = rtf_ucskip s"
    "rtf_ignorable u = rtf_ignorable s" "rtf_curskip u = 0"
proof -
  let ?s = "s\<lparr>rtf_curskip := 0, rtf_stack := (rtf_ucskip s, rtf_ignorable s) # rtf_stack s\<rparr>"
  from assms(2) obtain v where v: "rtf_run m ts ?s = Inr v"
    and w: "rtf_step m (TBrace (CHR 0x7D)) v = Inr u"
    by (auto simp: rtf_run_append outcome)
  from balanced_stack[OF assms(1) v] w
  show "rtf_stack u = rtf_stack s" "rtf_ucskip u = rtf_ucskip s"
    "rtf_ignorable u = rtf_ignorable s" "rtf_curskip u = 0" by auto
qed

lemma step_ignorable:
  "rtf_ignorable s \<Longrightarrow> (\<And>b. t \<noteq> TBrace b) \<Longrightarrow>
     \<exists>u. rtf_step m t s = Inr u \<and> rtf_ignorable u \<and> rtf_out u = rtf_out s \<and> rtf_stack u = rtf_stack s"
  by (cases t) (auto simp: rtf_word_def Let_def)

lemma balanced_ignorable:
  "balanced ts \<Longrightarrow> rtf_ignorable s \<Longrightarrow>
     \<exists>u. rtf_run m ts s = Inr u \<and> rtf_ignorable u \<and> rtf_out u = rtf_out s \<and> rtf_stack u = rtf_stack s"
proof (induction arbitrary: s rule: balanced.induct)
  case (other ts t)
  from step_ignorable[OF other.prems other.hyps(2)] obtain v where
    v: "rtf_step m t s = Inr v" "rtf_ignorable v" "rtf_out v = rtf_out s" "rtf_stack v = rtf_stack s"
    by blast
  from other.IH[OF v(2)] v show ?case by auto
next
  case (group xs ys)
  let ?s = "s\<lparr>rtf_curskip := 0, rtf_stack := (rtf_ucskip s, rtf_ignorable s) # rtf_stack s\<rparr>"
  have "rtf_ignorable ?s" using group.prems by simp
  from group.IH(1)[OF this] obtain v where v: "rtf_run m xs ?s = Inr v" "rtf_out v = rtf_out s"
    "rtf_stack v = (rtf_ucskip s, rtf_ignorable s) # rtf_stack s" by auto
  let ?w = "v\<lparr>rtf_curskip := 0, rtf_ucskip := rtf_ucskip s, rtf_ignorable := True, rtf_stack := rtf_stack s\<rparr>"
  have "rtf_ignorable ?w" by simp
  from group.IH(2)[OF this] obtain u where "rtf_run m ys ?w = Inr u" "rtf_ignorable u"
    "rtf_out u = rtf_out s" "rtf_stack u = rtf_stack s" using v by auto
  with v group.prems show ?case by (auto simp: rtf_run_append)
qed simp

text \<open>The group stack underflows exactly where more groups are closed than are open.\<close>

fun depth :: "tok list \<Rightarrow> int" where
  "depth [] = 0"
| "depth (TBrace b # ts) = (if b = CHR 0x7B then 1 else -1) + depth ts"
| "depth (t # ts) = depth ts"

lemma depth_other: "(\<And>b. t \<noteq> TBrace b) \<Longrightarrow> depth (t # ts) = depth ts"
  by (cases t) auto

lemma run_depth: "rtf_run m ts s = Inr u \<Longrightarrow> int (length (rtf_stack u)) = int (length (rtf_stack s)) + depth ts"
proof (induction ts arbitrary: s)
  case (Cons t ts)
  then obtain v where v: "rtf_step m t s = Inr v" "rtf_run m ts v = Inr u" by (auto simp: outcome)
  show ?case
  proof (cases "\<exists>b. t = TBrace b")
    case True
    with v Cons.IH[OF v(2)] show ?thesis by (auto split: if_splits list.splits)
  next
    case False
    with v Cons.IH[OF v(2)] step_keeps_stack[OF v(1)] depth_other[of t ts] show ?thesis by auto
  qed
qed simp

lemma run_no_underflow: "rtf_run m (xs @ ys) s = Inr u \<Longrightarrow> 0 \<le> int (length (rtf_stack s)) + depth xs"
  using run_depth[of m xs s] by (fastforce simp: rtf_run_append outcome)

lemma step_index_error:
  "rtf_step m t s = Inl (IndexError e) \<Longrightarrow> rtf_stack s = [] \<and> (\<exists>b. t = TBrace b \<and> b \<noteq> CHR 0x7B)"
  by (cases t)
     (auto simp: rtf_word_def Let_def outcome char_piece_def py_int_def split: if_splits option.splits list.splits)

lemma run_index_error:
  "rtf_run m ts s = Inl (IndexError e) \<Longrightarrow>
     \<exists>xs ys. ts = xs @ ys \<and> int (length (rtf_stack s)) + depth xs < 0"
proof (induction ts arbitrary: s)
  case (Cons t ts)
  then consider "rtf_step m t s = Inl (IndexError e)"
    | v where "rtf_step m t s = Inr v" "rtf_run m ts v = Inl (IndexError e)" by (auto simp: outcome)
  then show ?case
  proof cases
    case 1
    from step_index_error[OF 1] show ?thesis by (intro exI[of _ "[t]"] exI[of _ ts]) auto
  next
    case 2
    from Cons.IH[OF 2(2)] obtain xs ys where "ts = xs @ ys" "int (length (rtf_stack v)) + depth xs < 0"
      by blast
    moreover have "int (length (rtf_stack v)) = int (length (rtf_stack s)) + depth [t]"
      using 2(1) run_depth[of m "[t]" s v] by simp
    moreover have "depth (t # xs) = depth [t] + depth xs" by (cases t) auto
    ultimately show ?thesis by (intro exI[of _ "t # xs"] exI[of _ ys]) auto
  qed
qed simp

lemma join_not_index_error: "join_pieces ps \<noteq> Inl (IndexError e)"
proof -
  have "join_unicode ps \<noteq> Inl (IndexError e)"
  proof (induction ps)
    case (Cons p ps)
    then show ?case by (cases p) (auto simp: outcome)
  qed simp
  then show ?thesis by (auto simp: join_pieces_def outcome)
qed

end
