(* ===== verification/MailSpec.thy ===== *)
theory MailSpec
  imports EmlFile Rtf
begin

text \<open>
  The properties of the text side: the helpers that msg_parser.py and eml_parser.py share, the
  walk over a parsed message, and the RTF stripper.
\<close>

section \<open>Text helpers\<close>

text \<open>
  The tag remover leaves no tag in the text, changes nothing in a text without tags, and so
  does nothing the second time.
\<close>
theorem remove_tags_complete:
  "\<not> has_tag (remove_tags s) \<and> (\<not> has_tag s \<longleftrightarrow> remove_tags s = s)
     \<and> remove_tags (remove_tags s) = remove_tags s"
  using remove_tags_no_tag remove_tags_id by metis

text \<open>
  The four replacements of \<open>remove_eol\<close> amount to one pass that turns each line end, a carriage
  return followed by a line feed counting once, and each tab into one space.
\<close>
theorem remove_eol_single_pass:
  "remove_eol s = eol_to_space s \<and> set (remove_eol s) \<inter> {CHR 0x0D, CHR 0x0A, CHR 0x09} = {}"
  by (simp add: remove_eol_one_pass eol_to_space_clean)

text \<open>
  C28: A list of addresses written as \<open>name <address>\<close>, each after a comma and a space, is taken
  apart by \<open>format_mail\<close> into the names and the addresses, joined by spaces.
\<close>
theorem format_mail_round_trip:
  assumes "ams \<noteq> []" and "\<forall>am\<in>set ams. plain_author (fst am) \<and> plain_mail (snd am)"
  shows "format_mail (py_join '','' (map (\<lambda>am. '' '' @ show_address am) ams))
    = (py_join '' '' (map fst ams), py_join '' '' (map snd ams))"
  using assms by (rule format_mail_addresses)

theorem format_mail_round_trip_witness:
  "format_mail '' Jo Doe <jo@x.org>, Al <al@y.org>'' = (''Jo Doe Al'', ''jo@x.org al@y.org'')"
  using format_mail_round_trip[of "[(''Jo Doe'', ''jo@x.org''), (''Al'', ''al@y.org'')]"]
  by (simp add: plain_author_def plain_mail_def trimmed_def is_space_def show_address_def)

text \<open>
  Where the bracket follows the name without a space, \<open>extract_author_mail\<close> cuts the last
  character off the name.
\<close>
theorem author_cut_without_space:
  assumes "plain_author (a @ [c])" and "plain_mail m" and "trimmed a"
  shows "extract_author_mail ((a @ [c]) @ ''<'' @ m @ ''>'') = (a, m)"
  using assms by (rule extract_no_space)

theorem author_cut_without_space_witness:
  "extract_author_mail ''John<j@x.org>'' = (''Joh'', ''j@x.org'')"
  using author_cut_without_space[of "''Joh''" "CHR ''n''" "''j@x.org''"]
  by (simp add: plain_author_def plain_mail_def trimmed_def is_space_def)

section \<open>Messages\<close>

text \<open>
  C29: \<open>pullout\<close> succeeds exactly when every leaf of the message can be read, and then returns the
  texts, the HTML and the file names of the leaves in order, and their number.
\<close>
theorem pullout_collects_leaves:
  "pullout key m = Inr (t, h, f, p) \<longleftrightarrow>
     (\<forall>l\<in>set (leaves m). \<exists>x. pull_leaf key l = Inr x)
     \<and> t = concat (map (\<lambda>l. fst (leaf_result key l)) (leaves m))
     \<and> h = concat (map (\<lambda>l. fst (snd (leaf_result key l))) (leaves m))
     \<and> f = concat (map (\<lambda>l. fst (snd (snd (leaf_result key l)))) (leaves m))
     \<and> p = length (leaves m)"
  by (simp add: pullout_leaves(1) pull_leaves_Inr)

theorem pullout_collects_leaves_witness:
  "pullout ''m.eml'' (Multi [Leaf \<lparr>p_filename = None, p_content_type = ''text/plain'',
       p_ctype_header = None, p_payload = ''hi''\<rparr>,
     Multi [Leaf \<lparr>p_filename = Some ''a.txt'', p_content_type = ''text/plain'',
       p_ctype_header = None, p_payload = ''data''\<rparr>]]) = Inr (''hi'', [], [''a.txt''], 2)"
  by (subst pullout_collects_leaves) (simp add: pull_leaf_def construct_name_def leaf_result_def)

text \<open>
  An attachment can be read only when the message's identifier contains a dot: without one the
  construction of its name raises IndexError, and with it the whole message is lost.
\<close>
theorem attachment_needs_dot:
  assumes "l \<in> set (leaves m)" and "p_filename l = Some (c # cs)" and "CHR ''.'' \<notin> set key"
  shows "\<exists>e. pullout key m = Inl e"
proof -
  have no: "\<nexists>x. pull_leaf key l = Inr x"
    using construct_name_Inr[of key "c # cs"] assms(2,3) by (auto simp: pull_leaf_def outcome)
  have "pullout key m \<noteq> Inr x" for x
  proof
    assume x: "pullout key m = Inr x"
    obtain t h f p where "x = (t, h, f, p)" by (cases x)
    with x have "\<forall>l\<in>set (leaves m). \<exists>x. pull_leaf key l = Inr x"
      using pull_leaves_Inr[of key "leaves m"] by (simp add: pullout_leaves(1))
    with assms(1) no show False by blast
  qed
  then show ?thesis by (cases "pullout key m") auto
qed

theorem attachment_needs_dot_witness:
  "\<exists>e. pullout ''message'' (Leaf \<lparr>p_filename = Some ''a.txt'', p_content_type = ''text/plain'',
       p_ctype_header = None, p_payload = []\<rparr>) = Inl e"
  by (rule attachment_needs_dot) auto



section \<open>RTF\<close>

text \<open>
  The tokens of the scanner cover the text: it splits into pieces, one per token, each a match
  of the alternative of the pattern that the token stands for.
\<close>
theorem rtf_tokens_cover: "\<exists>us. concat us = s \<and> list_all2 tok_matches (tokens s) us"
  by (rule tokens_cover)

text \<open>
  C31: Text whose backslashes and braces are escaped comes out of \<open>striprtf\<close> unchanged, line ends
  apart.
\<close>
theorem rtf_escape_round_trip:
  assumes "list_all (\<lambda>c. \<not> is_crlf c) s"
  shows "striprtf m (rtf_escape s) = Inr (PB s)"
  using assms by (rule striprtf_escape)

theorem rtf_escape_round_trip_witness:
  "striprtf 0x10FFFF (''a'' @ [CHR 0x5C, CHR 0x7B] @ ''b'') = Inr (PB (''a'' @ [CHR 0x7B] @ ''b''))"
  using rtf_escape_round_trip[of "''a'' @ [CHR 0x7B] @ ''b''" "0x10FFFF"]
  by (simp add: rtf_escape_def rtf_special_def is_crlf_def)

text \<open>
  C16: A group restores the stack, the skip count and the ignorable flag it was opened with.
\<close>
theorem rtf_group_restores:
  assumes "balanced ts" and "rtf_run m (TBrace (CHR 0x7B) # ts @ [TBrace (CHR 0x7D)]) s = Inr u"
  shows "rtf_stack u = rtf_stack s \<and> rtf_ucskip u = rtf_ucskip s
    \<and> rtf_ignorable u = rtf_ignorable s \<and> rtf_curskip u = 0"
  using group_restores[OF assms] by simp

theorem rtf_group_restores_witness:
  "\<exists>u. rtf_run 0x10FFFF [TBrace (CHR 0x7B), TSym (CHR ''*''), TChar (CHR ''x''), TBrace (CHR 0x7D)] rtf_init
     = Inr u \<and> \<not> rtf_ignorable u"
proof -
  have b: "balanced [TSym (CHR ''*''), TChar (CHR ''x'')]" by (auto intro!: balanced.intros)
  obtain u where u: "rtf_run 0x10FFFF (TBrace (CHR 0x7B) # [TSym (CHR ''*''), TChar (CHR ''x'')]
      @ [TBrace (CHR 0x7D)]) rtf_init = Inr u"
    by (simp add: rtf_init_def emit_def)
  from rtf_group_restores[OF b u] u show ?thesis by (auto simp: rtf_init_def)
qed

text \<open>
  Inside an ignorable group nothing raises and nothing is emitted, whatever it contains, as
  long as its braces are balanced.
\<close>
theorem rtf_ignorable_silent:
  assumes "balanced ts" and "rtf_ignorable s"
  shows "\<exists>u. rtf_run m ts s = Inr u \<and> rtf_ignorable u \<and> rtf_out u = rtf_out s \<and> rtf_stack u = rtf_stack s"
  using assms by (rule balanced_ignorable)

theorem rtf_ignorable_silent_witness:
  "\<exists>u. rtf_run 0 [TWord ''u'' None, TBrace (CHR 0x7B), TChar (CHR ''x''), TBrace (CHR 0x7D)]
     (rtf_init\<lparr>rtf_ignorable := True\<rparr>) = Inr u \<and> rtf_out u = []"
proof -
  have "balanced (TWord ''u'' None # TBrace (CHR 0x7B) # [TChar (CHR ''x'')] @ TBrace (CHR 0x7D) # [])"
    by (intro balanced.intros) auto
  from rtf_ignorable_silent[OF this, of "rtf_init\<lparr>rtf_ignorable := True\<rparr>" 0]
  show ?thesis by (auto simp: rtf_init_def)
qed

text \<open>
  Popping from the empty group stack happens exactly for texts that close more groups than
  they have opened: a run that ends in IndexError has such a prefix, and one with such a prefix
  does not return.
\<close>
theorem rtf_underflow:
  "(striprtf m s = Inl (IndexError e) \<longrightarrow> (\<exists>xs ys. tokens s = xs @ ys \<and> depth xs < 0))
   \<and> ((\<exists>xs ys. tokens s = xs @ ys \<and> depth xs < 0) \<longrightarrow> (\<exists>e. striprtf m s = Inl e))"
proof (intro conjI impI)
  assume "striprtf m s = Inl (IndexError e)"
  then have "rtf_run m (tokens s) rtf_init = Inl (IndexError e)"
    using join_not_index_error by (auto simp: striprtf_def outcome)
  from run_index_error[OF this] show "\<exists>xs ys. tokens s = xs @ ys \<and> depth xs < 0"
    by (simp add: rtf_init_def)
next
  assume "\<exists>xs ys. tokens s = xs @ ys \<and> depth xs < 0"
  then obtain xs ys where x: "tokens s = xs @ ys" "depth xs < 0" by blast
  then have "rtf_run m (tokens s) rtf_init \<noteq> Inr u" for u
    using run_no_underflow[of m xs ys rtf_init u] by (auto simp: rtf_init_def)
  then show "\<exists>e. striprtf m s = Inl e"
    by (cases "rtf_run m (tokens s) rtf_init") (auto simp: striprtf_def)
qed

theorem rtf_underflow_witness: "\<exists>e. striprtf 0x10FFFF ''a}'' = Inl e"
proof -
  have "tokens ''a}'' = [TChar (CHR ''a''), TBrace (CHR ''}'')] @ []"
    by (simp add: next_tok_def is_crlf_def)
  moreover have "depth [TChar (CHR ''a''), TBrace (CHR ''}'')] < 0" by simp
  ultimately show ?thesis using rtf_underflow[of "0x10FFFF" "''a}''" "[]"] by blast
qed

end
