(* ===== verification/ImapLex.thy ===== *)
theory ImapLex
  imports MailText
begin

text \<open>
  response_lexer.py: the token scanner of IMAP responses. \<open>PushableIterator\<close> is the record
  \<open>pushable\<close> with its two operations, an instance of the locale \<open>char_source\<close> (what the scanner
  relies on); \<open>read_until\<close>, one round of the loop of \<open>read_token_stream\<close> and the loop are the
  functions of the same names. A token stream is lazy: it is the list of the tokens delivered
  and, when it ends in an exception, that exception. The scanner is shown to refine a scanner
  over plain byte lists (\<open>scan\<close>), which the round trips of the other theories use.
\<close>

section \<open>Character classes\<close>

definition WHITESPACE :: "char set" where
  "WHITESPACE = {CHR '' '', CHR 0x09, CHR 0x0D, CHR 0x0A}"

definition SPECIALS :: "char set" where
  "SPECIALS = {CHR '' '', CHR ''('', CHR '')'', CHR ''%'', CHR 0x22, CHR ''[''}"

definition NON_SPECIALS :: "char \<Rightarrow> bool" where
  \<comment> \<open>\<open>c in ALL_CHARS - SPECIALS - CTRL_CHARS\<close>\<close>
  "NON_SPECIALS c \<longleftrightarrow> c \<notin> SPECIALS \<and> 32 \<le> (of_char c :: nat)"

definition BACKSLASH :: char where "BACKSLASH = CHR 0x5C"
definition OPEN_SQUARE :: char where "OPEN_SQUARE = CHR ''[''"
definition CLOSE_SQUARE :: char where "CLOSE_SQUARE = CHR '']''"
definition DOUBLE_QUOTE :: char where "DOUBLE_QUOTE = CHR 0x22"

lemmas char_classes = WHITESPACE_def SPECIALS_def NON_SPECIALS_def BACKSLASH_def OPEN_SQUARE_def
  CLOSE_SQUARE_def DOUBLE_QUOTE_def

section \<open>Character sources\<close>

locale char_source =
  fixes nxt :: "'s \<Rightarrow> (char \<times> 's) option"
    and psh :: "char \<Rightarrow> 's \<Rightarrow> 's"
    and rest :: "'s \<Rightarrow> bytes"
  assumes nxt_None: "nxt s = None \<longleftrightarrow> rest s = []"
    and nxt_Some: "nxt s = Some (c, t) \<Longrightarrow> rest s = c # rest t"
    and rest_psh: "rest (psh c s) = c # rest s"
begin

lemma nxt_psh: "\<exists>t. nxt (psh c s) = Some (c, t) \<and> rest t = rest s"
proof (cases "nxt (psh c s)")
  case None
  then show ?thesis using nxt_None[of "psh c s"] by (simp add: rest_psh)
next
  case (Some dt)
  then obtain d t where "nxt (psh c s) = Some (d, t)" by (cases dt) auto
  with nxt_Some[of "psh c s" d t] show ?thesis by (simp add: rest_psh)
qed

lemma nxt_rest: "nxt s = (case rest s of [] \<Rightarrow> None | c # _ \<Rightarrow> Some (c, snd (the (nxt s))))"
  using nxt_None[of s] nxt_Some[of s] by (cases "nxt s") (auto split: list.splits)

lemma rest_shrinks: "nxt s = Some (c, t) \<Longrightarrow> length (rest t) < length (rest s)"
  using nxt_Some[of s c t] by simp

end

record pushable =
  pi_it :: bytes
  pi_pushed :: bytes

definition pi_next :: "pushable \<Rightarrow> (char \<times> pushable) option" where
  "pi_next p = (case pi_pushed p of
      c # cs \<Rightarrow> Some (c, p\<lparr>pi_pushed := cs\<rparr>)
    | [] \<Rightarrow> (case pi_it p of [] \<Rightarrow> None | c # cs \<Rightarrow> Some (c, p\<lparr>pi_it := cs\<rparr>)))"

definition pi_push :: "char \<Rightarrow> pushable \<Rightarrow> pushable" where
  "pi_push c p = p\<lparr>pi_pushed := c # pi_pushed p\<rparr>"

definition pi_rest :: "pushable \<Rightarrow> bytes" where
  \<comment> \<open>the characters still to come\<close>
  "pi_rest p = pi_pushed p @ pi_it p"

definition pi_init :: "bytes \<Rightarrow> pushable" where
  "pi_init s = \<lparr>pi_it = s, pi_pushed = []\<rparr>"

interpretation pi: char_source pi_next pi_push pi_rest
  by unfold_locales (auto simp: pi_next_def pi_push_def pi_rest_def split: list.splits)

section \<open>The scanner\<close>

function read_until :: "pushable \<Rightarrow> char \<Rightarrow> bool \<Rightarrow> bytes \<Rightarrow> pyexc + bytes \<times> pushable" where
  "read_until stream_i end_char escape token =
     (case pi_next stream_i of
        None \<Rightarrow> Inl (ValueError ''No closing'')
      | Some (nextchar, s) \<Rightarrow>
          if escape \<and> nextchar = BACKSLASH then
            (case pi_next s of
               None \<Rightarrow> Inl (ValueError ''No closing'')
             | Some (nextchar', s') \<Rightarrow>
                 let token' = (if nextchar' \<noteq> nextchar \<and> nextchar' \<noteq> end_char
                               then token @ [nextchar] else token)
                 in read_until s' end_char escape (token' @ [nextchar']))
          else if nextchar = end_char then Inr (token @ [end_char], s)
          else read_until s end_char escape (token @ [nextchar]))"
  by pat_completeness auto
termination
  by (relation "measure (\<lambda>(s, _). length (pi_rest s))")
     (auto dest!: pi.rest_shrinks intro: less_trans)

declare read_until.simps [simp del]

function skip_whitespace :: "pushable \<Rightarrow> pushable" where
  "skip_whitespace stream_i =
     (case pi_next stream_i of
        None \<Rightarrow> stream_i
      | Some (nextchar, s) \<Rightarrow>
          if nextchar \<notin> WHITESPACE then pi_push nextchar s else skip_whitespace s)"
  by pat_completeness auto
termination
  by (relation "measure (\<lambda>s. length (pi_rest s))") (auto dest: pi.rest_shrinks)

declare skip_whitespace.simps [simp del]

fun until :: "char \<Rightarrow> bool \<Rightarrow> bytes \<Rightarrow> bytes \<Rightarrow> pyexc + bytes \<times> bytes" where
  \<comment> \<open>\<open>read_until\<close> over the characters still to come\<close>
  "until e esc token [] = Inl (ValueError ''No closing'')"
| "until e esc token (c # cs) =
     (if esc \<and> c = BACKSLASH then
        (case cs of
           [] \<Rightarrow> Inl (ValueError ''No closing'')
         | d # ds \<Rightarrow> until e esc ((if d \<noteq> c \<and> d \<noteq> e then token @ [c] else token) @ [d]) ds)
      else if c = e then Inr (token @ [e], cs)
      else until e esc (token @ [c]) cs)"

definition rested :: "pyexc + 'a \<times> pushable \<Rightarrow> pyexc + 'a \<times> bytes" where
  "rested r = sbind r (\<lambda>(x, p). Inr (x, pi_rest p))"

lemma rested_simps [simp]:
  "rested (Inl e) = Inl e"
  "rested (Inr (x, p)) = Inr (x, pi_rest p)"
  by (simp_all add: rested_def)

lemma read_until_until: "rested (read_until s e esc token) = until e esc token (pi_rest s)"
proof (induction s e esc token rule: read_until.induct)
  case (1 s e esc token)
  show ?case
  proof (cases "pi_next s")
    case None
    then show ?thesis using pi.nxt_None[of s] by (simp add: read_until.simps)
  next
    case (Some ct)
    then obtain c t where c: "pi_next s = Some (c, t)" by (cases ct) auto
    note rs = pi.nxt_Some[OF c]
    show ?thesis
    proof (cases "esc \<and> c = BACKSLASH")
      case True
      show ?thesis
      proof (cases "pi_next t")
        case None
        then show ?thesis using pi.nxt_None[of t] c rs True by (simp add: read_until.simps)
      next
        case (Some du)
        then obtain d u where d: "pi_next t = Some (d, u)" by (cases du) auto
        note rt = pi.nxt_Some[OF d]
        show ?thesis
          using "1.IH"(1)[OF c refl True d refl refl] True
          by (subst read_until.simps) (auto simp: c d rs rt Let_def split: if_splits)
      qed
    next
      case False
      then show ?thesis
        using "1.IH"(2)[OF c refl False]
        by (subst read_until.simps) (auto simp: c rs)
    qed
  qed
qed

lemma until_length: "until e esc token cs = Inr (u, ds) \<Longrightarrow> length ds < length cs"
  by (induction e esc token cs rule: until.induct) (fastforce split: if_splits list.splits)+

lemma read_until_rest:
  assumes "read_until s e esc token = Inr (u, t)"
  shows "length (pi_rest t) < length (pi_rest s)"
  using read_until_until[of s e esc token] assms until_length[of e esc token "pi_rest s" u "pi_rest t"]
  by simp

function read_word :: "pushable \<Rightarrow> bytes \<Rightarrow> pyexc + bytes list \<times> pushable option" where
  \<comment> \<open>the inner loop: the tokens it yields, and the stream unless it has ended\<close>
  "read_word stream_i token =
     (case pi_next stream_i of
        None \<Rightarrow> Inr (if token \<noteq> [] then [token] else [], None)
      | Some (nextchar, s) \<Rightarrow>
          if NON_SPECIALS nextchar then read_word s (token @ [nextchar])
          else if nextchar = OPEN_SQUARE then
            (case read_until s CLOSE_SQUARE False [] of
               Inl e \<Rightarrow> Inl e
             | Inr (u, t) \<Rightarrow> read_word t (token @ [nextchar] @ u))
          else if nextchar \<in> WHITESPACE then Inr ([token], Some s)
          else if nextchar = DOUBLE_QUOTE then
            (if token \<noteq> [] then Inl (AssertionError ''not token'')
             else sbind (read_until s nextchar True []) (\<lambda>(u, t).
                  Inr ([[nextchar] @ u], Some t)))
          else Inr ((if token \<noteq> [] then [token] else []) @ [[nextchar]], Some s))"
  by pat_completeness auto
termination
  by (relation "measure (\<lambda>(s, _). length (pi_rest s))")
     (auto dest!: pi.rest_shrinks read_until_rest intro: less_trans)

declare read_word.simps [simp del]


section \<open>The scanner over byte lists\<close>

function word :: "bytes \<Rightarrow> bytes \<Rightarrow> pyexc + bytes list \<times> bytes option" where
  "word token [] = Inr (if token \<noteq> [] then [token] else [], None)"
| "word token (c # cs) =
     (if NON_SPECIALS c then word (token @ [c]) cs
      else if c = OPEN_SQUARE then
        (case until CLOSE_SQUARE False [] cs of
           Inl e \<Rightarrow> Inl e
         | Inr (u, ds) \<Rightarrow> word (token @ [c] @ u) ds)
      else if c \<in> WHITESPACE then Inr ([token], Some cs)
      else if c = DOUBLE_QUOTE then
        (if token \<noteq> [] then Inl (AssertionError ''not token'')
         else sbind (until c True [] cs) (\<lambda>(u, ds). Inr ([[c] @ u], Some ds)))
      else Inr ((if token \<noteq> [] then [token] else []) @ [[c]], Some cs))"
  by pat_completeness auto
termination
  by (relation "measure (length \<circ> snd)") (auto dest!: until_length)

definition rest_opt :: "pyexc + 'a \<times> pushable option \<Rightarrow> pyexc + 'a \<times> bytes option" where
  "rest_opt r = sbind r (\<lambda>(x, p). Inr (x, map_option pi_rest p))"

lemma rest_opt_simps [simp]:
  "rest_opt (Inl e) = Inl e"
  "rest_opt (Inr (x, p)) = Inr (x, map_option pi_rest p)"
  by (simp_all add: rest_opt_def)

lemma read_word_word: "rest_opt (read_word s token) = word token (pi_rest s)"
proof (induction s token rule: read_word.induct)
  case (1 s token)
  show ?case
  proof (cases "pi_next s")
    case None
    then show ?thesis using pi.nxt_None[of s] by (simp add: read_word.simps)
  next
    case (Some ct)
    then obtain c t where c: "pi_next s = Some (c, t)" by (cases ct) auto
    note rs = pi.nxt_Some[OF c]
    consider "NON_SPECIALS c" | "\<not> NON_SPECIALS c" "c = OPEN_SQUARE"
      | "\<not> NON_SPECIALS c" "c \<noteq> OPEN_SQUARE" by blast
    then show ?thesis
    proof cases
      case 1
      then show ?thesis using "1.IH"(1)[OF c refl] by (subst read_word.simps) (simp add: c rs)
    next
      case 2
      have u: "rested (read_until t CLOSE_SQUARE False []) = until CLOSE_SQUARE False [] (pi_rest t)"
        by (rule read_until_until)
      show ?thesis
      proof (cases "read_until t CLOSE_SQUARE False []")
        case (Inl e)
        with 2 u show ?thesis by (subst read_word.simps) (simp add: c rs flip: u)
      next
        case (Inr vw)
        then obtain v w where vw: "read_until t CLOSE_SQUARE False [] = Inr (v, w)" by (cases vw) auto
        with 2 "1.IH"(2)[OF c refl 2(1) 2(2) vw refl] show ?thesis
          by (subst read_word.simps) (simp add: c rs flip: u)
      qed
    next
      case 3
      have u: "rested (read_until t DOUBLE_QUOTE True []) = until DOUBLE_QUOTE True [] (pi_rest t)"
        by (rule read_until_until)
      with 3 show ?thesis
        by (subst read_word.simps, cases "read_until t DOUBLE_QUOTE True []")
           (auto simp: c rs u[symmetric])
    qed
  qed
qed

lemma skip_whitespace_rest: "pi_rest (skip_whitespace s) = dropWhile (\<lambda>c. c \<in> WHITESPACE) (pi_rest s)"
proof (induction s rule: skip_whitespace.induct)
  case (1 s)
  show ?case
  proof (cases "pi_next s")
    case None
    then show ?thesis using pi.nxt_None[of s] by (simp add: skip_whitespace.simps)
  next
    case (Some ct)
    then obtain c t where c: "pi_next s = Some (c, t)" by (cases ct) auto
    show ?thesis using 1[OF c refl] pi.nxt_Some[OF c]
      by (subst skip_whitespace.simps) (auto simp: c pi.rest_psh)
  qed
qed

lemma word_length: "word token cs = Inr (ts, Some ds) \<Longrightarrow> length ds < length cs"
proof (induction token cs rule: word.induct)
  case (2 token c cs)
  show ?case
  proof (cases "\<not> NON_SPECIALS c \<and> c = OPEN_SQUARE")
    case True
    with 2(3) obtain u es where u: "until CLOSE_SQUARE False [] cs = Inr (u, es)"
      and w: "word (token @ [c] @ u) es = Inr (ts, Some ds)" by (auto split: sum.splits)
    from 2(2)[OF _ _ u refl w] True until_length[OF u] show ?thesis by auto
  next
    case False
    with 2(3) show ?thesis
      by (auto split: if_splits dest!: 2(1) until_length simp: outcome)
  qed
qed (simp split: if_splits)

function read_token_stream :: "pushable \<Rightarrow> bytes list \<times> pyexc option" where
  \<comment> \<open>the tokens yielded, and the exception the generator ends in, if any\<close>
  "read_token_stream stream_i =
     (case read_word (skip_whitespace stream_i) [] of
        Inl e \<Rightarrow> ([], Some e)
      | Inr (toks, None) \<Rightarrow> (toks, None)
      | Inr (toks, Some s) \<Rightarrow> (case read_token_stream s of (ts, e) \<Rightarrow> (toks @ ts, e)))"
  by pat_completeness auto
termination
proof (relation "measure (\<lambda>s. length (pi_rest s))")
  fix s r x ts so t
  assume r: "read_word (skip_whitespace s) [] = Inr x" "(ts, so) = x" "so = Some t"
  then have "word [] (pi_rest (skip_whitespace s)) = Inr (ts, Some (pi_rest t))"
    using read_word_word[of "skip_whitespace s" "[]"] by auto
  then have "length (pi_rest t) < length (pi_rest (skip_whitespace s))" by (rule word_length)
  also have "\<dots> \<le> length (pi_rest s)" by (simp add: skip_whitespace_rest length_dropWhile_le)
  finally show "(t, s) \<in> measure (\<lambda>s. length (pi_rest s))" by simp
qed simp

declare read_token_stream.simps [simp del]


function scan :: "bytes \<Rightarrow> bytes list \<times> pyexc option" where
  "scan cs =
     (case word [] (dropWhile (\<lambda>c. c \<in> WHITESPACE) cs) of
        Inl e \<Rightarrow> ([], Some e)
      | Inr (toks, None) \<Rightarrow> (toks, None)
      | Inr (toks, Some ds) \<Rightarrow> (case scan ds of (ts, e) \<Rightarrow> (toks @ ts, e)))"
  by pat_completeness auto
termination
  by (relation "measure length") (auto dest!: word_length intro: less_le_trans length_dropWhile_le)

declare scan.simps [simp del]

theorem read_token_stream_scan: "read_token_stream s = scan (pi_rest s)"
proof (induction s rule: read_token_stream.induct)
  case (1 s)
  note w = read_word_word[of "skip_whitespace s" "[]", unfolded skip_whitespace_rest]
  show ?case
  proof (cases "read_word (skip_whitespace s) []")
    case (Inl e)
    with w show ?thesis by (subst read_token_stream.simps, subst scan.simps) (simp flip: w)
  next
    case (Inr x)
    obtain ts so where x: "x = (ts, so)" by (cases x)
    show ?thesis using "1.IH"[OF Inr x[symmetric]] w
      by (subst read_token_stream.simps, subst scan.simps, cases so) (simp_all add: Inr x flip: w)
  qed
qed

section \<open>Records of imaplib\<close>

text \<open>A line, or a line that ends in a literal marker together with the literal.\<close>

datatype resp_record = Line bytes | WithLiteral bytes bytes

definition LiteralHandlingIter :: "resp_record \<Rightarrow> pyexc + bytes \<times> bytes option" where
  "LiteralHandlingIter resp_record =
     (case resp_record of
        WithLiteral src_text literal \<Rightarrow>
          if ends_with [CHR 0x7D] src_text then Inr (src_text, Some literal)
          else Inl (AssertionError src_text)
      | Line src_text \<Rightarrow> Inr (src_text, None))"

type_synonym token = "bytes \<times> bytes option"
  \<comment> \<open>a token and \<open>current_literal\<close> at the time it is delivered\<close>

fun lexer :: "resp_record list \<Rightarrow> token list \<times> pyexc option" where
  "lexer [] = ([], None)"
| "lexer (r # rs) =
     (case LiteralHandlingIter r of
        Inl e \<Rightarrow> ([], Some e)
      | Inr (src_text, literal) \<Rightarrow>
          (case read_token_stream (pi_init src_text) of
             (toks, Some e) \<Rightarrow> (map (\<lambda>t. (t, literal)) toks, Some e)
           | (toks, None) \<Rightarrow>
               (case lexer rs of (ts, e) \<Rightarrow> (map (\<lambda>t. (t, literal)) toks @ ts, e))))"

lemma lexer_Line:
  "scan s = (toks, None) \<Longrightarrow> lexer (Line s # rs) =
     (map (\<lambda>t. (t, None)) toks @ fst (lexer rs), snd (lexer rs))"
  by (simp add: LiteralHandlingIter_def read_token_stream_scan pi_rest_def pi_init_def split: prod.splits)

lemma lexer_WithLiteral:
  "scan s = (toks, None) \<Longrightarrow> ends_with [CHR 0x7D] s \<Longrightarrow> lexer (WithLiteral s l # rs) =
     (map (\<lambda>t. (t, Some l)) toks @ fst (lexer rs), snd (lexer rs))"
  by (simp add: LiteralHandlingIter_def read_token_stream_scan pi_rest_def pi_init_def split: prod.splits)

section \<open>What the scanner does on printed values\<close>

definition escape_quotes :: "bytes \<Rightarrow> bytes" where
  "escape_quotes b = concat (map (\<lambda>c. if c = BACKSLASH \<or> c = DOUBLE_QUOTE then [BACKSLASH, c] else [c]) b)"

lemma until_escape_quotes:
  "until DOUBLE_QUOTE True token (escape_quotes b @ DOUBLE_QUOTE # r) = Inr (token @ b @ [DOUBLE_QUOTE], r)"
proof (induction b arbitrary: token)
  case Nil
  then show ?case by (simp add: escape_quotes_def char_classes)
next
  case (Cons c b)
  have "escape_quotes (c # b) = (if c = BACKSLASH \<or> c = DOUBLE_QUOTE then [BACKSLASH, c] else [c]) @ escape_quotes b"
    by (simp add: escape_quotes_def)
  then show ?case using Cons.IH by (auto simp: char_classes)
qed

lemma scan_simps:
  "scan [] = ([], None)"
  "scan (CHR '' '' # cs) = scan cs"
  by (subst scan.simps; simp)
     (subst (1 2) scan.simps, simp add: WHITESPACE_def)

lemma scan_quoted:
  "scan (DOUBLE_QUOTE # escape_quotes b @ DOUBLE_QUOTE # r)
    = (case scan r of (ts, e) \<Rightarrow> ((DOUBLE_QUOTE # b @ [DOUBLE_QUOTE]) # ts, e))"
  by (subst scan.simps)
     (simp add: until_escape_quotes, simp add: char_classes until_escape_quotes[unfolded char_classes] split: prod.split)

lemma scan_paren:
  assumes "p \<in> {CHR ''('', CHR '')''}"
  shows "scan (p # r) = (case scan r of (ts, e) \<Rightarrow> ([p] # ts, e))"
  using assms by (subst scan.simps) (auto simp: char_classes split: prod.split)

lemma word_plain:
  "list_all NON_SPECIALS w \<Longrightarrow> word token (w @ r) = word (token @ w) r"
  by (induction w arbitrary: token) auto

lemma not_white: "NON_SPECIALS c \<Longrightarrow> c \<notin> WHITESPACE"
proof -
  have n: "\<not> (32::nat) \<le> of_char (CHR 0x09)" "\<not> (32::nat) \<le> of_char (CHR 0x0D)" "\<not> (32::nat) \<le> of_char (CHR 0x0A)"
    by simp_all
  assume c: "NON_SPECIALS c"
  then have "c \<noteq> CHR '' ''" by (simp add: NON_SPECIALS_def SPECIALS_def)
  moreover from c n have "c \<noteq> CHR 0x09" "c \<noteq> CHR 0x0D" "c \<noteq> CHR 0x0A" by (metis NON_SPECIALS_def)+
  ultimately show "c \<notin> WHITESPACE" by (simp add: WHITESPACE_def)
qed

lemma scan_plain:
  assumes "list_all NON_SPECIALS w" and "w \<noteq> []"
  shows "scan w = ([w], None)"
    and "scan (w @ CHR '' '' # r) = (case scan r of (ts, e) \<Rightarrow> (w # ts, e))"
    and "p \<in> {CHR ''('', CHR '')''} \<Longrightarrow>
      scan (w @ p # r) = (case scan r of (ts, e) \<Rightarrow> (w # [p] # ts, e))"
proof -
  have nw: "dropWhile (\<lambda>c. c \<in> WHITESPACE) (w @ x) = w @ x" for x
    using assms not_white by (cases w) simp_all
  show "scan w = ([w], None)"
    using assms word_plain[of w "[]" "[]"] nw[of "[]"] by (subst scan.simps) simp
  show "scan (w @ CHR '' '' # r) = (case scan r of (ts, e) \<Rightarrow> (w # ts, e))"
    using assms word_plain[of w "[]" "CHR '' '' # r"]
    by (subst scan.simps) (simp add: nw, simp add: char_classes split: prod.split)
  have "\<not> NON_SPECIALS p" "p \<noteq> OPEN_SQUARE" "p \<notin> WHITESPACE" "p \<noteq> DOUBLE_QUOTE"
    if "p \<in> {CHR ''('', CHR '')''}" using that by (auto simp: char_classes)
  then show "scan (w @ p # r) = (case scan r of (ts, e) \<Rightarrow> (w # [p] # ts, e))"
    if "p \<in> {CHR ''('', CHR '')''}"
    using assms word_plain[of w "[]" "p # r"] that
    by (subst scan.simps) (simp add: nw split: prod.split)
qed

end
