(* ===== verification/ImapUtf7.thy ===== *)
theory ImapUtf7
  imports ImapLex
begin

text \<open>
  imap_utf7.py: folder names in the modified UTF-7 of IMAP. A unicode string is the list of its
  UTF-16 code units. \<open>utf7_encode\<close> and \<open>utf7_decode\<close> spell out the UTF-7 codec of the
  interpreter (which characters it writes directly, base64 runs, padding); \<open>imap_encode\<close> and
  \<open>imap_decode\<close> are the two functions of the module. The lemmas show that decoding inverts
  encoding for every name without tab, line feed and carriage return, and that an encoded name
  is printable ASCII.
\<close>

section \<open>Bits\<close>

fun bits :: "nat \<Rightarrow> nat \<Rightarrow> bool list" where
  \<comment> \<open>the \<open>k\<close> low bits, the most significant first\<close>
  "bits 0 n = []"
| "bits (Suc k) n = bits k (n div 2) @ [odd n]"

definition bits_value :: "bool list \<Rightarrow> nat" where
  "bits_value bs = foldl (\<lambda>a b. 2 * a + of_bool b) 0 bs"

lemma bits_value_simps [simp]:
  "bits_value [] = 0"
  "bits_value (bs @ [b]) = 2 * bits_value bs + of_bool b"
  by (simp_all add: bits_value_def)

lemma length_bits [simp]: "length (bits k n) = k"
  by (induction k n rule: bits.induct) simp_all

lemma bits_value_bits: "n < 2 ^ k \<Longrightarrow> bits_value (bits k n) = n"
proof (induction k n rule: bits.induct)
  case (2 k n)
  then have "bits_value (bits k (n div 2)) = n div 2" by (simp add: less_mult_imp_div_less mult.commute)
  then show ?case by simp
qed simp

lemma bits_bits_value: "bits (length bs) (bits_value bs) = bs"
  by (induction bs rule: rev_induct) simp_all

lemma bits_value_less: "bits_value bs < 2 ^ length bs"
  by (induction bs rule: rev_induct) auto

section \<open>Base64\<close>

definition b64_char :: "nat \<Rightarrow> char" where
  "b64_char n =
     (if n < 26 then char_of (65 + n) else if n < 52 then char_of (71 + n)
      else if n < 62 then char_of (n - 4) else if n = 62 then CHR ''+'' else CHR ''/'')"

definition b64_value :: "char \<Rightarrow> nat option" where
  "b64_value c = (let n = of_char c :: nat in
     if 65 \<le> n \<and> n \<le> 90 then Some (n - 65) else if 97 \<le> n \<and> n \<le> 122 then Some (n - 71)
     else if 48 \<le> n \<and> n \<le> 57 then Some (n + 4) else if c = CHR ''+'' then Some 62
     else if c = CHR ''/'' then Some 63 else None)"

definition is_b64 :: "char \<Rightarrow> bool" where
  "is_b64 c \<longleftrightarrow> b64_value c \<noteq> None"

lemma of_char_b64:
  assumes "n < 64"
  shows "(of_char (b64_char n) :: nat) =
    (if n < 26 then 65 + n else if n < 52 then 71 + n else if n < 62 then n - 4 else if n = 62 then 43 else 47)"
  using assms by (simp add: b64_char_def)

lemma b64_char_facts:
  assumes "n < 64"
  shows "b64_value (b64_char n) = Some n" "b64_char n \<noteq> CHR ''-''" "b64_char n \<noteq> CHR ''&''"
    "b64_char n \<noteq> CHR '',''" "is_b64 (b64_char n)"
    "0x20 \<le> (of_char (b64_char n) :: nat)" "(of_char (b64_char n) :: nat) < 0x7F"
proof -
  note o = of_char_b64[OF assms]
  have p: "(of_char (CHR ''-'') :: nat) = 45" "(of_char (CHR ''&'') :: nat) = 38" "(of_char (CHR '','') :: nat) = 44"
    by simp_all
  consider "n < 26" | "26 \<le> n" "n < 52" | "52 \<le> n" "n < 62" | "n = 62" | "n = 63"
    using assms by linarith
  then show v: "b64_value (b64_char n) = Some n"
  proof cases
    case 3
    then show ?thesis by (simp add: b64_value_def o Let_def) arith
  next
    case 4
    then show ?thesis by (simp add: b64_value_def b64_char_def)
  next
    case 5
    then show ?thesis by (simp add: b64_value_def b64_char_def)
  qed (simp_all add: b64_value_def o Let_def)
  show "is_b64 (b64_char n)" using v by (simp add: is_b64_def)
  have r: "(of_char (b64_char n) :: nat) \<notin> {45, 38, 44}" unfolding o using assms by simp linarith
  then show "b64_char n \<noteq> CHR ''-''" "b64_char n \<noteq> CHR ''&''" "b64_char n \<noteq> CHR '',''"
    using p by fastforce+
  show "0x20 \<le> (of_char (b64_char n) :: nat)" "(of_char (b64_char n) :: nat) < 0x7F"
    unfolding o using assms by (simp_all, arith+)
qed

function b64_encode :: "bool list \<Rightarrow> bytes" where
  \<comment> \<open>groups of six bits, the last one padded with zero bits\<close>
  "b64_encode bs =
     (if bs = [] then []
      else b64_char (bits_value (take 6 (bs @ replicate 5 False))) # b64_encode (drop 6 bs))"
  by pat_completeness auto
termination
  by (relation "measure length") auto

declare b64_encode.simps [simp del]

lemma b64_encode_Nil [simp]: "b64_encode [] = []"
  by (subst b64_encode.simps) simp

definition b64_bits :: "bytes \<Rightarrow> bool list" where
  "b64_bits s = concat (map (\<lambda>c. bits 6 (case b64_value c of Some n \<Rightarrow> n | None \<Rightarrow> 0)) s)"

lemma bits6: "length bs = 6 \<Longrightarrow> bits 6 (bits_value bs) = bs \<and> bits_value bs < 64"
  using bits_bits_value[of bs] bits_value_less[of bs] by simp

lemma b64_bits_char: "length bs = 6 \<Longrightarrow> b64_bits (b64_char (bits_value bs) # s) = bs @ b64_bits s"
  using bits6[of bs] by (simp add: b64_bits_def b64_char_facts)

lemma b64_encode_decode:
  "\<exists>pad. b64_bits (b64_encode bs) = bs @ replicate pad False \<and> pad < 6
     \<and> list_all (\<lambda>c. \<exists>n<64. c = b64_char n) (b64_encode bs)"
proof (induction bs rule: b64_encode.induct)
  case (1 bs)
  show ?case
  proof (cases "bs = []")
    case True
    then show ?thesis by (intro exI[of _ 0]) (simp add: b64_bits_def)
  next
    case False
    let ?g = "take 6 (bs @ replicate 5 False)"
    have l: "length ?g = 6" using False by (cases bs) simp_all
    have e: "b64_encode bs = b64_char (bits_value ?g) # b64_encode (drop 6 bs)"
      using False by (subst b64_encode.simps) simp
    from 1[OF False] obtain pad where p: "b64_bits (b64_encode (drop 6 bs)) = drop 6 bs @ replicate pad False"
      "pad < 6" "list_all (\<lambda>c. \<exists>n<64. c = b64_char n) (b64_encode (drop 6 bs))" by blast
    have all: "list_all (\<lambda>c. \<exists>n<64. c = b64_char n) (b64_encode bs)"
      using p(3) bits6[OF l] by (auto simp: e)
    have b: "b64_bits (b64_encode bs) = ?g @ drop 6 bs @ replicate pad False"
      unfolding e b64_bits_char[OF l] p(1) ..
    show ?thesis
    proof (cases "length bs < 6")
      case True
      have "6 - length bs < 6" using False by simp
      have "drop 6 bs = []" using True by simp
      moreover from this have "pad = 0" using p(1) by (simp add: b64_bits_def)
      moreover have "?g = bs @ replicate (6 - length bs) False" using True False by (cases bs) (simp_all add: take_replicate)
      ultimately show ?thesis using b all False by (intro exI[of _ "6 - length bs"]) simp
    next
      case False
      then have "?g = take 6 bs" by simp
      with b have "b64_bits (b64_encode bs) = bs @ replicate pad False"
        by (metis append.assoc append_take_drop_id)
      with all p(2) show ?thesis by blast
    qed
  qed
qed

section \<open>The UTF-7 codec\<close>

definition utf7_direct :: "nat \<Rightarrow> bool" where
  \<comment> \<open>written as they are: printable characters but backslash, tilde and plus, and white space\<close>
  "utf7_direct c \<longleftrightarrow> (c \<in> {9, 10, 13} \<or> (32 \<le> c \<and> c \<le> 126)) \<and> c \<notin> {0x5C, 0x7E, 0x2B}"

function utf7_encode :: "nat list \<Rightarrow> bytes" where
  "utf7_encode [] = []"
| "utf7_encode (c # cs) =
     (if c = 0x2B then CHR ''+'' # CHR ''-'' # utf7_encode cs
      else if utf7_direct c then char_of c # utf7_encode cs
      else let shifted = c # takeWhile (\<lambda>c. \<not> utf7_direct c) cs;
               rest = dropWhile (\<lambda>c. \<not> utf7_direct c) cs
           in [CHR ''+''] @ b64_encode (concat (map (bits 16) shifted))
              @ (case rest of [] \<Rightarrow> ''-''
                 | d # _ \<Rightarrow> if is_b64 (char_of d) \<or> char_of d = CHR ''-'' then ''-'' else [])
              @ utf7_encode rest)"
  by pat_completeness auto
termination
  by (relation "measure length") (auto simp: length_dropWhile_le le_imp_less_Suc)

fun units :: "bool list \<Rightarrow> nat list \<times> bool list" where
  \<comment> \<open>the 16-bit groups, and the bits left over\<close>
  "units bs = (if length bs < 16 then ([], bs)
     else case units (drop 16 bs) of (us, r) \<Rightarrow> (bits_value (take 16 bs) # us, r))"

declare units.simps [simp del]

lemma dropWhile_rest: "dropWhile P cs = d # ds \<Longrightarrow> length ds < Suc (length cs)"
  using length_dropWhile_le[of P cs] by simp

function utf7_decode :: "bytes \<Rightarrow> pyexc + nat list" where
  "utf7_decode [] = Inr []"
| "utf7_decode (c # cs) =
     (if c = CHR ''+'' then
        (if take 1 cs = ''-'' then
           sbind (utf7_decode (drop 1 cs)) (\<lambda>us. Inr (0x2B # us))
         else
           (case units (b64_bits (takeWhile is_b64 cs)) of (shifted, left) \<Rightarrow>
            if 6 \<le> length left then Inl (UnicodeError ''partial character in base64 sequence'')
            else if True \<in> set left then Inl (UnicodeError ''non-zero padding bits in shift sequence'')
            else (case dropWhile is_b64 cs of
                [] \<Rightarrow> Inr shifted
              | d # ds \<Rightarrow> sbind (utf7_decode ds) (\<lambda>us.
                  Inr (shifted @ (if d \<noteq> CHR ''-'' then [of_char d] else []) @ us)))))
      else if (of_char c :: nat) \<le> 127 then sbind (utf7_decode cs) (\<lambda>us. Inr (of_char c # us))
      else Inl (UnicodeError ''unexpected special character''))"
  by pat_completeness auto
termination
  by (relation "measure length") (auto dest: dropWhile_rest dropWhile_rest[OF sym])

declare utf7_decode.simps(2) [simp del]

section \<open>Folder names\<close>

definition PRINTABLE :: "nat \<Rightarrow> bool" where
  "PRINTABLE c \<longleftrightarrow> (0x20 \<le> c \<and> c < 0x26) \<or> (0x27 \<le> c \<and> c < 0x7F)"

definition modified_utf7 :: "nat list \<Rightarrow> bytes" where
  \<comment> \<open>\<open>[1:-1]\<close>, then the slashes replaced\<close>
  "modified_utf7 s = (let u = utf7_encode s in replace_char (CHR ''/'') (CHR '','') (butlast (tl u)))"

definition modified_deutf7 :: "bytes \<Rightarrow> pyexc + nat list" where
  "modified_deutf7 s = utf7_decode ([CHR ''+''] @ replace_char (CHR '','') (CHR ''/'') s @ ''-'')"

definition extend_result_if_chars_buffered :: "nat list \<Rightarrow> bytes" where
  "extend_result_if_chars_buffered buf =
     (if buf \<noteq> [] then [CHR ''&''] @ modified_utf7 buf @ ''-'' else [])"

fun encode_loop :: "nat list \<Rightarrow> nat list \<Rightarrow> bytes" where
  \<comment> \<open>the buffer \<open>_in\<close> and the characters still to come\<close>
  "encode_loop buf [] = extend_result_if_chars_buffered buf"
| "encode_loop buf (c # cs) =
     (if PRINTABLE c then extend_result_if_chars_buffered buf @ [char_of c] @ encode_loop [] cs
      else if c = 0x26 then extend_result_if_chars_buffered buf @ ''&-'' @ encode_loop [] cs
      else encode_loop (buf @ [c]) cs)"

definition imap_encode :: "nat list \<Rightarrow> bytes" where
  "imap_encode s = encode_loop [] s"

fun decode_loop :: "bytes \<Rightarrow> bytes \<Rightarrow> pyexc + nat list" where
  "decode_loop buf [] = (if buf \<noteq> [] then modified_deutf7 (tl buf) else Inr [])"
| "decode_loop buf (c # cs) =
     (if c = CHR ''&'' \<and> buf = [] then decode_loop [c] cs
      else if c = CHR ''-'' \<and> buf \<noteq> [] then
        sbind (if length buf = 1 then Inr [0x26] else modified_deutf7 (tl buf)) (\<lambda>us.
        sbind (decode_loop [] cs) (\<lambda>vs. Inr (us @ vs)))
      else if buf \<noteq> [] then decode_loop (buf @ [c]) cs
      else sbind (decode_loop [] cs) (\<lambda>vs. Inr (of_char c # vs)))"

definition imap_decode :: "bytes \<Rightarrow> pyexc + nat list" where
  "imap_decode s = decode_loop [] s"

section \<open>Decoding inverts encoding\<close>

definition shiftable :: "nat \<Rightarrow> bool" where
  \<comment> \<open>what \<open>encode\<close> buffers and the codec does not write directly\<close>
  "shiftable c \<longleftrightarrow> c < 2 ^ 16 \<and> \<not> PRINTABLE c \<and> c \<noteq> 0x26 \<and> c \<notin> {9, 10, 13}"

lemma shiftable_indirect: "shiftable c \<Longrightarrow> \<not> utf7_direct c \<and> c \<noteq> 0x2B"
  by (auto simp: shiftable_def PRINTABLE_def utf7_direct_def)

lemma units_append:
  assumes "list_all (\<lambda>c. c < 2 ^ 16) us" and "length pad < 16"
  shows "units (concat (map (bits 16) us) @ pad) = (us, pad)"
  using assms(1)
proof (induction us)
  case Nil
  with assms(2) show ?case by (subst units.simps) simp
next
  case (Cons u us)
  then show ?case by (subst units.simps) (simp add: bits_value_bits)
qed

definition b64_run :: "nat list \<Rightarrow> bytes" where
  "b64_run us = b64_encode (concat (map (bits 16) us))"

lemma b64_run_facts:
  assumes "us \<noteq> []"
  shows "b64_run us \<noteq> []" and "list_all (\<lambda>c. \<exists>n<64. c = b64_char n) (b64_run us)"
proof -
  obtain u vs where "us = u # vs" using assms by (cases us) auto
  then have "concat (map (bits 16) us) \<noteq> []" by (metis concat.simps(2) append_is_Nil_conv length_bits list.map(2) list.size(3) zero_neq_numeral)
  then show "b64_run us \<noteq> []" unfolding b64_run_def by (subst b64_encode.simps) simp
  show "list_all (\<lambda>c. \<exists>n<64. c = b64_char n) (b64_run us)"
    using b64_encode_decode[of "concat (map (bits 16) us)"] by (auto simp: b64_run_def)
qed

lemma utf7_encode_run:
  assumes "us \<noteq> []" and "list_all shiftable us"
  shows "utf7_encode us = [CHR ''+''] @ b64_run us @ ''-''"
proof -
  obtain u vs where u: "us = u # vs" using assms(1) by (cases us) auto
  have all: "\<forall>c\<in>set us. \<not> utf7_direct c \<and> c \<noteq> 0x2B"
    using assms(2) shiftable_indirect by (auto simp: list_all_iff)
  then have tw: "takeWhile (\<lambda>c. \<not> utf7_direct c) vs = vs" "dropWhile (\<lambda>c. \<not> utf7_direct c) vs = []"
    using u by (auto simp: takeWhile_eq_all_conv)
  from all u show ?thesis by (simp add: b64_run_def Let_def tw)
qed

lemma replace_char_inverse: "b \<notin> set s \<Longrightarrow> replace_char b a (replace_char a b s) = s"
  by (induction s) auto

lemma modified_utf7_run:
  "us \<noteq> [] \<Longrightarrow> list_all shiftable us \<Longrightarrow> modified_utf7 us = replace_char (CHR ''/'') (CHR '','') (b64_run us)"
  by (simp add: modified_utf7_def utf7_encode_run Let_def butlast_append)

lemma modified_utf7_chars:
  assumes "us \<noteq> []" and "list_all shiftable us"
  shows "CHR ''-'' \<notin> set (modified_utf7 us)" "CHR ''&'' \<notin> set (modified_utf7 us)" "modified_utf7 us \<noteq> []"
    "list_all (\<lambda>c. 0x20 \<le> (of_char c :: nat) \<and> (of_char c :: nat) < 0x7F) (modified_utf7 us)"
proof -
  have set: "set (replace_char a b s) \<subseteq> insert b (set s)" for a b s by (induction s) auto
  have P: "P (modified_utf7 us)"
    if "\<And>s. set s \<subseteq> insert (CHR '','') {c. \<exists>n<64. c = b64_char n} \<Longrightarrow> s \<noteq> [] \<Longrightarrow> P s" for P
  proof (rule that)
    show "set (modified_utf7 us) \<subseteq> insert (CHR '','') {c. \<exists>n<64. c = b64_char n}"
      using set[of "CHR ''/''" "CHR '',''" "b64_run us"] b64_run_facts(2)[OF assms(1)]
      by (auto simp: modified_utf7_run[OF assms] list_all_iff)
    show "modified_utf7 us \<noteq> []"
      using b64_run_facts(1)[OF assms(1)] by (cases "b64_run us") (simp_all add: modified_utf7_run[OF assms])
  qed
  have not_in: "x \<notin> set (modified_utf7 us)" if "x \<noteq> CHR '',''" "\<And>n. n < 64 \<Longrightarrow> b64_char n \<noteq> x" for x
  proof (rule P)
    fix s :: bytes
    assume "set s \<subseteq> insert (CHR '','') {c. \<exists>n<64. c = b64_char n}"
    with that show "x \<notin> set s" by blast
  qed
  show "CHR ''-'' \<notin> set (modified_utf7 us)" by (rule not_in) (simp, rule b64_char_facts(2))
  show "CHR ''&'' \<notin> set (modified_utf7 us)" by (rule not_in) (simp, rule b64_char_facts(3))
  show "modified_utf7 us \<noteq> []" by (rule P)
  have ok: "0x20 \<le> (of_char c :: nat) \<and> (of_char c :: nat) < 0x7F"
    if "c \<in> insert (CHR '','') {c. \<exists>n<64. c = b64_char n}" for c
  proof (cases "c = CHR '',''")
    case False
    with that obtain n where "n < 64" "c = b64_char n" by blast
    then show ?thesis by (simp only: b64_char_facts(6,7) conj_absorb simp_thms)
  qed simp
  show "list_all (\<lambda>c. 0x20 \<le> (of_char c :: nat) \<and> (of_char c :: nat) < 0x7F) (modified_utf7 us)"
  proof (rule P)
    fix s :: bytes
    assume "set s \<subseteq> insert (CHR '','') {c. \<exists>n<64. c = b64_char n}"
    then show "list_all (\<lambda>c. 0x20 \<le> (of_char c :: nat) \<and> (of_char c :: nat) < 0x7F) s"
      unfolding list_all_iff by (intro ballI ok) (rule subsetD)
  qed
qed

lemma modified_deutf7_utf7:
  assumes "us \<noteq> []" and "list_all shiftable us"
  shows "modified_deutf7 (modified_utf7 us) = Inr us"
proof -
  note run = b64_run_facts[OF assms(1)]
  have b: "list_all is_b64 (b64_run us)" "CHR '','' \<notin> set (b64_run us)"
  proof -
    have "is_b64 c \<and> c \<noteq> CHR '',''" if "c \<in> set (b64_run us)" for c
    proof -
      obtain n where "n < 64" "c = b64_char n" using run(2)[unfolded list_all_iff, THEN bspec, OF \<open>c \<in> set (b64_run us)\<close>] by (elim exE conjE)
      then show ?thesis by (simp only: b64_char_facts(4,5) simp_thms)
    qed
    then show "list_all is_b64 (b64_run us)" "CHR '','' \<notin> set (b64_run us)" by (auto simp: list_all_iff)
  qed
  have s: "replace_char (CHR '','') (CHR ''/'') (modified_utf7 us) = b64_run us"
    using replace_char_inverse[OF b(2)] by (simp add: modified_utf7_run[OF assms])
  have nb: "\<not> is_b64 (CHR ''-'')" by (simp add: is_b64_def b64_value_def)
  have tw: "takeWhile is_b64 (b64_run us @ ''-'') = b64_run us" "dropWhile is_b64 (b64_run us @ ''-'') = ''-''"
    using b(1) nb by (simp_all add: list_all_iff takeWhile_append2 dropWhile_append2)
  obtain c r where c: "b64_run us = c # r" using run(1) by (meson neq_Nil_conv)
  then have "is_b64 c" using b(1) by simp
  with nb have c2: "c \<noteq> CHR ''-''" by metis
  note c = c c2
  obtain pad where pad: "b64_bits (b64_run us) = concat (map (bits 16) us) @ replicate pad False" "pad < 6"
    using b64_encode_decode[of "concat (map (bits 16) us)"] by (auto simp: b64_run_def)
  have "units (b64_bits (b64_run us)) = (us, replicate pad False)"
    unfolding pad(1) using assms(2) pad(2) by (intro units_append) (auto simp: list_all_iff shiftable_def)
  then show ?thesis using pad(2) c tw
    by (simp only: modified_deutf7_def s append.simps, subst utf7_decode.simps(2)) (simp add: c(1))
qed

lemma decode_loop_run:
  assumes "CHR ''-'' \<notin> set s"
  shows "buf \<noteq> [] \<Longrightarrow> decode_loop buf (s @ CHR ''-'' # r) = decode_loop (buf @ s) (CHR ''-'' # r)"
  using assms by (induction s arbitrary: buf) auto

lemma decode_buffered:
  assumes "list_all shiftable buf"
  shows "decode_loop [] (extend_result_if_chars_buffered buf @ r) = sbind (decode_loop [] r) (\<lambda>vs. Inr (buf @ vs))"
proof (cases "buf = []")
  case True
  then show ?thesis by (cases "decode_loop [] r") (simp_all add: extend_result_if_chars_buffered_def)
next
  case False
  note m = modified_utf7_chars[OF False assms]
  have "decode_loop ''&'' (modified_utf7 buf @ CHR ''-'' # r) = decode_loop (''&'' @ modified_utf7 buf) (CHR ''-'' # r)"
    by (rule decode_loop_run[OF m(1)]) simp
  with False m(3) modified_deutf7_utf7[OF False assms] show ?thesis
    by (simp add: extend_result_if_chars_buffered_def)
qed

lemma decode_encode_loop:
  "list_all shiftable buf \<Longrightarrow> list_all (\<lambda>c. c < 2 ^ 16 \<and> c \<notin> {9, 10, 13}) cs \<Longrightarrow>
     decode_loop [] (encode_loop buf cs) = Inr (buf @ cs)"
proof (induction buf cs rule: encode_loop.induct)
  case (1 buf)
  then show ?case using decode_buffered[of buf "[]"] by simp
next
  case (2 buf c cs)
  consider "PRINTABLE c" | "\<not> PRINTABLE c" "c = 0x26" | "\<not> PRINTABLE c" "c \<noteq> 0x26" by blast
  then show ?case
  proof cases
    case 1
    have c: "char_of c \<noteq> CHR ''&''"
    proof
      assume "char_of c = CHR ''&''"
      then have "(of_char (char_of c :: char) :: nat) = 38" by simp
      with 1 show False by (auto simp: PRINTABLE_def)
    qed
    moreover have "(of_char (char_of c :: char) :: nat) = c" using 1 by (auto simp: PRINTABLE_def)
    ultimately show ?thesis using 1 2 by (simp add: decode_buffered)
  next
    case 2
    then show ?thesis using "2.IH"(2) "2.prems" by (simp add: decode_buffered)
  next
    case 3
    then show ?thesis using "2.IH"(3) "2.prems" by (simp add: shiftable_def)
  qed
qed

lemma encode_loop_ascii:
  "list_all shiftable buf \<Longrightarrow> list_all (\<lambda>c. c < 2 ^ 16 \<and> c \<notin> {9, 10, 13}) cs \<Longrightarrow>
     list_all (\<lambda>c. 0x20 \<le> (of_char c :: nat) \<and> (of_char c :: nat) < 0x7F) (encode_loop buf cs)"
proof (induction buf cs rule: encode_loop.induct)
  case (1 buf)
  then show ?case using modified_utf7_chars(4)[of buf] by (simp add: extend_result_if_chars_buffered_def)
next
  case (2 buf c cs)
  have run: "list_all (\<lambda>c. 0x20 \<le> (of_char c :: nat) \<and> (of_char c :: nat) < 0x7F) (extend_result_if_chars_buffered buf)"
    using modified_utf7_chars(4)[of buf] "2.prems"(1) by (simp add: extend_result_if_chars_buffered_def)
  consider "PRINTABLE c" | "\<not> PRINTABLE c" "c = 0x26" | "\<not> PRINTABLE c" "c \<noteq> 0x26" by blast
  then show ?case
  proof cases
    case 1
    then have "(of_char (char_of c :: char) :: nat) = c" "0x20 \<le> c" "c < 0x7F" by (auto simp: PRINTABLE_def)
    then show ?thesis using 1 "2.IH"(1) "2.prems" run by simp
  next
    case 2
    then show ?thesis using "2.IH"(2) "2.prems" run by simp
  next
    case 3
    then show ?thesis using "2.IH"(3) "2.prems" by (simp add: shiftable_def)
  qed
qed

end
