(* ===== verification/ImapParse.thy ===== *)
theory ImapParse
  imports ImapLex
begin

text \<open>
  response_parser.py: \<open>atom\<close> and \<open>parse_tuple\<close> over the token stream of the scanner,
  \<open>gen_parsed_response\<close> (a generator: the values delivered and the exception it ends in),
  \<open>parse_response\<close> and \<open>parse_message_list\<close>. The parameter \<open>depth\<close> is the number of nested
  tuples the interpreter's stack has room for; the fuel is the number of tokens, and is shown
  to be enough. The lemmas show that parsing inverts printing, for every nesting of tuples,
  quoted strings, numbers, atoms and literals.
\<close>

section \<open>Values\<close>

datatype imapval = INone | IBytes bytes | IInt int | ITuple "imapval list"

definition int_of_bytes :: "bytes \<Rightarrow> pyexc + int" where
  \<comment> \<open>\<open>int(s)\<close> of a byte string\<close>
  "int_of_bytes s =
     (let s = py_strip s;
          (neg, d) = (case s of
              c # r \<Rightarrow> if c = CHR ''-'' then (True, r) else if c = CHR ''+'' then (False, r) else (False, s)
            | [] \<Rightarrow> (False, []))
      in if d \<noteq> [] \<and> list_all is_digit d
         then Inr (if neg then - int (dec_value d 0) else int (dec_value d 0))
         else Inl (ValueError ''invalid literal for int()''))"

section \<open>Atoms and tuples\<close>

type_synonym tstream = "token list \<times> pyexc option"

definition leaf_atom :: "bytes option \<Rightarrow> bytes \<Rightarrow> pyexc + imapval" where
  \<comment> \<open>\<open>atom\<close> on a token other than an opening parenthesis\<close>
  "leaf_atom current_literal token =
     (if token = ''NIL'' then Inr INone
      else if take 1 token = [CHR 0x7B] then
        sbind (int_of_bytes (take (length token - 2) (drop 1 token))) (\<lambda>literal_len.
        case current_literal of
          None \<Rightarrow> Inl (ParseError ''No literal corresponds to the token'')
        | Some literal_text \<Rightarrow>
            if int (length literal_text) \<noteq> literal_len
            then Inl (ParseError ''Expecting literal of another size'')
            else Inr (IBytes literal_text))
      else if 2 \<le> length token \<and> hd token = CHR 0x22 \<and> last token = CHR 0x22
        then Inr (IBytes (take (length token - 2) (drop 1 token)))
      else if token \<noteq> [] \<and> list_all is_digit token then Inr (IInt (int (dec_value token 0)))
      else Inr (IBytes token))"

fun incomplete :: "imapval list \<Rightarrow> pyexc" where
  \<comment> \<open>the exception of an unterminated tuple: joining its items fails on non-ASCII bytes\<close>
  "incomplete out =
     (if list_ex (\<lambda>v. case v of IBytes b \<Rightarrow> \<not> is_ascii b | _ \<Rightarrow> False) out
      then UnicodeError ''ordinal not in range(128)''
      else ParseError ''Tuple incomplete'')"

definition OUT_OF_FUEL :: pyexc where "OUT_OF_FUEL = RuntimeError ''out of fuel''"
definition TOO_DEEP :: pyexc where "TOO_DEEP = RuntimeError ''maximum recursion depth exceeded''"

function atom :: "nat \<Rightarrow> nat \<Rightarrow> token \<Rightarrow> tstream \<Rightarrow> pyexc + imapval \<times> tstream"
  and parse_tuple :: "nat \<Rightarrow> nat \<Rightarrow> imapval list \<Rightarrow> tstream \<Rightarrow> pyexc + imapval \<times> tstream"
where
  "atom k depth (token, lit) src =
     (if token = ''('' then
        (case depth of 0 \<Rightarrow> Inl TOO_DEEP | Suc depth \<Rightarrow> parse_tuple k depth [] src)
      else sbind (leaf_atom lit token) (\<lambda>v. Inr (v, src)))"
| "parse_tuple 0 depth out src = Inl OUT_OF_FUEL"
| "parse_tuple (Suc k) depth out ([], err) = Inl (case err of Some e \<Rightarrow> e | None \<Rightarrow> incomplete out)"
| "parse_tuple (Suc k) depth out ((token, lit) # ts, err) =
     (if token = '')'' then Inr (ITuple out, (ts, err))
      else sbind (atom k depth (token, lit) (ts, err)) (\<lambda>(v, src).
           parse_tuple k depth (out @ [v]) src))"
  by pat_completeness auto
termination
  by (relation "measure (\<lambda>x. case x of Inl (k, _) \<Rightarrow> 2 * k + 1 | Inr (k, _) \<Rightarrow> 2 * k)") auto

section \<open>Responses\<close>

definition wrap_error :: "bytes option \<Rightarrow> pyexc \<Rightarrow> pyexc" where
  \<comment> \<open>the handlers of \<open>gen_parsed_response\<close>; \<open>token\<close> is interpolated into a text message\<close>
  "wrap_error token e = (case e of
      ValueError m \<Rightarrow> (case token of
          Some t \<Rightarrow> if is_ascii t then ParseError m else UnicodeError ''ordinal not in range(128)''
        | None \<Rightarrow> ParseError m)
    | UnicodeError m \<Rightarrow> (case token of
          Some t \<Rightarrow> if is_ascii t then ParseError m else UnicodeError ''ordinal not in range(128)''
        | None \<Rightarrow> ParseError m)
    | _ \<Rightarrow> e)"

fun gen_loop :: "nat \<Rightarrow> nat \<Rightarrow> bytes option \<Rightarrow> tstream \<Rightarrow> imapval list \<times> pyexc option" where
  "gen_loop 0 depth cur src = ([], Some OUT_OF_FUEL)"
| "gen_loop (Suc k) depth cur ([], err) = ([], map_option (wrap_error cur) err)"
| "gen_loop (Suc k) depth cur ((token, lit) # ts, err) =
     (case atom k depth (token, lit) (ts, err) of
        Inl e \<Rightarrow> ([], Some (wrap_error (Some token) e))
      | Inr (v, src) \<Rightarrow>
          (case gen_loop k depth (Some token) src of (vs, e) \<Rightarrow> (v # vs, e)))"

definition gen_parsed_response :: "nat \<Rightarrow> resp_record list \<Rightarrow> imapval list \<times> pyexc option" where
  "gen_parsed_response depth text =
     (if text = [] then ([], None)
      else let src = lexer text in gen_loop (Suc (length (fst src))) depth None src)"

definition collect :: "imapval list \<times> pyexc option \<Rightarrow> pyexc + imapval list" where
  \<comment> \<open>\<open>tuple(generator)\<close>\<close>
  "collect r = (case r of (vs, None) \<Rightarrow> Inr vs | (vs, Some e) \<Rightarrow> Inl e)"

definition parse_response :: "nat \<Rightarrow> resp_record list option \<Rightarrow> pyexc + imapval list" where
  \<comment> \<open>\<open>None\<close> stands for the argument \<open>[None]\<close>\<close>
  "parse_response depth data = (case data of
      None \<Rightarrow> Inr []
    | Some text \<Rightarrow> collect (gen_parsed_response depth text))"

section \<open>Message lists\<close>

record search_ids =
  si_ids :: "int list"
  si_modseq :: "imapval option"

definition digits_at :: "bytes \<Rightarrow> bytes" where
  "digits_at s = takeWhile is_digit s"

function id_groups :: "bytes \<Rightarrow> bytes list \<times> bytes" where
  \<comment> \<open>\<open>(?: +\d+)*\<close>: the groups of digits matched, and what is left\<close>
  "id_groups s =
     (let r = dropWhile (\<lambda>c. c = CHR '' '') s; d = digits_at r in
      if r = s \<or> d = [] then ([], s)
      else (case id_groups (drop (length d) r) of (ds, t) \<Rightarrow> (d # ds, t)))"
  by pat_completeness auto
termination
proof (relation "measure length")
  fix s r d :: bytes
  assume a: "r = dropWhile (\<lambda>c. c = CHR '' '') s" "d = digits_at r" "\<not> (r = s \<or> d = [])"
  then have "length r \<le> length s" by (simp add: length_dropWhile_le)
  moreover from a(3) have "d \<noteq> []" by simp
  moreover with a(2) have "r \<noteq> []" by (cases "r = []") (simp_all add: digits_at_def)
  ultimately show "(drop (length d) r, s) \<in> measure length" by (cases r; cases d) simp_all
qed simp

declare id_groups.simps [simp del]

definition msg_id_pattern :: "bytes \<Rightarrow> (bytes list \<times> bytes) option" where
  \<comment> \<open>\<open>re.compile("(\d+(?: +\d+)*)").match\<close>: the numbers of the group and the text after it\<close>
  "msg_id_pattern s =
     (let d = digits_at s in
      if d = [] then None
      else (case id_groups (drop (length d) s) of (ds, t) \<Rightarrow> Some (d # ds, t)))"

fun extra_items :: "int \<Rightarrow> imapval list \<Rightarrow> search_ids \<Rightarrow> pyexc + search_ids" where
  "extra_items maxint [] ids = Inr ids"
| "extra_items maxint (item # items) ids =
     sbind (case item of
         ITuple [a, b] \<Rightarrow>
           (case a of
              IBytes w \<Rightarrow> Inr (if py_lower w = ''modseq'' then ids\<lparr>si_modseq := Some b\<rparr> else ids)
            | _ \<Rightarrow> Inl (AttributeError ''lower''))
       | IInt n \<Rightarrow> Inr (if n \<le> maxint then ids\<lparr>si_ids := si_ids ids @ [n]\<rparr> else ids)
       | _ \<Rightarrow> Inr ids) (extra_items maxint items)"

definition parse_message_list :: "int \<Rightarrow> nat \<Rightarrow> bytes option list \<Rightarrow> pyexc + search_ids" where
  \<comment> \<open>\<open>maxint\<close> is \<open>sys.maxint\<close>: a larger number is a \<open>long\<close>, not an \<open>int\<close>; \<open>None\<close> is false\<close>
  "parse_message_list maxint depth data =
     (case data of
        [Some d] \<Rightarrow>
          if d = [] then Inr \<lparr>si_ids = [], si_modseq = None\<rparr>
          else (case msg_id_pattern d of
              None \<Rightarrow> Inl (ValueError ''unexpected message list format'')
            | Some (ns, extra) \<Rightarrow>
                let ids = \<lparr>si_ids = map (\<lambda>n. int (dec_value n 0)) ns, si_modseq = None\<rparr> in
                if extra = [] then Inr ids
                else if \<not> is_ascii extra then Inl (UnicodeError ''ordinal not in range(128)'')
                else sbind (parse_response depth (Some [Line extra])) (\<lambda>items.
                     extra_items maxint items ids))
      | [None] \<Rightarrow> Inr \<lparr>si_ids = [], si_modseq = None\<rparr>
      | _ \<Rightarrow> Inl (ValueError ''unexpected message list data''))"

section \<open>The fuel is enough\<close>

lemmas fuel_defs = OUT_OF_FUEL_def TOO_DEEP_def

lemma int_of_bytes_error: "int_of_bytes s = Inl e \<Longrightarrow> e = ValueError ''invalid literal for int()''"
  by (auto simp: int_of_bytes_def Let_def split: prod.splits if_splits)

lemma leaf_atom_error:
  "leaf_atom lit t = Inl e \<Longrightarrow> (\<exists>m. e = ValueError m) \<or> (\<exists>m. e = ParseError m)"
  by (auto simp: leaf_atom_def outcome dest: int_of_bytes_error split: if_splits option.splits)

lemma incomplete_error: "(\<exists>m. incomplete out = UnicodeError m) \<or> (\<exists>m. incomplete out = ParseError m)"
  by simp

declare incomplete.simps [simp del]

text \<open>
  What a call returns: the errors it can raise itself, and how much of the stream it consumes.
  \<open>err\<close> is the exception the stream ends in.
\<close>

definition parse_error :: "pyexc option \<Rightarrow> pyexc \<Rightarrow> bool" where
  "parse_error err e \<longleftrightarrow> err = Some e \<or> e = TOO_DEEP
     \<or> (\<exists>m. e = ValueError m \<or> e = ParseError m \<or> e = UnicodeError m)"

lemma parse_error_intros:
  "parse_error err (incomplete out)" "parse_error (Some e) e" "parse_error err TOO_DEEP"
  "leaf_atom lit t = Inl e \<Longrightarrow> parse_error err e"
  using incomplete_error[of out] leaf_atom_error[of lit t e] by (auto simp: parse_error_def)

lemma atom_parse_tuple_total:
  "length (fst src) < k \<Longrightarrow>
     (case atom k depth tok src of
        Inl e \<Rightarrow> parse_error (snd src) e
      | Inr (v, src') \<Rightarrow> length (fst src') \<le> length (fst src) \<and> snd src' = snd src)"
  "length (fst src) < k \<Longrightarrow>
     (case parse_tuple k depth out src of
        Inl e \<Rightarrow> parse_error (snd src) e
      | Inr (v, src') \<Rightarrow> length (fst src') < length (fst src) \<and> snd src' = snd src)"
proof (induction k depth tok src and k depth out src rule: atom_parse_tuple.induct)
  case (1 k depth token lit src)
  show ?case
  proof (cases "token = ''(''")
    case True
    show ?thesis
    proof (cases depth)
      case 0
      with True show ?thesis by (simp add: parse_error_intros)
    next
      case (Suc d)
      from "1.IH"[OF True Suc "1.prems"] show ?thesis
        by (simp add: True Suc split: sum.splits) auto
    qed
  next
    case False
    then show ?thesis by (cases "leaf_atom lit token") (auto intro: parse_error_intros)
  qed
next
  case (3 k depth out err)
  then show ?case by (cases err) (simp_all add: parse_error_intros)
next
  case (4 k depth out token lit ts err)
  show ?case
  proof (cases "token = '')''")
    case False
    have "length (fst (ts, err)) < k" using "4.prems" by simp
    note A = "4.IH"(1)[OF False this]
    show ?thesis
    proof (cases "atom k depth (token, lit) (ts, err)")
      case (Inl e)
      with A False show ?thesis by simp
    next
      case (Inr x)
      obtain v src where x: "x = (v, src)" by (cases x)
      with A Inr have l: "length (fst src) \<le> length ts" "snd src = err" by simp_all
      then have "length (fst src) < k" using "4.prems" by simp
      from "4.IH"(2)[OF False this, of v] l False show ?thesis
        by (auto simp: Inr x simp del: atom.simps split: sum.splits)
    qed
  qed simp
qed simp_all

lemma until_error: "until e esc token cs = Inl x \<Longrightarrow> x = ValueError ''No closing''"
  by (induction e esc token cs rule: until.induct) (auto split: if_splits list.splits)

lemma word_error: "word token cs = Inl x \<Longrightarrow> (\<exists>m. x = ValueError m) \<or> (\<exists>m. x = AssertionError m)"
proof (induction token cs rule: word.induct)
  case (2 token c cs)
  show ?case
  proof (cases "\<not> NON_SPECIALS c \<and> c = OPEN_SQUARE")
    case True
    then have no: "\<not> NON_SPECIALS OPEN_SQUARE" "c = OPEN_SQUARE" by auto
    show ?thesis
    proof (cases "until CLOSE_SQUARE False [] cs")
      case (Inl e)
      with no show ?thesis using 2(3) until_error[OF Inl] by auto
    next
      case (Inr y)
      obtain u es where "y = (u, es)" by (cases y)
      with Inr have u: "until CLOSE_SQUARE False [] cs = Inr (u, es)" by simp
      with no 2(3) have "word (token @ [c] @ u) es = Inl x" by simp
      from 2(2)[OF _ _ u refl this] no show ?thesis by blast
    qed
  next
    case False
    note no = this
    show ?thesis
    proof (cases "NON_SPECIALS c")
      case True
      with 2(1,3) show ?thesis by simp
    next
      case False
      with no 2(3) have "x = AssertionError ''not token'' \<or> until c True [] cs = Inl x"
        by (auto split: if_splits simp: sbind_Inl_iff)
      then show ?thesis by (auto dest: until_error)
    qed
  qed
qed simp

lemma scan_error: "snd (scan cs) = Some x \<Longrightarrow> (\<exists>m. x = ValueError m) \<or> (\<exists>m. x = AssertionError m)"
proof (induction cs rule: scan.induct)
  case (1 cs)
  show ?case
  proof (cases "word [] (dropWhile (\<lambda>c. c \<in> WHITESPACE) cs)")
    case (Inl e)
    with 1(2) word_error[OF Inl] show ?thesis by (subst (asm) scan.simps) auto
  next
    case (Inr y)
    obtain ts so where y: "y = (ts, so)" by (cases y)
    show ?thesis
    proof (cases so)
      case None
      with 1(2) Inr y show ?thesis by (subst (asm) scan.simps) simp
    next
      case (Some ds)
      with 1(2) Inr y have "snd (scan ds) = Some x"
        by (subst (asm) scan.simps) (simp split: prod.splits)
      from 1(1)[OF Inr y[symmetric] Some this] show ?thesis .
    qed
  qed
qed

lemma lexer_error: "snd (lexer rs) = Some x \<Longrightarrow> (\<exists>m. x = ValueError m) \<or> (\<exists>m. x = AssertionError m)"
proof (induction rs)
  case (Cons r rs)
  show ?case
  proof (cases "LiteralHandlingIter r")
    case (Inl e)
    with Cons.prems show ?thesis by (auto simp: LiteralHandlingIter_def split: resp_record.splits if_splits)
  next
    case (Inr y)
    obtain s l where y: "y = (s, l)" by (cases y)
    obtain ts o1 where sc: "scan s = (ts, o1)" by (cases "scan s")
    have rt: "read_token_stream (pi_init s) = (ts, o1)"
      using sc by (simp add: read_token_stream_scan pi_rest_def pi_init_def)
    show ?thesis
      using Cons scan_error[of s] sc Inr y rt by (cases o1) (auto split: prod.splits)
  qed
qed simp

definition response_error :: "pyexc \<Rightarrow> bool" where
  "response_error e \<longleftrightarrow> e = TOO_DEEP
     \<or> (\<exists>m. e = ParseError m \<or> e = UnicodeError m \<or> e = AssertionError m)"

lemma wrap_error_class:
  assumes "parse_error err e"
    and "\<And>x. err = Some x \<Longrightarrow> (\<exists>m. x = ValueError m) \<or> (\<exists>m. x = AssertionError m)"
  shows "response_error (wrap_error cur e)"
proof -
  have "e = TOO_DEEP \<or> (\<exists>m. e = ValueError m \<or> e = ParseError m \<or> e = UnicodeError m \<or> e = AssertionError m)"
    using assms by (auto simp: parse_error_def)
  then show ?thesis
    by (cases cur; cases "is_ascii (the cur)")
       (auto simp: wrap_error_def response_error_def TOO_DEEP_def)
qed

lemma gen_loop_error:
  assumes "length (fst src) < k" and "snd (gen_loop k depth cur src) = Some e"
    and "\<And>x. snd src = Some x \<Longrightarrow> (\<exists>m. x = ValueError m) \<or> (\<exists>m. x = AssertionError m)"
  shows "response_error e"
  using assms
proof (induction k depth cur src rule: gen_loop.induct)
  case (2 k depth cur err)
  then show ?case by (auto intro!: wrap_error_class[of err] simp: parse_error_def)
next
  case (3 k depth cur token lit ts err)
  have l: "length (fst (ts, err)) < k" using "3.prems"(1) by simp
  note A = atom_parse_tuple_total(1)[OF l, of depth "(token, lit)"]
  show ?case
  proof (cases "atom k depth (token, lit) (ts, err)")
    case (Inl x)
    then have "e = wrap_error (Some token) x" using "3.prems"(2) by simp
    with A Inl "3.prems"(3) show ?thesis by (auto intro!: wrap_error_class[of err])
  next
    case (Inr y)
    obtain v src where y: "y = (v, src)" by (cases y)
    with A Inr have s: "length (fst src) \<le> length ts" "snd src = err" by simp_all
    have "snd (gen_loop k depth (Some token) src) = Some e"
      using "3.prems"(2) Inr y by (simp del: atom.simps split: prod.splits)
    with "3.IH"[OF Inr y[symmetric]] s "3.prems"(1,3) show ?thesis by auto
  qed
qed simp

lemma parse_response_error: "parse_response depth data = Inl e \<Longrightarrow> response_error e"
  using gen_loop_error[of "lexer (the data)" "Suc (length (fst (lexer (the data))))" depth None e] lexer_error
  by (auto simp: parse_response_def gen_parsed_response_def collect_def Let_def
      split: option.splits prod.splits if_splits)

section \<open>Printed responses\<close>

text \<open>
  A printed value: what a server sends for a value. The lexemes of a response, its records (a
  literal ends the record it is announced in), and the value that is meant.
\<close>

datatype shown = SNil | SNum nat | SAtom bytes | SQuoted bytes | SLiteral bytes | STuple "shown list"

fun value_of :: "shown \<Rightarrow> imapval" where
  "value_of SNil = INone"
| "value_of (SNum n) = IInt (int n)"
| "value_of (SAtom b) = IBytes b"
| "value_of (SQuoted b) = IBytes b"
| "value_of (SLiteral b) = IBytes b"
| "value_of (STuple vs) = ITuple (map value_of vs)"

fun nesting :: "shown \<Rightarrow> nat" where
  "nesting (STuple vs) = Suc (Max (insert 0 (nesting ` set vs)))"
| "nesting _ = 0"

definition plain_atom :: "bytes \<Rightarrow> bool" where
  "plain_atom w \<longleftrightarrow> w \<noteq> [] \<and> list_all NON_SPECIALS w \<and> w \<noteq> ''NIL'' \<and> hd w \<noteq> CHR 0x7B
     \<and> \<not> list_all is_digit w"

fun shown_ok :: "shown \<Rightarrow> bool" where
  "shown_ok (SAtom w) = plain_atom w"
| "shown_ok (STuple vs) = list_all shown_ok vs"
| "shown_ok _ = True"

datatype lexeme = LParen char | LSp | LWord bytes | LQuoted bytes | LLiteral bytes

fun with_spaces :: "lexeme list list \<Rightarrow> lexeme list" where
  "with_spaces [] = []"
| "with_spaces [x] = x"
| "with_spaces (x # xs) = x @ LSp # with_spaces xs"

fun lexemes :: "shown \<Rightarrow> lexeme list" where
  "lexemes SNil = [LWord ''NIL'']"
| "lexemes (SNum n) = [LWord (dec n)]"
| "lexemes (SAtom w) = [LWord w]"
| "lexemes (SQuoted b) = [LQuoted b]"
| "lexemes (SLiteral b) = [LLiteral b]"
| "lexemes (STuple vs) = LParen (CHR ''('') # with_spaces (map lexemes vs) @ [LParen (CHR '')'')]"

definition literal_mark :: "bytes \<Rightarrow> bytes" where
  "literal_mark l = [CHR 0x7B] @ dec (length l) @ [CHR 0x7D]"

fun lexeme_text :: "lexeme \<Rightarrow> bytes" where
  "lexeme_text (LParen p) = [p]"
| "lexeme_text LSp = '' ''"
| "lexeme_text (LWord w) = w"
| "lexeme_text (LQuoted b) = DOUBLE_QUOTE # escape_quotes b @ [DOUBLE_QUOTE]"
| "lexeme_text (LLiteral l) = literal_mark l"

fun records_of :: "bytes \<Rightarrow> lexeme list \<Rightarrow> resp_record list" where
  "records_of acc [] = [Line acc]"
| "records_of acc (LLiteral l # ls) = WithLiteral (acc @ literal_mark l) l # records_of [] ls"
| "records_of acc (x # ls) = records_of (acc @ lexeme_text x) ls"

text \<open>The tokens of the lexemes; words must be apart.\<close>

fun lexeme_token :: "lexeme \<Rightarrow> bytes" where
  "lexeme_token (LParen p) = [p]"
| "lexeme_token LSp = []"
| "lexeme_token (LWord w) = w"
| "lexeme_token (LQuoted b) = DOUBLE_QUOTE # b @ [DOUBLE_QUOTE]"
| "lexeme_token (LLiteral l) = literal_mark l"

definition no_space :: "lexeme list \<Rightarrow> lexeme list" where
  "no_space = filter (\<lambda>x. x \<noteq> LSp)"

fun delimited :: "lexeme list \<Rightarrow> bool" where
  "delimited [] = True"
| "delimited (LWord w # ls) =
     (w \<noteq> [] \<and> list_all NON_SPECIALS w \<and> delimited ls
      \<and> (case ls of [] \<Rightarrow> True | LParen p # _ \<Rightarrow> p \<in> {CHR ''('', CHR '')''} | LSp # _ \<Rightarrow> True | _ \<Rightarrow> False))"
| "delimited (LLiteral l # ls) = delimited ls"
| "delimited (LParen p # ls) = (p \<in> {CHR ''('', CHR '')''} \<and> delimited ls)"
| "delimited (LSp # ls) = delimited ls"
| "delimited (LQuoted b # ls) = delimited ls"

definition is_literal :: "lexeme \<Rightarrow> bool" where
  "is_literal x \<longleftrightarrow> (case x of LLiteral l \<Rightarrow> True | _ \<Rightarrow> False)"

lemma no_space_simps [simp]:
  "no_space [] = []"
  "no_space (x # ls) = (if x = LSp then no_space ls else x # no_space ls)"
  "no_space (as @ bs) = no_space as @ no_space bs"
  by (simp_all add: no_space_def)

lemma is_literal_simps [simp]:
  "is_literal (LLiteral l)" "\<not> is_literal (LParen p)" "\<not> is_literal LSp" "\<not> is_literal (LWord w)"
  "\<not> is_literal (LQuoted b)"
  by (simp_all add: is_literal_def)

lemma digit_word: "list_all is_digit w \<Longrightarrow> list_all NON_SPECIALS w"
proof -
  have "is_digit c \<Longrightarrow> NON_SPECIALS c" for c
    by (cases "c \<in> SPECIALS") (auto simp: is_digit_def NON_SPECIALS_def SPECIALS_def Let_def)
  then show "list_all is_digit w \<Longrightarrow> list_all NON_SPECIALS w" by (auto simp: list_all_iff)
qed

lemma literal_mark_word: "list_all NON_SPECIALS (literal_mark l)" "literal_mark l \<noteq> []"
  using digit_word[OF dec_digits(1)] by (auto simp: literal_mark_def NON_SPECIALS_def SPECIALS_def)

lemma scan_lexemes:
  "delimited ls \<Longrightarrow> list_all (\<lambda>x. \<not> is_literal x) ls \<Longrightarrow>
     scan (concat (map lexeme_text ls)) = (map lexeme_token (no_space ls), None)"
proof (induction ls rule: delimited.induct)
  case (2 w ls)
  note w = scan_plain[of w]
  from 2 have IH: "scan (concat (map lexeme_text ls)) = (map lexeme_token (no_space ls), None)"
    and ok: "list_all NON_SPECIALS w" "w \<noteq> []" by auto
  show ?case
  proof (cases ls)
    case Nil
    with ok w(1) show ?thesis by simp
  next
    case (Cons x rest)
    show ?thesis
    proof (cases x)
      case (LParen p)
      with 2(2) Cons have p: "p \<in> {CHR ''('', CHR '')''}" by simp
      from IH Cons LParen p scan_paren[of p "concat (map lexeme_text rest)"]
        w(3)[OF ok p, of "concat (map lexeme_text rest)"]
      show ?thesis by (auto split: prod.splits)
    next
      case LSp
      from IH Cons LSp scan_simps(2) w(2)[OF ok] show ?thesis by (simp split: prod.splits)
    qed (use 2 Cons in auto)
  qed
next
  case (4 p ls)
  then show ?case using scan_paren[of p "concat (map lexeme_text ls)"] by auto
next
  case 5
  then show ?case by (simp add: scan_simps)
next
  case (6 v ls)
  then show ?case using scan_quoted[of v] by simp
qed (simp_all add: scan_simps)

fun fits :: "token \<Rightarrow> lexeme \<Rightarrow> bool" where
  "fits (t, lit) x \<longleftrightarrow> t = lexeme_token x \<and> (\<forall>l. x = LLiteral l \<longrightarrow> lit = Some l)"

lemma fits_no_literal:
  "list_all (\<lambda>x. \<not> is_literal x) ls \<Longrightarrow> list_all2 fits (map (\<lambda>t. (t, lit)) (map lexeme_token ls)) ls"
  by (induction ls) auto

lemma delimited_literal:
  "delimited (pre @ LLiteral l # ls) \<Longrightarrow> delimited (pre @ [LWord (literal_mark l)]) \<and> delimited ls"
proof (induction pre rule: delimited.induct)
  case (2 w pre)
  then show ?case by (cases pre) (auto split: lexeme.splits)
qed (simp_all add: literal_mark_word)

lemma list_all_no_space: "list_all P ls \<Longrightarrow> list_all P (no_space ls)"
  by (simp add: no_space_def list_all_iff)

lemma lexer_records:
  "delimited (pre @ ls) \<Longrightarrow> list_all (\<lambda>x. \<not> is_literal x) pre \<Longrightarrow>
     \<exists>ts. lexer (records_of (concat (map lexeme_text pre)) ls) = (ts, None)
        \<and> list_all2 fits ts (no_space (pre @ ls))"
proof (induction ls arbitrary: pre)
  case Nil
  then show ?case
    using scan_lexemes[of pre] fits_no_literal[OF list_all_no_space, of pre None]
    by (simp add: lexer_Line comp_def del: lexer.simps(2))
next
  case (Cons x ls)
  show ?case
  proof (cases "is_literal x")
    case True
    then obtain l where x: "x = LLiteral l" by (auto simp: is_literal_def split: lexeme.splits)
    let ?pre = "pre @ [LWord (literal_mark l)]"
    from delimited_literal Cons.prems x have d: "delimited ?pre" "delimited ls" by blast+
    have sc: "scan (concat (map lexeme_text pre) @ literal_mark l) = (map lexeme_token (no_space ?pre), None)"
      using scan_lexemes[OF d(1)] Cons.prems(2) by simp
    have e: "ends_with [CHR 0x7D] (concat (map lexeme_text pre) @ literal_mark l)"
      by (simp add: ends_with_def literal_mark_def)
    from Cons.IH[of "[]"] d(2) obtain ts where ts: "lexer (records_of [] ls) = (ts, None)"
      "list_all2 fits ts (no_space ls)" by auto
    have "list_all2 fits (map (\<lambda>t. (t, Some l)) (map lexeme_token (no_space pre))) (no_space pre)"
      using Cons.prems(2) by (intro fits_no_literal list_all_no_space)
    with ts sc e show ?thesis
      by (simp add: x lexer_WithLiteral list_all2_appendI comp_def del: lexer.simps(2))
  next
    case False
    have "records_of acc (x # ls) = records_of (acc @ lexeme_text x) ls" for acc
      using False by (cases x) simp_all
    with Cons.IH[of "pre @ [x]"] Cons.prems False show ?thesis by simp
  qed
qed

lemma no_space_with_spaces: "no_space (with_spaces xs) = concat (map no_space xs)"
  by (induction xs rule: with_spaces.induct) simp_all

section \<open>Parsing what was printed\<close>

lemma int_of_bytes_dec [simp]: "int_of_bytes (dec n) = Inr (int n)"
proof -
  have d: "list_all is_digit (dec n)" "dec n \<noteq> []" by (rule dec_digits)+
  then have "is_digit (hd (dec n))" "is_digit (last (dec n))" by (auto simp: list_all_iff)
  moreover have ns: "is_digit c \<Longrightarrow> \<not> is_space c \<and> c \<noteq> CHR ''-'' \<and> c \<noteq> CHR ''+''" for c
    by (auto simp: is_digit_def is_space_def Let_def)
  ultimately have "py_strip (dec n) = dec n" by (simp add: py_strip_def strip_by_none)
  moreover obtain c r where "dec n = c # r" "is_digit c" using d by (cases "dec n") auto
  moreover from this(1) have "dec_value (c # r) 0 = n" by (metis dec_value_dec)
  ultimately show ?thesis using d ns[of c] by (auto simp: int_of_bytes_def Let_def)
qed

lemma leaf_tokens:
  "leaf_atom lit ''NIL'' = Inr INone"
  "leaf_atom lit (dec n) = Inr (IInt (int n))"
  "plain_atom w \<Longrightarrow> leaf_atom lit w = Inr (IBytes w)"
  "leaf_atom lit (DOUBLE_QUOTE # b @ [DOUBLE_QUOTE]) = Inr (IBytes b)"
  "leaf_atom (Some l) (literal_mark l) = Inr (IBytes l)"
proof -
  show "leaf_atom lit ''NIL'' = Inr INone" by (simp add: leaf_atom_def)
  obtain c r where c: "dec n = c # r" "is_digit c" using dec_digits[of n] by (cases "dec n") auto
  then have "c \<noteq> CHR ''N''" "c \<noteq> CHR 0x7B" "c \<noteq> CHR 0x22" by (auto simp: is_digit_def Let_def)
  moreover from c(1) have "dec_value (c # r) 0 = n" by (metis dec_value_dec)
  ultimately show "leaf_atom lit (dec n) = Inr (IInt (int n))"
    using c dec_digits[of n] by (auto simp: leaf_atom_def)
  show "leaf_atom lit w = Inr (IBytes w)" if "plain_atom w"
  proof -
    obtain c r where c: "w = c # r" using \<open>plain_atom w\<close> by (cases w) (auto simp: plain_atom_def)
    then have "c \<noteq> CHR 0x22" using that by (auto simp: plain_atom_def NON_SPECIALS_def SPECIALS_def)
    with c that show ?thesis by (auto simp: leaf_atom_def plain_atom_def)
  qed
  show "leaf_atom lit (DOUBLE_QUOTE # b @ [DOUBLE_QUOTE]) = Inr (IBytes b)"
    by (simp add: leaf_atom_def DOUBLE_QUOTE_def)
  show "leaf_atom (Some l) (literal_mark l) = Inr (IBytes l)"
    by (simp add: leaf_atom_def literal_mark_def)
qed

definition prints :: "shown \<Rightarrow> bool" where
  \<comment> \<open>from a stream that starts with the tokens of the value, \<open>atom\<close> reads just these\<close>
  "prints v \<longleftrightarrow> (\<forall>ts k depth rest err.
     list_all2 fits ts (no_space (lexemes v)) \<longrightarrow> nesting v \<le> depth \<longrightarrow> length ts + length rest \<le> Suc k \<longrightarrow>
     (\<exists>tok us. ts = tok # us \<and> fst tok \<noteq> '')'' \<and> atom k depth tok (us @ rest, err) = Inr (value_of v, (rest, err))))"

lemma prints_leaf:
  assumes "no_space (lexemes v) = [x]" and "lexeme_token x \<noteq> ''(''" and "lexeme_token x \<noteq> '')''"
    and "\<And>lit. fits (lexeme_token x, lit) x \<Longrightarrow> leaf_atom lit (lexeme_token x) = Inr (value_of v)"
  shows "prints v"
  unfolding prints_def
proof (intro allI impI)
  fix ts k depth rest and err :: "pyexc option"
  assume "list_all2 fits ts (no_space (lexemes v))"
  then obtain lit where "ts = [(lexeme_token x, lit)]" "fits (lexeme_token x, lit) x"
    using assms(1) by (auto simp: list_all2_Cons2)
  with assms(2-4) show "\<exists>tok us. ts = tok # us \<and> fst tok \<noteq> '')''
      \<and> atom k depth tok (us @ rest, err) = Inr (value_of v, (rest, err))" by auto
qed

lemma parse_tuple_prints:
  assumes "\<forall>v\<in>set vs. prints v \<and> nesting v \<le> depth"
    and "list_all2 fits ts (concat (map (no_space \<circ> lexemes) vs))"
    and "Suc (length ts + length rest) \<le> k"
  shows "parse_tuple k depth out (ts @ ('')'', lit) # rest, err)
    = Inr (ITuple (out @ map value_of vs), (rest, err))"
  using assms
proof (induction vs arbitrary: ts k out)
  case Nil
  then obtain j where "k = Suc j" by (cases k) auto
  with Nil show ?case by simp
next
  case (Cons v vs)
  from Cons.prems(2) obtain as bs where ab: "ts = as @ bs" "list_all2 fits as (no_space (lexemes v))"
    "list_all2 fits bs (concat (map (no_space \<circ> lexemes) vs))" by (auto simp: list_all2_append2 comp_def)
  obtain j where k: "k = Suc j" using Cons.prems(3) by (cases k) auto
  let ?rest = "bs @ ('')'', lit) # rest"
  have "prints v" "nesting v \<le> depth" "length as + length ?rest \<le> Suc j"
    using Cons.prems ab(1) k by auto
  with ab(2) obtain tok us where t: "as = tok # us" "fst tok \<noteq> '')''"
    "atom j depth tok (us @ ?rest, err) = Inr (value_of v, (?rest, err))"
    unfolding prints_def by blast
  obtain t l where tl: "tok = (t, l)" by (cases tok)
  have "Suc (length bs + length rest) \<le> j" using Cons.prems(3) ab(1) k t(1) by simp
  from Cons.IH[OF _ ab(3) this, of "out @ [value_of v]"] Cons.prems(1)
  have "parse_tuple j depth (out @ [value_of v]) (?rest, err)
    = Inr (ITuple (out @ map value_of (v # vs)), (rest, err))" by simp
  with t show ?case by (simp add: k ab(1) tl del: atom.simps)
qed

lemma shown_prints: "shown_ok v \<Longrightarrow> prints v"
proof (induction v)
  case SNil
  show ?case by (rule prints_leaf[where x = "LWord ''NIL''"]) (simp_all add: leaf_tokens)
next
  case (SNum n)
  have "dec n \<noteq> ''(''" "dec n \<noteq> '')''" using dec_digits(1)[of n] by (auto simp: is_digit_def)
  then show ?case by (intro prints_leaf[where x = "LWord (dec n)"]) (simp_all add: leaf_tokens)
next
  case (SAtom w)
  then have "w \<noteq> ''(''" "w \<noteq> '')''" by (auto simp: plain_atom_def NON_SPECIALS_def SPECIALS_def)
  with SAtom show ?case by (intro prints_leaf[where x = "LWord w"]) (simp_all add: leaf_tokens)
next
  case (SQuoted b)
  show ?case by (rule prints_leaf[where x = "LQuoted b"]) (simp_all add: leaf_tokens[unfolded DOUBLE_QUOTE_def] DOUBLE_QUOTE_def)
next
  case (SLiteral b)
  show ?case
    by (rule prints_leaf[where x = "LLiteral b"]) (auto simp: leaf_tokens, auto simp: literal_mark_def)
next
  case (STuple vs)
  show ?case
    unfolding prints_def
  proof (intro allI impI)
    fix ts rest :: "token list" and k depth and err :: "pyexc option"
    assume ts: "list_all2 fits ts (no_space (lexemes (STuple vs)))" and d: "nesting (STuple vs) \<le> depth"
      and k: "length ts + length rest \<le> Suc k"
    from ts obtain l1 us l2 where us: "ts = (''('', l1) # us @ [('')'', l2)]"
      "list_all2 fits us (concat (map (no_space \<circ> lexemes) vs))"
      by (auto simp: no_space_with_spaces list_all2_Cons2 list_all2_append2)
    from d obtain e where e: "depth = Suc e" "\<forall>v\<in>set vs. nesting v \<le> e"
      by (cases depth) auto
    have v: "\<forall>v\<in>set vs. prints v \<and> nesting v \<le> e" using STuple e by (auto simp: list_all_iff)
    show "\<exists>tok us. ts = tok # us \<and> fst tok \<noteq> '')''
        \<and> atom k depth tok (us @ rest, err) = Inr (value_of (STuple vs), (rest, err))"
      using parse_tuple_prints[OF v us(2)] us(1) e k by auto
  qed
qed

lemma lexemes_delimited:
  "shown_ok v \<Longrightarrow> delimited ls \<Longrightarrow>
     (case ls of [] \<Rightarrow> True | LParen p # _ \<Rightarrow> p \<in> {CHR ''('', CHR '')''} | LSp # _ \<Rightarrow> True | _ \<Rightarrow> False) \<Longrightarrow>
     delimited (lexemes v @ ls)"
proof (induction v arbitrary: ls)
  case (STuple vs)
  have "delimited (with_spaces (map lexemes vs) @ LParen (CHR '')'') # ls)"
    using STuple
  proof (induction vs rule: induct_list012)
    case (3 v w vs)
    then show ?case by simp
  qed simp_all
  then show ?case by simp
next
  case (SAtom w)
  then show ?case by (auto simp: plain_atom_def)
qed (simp_all add: digit_word[OF dec_digits(1)] dec_digits(2) NON_SPECIALS_def SPECIALS_def)

lemma with_spaces_delimited:
  "list_all shown_ok vs \<Longrightarrow> delimited (with_spaces (map lexemes vs))"
proof (induction vs rule: induct_list012)
  case (2 v)
  then show ?case using lexemes_delimited[of v "[]"] by simp
next
  case (3 v w vs)
  then show ?case by (simp add: lexemes_delimited)
qed simp

lemma gen_loop_prints:
  assumes "\<forall>v\<in>set vs. prints v \<and> nesting v \<le> depth"
    and "list_all2 fits ts (concat (map (no_space \<circ> lexemes) vs))" and "length ts < k"
  shows "gen_loop k depth cur (ts, None) = (map value_of vs, None)"
  using assms
proof (induction vs arbitrary: ts k cur)
  case Nil
  then obtain j where "k = Suc j" by (cases k) auto
  with Nil show ?case by simp
next
  case (Cons v vs)
  from Cons.prems(2) obtain as bs where ab: "ts = as @ bs" "list_all2 fits as (no_space (lexemes v))"
    "list_all2 fits bs (concat (map (no_space \<circ> lexemes) vs))" by (auto simp: list_all2_append2 comp_def)
  obtain j where k: "k = Suc j" using Cons.prems(3) by (cases k) auto
  have "prints v" "nesting v \<le> depth" "length as + length bs \<le> Suc j"
    using Cons.prems ab(1) k by auto
  with ab(2) obtain tok us where t: "as = tok # us"
    "atom j depth tok (us @ bs, None) = Inr (value_of v, (bs, None))"
    unfolding prints_def by blast
  obtain t l where tl: "tok = (t, l)" by (cases tok)
  have "length bs < j" using Cons.prems(3) ab(1) k t(1) by simp
  from Cons.IH[OF _ ab(3) this, of "Some t"] Cons.prems(1) t show ?case
    by (simp add: k ab(1) tl del: atom.simps)
qed

lemma parse_response_prints:
  assumes "list_all shown_ok vs" and "\<forall>v\<in>set vs. nesting v \<le> depth"
  shows "parse_response depth (Some (records_of [] (with_spaces (map lexemes vs)))) = Inr (map value_of vs)"
proof -
  let ?ls = "with_spaces (map lexemes vs)"
  from lexer_records[of "[]" ?ls] with_spaces_delimited[OF assms(1)] obtain ts
    where ts: "lexer (records_of [] ?ls) = (ts, None)" "list_all2 fits ts (no_space ?ls)" by auto
  have "records_of acc ls \<noteq> []" for acc ls by (induction acc ls rule: records_of.induct) simp_all
  moreover have "gen_loop (Suc (length ts)) depth None (ts, None) = (map value_of vs, None)"
    using assms ts(2) by (intro gen_loop_prints) (auto simp: list_all_iff shown_prints no_space_with_spaces)
  ultimately show ?thesis
    by (simp add: parse_response_def gen_parsed_response_def collect_def ts(1) Let_def)
qed

section \<open>Message lists that were printed\<close>

lemma digits_at_append:
  "list_all is_digit d \<Longrightarrow> r = [] \<or> \<not> is_digit (hd r) \<Longrightarrow> digits_at (d @ r) = d"
  by (induction d) (cases r; simp add: digits_at_def)+

lemma id_groups_dec:
  assumes "id_groups r = ([], r)" and "r = [] \<or> \<not> is_digit (hd r)"
  shows "id_groups (concat (map (\<lambda>n. CHR '' '' # dec n) ns) @ r) = (map dec ns, r)"
proof (induction ns)
  case Nil
  with assms(1) show ?case by simp
next
  case (Cons n ns)
  let ?X = "concat (map (\<lambda>n. CHR '' '' # dec n) ns) @ r"
  have X: "?X = [] \<or> \<not> is_digit (hd ?X)" using assms(2) by (cases ns) (auto simp: is_digit_def)
  obtain c t where c: "dec n = c # t" "is_digit c" using dec_digits[of n] by (cases "dec n") auto
  then have "c \<noteq> CHR '' ''" by (auto simp: is_digit_def)
  with c have d: "dropWhile (\<lambda>c. c = CHR '' '') (CHR '' '' # dec n @ ?X) = dec n @ ?X" by simp
  have "digits_at (dec n @ ?X) = dec n" using X dec_digits(1) by (rule digits_at_append[rotated])
  with Cons d dec_digits(2)[of n] show ?case
    by (subst id_groups.simps) (simp add: Let_def)
qed

lemma msg_id_pattern_dec:
  assumes "ns \<noteq> []" and "id_groups r = ([], r)" and "r = [] \<or> \<not> is_digit (hd r)"
  shows "msg_id_pattern (py_join '' '' (map dec ns) @ r) = Some (map dec ns, r)"
proof -
  obtain n ms where n: "ns = n # ms" using assms(1) by (cases ns) auto
  have "py_join '' '' (map dec (n # ms)) = dec n @ concat (map (\<lambda>n. CHR '' '' # dec n) ms)" for n
    by (induction ms arbitrary: n) simp_all
  with n have j: "py_join '' '' (map dec ns) @ r = dec n @ (concat (map (\<lambda>n. CHR '' '' # dec n) ms) @ r)"
    by simp
  let ?X = "concat (map (\<lambda>n. CHR '' '' # dec n) ms) @ r"
  have X: "?X = [] \<or> \<not> is_digit (hd ?X)" using assms(3) by (cases ms) (auto simp: is_digit_def)
  then have "digits_at (dec n @ ?X) = dec n" using dec_digits(1) by (rule digits_at_append[rotated])
  then show ?thesis
    using id_groups_dec[OF assms(2,3), of ms] dec_digits(2)[of n]
    by (simp only: msg_id_pattern_def j Let_def) (simp add: n)
qed

lemma parse_response_space: "parse_response depth (Some [Line (CHR '' '' # s)]) = parse_response depth (Some [Line s])"
  by (simp add: parse_response_def gen_parsed_response_def LiteralHandlingIter_def read_token_stream_scan
      pi_rest_def pi_init_def scan_simps)

lemma join_dec_ne: "ns \<noteq> [] \<Longrightarrow> py_join '' '' (map dec ns) \<noteq> []"
proof -
  assume "ns \<noteq> []"
  then obtain n ms where "ns = n # ms" by (cases ns) auto
  then show ?thesis using dec_digits(2)[of n] by (cases ms) simp_all
qed

lemma parse_message_list_ids:
  assumes "ns \<noteq> []"
  shows "parse_message_list maxint depth [Some (py_join '' '' (map dec ns))]
    = Inr \<lparr>si_ids = map int ns, si_modseq = None\<rparr>"
proof -
  have "id_groups [] = ([], [])" by (subst id_groups.simps) simp
  with msg_id_pattern_dec[OF assms, of "[]"] show ?thesis
    by (simp add: parse_message_list_def join_dec_ne[OF assms] comp_def)
qed

definition modseq_text :: "nat \<Rightarrow> bytes" where
  "modseq_text m = '' (MODSEQ '' @ dec m @ '')''"

lemma parse_message_list_modseq:
  assumes "ns \<noteq> []" and "0 < depth"
  shows "parse_message_list maxint depth [Some (py_join '' '' (map dec ns) @ modseq_text m)]
    = Inr \<lparr>si_ids = map int ns, si_modseq = Some (IInt (int m))\<rparr>"
proof -
  let ?v = "STuple [SAtom ''MODSEQ'', SNum m]"
  have ok: "plain_atom ''MODSEQ''" by (simp add: plain_atom_def NON_SPECIALS_def SPECIALS_def is_digit_def)
  then have "parse_response depth (Some (records_of [] (with_spaces (map lexemes [?v])))) = Inr (map value_of [?v])"
    using assms(2) by (intro parse_response_prints) simp_all
  then have p: "parse_response depth (Some [Line (modseq_text m)])
    = Inr [ITuple [IBytes ''MODSEQ'', IInt (int m)]]"
    by (simp add: modseq_text_def parse_response_space)
  have i: "id_groups (modseq_text m) = ([], modseq_text m)"
    by (subst id_groups.simps) (simp add: modseq_text_def digits_at_def is_digit_def)
  have asc: "is_ascii (modseq_text m)"
    using dec_digits(1)[of m] by (auto simp: modseq_text_def is_ascii_def is_digit_def list_all_iff Let_def)
  have "modseq_text m \<noteq> []" "\<not> is_digit (hd (modseq_text m))" by (simp_all add: modseq_text_def is_digit_def)
  with msg_id_pattern_dec[OF assms(1) i] p asc show ?thesis
    by (simp add: parse_message_list_def join_dec_ne[OF assms(1)] comp_def py_lower_def lower_char_def
        char_of_def bit_0)
qed

end
