(* ===== verification/ImapDate.thy ===== *)
theory ImapDate
  imports ImapParse
begin

text \<open>
  datetime_util.py and fixed_offset.py: time stamps of IMAP responses. A \<open>datetime\<close> is its
  fields and, when it is aware, the offset of its time zone in minutes. \<open>parsedate_tz\<close> of the
  standard library is a parameter; the settings of \<open>time\<close> that \<open>FixedOffset.for_system\<close> reads are
  a record. The lemmas show that normalising a time stamp keeps the instant it denotes.
\<close>

section \<open>Dates\<close>

record datetime =
  dt_year :: int
  dt_month :: int
  dt_day :: int
  dt_hour :: int
  dt_minute :: int
  dt_second :: int
  dt_tz :: "int option"

definition is_leap :: "int \<Rightarrow> bool" where
  "is_leap y \<longleftrightarrow> y mod 4 = 0 \<and> (y mod 100 \<noteq> 0 \<or> y mod 400 = 0)"

definition days_in_month :: "int \<Rightarrow> int \<Rightarrow> int" where
  "days_in_month y m =
     (if m = 2 then (if is_leap y then 29 else 28) else if m \<in> {4, 6, 9, 11} then 30 else 31)"

definition date_ok :: "datetime \<Rightarrow> bool" where
  "date_ok d \<longleftrightarrow> 1 \<le> dt_year d \<and> dt_year d \<le> 9999 \<and> 1 \<le> dt_month d \<and> dt_month d \<le> 12
     \<and> 1 \<le> dt_day d \<and> dt_day d \<le> days_in_month (dt_year d) (dt_month d)"

definition datetime_ok :: "datetime \<Rightarrow> bool" where
  "datetime_ok d \<longleftrightarrow> date_ok d \<and> 0 \<le> dt_hour d \<and> dt_hour d < 24 \<and> 0 \<le> dt_minute d \<and> dt_minute d < 60
     \<and> 0 \<le> dt_second d \<and> dt_second d < 60"

definition next_day :: "datetime \<Rightarrow> datetime" where
  "next_day d =
     (if dt_day d < days_in_month (dt_year d) (dt_month d) then d\<lparr>dt_day := dt_day d + 1\<rparr>
      else if dt_month d < 12 then d\<lparr>dt_month := dt_month d + 1, dt_day := 1\<rparr>
      else d\<lparr>dt_year := dt_year d + 1, dt_month := 1, dt_day := 1\<rparr>)"

definition prev_day :: "datetime \<Rightarrow> datetime" where
  "prev_day d =
     (if 1 < dt_day d then d\<lparr>dt_day := dt_day d - 1\<rparr>
      else if 1 < dt_month d then
        d\<lparr>dt_month := dt_month d - 1, dt_day := days_in_month (dt_year d) (dt_month d - 1)\<rparr>
      else d\<lparr>dt_year := dt_year d - 1, dt_month := 12, dt_day := 31\<rparr>)"

definition add_minutes :: "int \<Rightarrow> datetime \<Rightarrow> pyexc + datetime" where
  \<comment> \<open>\<open>dt + timedelta(minutes=m)\<close> for \<open>m\<close> of less than a day\<close>
  "add_minutes m d =
     (let total = dt_hour d * 60 + dt_minute d + m;
          e = (if total < 0 then prev_day d else if 1440 \<le> total then next_day d else d);
          e = e\<lparr>dt_hour := (total mod 1440) div 60, dt_minute := total mod 60\<rparr>
      in if date_ok e then Inr e else Inl (OverflowError ''date value out of range''))"

section \<open>Fixed offsets\<close>

definition two_digits :: "int \<Rightarrow> bytes" where
  \<comment> \<open>\<open>'%02d'\<close> of a number that is not negative\<close>
  "two_digits n = (if n < 10 then ''0'' else []) @ dec (nat n)"

definition FixedOffset_name :: "int \<Rightarrow> bytes" where
  "FixedOffset_name minutes =
     (if minutes < 0 then ''-'' else ''+'') @ two_digits (abs minutes div 60) @ two_digits (abs minutes mod 60)"

definition FixedOffset :: "int \<Rightarrow> pyexc + int" where
  \<comment> \<open>the offset; \<open>timedelta\<close> is limited to 999999999 days\<close>
  "FixedOffset minutes =
     (if 999999999 < abs (minutes div 1440) then Inl (OverflowError ''days out of range'') else Inr minutes)"

record system_time =
  tm_isdst :: int
  daylight :: int
  altzone :: int
  timezone :: int

definition for_system :: "system_time \<Rightarrow> pyexc + int" where
  "for_system sys =
     (let offset = (if tm_isdst sys \<noteq> 0 \<and> daylight sys \<noteq> 0 then altzone sys else timezone sys)
      in FixedOffset (- offset div 60))"

definition utcoffset :: "int \<Rightarrow> pyexc + int" where
  \<comment> \<open>the offset as \<open>astimezone\<close> asks for it: less than a day\<close>
  "utcoffset minutes =
     (if abs minutes < 1440 then Inr minutes else Inl (ValueError ''tzinfo.utcoffset() out of range''))"

definition datetime_to_native :: "system_time \<Rightarrow> datetime \<Rightarrow> pyexc + datetime" where
  \<comment> \<open>\<open>dt.astimezone(FixedOffset.for_system()).replace(tzinfo=None)\<close> of an aware \<open>dt\<close>\<close>
  "datetime_to_native sys dt =
     sbind (for_system sys) (\<lambda>local.
     sbind (utcoffset (the (dt_tz dt))) (\<lambda>off.
     sbind (add_minutes (- off) dt) (\<lambda>utc.
     sbind (utcoffset local) (\<lambda>loff.
     sbind (add_minutes loff utc) (\<lambda>d. Inr (d\<lparr>dt_tz := None\<rparr>))))))"

section \<open>Parsing time stamps\<close>

definition is_word :: "char \<Rightarrow> bool" where
  \<comment> \<open>\<open>\w\<close>\<close>
  "is_word c \<longleftrightarrow> is_digit c \<or> c = CHR ''_''
     \<or> (let n = of_char c :: nat in (65 \<le> n \<and> n \<le> 90) \<or> (97 \<le> n \<and> n \<le> 122))"

definition eat :: "(char \<Rightarrow> bool) \<Rightarrow> (nat \<Rightarrow> bool) \<Rightarrow> bytes option \<Rightarrow> bytes option" where
  \<comment> \<open>a maximal run of a class, of an allowed length\<close>
  "eat P lens s = (case s of
      Some t \<Rightarrow> if lens (length (takeWhile P t)) then Some (dropWhile P t) else None
    | None \<Rightarrow> None)"

definition eat_char :: "char \<Rightarrow> bytes option \<Rightarrow> bytes option" where
  "eat_char c s = (case s of Some (d # t) \<Rightarrow> if d = c then Some t else None | _ \<Rightarrow> None)"

definition rfc822_dotted_time :: "bytes \<Rightarrow> bool" where
  \<comment> \<open>\<open>"\w+, ?\d{1,2} \w+ \d\d(\d\d)? \d\d?\.\d\d?\.\d\d?.*"\<close>: what follows each run is of another
      class, so only maximal runs can match; the last run needs one digit\<close>
  "rfc822_dotted_time s =
     (let one_two = (\<lambda>n. n = 1 \<or> n = 2);
          s = eat_char (CHR '','') (eat is_word (\<lambda>n. 1 \<le> n) (Some s));
          s = (case s of Some (c # t) \<Rightarrow> if c = CHR '' '' then Some t else s | _ \<Rightarrow> s);
          s = eat_char (CHR '' '') (eat is_digit one_two s);
          s = eat_char (CHR '' '') (eat is_word (\<lambda>n. 1 \<le> n) s);
          s = eat_char (CHR '' '') (eat is_digit (\<lambda>n. n = 2 \<or> n = 4) s);
          s = eat_char (CHR ''.'') (eat is_digit one_two s);
          s = eat_char (CHR ''.'') (eat is_digit one_two s)
      in eat is_digit (\<lambda>n. 1 \<le> n) s \<noteq> None)"

definition munge :: "imapval \<Rightarrow> pyexc + bytes" where
  "munge s = (case s of
      IBytes b \<Rightarrow> Inr (if rfc822_dotted_time b then replace_char (CHR ''.'') (CHR '':'') b else b)
    | _ \<Rightarrow> Inl (AttributeError ''decode''))"

type_synonym time_tuple = "(int \<times> int \<times> int \<times> int \<times> int \<times> int) \<times> int option"
type_synonym date_parser = "bytes \<Rightarrow> pyexc + time_tuple option"

definition new_datetime :: "int \<times> int \<times> int \<times> int \<times> int \<times> int \<Rightarrow> int option \<Rightarrow> pyexc + datetime" where
  "new_datetime f tz =
     (case f of (y, m, d, h, mi, s) \<Rightarrow>
        let dt = \<lparr>dt_year = y, dt_month = m, dt_day = d, dt_hour = h, dt_minute = mi, dt_second = s,
                  dt_tz = tz\<rparr>
        in if datetime_ok dt then Inr dt else Inl (ValueError ''datetime field out of range''))"

definition parse_to_datetime :: "date_parser \<Rightarrow> system_time \<Rightarrow> imapval \<Rightarrow> bool \<Rightarrow> pyexc + datetime" where
  "parse_to_datetime parsedate_tz sys timestamp normalise =
     sbind (munge timestamp) (\<lambda>s.
     sbind (parsedate_tz s) (\<lambda>r. case r of
        None \<Rightarrow> Inl (ValueError ''could not parse datetime'')
      | Some (ymdhms, tz_offset_seconds) \<Rightarrow>
          sbind (case tz_offset_seconds of
                   None \<Rightarrow> Inr None
                 | Some secs \<Rightarrow> sbind (FixedOffset (secs div 60)) (\<lambda>tz. Inr (Some tz))) (\<lambda>tz.
          sbind (new_datetime ymdhms tz) (\<lambda>dt.
          if normalise \<and> tz \<noteq> None then datetime_to_native sys dt else Inr dt))))"

definition SHORT_MONTHS :: "string list" where
  "SHORT_MONTHS = [[], ''Jan'', ''Feb'', ''Mar'', ''Apr'', ''May'', ''Jun'', ''Jul'', ''Aug'', ''Sep'',
     ''Oct'', ''Nov'', ''Dec'']"

definition format_criteria_date :: "datetime \<Rightarrow> bytes" where
  "format_criteria_date dt =
     two_digits (dt_day dt) @ ''-'' @ SHORT_MONTHS ! nat (dt_month dt) @ ''-'' @ dec (nat (dt_year dt))"

definition datetime_to_INTERNALDATE :: "system_time \<Rightarrow> datetime \<Rightarrow> pyexc + bytes" where
  \<comment> \<open>\<open>strftime("%d-%b-%Y %H:%M:%S %z")\<close>, which refuses years before 1900\<close>
  "datetime_to_INTERNALDATE sys dt =
     sbind (case dt_tz dt of Some m \<Rightarrow> Inr m | None \<Rightarrow> for_system sys) (\<lambda>m.
       if dt_year dt < 1900 then Inl (ValueError ''year is before 1900'')
       else sbind (utcoffset m) (\<lambda>m. Inr (two_digits (dt_day dt) @ ''-'' @ SHORT_MONTHS ! nat (dt_month dt) @ ''-'' @ dec (nat (dt_year dt))
         @ '' '' @ two_digits (dt_hour dt) @ '':'' @ two_digits (dt_minute dt) @ '':'' @ two_digits (dt_second dt)
         @ '' '' @ FixedOffset_name m)))"

section \<open>Normalising keeps the instant\<close>

definition days_before_month :: "int \<Rightarrow> int \<Rightarrow> int" where
  "days_before_month y m = (\<Sum>i \<in> {1..<m}. days_in_month y i)"

definition days_before_year :: "int \<Rightarrow> int" where
  "days_before_year y = (y - 1) * 365 + (y - 1) div 4 - (y - 1) div 100 + (y - 1) div 400"

definition ordinal :: "datetime \<Rightarrow> int" where
  "ordinal d = days_before_year (dt_year d) + days_before_month (dt_year d) (dt_month d) + dt_day d"

definition minute_count :: "datetime \<Rightarrow> int" where
  "minute_count d = ordinal d * 1440 + dt_hour d * 60 + dt_minute d"

lemma days_before_year_Suc: "days_before_year (y + 1) = days_before_year y + (if is_leap y then 366 else 365)"
proof -
  have step: "(y - 1) div k = y div k - (if y mod k = 0 then 1 else 0)" if "0 < k" for k :: int
  proof (cases "y mod k = 0")
    case True
    have "y - 1 = k * (y div k - 1) + (k - 1)" using True by (simp add: algebra_simps mod_0_imp_dvd)
    then have "(y - 1) div k = y div k - 1" by (rule int_div_pos_eq) (use that in auto)
    with True show ?thesis by simp
  next
    case False
    have "0 \<le> y mod k" "y mod k < k" using that by simp_all
    moreover have "y - 1 = k * (y div k) + (y mod k - 1)" by simp
    then have "(y - 1) div k = y div k" by (rule int_div_pos_eq) (use False calculation in auto)
    with False show ?thesis by simp
  qed
  have m: "y mod 4 = 0" if "y mod 100 = 0 \<or> y mod 400 = 0"
    using that by presburger
  have n: "y mod 100 = 0" if "y mod 400 = 0" using that by presburger
  show ?thesis
    using m n by (auto simp: days_before_year_def is_leap_def step)
qed

lemma days_before_month_Suc:
  "1 \<le> m \<Longrightarrow> days_before_month y (m + 1) = days_before_month y m + days_in_month y m"
proof -
  assume "1 \<le> m"
  then have "{1..<m + 1} = insert m {1..<m}" by auto
  then show ?thesis by (simp add: days_before_month_def)
qed

lemma days_before_month_13: "days_before_month y 13 = (if is_leap y then 366 else 365)"
proof -
  have "{1..<13} = {1, 2, 3, 4, 5, 6, 7, 8, 9, 10, 11, 12::int}" by (auto; presburger)
  then show ?thesis by (simp add: days_before_month_def days_in_month_def)
qed

lemma ordinal_next_day: "date_ok d \<Longrightarrow> ordinal (next_day d) = ordinal d + 1"
proof -
  assume d: "date_ok d"
  have m: "1 \<le> dt_month d" "dt_month d \<le> 12" using d by (simp_all add: date_ok_def)
  consider "dt_day d < days_in_month (dt_year d) (dt_month d)"
    | "dt_day d = days_in_month (dt_year d) (dt_month d)" "dt_month d < 12"
    | "dt_day d = days_in_month (dt_year d) (dt_month d)" "dt_month d = 12"
    using d by (fastforce simp: date_ok_def)
  then show ?thesis
  proof cases
    case 2
    then show ?thesis using days_before_month_Suc[OF m(1)] by (simp add: next_day_def ordinal_def)
  next
    case 3
    have "days_before_month y 1 = 0" for y by (simp add: days_before_month_def)
    moreover have "days_before_month (dt_year d) 13 = days_before_month (dt_year d) 12 + dt_day d"
      using days_before_month_Suc[of 12 "dt_year d"] 3 by simp
    ultimately show ?thesis
      using 3 days_before_year_Suc[of "dt_year d"]
      by (simp add: next_day_def ordinal_def days_before_month_13)
  qed (simp add: next_day_def ordinal_def)
qed

lemma next_prev_day: "date_ok d \<Longrightarrow> next_day (prev_day d) = d"
proof -
  assume d: "date_ok d"
  have e: "dt_day d = 1 \<or> 1 < dt_day d" "dt_month d = 1 \<or> 1 < dt_month d"
    "dt_day d \<le> days_in_month (dt_year d) (dt_month d)" "dt_month d \<le> 12"
    using d by (auto simp: date_ok_def)
  then show ?thesis
    by (cases d) (auto simp: prev_day_def next_day_def days_in_month_def)
qed

lemma prev_day_ok:
  "date_ok d \<Longrightarrow> 1 \<le> dt_year (prev_day d) \<Longrightarrow> date_ok (prev_day d)"
  by (auto simp: date_ok_def prev_day_def days_in_month_def split: if_splits)

lemma date_ok_more: "date_ok (d\<lparr>dt_hour := h, dt_minute := mi\<rparr>) = date_ok d"
  by (simp add: date_ok_def)

lemma ordinal_more: "ordinal (d\<lparr>dt_hour := h, dt_minute := mi\<rparr>) = ordinal d"
  by (simp add: ordinal_def)

lemma add_minutes_count:
  assumes "add_minutes m d = Inr e" and "datetime_ok d" and "abs m < 1440"
  shows "minute_count e = minute_count d + m \<and> datetime_ok e \<and> dt_second e = dt_second d"
proof -
  define total where "total = dt_hour d * 60 + dt_minute d + m"
  define f where "f = (if total < 0 then prev_day d else if 1440 \<le> total then next_day d else d)"
  from assms(1) have e: "e = f\<lparr>dt_hour := (total mod 1440) div 60, dt_minute := total mod 60\<rparr>" "date_ok f"
    by (auto simp: add_minutes_def Let_def total_def f_def date_ok_more split: if_splits)
  have r: "-1440 < total" "total < 2 * 1440" "date_ok d" using assms(2,3) by (auto simp: total_def datetime_ok_def)
  have "ordinal f * 1440 = ordinal d * 1440 + (if total < 0 then -1440 else if 1440 \<le> total then 1440 else 0)"
  proof (cases "total < 0")
    case True
    with e(2) have "date_ok (prev_day d)" by (simp add: f_def)
    from ordinal_next_day[OF this] next_prev_day[OF r(3)] True show ?thesis by (simp add: f_def)
  next
    case False
    with ordinal_next_day[OF r(3)] show ?thesis by (simp add: f_def)
  qed
  moreover have "(if total < 0 then -1440 else if 1440 \<le> total then 1440 else 0) = total - total mod 1440"
  proof -
    have "total mod 1440 = total + 1440" if "total < 0"
      using that r(1) mod_pos_pos_trivial[of "total + 1440" 1440] by simp
    moreover have "total mod 1440 = total - 1440" if "1440 \<le> total"
      using that r(2) mod_pos_pos_trivial[of "total - 1440" 1440] by (simp add: mod_diff_right_eq)
    ultimately show ?thesis by (auto simp: mod_pos_pos_trivial not_less)
  qed
  moreover have "(total mod 1440) div 60 * 60 + total mod 60 = total mod 1440"
    using div_mult_mod_eq[of "total mod 1440" 60] by (simp add: mod_mod_cancel)
  ultimately have "minute_count e = minute_count d + m"
    by (simp add: minute_count_def e(1) ordinal_more total_def)
  moreover have "dt_second f = dt_second d" by (simp add: f_def prev_day_def next_day_def)
  moreover have "r div 60 < 24 \<and> 0 \<le> r div 60" if "0 \<le> r" "r < 1440" for r :: int using that by auto
  from this[of "total mod 1440"] have "(total mod 1440) div 60 < 24" "0 \<le> (total mod 1440) div 60" by simp_all
  ultimately show ?thesis
    using assms(2) e by (simp add: datetime_ok_def date_ok_more)
qed

lemma datetime_to_native_count:
  assumes "datetime_to_native sys dt = Inr d" and "datetime_ok dt" and "dt_tz dt = Some off"
    and "for_system sys = Inr loff"
  shows "minute_count d - loff = minute_count dt - off \<and> dt_second d = dt_second dt \<and> datetime_ok d
    \<and> dt_tz d = None"
proof -
  from assms obtain u e where u: "add_minutes (- off) dt = Inr u" and e: "add_minutes loff u = Inr e"
    and d: "d = e\<lparr>dt_tz := None\<rparr>" and b: "abs off < 1440" "abs loff < 1440"
    by (auto simp: datetime_to_native_def outcome utcoffset_def split: if_splits)
  have U: "minute_count u = minute_count dt - off" "datetime_ok u" "dt_second u = dt_second dt"
    using add_minutes_count[OF u assms(2)] b by simp_all
  have "minute_count e = minute_count u + loff" "datetime_ok e" "dt_second e = dt_second u"
    using add_minutes_count[OF e U(2)] b by simp_all
  with U show ?thesis
    by (simp add: d minute_count_def ordinal_def datetime_ok_def date_ok_def)
qed



end
