(* ===== verification/ImapFetch.thy ===== *)
theory ImapFetch
  imports ImapDate
begin

text \<open>
  The FETCH part of response_parser.py and response_types.py: body structures, envelopes and the
  dictionary of message data that \<open>parse_fetch_response\<close> builds, over the values delivered by
  \<open>gen_parsed_response\<close>. The lemmas show that a printed response comes back as the dictionary of
  its items, under the identifier asked for, and which shape a multipart body has.
\<close>

section \<open>Sequences and truth values\<close>

definition seq_items :: "imapval \<Rightarrow> pyexc + imapval list" where
  \<comment> \<open>the items of a tuple, or the one-byte strings of a byte string\<close>
  "seq_items v = (case v of
      ITuple vs \<Rightarrow> Inr vs
    | IBytes b \<Rightarrow> Inr (map (\<lambda>c. IBytes [c]) b)
    | _ \<Rightarrow> Inl (TypeError ''object has no items''))"

definition seq_index :: "imapval \<Rightarrow> nat \<Rightarrow> pyexc + imapval" where
  "seq_index v i = sbind (seq_items v) (\<lambda>vs.
     if i < length vs then Inr (vs ! i) else Inl (IndexError ''index out of range''))"

definition truthy :: "imapval \<Rightarrow> bool" where
  "truthy v = (case v of
      INone \<Rightarrow> False | IBytes b \<Rightarrow> b \<noteq> [] | IInt n \<Rightarrow> n \<noteq> 0 | ITuple vs \<Rightarrow> vs \<noteq> [])"

definition is_value_error :: "pyexc \<Rightarrow> bool" where
  "is_value_error e = (case e of
      ValueError _ \<Rightarrow> True | UnicodeError _ \<Rightarrow> True | ParseError _ \<Rightarrow> True | _ \<Rightarrow> False)"

section \<open>Body structures\<close>

text \<open>A \<open>BodyData\<close> tuple: its first element may be the list of the nested parts.\<close>

datatype body = Body "body_elem list"
  and body_elem = EVal imapval | EParts "body list"

fun is_tuple :: "imapval \<Rightarrow> bool" where
  "is_tuple (ITuple vs) = True"
| "is_tuple v = False"

fun is_bytes :: "imapval \<Rightarrow> bool" where
  "is_bytes (IBytes b) = True"
| "is_bytes v = False"

fun body_create :: "imapval \<Rightarrow> pyexc + body"
  and body_parts :: "imapval list \<Rightarrow> pyexc + body list \<times> imapval list"
where
  "body_create INone = Inl (TypeError ''object has no items'')"
| "body_create (IInt n) = Inl (TypeError ''object has no items'')"
| "body_create (IBytes b) =
     (if b = [] then Inl (IndexError ''string index out of range'')
      else Inr (Body (map (\<lambda>c. EVal (IBytes [c])) b)))"
| "body_create (ITuple vs) =
     (if vs = [] then Inl (IndexError ''tuple index out of range'')
      else if is_tuple (hd vs) then
        sbind (body_parts vs) (\<lambda>(ps, rest). Inr (Body (EParts ps # map EVal rest)))
      else Inr (Body (map EVal vs)))"
  \<comment> \<open>the parts up to the first byte string; without one the loop stops at the last item\<close>
| "body_parts [] = Inr ([], [])"
| "body_parts [p] = Inr ([], [p])"
| "body_parts (p # q # ps) =
     (if is_bytes p then Inr ([], p # q # ps)
      else sbind (body_create p) (\<lambda>b.
           sbind (body_parts (q # ps)) (\<lambda>(bs, rest). Inr (b # bs, rest))))"

definition is_multipart :: "body \<Rightarrow> pyexc + bool" where
  "is_multipart b = (case b of
      Body [] \<Rightarrow> Inl (IndexError ''tuple index out of range'')
    | Body (e # _) \<Rightarrow> Inr (case e of EParts _ \<Rightarrow> True | EVal _ \<Rightarrow> False))"

section \<open>Envelopes\<close>

record address =
  ad_name :: imapval
  ad_route :: imapval
  ad_mailbox :: imapval
  ad_host :: imapval

record envelope =
  env_date :: "datetime option"
  env_subject :: imapval
  env_addresses :: "address list option list"
    \<comment> \<open>\<open>from_\<close>, \<open>sender\<close>, \<open>reply_to\<close>, \<open>to\<close>, \<open>cc\<close>, \<open>bcc\<close>\<close>
  env_in_reply_to :: imapval
  env_message_id :: imapval

definition new_address :: "imapval \<Rightarrow> pyexc + address" where
  \<comment> \<open>\<open>Address(*addr_tuple)\<close>\<close>
  "new_address addr_tuple = sbind (seq_items addr_tuple) (\<lambda>vs. case vs of
      [n, r, m, h] \<Rightarrow> Inr \<lparr>ad_name = n, ad_route = r, ad_mailbox = m, ad_host = h\<rparr>
    | _ \<Rightarrow> Inl (TypeError ''__new__() takes exactly 5 arguments''))"

fun new_addresses :: "imapval list \<Rightarrow> pyexc + address list" where
  "new_addresses [] = Inr []"
| "new_addresses (a # as) =
     (if truthy a then
        sbind (new_address a) (\<lambda>x. sbind (new_addresses as) (\<lambda>xs. Inr (x # xs)))
      else new_addresses as)"

fun address_lists :: "imapval list \<Rightarrow> pyexc + address list option list" where
  "address_lists [] = Inr []"
| "address_lists (l # ls) =
     sbind (if truthy l then
              sbind (seq_items l) (\<lambda>as. sbind (new_addresses as) (\<lambda>xs. Inr (Some xs)))
            else Inr None) (\<lambda>x.
     sbind (address_lists ls) (\<lambda>xs. Inr (x # xs)))"

definition convert_INTERNALDATE ::
  "date_parser \<Rightarrow> system_time \<Rightarrow> imapval \<Rightarrow> bool \<Rightarrow> pyexc + datetime option" where
  "convert_INTERNALDATE parsedate_tz sys date_string normalise_times =
     (case parse_to_datetime parsedate_tz sys date_string normalise_times of
        Inr dt \<Rightarrow> Inr (Some dt)
      | Inl e \<Rightarrow> if is_value_error e then Inr None else Inl e)"

definition convert_ENVELOPE ::
  "date_parser \<Rightarrow> system_time \<Rightarrow> imapval \<Rightarrow> bool \<Rightarrow> pyexc + envelope" where
  "convert_ENVELOPE parsedate_tz sys envelope_response normalise_times =
     sbind (seq_index envelope_response 0) (\<lambda>d.
     sbind (if truthy d then convert_INTERNALDATE parsedate_tz sys d normalise_times
            else Inr None) (\<lambda>dt.
     sbind (seq_index envelope_response 1) (\<lambda>subject.
     sbind (seq_items envelope_response) (\<lambda>vs.
     sbind (address_lists (slice 2 8 vs)) (\<lambda>addresses.
     sbind (seq_index envelope_response 8) (\<lambda>irt.
     sbind (seq_index envelope_response 9) (\<lambda>mid.
     Inr \<lparr>env_date = dt, env_subject = subject, env_addresses = addresses,
          env_in_reply_to = irt, env_message_id = mid\<rparr>)))))))"

section \<open>FETCH responses\<close>

datatype fetch_val =
    FInt int | FVal imapval | FDate "datetime option" | FEnvelope envelope | FBody body

type_synonym msg_data = "bytes \<rightharpoonup> fetch_val"

definition int_or_error :: "imapval \<Rightarrow> string \<Rightarrow> pyexc + int" where
  "int_or_error value error_text = (case value of
      IInt n \<Rightarrow> Inr n
    | IBytes b \<Rightarrow> (case int_of_bytes b of Inr n \<Rightarrow> Inr n | Inl e \<Rightarrow> Inl (ParseError error_text))
    | _ \<Rightarrow> Inl (ParseError error_text))"

definition fetch_item :: "date_parser \<Rightarrow> system_time \<Rightarrow> bool \<Rightarrow> bool \<Rightarrow> imapval \<Rightarrow> imapval \<Rightarrow>
    int \<times> msg_data \<Rightarrow> pyexc + int \<times> msg_data" where
  \<comment> \<open>the body of the loop over the items of one message\<close>
  "fetch_item parsedate_tz sys normalise_times uid_is_key key value st =
     (case st of (msg_id, msg_data) \<Rightarrow>
      (case key of
         IBytes k \<Rightarrow>
           let word = py_upper k in
           if word = ''UID'' then
             sbind (int_or_error value ''invalid UID'') (\<lambda>uid.
             Inr (if uid_is_key then (uid, msg_data) else (msg_id, msg_data(word \<mapsto> FInt uid))))
           else if word = ''INTERNALDATE'' then
             sbind (convert_INTERNALDATE parsedate_tz sys value normalise_times) (\<lambda>d.
             Inr (msg_id, msg_data(word \<mapsto> FDate d)))
           else if word = ''ENVELOPE'' then
             sbind (convert_ENVELOPE parsedate_tz sys value normalise_times) (\<lambda>e.
             Inr (msg_id, msg_data(word \<mapsto> FEnvelope e)))
           else if word = ''BODY'' \<or> word = ''BODYSTRUCTURE'' then
             sbind (body_create value) (\<lambda>b. Inr (msg_id, msg_data(word \<mapsto> FBody b)))
           else Inr (msg_id, msg_data(word \<mapsto> FVal value))
       | _ \<Rightarrow> Inl (AttributeError ''upper'')))"

fun fetch_items :: "date_parser \<Rightarrow> system_time \<Rightarrow> bool \<Rightarrow> bool \<Rightarrow> imapval list \<Rightarrow>
    int \<times> msg_data \<Rightarrow> pyexc + int \<times> msg_data" where
  "fetch_items parsedate_tz sys normalise_times uid_is_key (k # v # items) st =
     sbind (fetch_item parsedate_tz sys normalise_times uid_is_key k v st)
       (fetch_items parsedate_tz sys normalise_times uid_is_key items)"
| "fetch_items parsedate_tz sys normalise_times uid_is_key _ st = Inr st"

definition update_message :: "int \<Rightarrow> msg_data \<Rightarrow> (int \<rightharpoonup> msg_data) \<Rightarrow> (int \<rightharpoonup> msg_data)" where
  \<comment> \<open>\<open>parsed_response[msg_id].update(msg_data)\<close> on the \<open>defaultdict\<close>\<close>
  "update_message msg_id msg_data parsed =
     parsed(msg_id \<mapsto> (case parsed msg_id of Some d \<Rightarrow> d | None \<Rightarrow> Map.empty) ++ msg_data)"

fun fetch_loop :: "date_parser \<Rightarrow> system_time \<Rightarrow> bool \<Rightarrow> bool \<Rightarrow> imapval list \<Rightarrow> pyexc option \<Rightarrow>
    (int \<rightharpoonup> msg_data) \<Rightarrow> pyexc + (int \<rightharpoonup> msg_data)" where
  \<comment> \<open>the values are those the generator delivers before it ends or raises \<open>err\<close>\<close>
  "fetch_loop parsedate_tz sys normalise_times uid_is_key [] err parsed =
     (case err of None \<Rightarrow> Inr parsed | Some e \<Rightarrow> Inl e)"
| "fetch_loop parsedate_tz sys normalise_times uid_is_key [m] err parsed =
     sbind (int_or_error m ''invalid message ID'') (\<lambda>_.
     Inl (case err of None \<Rightarrow> ParseError ''unexpected EOF'' | Some e \<Rightarrow> e))"
| "fetch_loop parsedate_tz sys normalise_times uid_is_key (m # r # vs) err parsed =
     sbind (int_or_error m ''invalid message ID'') (\<lambda>seq.
     case r of
       ITuple items \<Rightarrow>
         if odd (length items) then Inl (ParseError ''uneven number of response items'')
         else sbind (fetch_items parsedate_tz sys normalise_times uid_is_key items
                (seq, [''SEQ'' \<mapsto> FInt seq])) (\<lambda>(msg_id, msg_data).
              fetch_loop parsedate_tz sys normalise_times uid_is_key vs err
                (update_message msg_id msg_data parsed))
     | _ \<Rightarrow> Inl (ParseError ''bad response type''))"

definition parse_fetch_response :: "date_parser \<Rightarrow> system_time \<Rightarrow> nat \<Rightarrow> resp_record list option \<Rightarrow>
    bool \<Rightarrow> bool \<Rightarrow> pyexc + (int \<rightharpoonup> msg_data)" where
  "parse_fetch_response parsedate_tz sys depth text normalise_times uid_is_key =
     (case text of
        None \<Rightarrow> Inr Map.empty
      | Some text \<Rightarrow>
          (case gen_parsed_response depth text of (vs, err) \<Rightarrow>
             fetch_loop parsedate_tz sys normalise_times uid_is_key vs err Map.empty))"

section \<open>Printed responses\<close>

lemma gen_parsed_prints:
  assumes "list_all shown_ok vs" and "\<forall>v\<in>set vs. nesting v \<le> depth"
  shows "gen_parsed_response depth (records_of [] (with_spaces (map lexemes vs))) = (map value_of vs, None)"
  using parse_response_prints[OF assms]
  by (auto simp: parse_response_def collect_def split: prod.splits option.splits)

definition special_keys :: "bytes set" where
  "special_keys = {''UID'', ''INTERNALDATE'', ''ENVELOPE'', ''BODY'', ''BODYSTRUCTURE''}"

fun flat_items :: "(bytes \<times> imapval) list \<Rightarrow> imapval list" where
  "flat_items [] = []"
| "flat_items ((k, v) # kvs) = IBytes k # v # flat_items kvs"

fun item_map :: "(bytes \<times> imapval) list \<Rightarrow> msg_data \<Rightarrow> msg_data" where
  "item_map [] m = m"
| "item_map ((k, v) # kvs) m = item_map kvs (m(py_upper k \<mapsto> FVal v))"

lemma length_flat_items: "length (flat_items kvs) = 2 * length kvs"
  by (induction kvs rule: flat_items.induct) simp_all

lemma fetch_items_plain:
  "\<forall>kv\<in>set kvs. py_upper (fst kv) \<notin> special_keys \<Longrightarrow>
     fetch_items pd sys nt uk (flat_items kvs) (n, m) = Inr (n, item_map kvs m)"
  by (induction kvs m rule: item_map.induct)
     (simp_all add: fetch_item_def special_keys_def Let_def)

lemma fetch_items_append:
  "even (length as) \<Longrightarrow> fetch_items pd sys nt uk (as @ bs) st
     = sbind (fetch_items pd sys nt uk as st) (fetch_items pd sys nt uk bs)"
proof (induction as arbitrary: st rule: induct_list012)
  case (3 a b as)
  then show ?case by (cases "fetch_item pd sys nt uk a b st") simp_all
qed simp_all

text \<open>What a server sends for a message: its number and its items, the UID first.\<close>

type_synonym shown_msg = "nat \<times> nat \<times> (bytes \<times> shown) list"

definition show_items :: "(bytes \<times> shown) list \<Rightarrow> shown list" where
  "show_items kvs = concat (map (\<lambda>(k, v). [SAtom k, v]) kvs)"

fun show_message :: "shown_msg \<Rightarrow> shown list" where
  "show_message (n, u, kvs) = [SNum n, STuple (SAtom ''UID'' # SNum u # show_items kvs)]"

fun message_ok :: "nat \<Rightarrow> shown_msg \<Rightarrow> bool" where
  "message_ok depth (n, u, kvs) \<longleftrightarrow>
     (\<forall>(k, v)\<in>set kvs. plain_atom k \<and> shown_ok v \<and> nesting v < depth
        \<and> py_upper k \<notin> insert ''SEQ'' special_keys)
     \<and> distinct (map (py_upper \<circ> fst) kvs)"

definition shown_values :: "(bytes \<times> shown) list \<Rightarrow> (bytes \<times> imapval) list" where
  "shown_values kvs = map (\<lambda>(k, v). (k, value_of v)) kvs"

lemma show_items_values: "map value_of (show_items kvs) = flat_items (shown_values kvs)"
  by (induction kvs) (auto simp: show_items_def shown_values_def)

lemma plain_UID: "plain_atom ''UID''"
  by (simp add: plain_atom_def NON_SPECIALS_def SPECIALS_def is_digit_def)

lemma upper_UID: "py_upper ''UID'' = ''UID''"
  by (simp add: py_upper_def upper_char_def)

definition message_data :: "bool \<Rightarrow> shown_msg \<Rightarrow> int \<times> msg_data" where
  \<comment> \<open>the identifier a message is stored under, and its data\<close>
  "message_data uid_is_key x = (case x of (n, u, kvs) \<Rightarrow>
     let m = [''SEQ'' \<mapsto> FInt (int n)]
     in if uid_is_key then (int u, item_map (shown_values kvs) m)
        else (int n, item_map (shown_values kvs) (m(''UID'' \<mapsto> FInt (int u)))))"

lemma fetch_items_message:
  assumes "message_ok depth (n, u, kvs)"
  shows "fetch_items pd sys nt uk (map value_of (SAtom ''UID'' # SNum u # show_items kvs))
      (int n, [''SEQ'' \<mapsto> FInt (int n)]) = Inr (message_data uk (n, u, kvs))"
proof -
  have "\<forall>kv\<in>set (shown_values kvs). py_upper (fst kv) \<notin> special_keys"
    using assms by (auto simp: shown_values_def)
  then show ?thesis
    by (simp add: fetch_item_def upper_UID int_or_error_def show_items_values fetch_items_plain
        message_data_def Let_def)
qed

lemma fetch_loop_messages:
  "\<forall>x\<in>set ms. message_ok depth x \<Longrightarrow>
     fetch_loop pd sys nt uk (map value_of (concat (map show_message ms))) None parsed
     = Inr (fold (\<lambda>x. case message_data uk x of (i, d) \<Rightarrow> update_message i d) ms parsed)"
proof (induction ms arbitrary: parsed)
  case (Cons x ms)
  obtain n u kvs where x: "x = (n, u, kvs)" by (cases x)
  with Cons.prems have "message_ok depth (n, u, kvs)" by simp
  note f = fetch_items_message[OF this, of pd sys nt uk, simplified list.map value_of.simps]
  have "even (length (map value_of (show_items kvs)))"
    by (simp add: show_items_values length_flat_items)
  then show ?case using Cons f
    by (cases "message_data uk (n, u, kvs)") (simp add: x int_or_error_def del: fetch_items.simps)
qed simp

lemma item_map_other: "k \<notin> py_upper ` fst ` set kvs \<Longrightarrow> item_map kvs m k = m k"
  by (induction kvs m rule: item_map.induct) auto

lemma item_map_lookup:
  "distinct (map (py_upper \<circ> fst) kvs) \<Longrightarrow> (k, v) \<in> set kvs \<Longrightarrow>
     item_map kvs m (py_upper k) = Some (FVal v)"
proof (induction kvs m rule: item_map.induct)
  case (2 j w kvs m)
  have new: "py_upper j \<notin> py_upper ` fst ` set kvs" using 2(2) by (simp add: image_comp)
  show ?case
  proof (cases "(k, v) \<in> set kvs")
    case True
    have "distinct (map (py_upper \<circ> fst) kvs)" using 2(2) by (simp add: comp_def)
    from 2(1)[OF this True] show ?thesis by (simp only: item_map.simps)
  next
    case False
    with 2(3) have "k = j" "v = w" by simp_all
    with item_map_other[OF new] show ?thesis by simp
  qed
qed simp

lemma fold_update_other:
  "i \<notin> fst ` message_data uk ` set ms \<Longrightarrow>
     fold (\<lambda>x. case message_data uk x of (i, d) \<Rightarrow> update_message i d) ms parsed i = parsed i"
  by (induction ms arbitrary: parsed) (auto simp: update_message_def split: prod.splits)

lemma fold_update_lookup:
  "distinct (map (fst \<circ> message_data uk) ms) \<Longrightarrow> x \<in> set ms \<Longrightarrow> \<forall>x\<in>set ms. parsed (fst (message_data uk x)) = None \<Longrightarrow>
     fold (\<lambda>x. case message_data uk x of (i, d) \<Rightarrow> update_message i d) ms parsed (fst (message_data uk x))
     = Some (snd (message_data uk x))"
proof (induction ms arbitrary: parsed)
  case (Cons y ms)
  obtain i d where y: "message_data uk y = (i, d)" by fastforce
  have new: "i \<notin> fst ` message_data uk ` set ms" using Cons.prems(1) y by (auto simp: image_iff)
  have i: "update_message i d parsed i = Some d" using Cons.prems(3) y by (simp add: update_message_def)
  show ?case
  proof (cases "x = y")
    case True
    show ?thesis using fold_update_other[OF new, of "update_message i d parsed"] i True y by simp
  next
    case False
    with Cons.prems have "x \<in> set ms" by simp
    moreover have "update_message i d parsed (fst (message_data uk z)) = None" if "z \<in> set ms" for z
    proof -
      have "fst (message_data uk z) \<noteq> i" using new that by blast
      then show ?thesis using Cons.prems(3) that by (simp add: update_message_def)
    qed
    ultimately show ?thesis using Cons.IH[of "update_message i d parsed"] Cons.prems(1) y by simp
  qed
qed simp

lemma fold_update_dom:
  "dom (fold (\<lambda>x. case message_data uk x of (i, d) \<Rightarrow> update_message i d) ms parsed)
     = dom parsed \<union> fst ` message_data uk ` set ms"
  by (induction ms arbitrary: parsed) (auto simp: update_message_def split: prod.splits)

lemma shown_message_ok:
  assumes "message_ok depth x" and "0 < depth"
  shows "list_all shown_ok (show_message x) \<and> (\<forall>v\<in>set (show_message x). nesting v \<le> depth)"
proof -
  obtain n u kvs where x: "x = (n, u, kvs)" by (cases x)
  have "list_all shown_ok (show_items kvs)" "\<forall>v\<in>set (show_items kvs). nesting v < depth"
    using assms by (auto simp: x show_items_def list_all_iff)
  with assms(2) show ?thesis by (auto simp: x plain_UID Suc_le_eq list_all_iff)
qed

definition fetched :: "bool \<Rightarrow> shown_msg list \<Rightarrow> int \<rightharpoonup> msg_data" where
  \<comment> \<open>what is made of the messages\<close>
  "fetched uk ms = fold (\<lambda>x. case message_data uk x of (i, d) \<Rightarrow> update_message i d) ms Map.empty"

lemma message_data_items:
  fixes uk :: bool
  assumes ok: "message_ok depth (n, u, kvs)"
  defines "d \<equiv> snd (message_data uk (n, u, kvs))"
  shows "d ''SEQ'' = Some (FInt (int n))" and "d ''UID'' = (if uk then None else Some (FInt (int u)))"
    and "\<forall>(k, v)\<in>set kvs. d (py_upper k) = Some (FVal (value_of v))"
proof -
  have upper: "py_upper ` fst ` set (shown_values kvs) = py_upper ` fst ` set kvs"
    "map (py_upper \<circ> fst) (shown_values kvs) = map (py_upper \<circ> fst) kvs"
    by (force simp: shown_values_def comp_def case_prod_beta image_iff)+
  have distinct: "distinct (map (py_upper \<circ> fst) (shown_values kvs))" using ok by (simp add: upper(2))
  have "k \<notin> py_upper ` fst ` set kvs" if "k \<in> insert ''SEQ'' special_keys" for k using ok that by fastforce
  then have "''SEQ'' \<notin> py_upper ` fst ` set (shown_values kvs)" "''UID'' \<notin> py_upper ` fst ` set (shown_values kvs)"
    unfolding upper(1) by (simp_all add: special_keys_def)
  then show "d ''SEQ'' = Some (FInt (int n))" "d ''UID'' = (if uk then None else Some (FInt (int u)))"
    by (auto simp: d_def message_data_def Let_def item_map_other)
  have "d (py_upper k) = Some (FVal (value_of v))" if "(k, v) \<in> set kvs" for k v
  proof -
    have "(k, value_of v) \<in> set (shown_values kvs)" using that by (force simp: shown_values_def)
    from item_map_lookup[OF distinct this] show ?thesis by (simp add: d_def message_data_def Let_def)
  qed
  then show "\<forall>(k, v)\<in>set kvs. d (py_upper k) = Some (FVal (value_of v))" by blast
qed

lemma fetched_found:
  assumes "\<forall>x\<in>set ms. message_ok depth x" and "distinct (map (\<lambda>(n, u, kvs). if uk then u else n) ms)"
  shows "dom (fetched uk ms) = (\<lambda>(n, u, kvs). int (if uk then u else n)) ` set ms
    \<and> (\<forall>(n, u, kvs)\<in>set ms. \<exists>d. fetched uk ms (int (if uk then u else n)) = Some d
         \<and> d ''SEQ'' = Some (FInt (int n)) \<and> d ''UID'' = (if uk then None else Some (FInt (int u)))
         \<and> (\<forall>(k, v)\<in>set kvs. d (py_upper k) = Some (FVal (value_of v))))"
proof -
  have key: "fst (message_data uk x) = (case x of (n, u, kvs) \<Rightarrow> int (if uk then u else n))" for x
    by (auto simp: message_data_def Let_def split: prod.splits)
  have "map (fst \<circ> message_data uk) ms = map int (map (\<lambda>(n, u, kvs). if uk then u else n) ms)"
    by (auto simp: key)
  then have dist: "distinct (map (fst \<circ> message_data uk) ms)"
    using assms(2) by (metis distinct_map inj_of_nat inj_on_subset subset_UNIV)
  have dom: "dom (fetched uk ms) = (\<lambda>(n, u, kvs). int (if uk then u else n)) ` set ms"
    by (simp add: fetched_def fold_update_dom image_image key)
  have "\<exists>d. fetched uk ms (int (if uk then u else n)) = Some d
         \<and> d ''SEQ'' = Some (FInt (int n)) \<and> d ''UID'' = (if uk then None else Some (FInt (int u)))
         \<and> (\<forall>(k, v)\<in>set kvs. d (py_upper k) = Some (FVal (value_of v)))"
    if x: "(n, u, kvs) \<in> set ms" for n u kvs
  proof -
    have "fetched uk ms (int (if uk then u else n)) = Some (snd (message_data uk (n, u, kvs)))"
      unfolding fetched_def using fold_update_lookup[OF dist x, of Map.empty] key[of "(n, u, kvs)"] by simp
    with message_data_items[of depth n u kvs uk] assms(1) x show ?thesis by blast
  qed
  then show ?thesis
    by (intro conjI dom ballI) (simp only: case_prod_beta prod.collapse split: prod.splits)
qed

lemma fetch_printed:
  assumes "\<forall>x\<in>set ms. message_ok depth x" and "0 < depth"
  shows "parse_fetch_response pd sys depth
      (Some (records_of [] (with_spaces (map lexemes (concat (map show_message ms)))))) nt uk
    = Inr (fetched uk ms)"
proof -
  let ?vs = "concat (map show_message ms)"
  have each: "list_all shown_ok (show_message x)" "\<forall>v\<in>set (show_message x). nesting v \<le> depth"
    if "x \<in> set ms" for x
    using shown_message_ok[OF _ assms(2), of x] assms(1) that by blast+
  have "shown_ok v \<and> nesting v \<le> depth" if "v \<in> set ?vs" for v
  proof -
    from that obtain x where "x \<in> set ms" "v \<in> set (show_message x)" by (simp only: set_concat set_map) blast
    with each[of x] show ?thesis by (simp add: list_all_iff)
  qed
  then have "list_all shown_ok ?vs" "\<forall>v\<in>set ?vs. nesting v \<le> depth"
    by (simp_all only: list_all_iff ball_simps) blast+
  from gen_parsed_prints[OF this] fetch_loop_messages[OF assms(1)] show ?thesis
    by (simp add: parse_fetch_response_def fetched_def)
qed

section \<open>Multipart bodies\<close>

lemma body_parts_split:
  assumes "\<forall>p\<in>set ps. \<not> is_bytes p" and "list_all2 (\<lambda>p b. body_create p = Inr b) ps bs"
  shows "body_parts (ps @ IBytes t # rest) = Inr (bs, IBytes t # rest)"
  using assms(2,1)
proof (induction ps bs rule: list_all2_induct)
  case Nil
  then show ?case by (cases rest) simp_all
next
  case (Cons p ps b bs)
  then show ?case by (cases ps) simp_all
qed

lemma body_create_multipart:
  assumes "ps \<noteq> []" and "is_tuple (hd ps)" and "\<forall>p\<in>set ps. \<not> is_bytes p"
    and "list_all2 (\<lambda>p b. body_create p = Inr b) ps bs"
  shows "body_create (ITuple (ps @ IBytes t # rest)) = Inr (Body (EParts bs # EVal (IBytes t) # map EVal rest))"
  using assms body_parts_split[OF assms(3,4)] by simp

lemma body_parts_no_bytes:
  assumes "\<forall>p\<in>set ps. \<not> is_bytes p" and "list_all2 (\<lambda>p b. body_create p = Inr b) ps bs" and "\<not> is_bytes q"
  shows "body_parts (ps @ [q]) = Inr (bs, [q])"
  using assms(2,1)
proof (induction ps bs rule: list_all2_induct)
  case (Cons p ps b bs)
  then show ?case by (cases ps) simp_all
qed simp

end
