(* ===== verification/ImapCmd.thy ===== *)
theory ImapCmd
  imports ImapUtf7 ImapFetch
begin

text \<open>
  util.py and the functions at the end of imapclient.py: what turns the arguments of the client's
  methods into command text, and the wrapper of dictionaries with mixed keys. Python 2.7 has two
  string types, \<open>Str\<close> (bytes) and \<open>Uni\<close> (code units); a value of one is used as the other through
  the ASCII codec. A codec the caller names (\<open>charset\<close>) is looked up in the parameter \<open>codecs\<close>.
  The lemmas show that quoted text is read back by the client's own response parser as the text it was
  made from, and that what needs no quoting is sent as it is.
\<close>

section \<open>The two string types\<close>

datatype pystr = Str bytes | Uni "nat list"

definition decode_ascii :: "bytes \<Rightarrow> pyexc + nat list" where
  "decode_ascii b = (if is_ascii b then Inr (map of_char b) else Inl (UnicodeError ''ordinal not in range(128)''))"

definition encode_ascii :: "nat list \<Rightarrow> pyexc + bytes" where
  "encode_ascii u =
     (if list_all (\<lambda>c. c < 128) u then Inr (map char_of u) else Inl (UnicodeError ''ordinal not in range(128)''))"

definition ascii :: "bytes \<Rightarrow> pystr" where
  \<comment> \<open>a text literal of a module with \<open>unicode_literals\<close>\<close>
  "ascii b = Uni (map of_char b)"

definition to_unicode :: "pystr \<Rightarrow> pyexc + nat list" where
  "to_unicode s = (case s of Str b \<Rightarrow> decode_ascii b | Uni u \<Rightarrow> Inr u)"

type_synonym codecs = "bytes \<Rightarrow> nat list \<Rightarrow> pyexc + bytes"

definition to_bytes_in :: "codecs \<Rightarrow> pystr \<Rightarrow> bytes \<Rightarrow> pyexc + bytes" where
  "to_bytes_in codecs s charset = (case s of Uni u \<Rightarrow> codecs charset u | Str b \<Rightarrow> Inr b)"

definition to_bytes :: "pystr \<Rightarrow> pyexc + bytes" where
  \<comment> \<open>with the default \<open>charset='ascii'\<close>\<close>
  "to_bytes s = (case s of Uni u \<Rightarrow> encode_ascii u | Str b \<Rightarrow> Inr b)"

fun sequence :: "(pyexc + 'a) list \<Rightarrow> pyexc + 'a list" where
  \<comment> \<open>a comprehension whose items may raise\<close>
  "sequence [] = Inr []"
| "sequence (r # rs) = sbind r (\<lambda>x. sbind (sequence rs) (\<lambda>xs. Inr (x # xs)))"

section \<open>Quoting\<close>

definition replace_one :: "'a \<Rightarrow> 'a list \<Rightarrow> 'a list \<Rightarrow> 'a list" where
  \<comment> \<open>\<open>s.replace(x, ys)\<close> for one character\<close>
  "replace_one x ys s = concat (map (\<lambda>c. if c = x then ys else [c]) s)"

definition escaped :: "'a \<Rightarrow> 'a \<Rightarrow> 'a list \<Rightarrow> 'a list" where
  "escaped bs q arg = replace_one q [bs, q] (replace_one bs [bs, bs] arg)"

definition quote :: "pystr \<Rightarrow> pystr" where
  "quote arg = (case arg of
     Uni u \<Rightarrow> Uni ([0x22] @ escaped 0x5C 0x22 u @ [0x22])
   | Str b \<Rightarrow> Str ([DOUBLE_QUOTE] @ escaped BACKSLASH DOUBLE_QUOTE b @ [DOUBLE_QUOTE]))"

definition maybe_quote :: "bytes \<Rightarrow> bytes" where
  "maybe_quote arg =
     (let out = escaped BACKSLASH DOUBLE_QUOTE arg in
      if out \<noteq> arg \<or> CHR '' '' \<in> set out then [DOUBLE_QUOTE] @ out @ [DOUBLE_QUOTE] else arg)"

definition normalise_folder :: "bool \<Rightarrow> pystr \<Rightarrow> pyexc + pystr" where
  "normalise_folder folder_encode folder_name =
     sbind (to_unicode folder_name) (\<lambda>u.
       Inr (quote (if folder_encode then Str (imap_encode u) else Uni u)))"

datatype texts = One pystr | Many "pystr list"
  \<comment> \<open>an argument that may be one string or a sequence of strings\<close>

definition as_seq :: "texts \<Rightarrow> pystr list" where
  "as_seq t = (case t of One s \<Rightarrow> [s] | Many ss \<Rightarrow> ss)"

definition normalise_labels :: "texts \<Rightarrow> pystr list" where
  "normalise_labels labels = map quote (as_seq labels)"

section \<open>Search and sort criteria\<close>

datatype criterion = CInt int | CDate datetime | CText pystr

datatype criteria = Whole pystr | Items "criterion list"

definition no_criteria :: "criteria \<Rightarrow> bool" where
  \<comment> \<open>\<open>not criteria\<close>\<close>
  "no_criteria c = (c \<in> {Whole (Str []), Whole (Uni []), Items []})"

definition handle_one_search_criteria :: "codecs \<Rightarrow> bytes \<Rightarrow> criterion \<Rightarrow> pyexc + bytes" where
  "handle_one_search_criteria codecs charset item = (case item of
     CInt n \<Rightarrow> Inr (dec_int n)
   | CDate d \<Rightarrow> Inr (format_criteria_date d)
   | CText s \<Rightarrow> sbind (to_bytes_in codecs s charset) (\<lambda>b. Inr (maybe_quote b)))"

definition normalise_search_criteria :: "codecs \<Rightarrow> criteria \<Rightarrow> bytes option \<Rightarrow> pyexc + bytes list" where
  "normalise_search_criteria codecs criteria charset =
     (if no_criteria criteria then Inl (ValueError ''no criteria specified'')
      else let charset = (case charset of None \<Rightarrow> ''us-ascii'' | Some [] \<Rightarrow> ''us-ascii'' | Some c \<Rightarrow> c) in
        (case criteria of
           Whole s \<Rightarrow> sbind (to_bytes_in codecs s charset) (\<lambda>b. Inr [b])
         | Items items \<Rightarrow> sequence (map (handle_one_search_criteria codecs charset) items)))"

definition normalise_sort_criteria :: "texts \<Rightarrow> pyexc + bytes" where
  "normalise_sort_criteria criteria =
     sbind (sequence (map (\<lambda>item. sbind (to_bytes item) (\<lambda>b. Inr (py_upper b))) (as_seq criteria))) (\<lambda>ws.
       Inr (''('' @ py_join '' '' ws @ '')''))"

section \<open>Sequences in commands\<close>

definition normalise_text_list :: "texts \<Rightarrow> pyexc + nat list list" where
  "normalise_text_list items = sequence (map to_unicode (as_seq items))"

definition join_and_paren :: "nat list list \<Rightarrow> nat list" where
  "join_and_paren items = [0x28] @ py_join [0x20] items @ [0x29]"

definition seq_to_parenstr :: "texts \<Rightarrow> pyexc + nat list" where
  "seq_to_parenstr items = sbind (normalise_text_list items) (\<lambda>us. Inr (join_and_paren us))"

definition upper_unit :: "nat \<Rightarrow> nat" where
  \<comment> \<open>\<open>upper\<close> of text, exact where the result is ASCII; the two other characters are dotless i and long s.
    Other letters outside ASCII, which no command can carry, are left as they are\<close>
  "upper_unit c = (if 97 \<le> c \<and> c \<le> 122 then c - 32 else if c = 0x131 then 73 else if c = 0x17F then 83 else c)"

definition seq_to_parenstr_upper :: "texts \<Rightarrow> pyexc + nat list" where
  "seq_to_parenstr_upper items =
     sbind (normalise_text_list items) (\<lambda>us. Inr (join_and_paren (map (map upper_unit) us)))"

datatype msg_id = IdInt int | IdText pystr

datatype messages = OneId msg_id | Ids "msg_id list"

definition maybe_int_to_bytes :: "msg_id \<Rightarrow> pyexc + bytes" where
  "maybe_int_to_bytes val = (case val of IdInt n \<Rightarrow> Inr (dec_int n) | IdText s \<Rightarrow> to_bytes s)"

definition join_message_ids :: "messages \<Rightarrow> pyexc + bytes" where
  "join_message_ids messages =
     sbind (sequence (map maybe_int_to_bytes (case messages of OneId m \<Rightarrow> [m] | Ids ms \<Rightarrow> ms))) (\<lambda>bs.
       Inr (py_join '','' bs))"

definition no_messages :: "messages \<Rightarrow> bool" where
  \<comment> \<open>\<open>not messages\<close>\<close>
  "no_messages ms = (ms \<in> {Ids [], OneId (IdInt 0), OneId (IdText (Str [])), OneId (IdText (Uni []))})"

section \<open>Responses and dictionaries\<close>

definition parse_untagged_response :: "nat \<Rightarrow> bytes \<Rightarrow> pyexc + imapval list" where
  "parse_untagged_response depth text =
     (if \<not> starts_with ''* '' text then Inl (AssertionError '''')
      else let text = drop 2 text in
        if starts_with ''OK '' text \<or> starts_with ''NO '' text
        then Inr [IBytes (take 2 text), IBytes (drop 3 text)]
        else parse_response depth (Some [Line text]))"

fun pop_with_default :: "('k \<times> 'v) list \<Rightarrow> 'k \<Rightarrow> 'v \<Rightarrow> 'v \<times> ('k \<times> 'v) list" where
  "pop_with_default [] key d = (d, [])"
| "pop_with_default ((k, v) # dct) key d =
     (if k = key then (v, dct) else (case pop_with_default dct key d of (w, dct) \<Rightarrow> (w, (k, v) # dct)))"

fun as_pairs :: "'a list \<Rightarrow> ('a \<times> 'a) list" where
  "as_pairs (last_item # item # items) = (last_item, item) # as_pairs items"
| "as_pairs items = []"

definition is8bit :: "bytes \<Rightarrow> bool" where
  "is8bit data \<longleftrightarrow> list_ex (\<lambda>b. (of_char b :: nat) > 127) data"

definition iter_with_last :: "'a list \<Rightarrow> ('a \<times> bool) list" where
  "iter_with_last items =
     (let last_i = int (length items) - 1 in map (\<lambda>i. (items ! i, int i = last_i)) [0..<length items])"

text \<open>Keys of a Python 2 dictionary: a byte string equals the text with the same ASCII characters.\<close>

definition py_eq :: "pystr \<Rightarrow> pystr \<Rightarrow> bool" where
  "py_eq a b = (case (a, b) of
     (Str x, Uni u) \<Rightarrow> is_ascii x \<and> u = map of_char x
   | (Uni u, Str x) \<Rightarrow> is_ascii x \<and> u = map of_char x
   | _ \<Rightarrow> a = b)"

fun dict_get :: "(pystr \<times> 'v) list \<Rightarrow> pystr \<Rightarrow> 'v option" where
  "dict_get [] k = None"
| "dict_get ((k', v) # d) k = (if py_eq k' k then Some v else dict_get d k)"

fun dict_del :: "(pystr \<times> 'v) list \<Rightarrow> pystr \<Rightarrow> (pystr \<times> 'v) list" where
  "dict_del [] k = []"
| "dict_del ((k', v) # d) k = (if py_eq k' k then d else (k', v) # dict_del d k)"

definition gen_keys :: "pystr \<Rightarrow> (pyexc + pystr) list" where
  "gen_keys k = [Inr k, (case k of
     Str b \<Rightarrow> sbind (decode_ascii b) (\<lambda>u. Inr (Uni u))
   | Uni u \<Rightarrow> sbind (encode_ascii u) (\<lambda>b. Inr (Str b)))]"

fun first_present :: "(pystr \<times> 'v) list \<Rightarrow> (pyexc + pystr) list \<Rightarrow> pyexc + pystr option" where
  \<comment> \<open>the loops over \<open>_gen_keys\<close>: the first key the dictionary has\<close>
  "first_present d [] = Inr None"
| "first_present d (r # ks) =
     sbind r (\<lambda>k. if dict_get d k = None then first_present d ks else Inr (Some k))"

definition normaliser_iteritems :: "(pystr \<times> 'v) list \<Rightarrow> pyexc + (bytes \<times> 'v) list" where
  "normaliser_iteritems d = sequence (map (\<lambda>(key, value). sbind (to_bytes key) (\<lambda>b. Inr (b, value))) d)"

definition normaliser_contains :: "(pystr \<times> 'v) list \<Rightarrow> pystr \<Rightarrow> pyexc + bool" where
  "normaliser_contains d ink = sbind (first_present d (gen_keys ink)) (\<lambda>k. Inr (k \<noteq> None))"

definition normaliser_get :: "(pystr \<times> 'v) list \<Rightarrow> pystr \<Rightarrow> 'v option \<Rightarrow> pyexc + 'v" where
  \<comment> \<open>\<open>None\<close> as default stands for \<open>_not_present\<close>\<close>
  "normaliser_get d ink dflt = sbind (first_present d (gen_keys ink)) (\<lambda>k.
     case (k, dflt) of
       (Some k, _) \<Rightarrow> Inr (the (dict_get d k))
     | (None, Some v) \<Rightarrow> Inr v
     | (None, None) \<Rightarrow> Inl (KeyError ''ink''))"

definition normaliser_pop :: "(pystr \<times> 'v) list \<Rightarrow> pystr \<Rightarrow> 'v option \<Rightarrow> pyexc + 'v \<times> (pystr \<times> 'v) list" where
  "normaliser_pop d ink dflt = sbind (first_present d (gen_keys ink)) (\<lambda>k.
     case (k, dflt) of
       (Some k, _) \<Rightarrow> Inr (the (dict_get d k), dict_del d k)
     | (None, Some v) \<Rightarrow> Inr (v, d)
     | (None, None) \<Rightarrow> Inl (KeyError ''ink''))"

section \<open>Quoted text is read back\<close>

lemma escaped_quotes: "escaped BACKSLASH DOUBLE_QUOTE b = escape_quotes b"
proof (induction b)
  case Nil
  then show ?case by (simp add: escaped_def replace_one_def escape_quotes_def)
next
  case (Cons c b)
  then show ?case by (simp add: escaped_def replace_one_def escape_quotes_def char_classes)
qed

lemma quote_Str: "quote (Str b) = Str (lexeme_text (LQuoted b))"
  by (simp add: quote_def escaped_quotes)

lemma escape_quotes_plain: "BACKSLASH \<notin> set b \<Longrightarrow> DOUBLE_QUOTE \<notin> set b \<Longrightarrow> escape_quotes b = b"
  by (induction b) (auto simp: escape_quotes_def)

lemma length_escape_quotes: "length (escape_quotes b) = length b + length (filter (\<lambda>c. c = BACKSLASH \<or> c = DOUBLE_QUOTE) b)"
  by (induction b) (auto simp: escape_quotes_def)

lemma escape_quotes_same: "escape_quotes b = b \<longleftrightarrow> BACKSLASH \<notin> set b \<and> DOUBLE_QUOTE \<notin> set b"
proof
  assume "escape_quotes b = b"
  then have "filter (\<lambda>c. c = BACKSLASH \<or> c = DOUBLE_QUOTE) b = []" using length_escape_quotes[of b] by simp
  then show "BACKSLASH \<notin> set b \<and> DOUBLE_QUOTE \<notin> set b" by (auto simp: filter_empty_conv)
qed (simp add: escape_quotes_plain)

lemma space_escape_quotes: "CHR '' '' \<in> set (escape_quotes b) \<longleftrightarrow> CHR '' '' \<in> set b"
  by (induction b) (auto simp: escape_quotes_def char_classes)

lemma maybe_quote_cases:
  "maybe_quote b =
     (if CHR '' '' \<in> set b \<or> BACKSLASH \<in> set b \<or> DOUBLE_QUOTE \<in> set b then lexeme_text (LQuoted b) else b)"
  using escape_quotes_same[of b] by (auto simp: maybe_quote_def escaped_quotes space_escape_quotes Let_def)

lemma parse_shown_quoted: "parse_response depth (Some [Line (lexeme_text (LQuoted b))]) = Inr [IBytes b]"
  using parse_response_prints[of "[SQuoted b]" depth] by simp

lemma parse_shown_atom: "plain_atom w \<Longrightarrow> parse_response depth (Some [Line w]) = Inr [IBytes w]"
  using parse_response_prints[of "[SAtom w]" depth] by simp

lemma to_unicode_Uni [simp]: "to_unicode (Uni u) = Inr u"
  by (simp add: to_unicode_def)

lemma dict_get_eq:
  assumes "is_ascii b"
  shows "dict_get d (Uni (map of_char b)) = dict_get d (Str b)"
proof -
  have "inj (of_char :: char \<Rightarrow> nat)" by (rule inj_of_char)
  then have "map (of_char :: char \<Rightarrow> nat) x = map of_char b \<longleftrightarrow> x = b" for x :: bytes
    by (simp add: inj_map_eq_map)
  then have k: "py_eq k (Uni (map of_char b)) = py_eq k (Str b)" for k
    using assms by (cases k) (simp_all add: py_eq_def, metis)
  show ?thesis
  proof (induction d)
    case (Cons e d)
    then show ?case by (cases e) (simp add: k)
  qed simp
qed

end
