(* ===== verification/ImapConn.thy ===== *)
theory ImapConn
  imports ImapCmd "HOL-Library.AList"
begin

text \<open>
  The connection under imapclient.py: what it uses of \<open>imaplib.IMAP4\<close> of the standard library. The
  server is the queue of replies it will send (\<open>im_inbox\<close>), each already matched by the line
  patterns of \<open>imaplib\<close>; what the client writes is \<open>im_sent\<close>, one entry per \<open>send\<close>. Dictionaries
  are association lists. The commands the client adds to \<open>imaplib.Commands\<close> are here too.
\<close>

section \<open>Replies and the connection\<close>

datatype reply =
    Tagged bytes bytes bytes
    \<comment> \<open>tag, type and text of a completion\<close>
  | Untagged bytes "resp_record list" bytes
    \<comment> \<open>type, the data appended to \<open>untagged_responses\<close>, and the line itself\<close>
  | Continuation

record imap4 =
  im_inbox :: "reply list"
  im_sent :: "bytes list"
  im_tagged :: "(bytes \<times> (bytes \<times> bytes) option) list"
  im_untagged :: "(bytes \<times> resp_record list) list"
  im_state :: bytes
  im_capabilities :: "bytes list"
  im_tagpre :: bytes
  im_tagnum :: nat
  im_is_readonly :: bool

definition send :: "bytes \<Rightarrow> (imap4, unit) act" where
  "send data = modE (\<lambda>c. c\<lparr>im_sent := im_sent c @ [data]\<rparr>)"

definition append_untagged :: "bytes \<Rightarrow> resp_record list \<Rightarrow> imap4 \<Rightarrow> imap4" where
  "append_untagged typ dat c =
     c\<lparr>im_untagged := AList.update typ ((case map_of (im_untagged c) typ of None \<Rightarrow> [] | Some ds \<Rightarrow> ds) @ dat) (im_untagged c)\<rparr>"

definition response_code :: "bytes \<Rightarrow> (bytes \<times> bytes) option" where
  \<comment> \<open>\<open>\[(?P<type>[A-Z-]+)( (?P<data>[^\]]*))?\]\<close>\<close>
  "response_code dat =
     (case dat of
        b # r \<Rightarrow>
          if b \<noteq> CHR ''['' then None
          else (let up = (\<lambda>c. c = CHR ''-'' \<or> (65 \<le> (of_char c :: nat) \<and> (of_char c :: nat) \<le> 90));
                    typ = takeWhile up r; t = dropWhile up r
                in if typ = [] then None
                   else (case t of
                       x # xs \<Rightarrow>
                         if x = CHR '']'' then Some (typ, [])
                         else if x = CHR '' '' \<and> CHR '']'' \<in> set xs
                         then Some (typ, takeWhile (\<lambda>c. c \<noteq> CHR '']'') xs)
                         else None
                     | [] \<Rightarrow> None))
      | [] \<Rightarrow> None)"

definition bracketed :: "bytes \<Rightarrow> bytes \<Rightarrow> imap4 \<Rightarrow> imap4" where
  "bracketed typ dat c =
     (if typ \<in> {''OK'', ''NO'', ''BAD''} then
        (case response_code dat of None \<Rightarrow> c | Some (t, d) \<Rightarrow> append_untagged t [Line d] c)
      else c)"

definition last_text :: "resp_record list \<Rightarrow> bytes" where
  "last_text ds = (if ds = [] then [] else case last ds of Line l \<Rightarrow> l | WithLiteral l _ \<Rightarrow> l)"

definition get_response :: "(imap4, bytes option) act" where
  \<comment> \<open>\<open>None\<close> for a continuation, otherwise the first line of the reply\<close>
  "get_response c =
     (case im_inbox c of
        [] \<Rightarrow> (Inl (ImapAbort ''socket error: EOF''), c)
      | r # rs \<Rightarrow>
          let c = c\<lparr>im_inbox := rs\<rparr> in
          (case r of
             Tagged tag typ dat \<Rightarrow>
               if tag \<notin> fst ` set (im_tagged c) then (Inl (ImapAbort ''unexpected tagged response''), c)
               else (Inr (Some (tag @ '' '' @ typ @ '' '' @ dat)),
                     bracketed typ dat (c\<lparr>im_tagged := AList.update tag (Some (typ, dat)) (im_tagged c)\<rparr>))
           | Untagged typ dat line \<Rightarrow>
               (Inr (Some line), bracketed typ (last_text dat) (append_untagged typ dat c))
           | Continuation \<Rightarrow> (Inr None, c)))"

definition check_bye :: "(imap4, unit) act" where
  "check_bye = withE (\<lambda>c. case map_of (im_untagged c) ''BYE'' of
     Some (d # ds) \<Rightarrow> raiseE (ImapAbort (last_text (d # ds))) | _ \<Rightarrow> retE ())"

lemma inbox_append_untagged [simp]: "im_inbox (append_untagged t d c) = im_inbox c"
  by (simp add: append_untagged_def)

lemma inbox_bracketed [simp]: "im_inbox (bracketed t d c) = im_inbox c"
  by (simp add: bracketed_def split: option.splits prod.splits)

lemma get_response_shrinks: "get_response c = (Inr x, d) \<Longrightarrow> length (im_inbox d) < length (im_inbox c)"
  by (auto simp: get_response_def Let_def split: list.splits reply.splits if_splits)

section \<open>Commands\<close>

definition Commands :: "(bytes \<times> bytes list) list" where
  \<comment> \<open>\<open>imaplib.Commands\<close>: the states each command is allowed in\<close>
  "Commands =
     map (\<lambda>c. (c, [''AUTH'', ''SELECTED'']))
       [''APPEND'', ''CREATE'', ''DELETE'', ''GETACL'', ''LIST'', ''LSUB'', ''NAMESPACE'', ''RENAME'', ''SELECT'',
        ''EXAMINE'', ''SETACL'', ''STATUS'', ''SUBSCRIBE'', ''UNSUBSCRIBE'']
     @ map (\<lambda>c. (c, [''SELECTED'']))
       [''CHECK'', ''CLOSE'', ''COPY'', ''EXPUNGE'', ''FETCH'', ''SEARCH'', ''SORT'', ''STORE'', ''THREAD'', ''UID'']
     @ map (\<lambda>c. (c, [''NONAUTH''])) [''AUTHENTICATE'', ''LOGIN'']
     @ map (\<lambda>c. (c, [''NONAUTH'', ''AUTH'', ''SELECTED'', ''LOGOUT''])) [''CAPABILITY'', ''LOGOUT'', ''NOOP'']"

definition add_command :: "bytes \<Rightarrow> bytes list \<Rightarrow> (bytes \<times> bytes list) list \<Rightarrow> (bytes \<times> bytes list) list" where
  \<comment> \<open>\<open>if name not in imaplib.Commands: imaplib.Commands[name] = states\<close>\<close>
  "add_command name states cs = (if name \<in> fst ` set cs then cs else cs @ [(name, states)])"

definition allowed_states :: "(bytes \<times> bytes list) list \<Rightarrow> bytes \<Rightarrow> bytes list" where
  "allowed_states cs name = (case map_of cs name of None \<Rightarrow> [] | Some ss \<Rightarrow> ss)"

definition client_Commands :: "(bytes \<times> bytes list) list" where
  \<comment> \<open>the table after importing imapclient.py\<close>
  "client_Commands =
     add_command ''ID'' [''NONAUTH'', ''AUTH'', ''SELECTED'']
      (add_command ''STARTTLS'' [''NONAUTH'']
       (add_command ''IDLE'' (allowed_states Commands ''APPEND'')
        (add_command ''XLIST'' (allowed_states Commands ''LIST'') Commands)))"

definition new_tag :: "(imap4, bytes) act" where
  "new_tag c =
     (let tag = im_tagpre c @ dec (im_tagnum c) in
      (Inr tag, c\<lparr>im_tagnum := im_tagnum c + 1, im_tagged := AList.update tag None (im_tagged c)\<rparr>))"

function await_continuation :: "bytes \<Rightarrow> (imap4, bool) act" where
  \<comment> \<open>\<open>while self._get_response(): if self.tagged_commands[tag]: return tag\<close>: True when answered\<close>
  "await_continuation tag c =
     (case get_response c of
        (Inl e, d) \<Rightarrow> (Inl e, d)
      | (Inr None, d) \<Rightarrow> (Inr False, d)
      | (Inr (Some line), d) \<Rightarrow>
          if line = [] then (Inr False, d)
          else (case map_of (im_tagged d) tag of
              None \<Rightarrow> (Inl (KeyError tag), d)
            | Some None \<Rightarrow> await_continuation tag d
            | Some (Some r) \<Rightarrow> (Inr True, d)))"
  by pat_completeness auto
termination
  by (relation "measure (\<lambda>(_, c). length (im_inbox c))") (auto dest!: get_response_shrinks[OF sym])

declare await_continuation.simps [simp del]

definition key_text :: "pystr \<Rightarrow> bytes" where
  "key_text s = (case s of Str b \<Rightarrow> b | Uni u \<Rightarrow> map char_of u)"

definition interpolated :: "pystr list \<Rightarrow> pyexc + bytes" where
  \<comment> \<open>the words of a command, as \<open>%\<close> joins them and the socket takes them: one text word makes the whole
    command text, which has to be ASCII\<close>
  "interpolated ws =
     (if list_all (\<lambda>w. case w of Str _ \<Rightarrow> True | Uni _ \<Rightarrow> False) ws then Inr (py_join '' '' (map key_text ws))
      else sbind (sequence (map (\<lambda>w. sbind (to_unicode w) encode_ascii) ws)) (\<lambda>bs. Inr (py_join '' '' bs)))"

definition CRLF :: bytes where "CRLF = [CHR 0x0D, CHR 0x0A]"

definition command :: "pystr \<Rightarrow> pystr list \<Rightarrow> (bytes \<Rightarrow> (imap4, bytes) act) option \<Rightarrow> bytes \<Rightarrow> (imap4, bytes) act" where
  \<comment> \<open>\<open>_command(name, *args)\<close> with the arguments that are not \<open>None\<close>; \<open>literal\<close> sends what follows the
    line of the command, whose end is \<open>mark\<close>\<close>
  "command name args literal mark = withE (\<lambda>c.
     let nm = key_text name in
     if nm \<notin> fst ` set client_Commands then raiseE (KeyError nm)
     else if im_state c \<notin> set (allowed_states client_Commands nm)
     then raiseE (ImapError (''command '' @ nm @ '' illegal in state '' @ im_state c))
     else bindE (modE (\<lambda>c. c\<lparr>im_untagged := filter (\<lambda>(k, _). k \<notin> {''OK'', ''NO'', ''BAD''}) (im_untagged c)\<rparr>)) (\<lambda>_.
       withE (\<lambda>c.
         if ''READ-ONLY'' \<in> fst ` set (im_untagged c) \<and> \<not> im_is_readonly c
         then raiseE (ImapReadOnly ''mailbox status changed to READ-ONLY'')
         else bindE new_tag (\<lambda>tag.
              bindE (liftE (interpolated (Str tag # name # args))) (\<lambda>data.
              bindE (send (data @ mark @ CRLF)) (\<lambda>_.
              case literal of None \<Rightarrow> retE tag | Some l \<Rightarrow> l tag))))))"

definition literal_size :: "bytes \<Rightarrow> bytes" where
  "literal_size l = '' '' @ [CHR 0x7B] @ dec (length l) @ [CHR 0x7D]"

definition send_append_literal :: "bytes \<Rightarrow> bytes \<Rightarrow> (imap4, bytes) act" where
  "send_append_literal l tag =
     bindE (await_continuation tag) (\<lambda>answered.
       if answered then retE tag
       else bindE (send l) (\<lambda>_. bindE (send CRLF) (\<lambda>_. retE tag)))"

definition base64 :: "bytes \<Rightarrow> bytes" where
  "base64 b = b64_encode (concat (map (\<lambda>c. bits 8 (of_char c)) b)) @ replicate ((3 - length b mod 3) mod 3) (CHR ''='')"

lemma await_continuation_shrinks: "await_continuation tag c = (Inr x, d) \<Longrightarrow> length (im_inbox d) < length (im_inbox c)"
proof (induction tag c rule: await_continuation.induct)
  case (1 tag c)
  obtain r d' where g: "get_response c = (r, d')" by fastforce
  show ?case
  proof (cases r)
    case (Inr line)
    with g have less: "length (im_inbox d') < length (im_inbox c)" using get_response_shrinks by blast
    show ?thesis
    proof (cases "\<exists>l. line = Some l \<and> l \<noteq> [] \<and> map_of (im_tagged d') tag = Some None")
      case True
      then have "await_continuation tag c = await_continuation tag d'"
        using g Inr by (subst await_continuation.simps) auto
      with "1.IH" "1.prems" True g Inr less show ?thesis by fastforce
    next
      case False
      with "1.prems" g Inr less show ?thesis
        by (subst (asm) await_continuation.simps) (auto split: option.splits if_splits)
    qed
  qed (use "1.prems" g in \<open>subst (asm) await_continuation.simps, simp\<close>)
qed

function send_credentials :: "bytes \<Rightarrow> bytes \<Rightarrow> (imap4, bytes) act" where
  \<comment> \<open>the loop of \<open>_command\<close> for an authenticator: an answer to each continuation\<close>
  "send_credentials auth tag c =
     (case await_continuation tag c of
        (Inl e, d) \<Rightarrow> (Inl e, d)
      | (Inr True, d) \<Rightarrow> (Inr tag, d)
      | (Inr False, d) \<Rightarrow>
          send_credentials auth tag (d\<lparr>im_sent := im_sent d @ [base64 auth, CRLF]\<rparr>))"
  by pat_completeness auto
termination
  by (relation "measure (\<lambda>(_, _, c). length (im_inbox c))") (auto dest!: await_continuation_shrinks[OF sym])

declare send_credentials.simps [simp del]

type_synonym dat = "resp_record list option"
  \<comment> \<open>the data of a reply; \<open>None\<close> is the list \<open>[None]\<close>\<close>

function tagged_response :: "bytes \<Rightarrow> (imap4, bytes \<times> bytes) act" where
  "tagged_response tag c =
     (case map_of (im_tagged c) tag of
        None \<Rightarrow> (Inl (KeyError tag), c)
      | Some (Some r) \<Rightarrow> (Inr r, c\<lparr>im_tagged := AList.delete tag (im_tagged c)\<rparr>)
      | Some None \<Rightarrow>
          (case check_bye c of
             (Inl e, d) \<Rightarrow> (Inl e, d)
           | (Inr _, _) \<Rightarrow>
               (case get_response c of
                  (Inl e, d) \<Rightarrow> (Inl e, d)
                | (Inr _, d) \<Rightarrow> tagged_response tag d)))"
  by pat_completeness auto
termination
  by (relation "measure (\<lambda>(_, c). length (im_inbox c))") (auto dest!: get_response_shrinks[OF sym])

declare tagged_response.simps [simp del]

definition command_complete :: "bytes \<Rightarrow> bytes \<Rightarrow> (imap4, bytes \<times> dat) act" where
  "command_complete name tag =
     bindE (whenE (name \<noteq> ''LOGOUT'') check_bye) (\<lambda>_.
     bindE (tagged_response tag) (\<lambda>(typ, data).
     bindE (whenE (name \<noteq> ''LOGOUT'') check_bye) (\<lambda>_.
     if typ = ''BAD'' then raiseE (ImapError (name @ '' command error: '' @ typ @ '' '' @ data))
     else retE (typ, Some [Line data]))))"

definition simple_command :: "pystr \<Rightarrow> pystr list \<Rightarrow> (imap4, bytes \<times> dat) act" where
  "simple_command name args = bindE (command name args None []) (command_complete (key_text name))"

definition untagged_response :: "bytes \<Rightarrow> dat \<Rightarrow> bytes \<Rightarrow> (imap4, bytes \<times> dat) act" where
  "untagged_response typ dat name = withE (\<lambda>c.
     if typ = ''NO'' then retE (typ, dat)
     else (case map_of (im_untagged c) name of
         None \<Rightarrow> retE (typ, None)
       | Some ds \<Rightarrow> bindE (modE (\<lambda>c. c\<lparr>im_untagged := AList.delete name (im_untagged c)\<rparr>)) (\<lambda>_.
           retE (typ, Some ds))))"

definition command_untagged :: "bytes \<Rightarrow> pystr list \<Rightarrow> bytes \<Rightarrow> (imap4, bytes \<times> dat) act" where
  "command_untagged name args key =
     bindE (simple_command (Str name) args) (\<lambda>(typ, dat). untagged_response typ dat key)"

section \<open>The methods the client calls by name\<close>

datatype imap_call =
    Call bytes "pystr list"
  | Select pystr bool
  | Append pystr pystr "pystr option" bytes
  | Authenticate bytes bytes

definition set_state :: "bytes \<Rightarrow> (imap4, unit) act" where
  "set_state st = modE (\<lambda>c. c\<lparr>im_state := st\<rparr>)"

definition raise_unless_ok :: "bytes \<times> dat \<Rightarrow> (imap4, bytes \<times> dat) act" where
  \<comment> \<open>\<open>if typ != 'OK': raise self.error(dat[-1])\<close>, then the session is authenticated\<close>
  "raise_unless_ok r =
     (case r of (typ, dat) \<Rightarrow>
        if typ \<noteq> ''OK'' then raiseE (ImapError (last_text (case dat of None \<Rightarrow> [] | Some ds \<Rightarrow> ds)))
        else bindE (set_state ''AUTH'') (\<lambda>_. retE (typ, dat)))"

definition finallyE :: "('s, 'a) act \<Rightarrow> ('s, unit) act \<Rightarrow> ('s, 'a) act" where
  "finallyE m f s = (case m s of (r, t) \<Rightarrow> (case f t of (Inl e, u) \<Rightarrow> (Inl e, u) | (Inr _, u) \<Rightarrow> (r, u)))"

definition crlf_lines :: "bytes \<Rightarrow> bytes" where
  \<comment> \<open>\<open>MapCRLF.sub(CRLF, message)\<close>: every \<open>\r\n|\r|\n\<close> becomes \<open>\r\n\<close>\<close>
  "crlf_lines m =
     concat (map (\<lambda>c. if c = CHR 0x0A then CRLF else [c]) (replace_char (CHR 0x0D) (CHR 0x0A)
       (replace_pair (CHR 0x0D) (CHR 0x0A) (CHR 0x0A) m)))"

definition pq :: "pystr \<Rightarrow> pystr" where
  \<comment> \<open>\<open>IMAP4._quote\<close>\<close>
  "pq s = quote s"

definition upper_Str :: "bytes \<Rightarrow> pystr" where
  "upper_Str name = Str (py_upper name)"

definition imap_meth :: "imap_call \<Rightarrow> (imap4, bytes \<times> dat) act" where
  "imap_meth call =
     (case call of
        Call name args \<Rightarrow>
          if name = ''login'' then bindE (simple_command (Str ''LOGIN'') (butlast args @ [pq (last args)])) raise_unless_ok
              \<comment> \<open>the password, the last argument, is quoted\<close>
          else if name = ''close'' then finallyE (simple_command (Str ''CLOSE'') args) (set_state ''AUTH'')
          else if name = ''capability'' then command_untagged ''CAPABILITY'' args ''CAPABILITY''
          else if name = ''namespace'' then command_untagged ''NAMESPACE'' args ''NAMESPACE''
          else if name = ''status'' then command_untagged ''STATUS'' args ''STATUS''
          else if name = ''getacl'' then command_untagged ''GETACL'' args ''ACL''
          else if name = ''store'' then command_untagged ''STORE'' args ''FETCH''
          else simple_command (upper_Str name) args
            \<comment> \<open>\<open>create\<close>, \<open>rename\<close>, \<open>delete\<close>, \<open>subscribe\<close>, \<open>unsubscribe\<close>, \<open>copy\<close>, \<open>setacl\<close>\<close>
      | Select mailbox readonly \<Rightarrow>
          bindE (modE (\<lambda>c. c\<lparr>im_untagged := [], im_is_readonly := readonly\<rparr>)) (\<lambda>_.
          bindE (simple_command (Str (if readonly then ''EXAMINE'' else ''SELECT'')) [mailbox]) (\<lambda>(typ, dat).
          if typ \<noteq> ''OK'' then bindE (set_state ''AUTH'') (\<lambda>_. retE (typ, dat))
          else bindE (set_state ''SELECTED'') (\<lambda>_. withE (\<lambda>c.
            if ''READ-ONLY'' \<in> fst ` set (im_untagged c) \<and> \<not> readonly
            then raiseE (ImapReadOnly ''mailbox is not writable'')
            else retE (typ, map_of (im_untagged c) ''EXISTS'')))))
      | Append mailbox flags date_time message \<Rightarrow>
          (let l = crlf_lines message in
           bindE (command (Str ''APPEND'') (mailbox # flags # (case date_time of None \<Rightarrow> [] | Some d \<Rightarrow> [d]))
                    (Some (send_append_literal l)) (literal_size l)) (command_complete ''APPEND''))
      | Authenticate mech auth \<Rightarrow>
          bindE (bindE (command (Str ''AUTHENTICATE'') [ascii (py_upper mech)] (Some (send_credentials auth)) [])
                  (command_complete ''AUTHENTICATE'')) raise_unless_ok)"

definition imap_uid :: "bytes \<Rightarrow> pystr list \<Rightarrow> (imap4, bytes \<times> dat) act" where
  "imap_uid cmd args = withE (\<lambda>c.
     let cmd = py_upper cmd in
     if cmd \<notin> fst ` set client_Commands then raiseE (ImapError ''Unknown IMAP4 UID command'')
     else if im_state c \<notin> set (allowed_states client_Commands cmd)
     then raiseE (ImapError (''command '' @ cmd @ '' illegal in state '' @ im_state c))
     else command_untagged ''UID'' (ascii cmd # args)
            (if cmd \<in> {''SEARCH'', ''SORT'', ''THREAD''} then cmd else ''FETCH''))"

definition imap_logout :: "(imap4, bytes \<times> dat) act" where
  \<comment> \<open>an exception of the command becomes the answer \<open>NO\<close>\<close>
  "imap_logout =
     bindE (set_state ''LOGOUT'') (\<lambda>_.
     bindE (\<lambda>c. case simple_command (Str ''LOGOUT'') [] c of
        (Inl e, d) \<Rightarrow> (Inr (''NO'', Some [Line ''error'']), d) | r \<Rightarrow> r) (\<lambda>(typ, dat).
     withE (\<lambda>c. case map_of (im_untagged c) ''BYE'' of
        Some ds \<Rightarrow> retE (''BYE'', Some ds) | None \<Rightarrow> retE (typ, dat))))"

end
