(* ===== verification/ImapClient.thy ===== *)
theory ImapClient
  imports ImapConn
begin

text \<open>
  imapclient.py: the class \<open>IMAPClient\<close>. The object is a record with the connection as a field; a method
  is a state-passing call that returns or raises and leaves the object changed either way. What the
  methods read of their surroundings (recursion limit, \<open>sys.maxint\<close>, the clock's settings, codecs, the
  date parser of the standard library) is the record \<open>env\<close>. The debugging output is
  in ImapLog.
\<close>

section \<open>The client and its surroundings\<close>

record env =
  ev_depth :: nat
  ev_maxint :: int
  ev_parsedate_tz :: date_parser
  ev_sys :: system_time
  ev_codecs :: codecs

record client =
  cl_host :: bytes
  cl_port :: "int option"
  cl_ssl :: bool
  cl_stream :: bool
  cl_use_uid :: bool
  cl_folder_encode :: bool
  cl_normalise_times :: bool
  cl_timeout :: "int option"
  cl_starttls_done :: bool
  cl_cached_capabilities :: "bytes list option"
  cl_imap :: imap4
  cl_idle_tag :: "bytes option"
  cl_sock_timeout :: "int option"
    \<comment> \<open>of the socket: \<open>None\<close> blocks, \<open>Some 0\<close> is non-blocking\<close>

definition imapE :: "(imap4, 'a) act \<Rightarrow> (client, 'a) act" where
  \<comment> \<open>a call on \<open>self._imap\<close>\<close>
  "imapE m cl = (case m (cl_imap cl) of (r, c) \<Rightarrow> (r, cl\<lparr>cl_imap := c\<rparr>))"

definition no_socket :: pyexc where
  "no_socket = AttributeError ''settimeout''"

definition sock_settimeout :: "int option \<Rightarrow> (client, unit) act" where
  \<comment> \<open>\<open>self._sock.settimeout\<close>, or \<open>setblocking\<close>; the \<open>sock\<close> of an \<open>IMAP4_stream\<close> is None\<close>
  "sock_settimeout t = withE (\<lambda>cl.
     if cl_stream cl then raiseE no_socket else modE (\<lambda>cl. cl\<lparr>cl_sock_timeout := t\<rparr>))"

definition set_timeout :: "(client, unit) act" where
  "set_timeout = withE (\<lambda>cl. whenE (cl_timeout cl \<noteq> None) (sock_settimeout (cl_timeout cl)))"

datatype transport = Stream bytes | Tls bytes "int option" | Plain bytes "int option"
  \<comment> \<open>which class of \<open>imaplib\<close> the client is built on: the command, or host and port\<close>

definition create_IMAP4 :: "client \<Rightarrow> transport" where
  "create_IMAP4 cl =
     (if cl_stream cl then Stream (cl_host cl)
      else if cl_ssl cl then Tls (cl_host cl) (cl_port cl)
      else Plain (cl_host cl) (cl_port cl))"

definition new_client :: "(transport \<Rightarrow> int option \<Rightarrow> pyexc + imap4) \<Rightarrow> bytes \<Rightarrow> int option \<Rightarrow> bool \<Rightarrow> bool \<Rightarrow> bool \<Rightarrow>
    int option \<Rightarrow> pyexc + client" where
  \<comment> \<open>\<open>connect\<close> opens the connection, given the transport and the timeout\<close>
  "new_client connect host port use_uid ssl stream timeout =
     (if stream \<and> port \<noteq> None then Inl (ValueError ''can't set 'port' when 'stream' True'')
      else if stream \<and> ssl then Inl (ValueError ''can't use 'ssl' when 'stream' is True'')
      else
        let port = (if \<not> stream \<and> port = None then Some (if ssl then 993 else 143) else port);
            self = \<lparr>cl_host = host, cl_port = port, cl_ssl = ssl, cl_stream = stream, cl_use_uid = use_uid,
              cl_folder_encode = True, cl_normalise_times = True, cl_timeout = timeout,
              cl_starttls_done = False, cl_cached_capabilities = None,
              cl_imap = \<lparr>im_inbox = [], im_sent = [], im_tagged = [], im_untagged = [], im_state = [],
                im_capabilities = [], im_tagpre = [], im_tagnum = 0, im_is_readonly = False\<rparr>,
              cl_idle_tag = None, cl_sock_timeout = None\<rparr>
        in sbind (connect (create_IMAP4 self) timeout) (\<lambda>imap.
             case set_timeout (self\<lparr>cl_imap := imap\<rparr>) of
               (Inl e, _) \<Rightarrow> Inl e
             | (Inr _, cl) \<Rightarrow> Inr cl))"

text \<open>The system flags.\<close>

definition DELETED :: bytes where "DELETED = BACKSLASH # ''Deleted''"
definition SEEN :: bytes where "SEEN = BACKSLASH # ''Seen''"
definition ANSWERED :: bytes where "ANSWERED = BACKSLASH # ''Answered''"
definition FLAGGED :: bytes where "FLAGGED = BACKSLASH # ''Flagged''"
definition DRAFT :: bytes where "DRAFT = BACKSLASH # ''Draft''"
definition RECENT :: bytes where "RECENT = BACKSLASH # ''Recent''"

section \<open>Checking replies\<close>

definition first_text :: "dat \<Rightarrow> bytes" where
  "first_text data = (case data of Some (Line l # _) \<Rightarrow> l | _ \<Rightarrow> [])"

definition check_resp :: "bytes \<Rightarrow> bytes \<Rightarrow> bytes \<Rightarrow> dat \<Rightarrow> pyexc + unit" where
  \<comment> \<open>the message shows \<open>to_unicode(data[0])\<close>\<close>
  "check_resp expected cmd typ data =
     (if typ \<noteq> expected then
        if data = Some [] then Inl (IndexError ''list index out of range'')
        else if \<not> is_ascii (first_text data) then Inl (UnicodeError ''ordinal not in range(128)'')
        else Inl (ImapError (cmd @ '' failed: '' @ first_text data))
      else Inr ())"

definition checkok :: "bytes \<Rightarrow> bytes \<Rightarrow> dat \<Rightarrow> pyexc + unit" where
  "checkok cmd typ data = check_resp ''OK'' cmd typ data"

definition unpacked :: "dat \<Rightarrow> pyexc + resp_record option" where
  \<comment> \<open>\<open>data[0]\<close>\<close>
  "unpacked data = (case data of
     None \<Rightarrow> Inr None | Some [] \<Rightarrow> Inl (IndexError ''list index out of range'') | Some (d # _) \<Rightarrow> Inr (Some d))"

definition call_name :: "imap_call \<Rightarrow> bytes" where
  "call_name call = (case call of
     Call name _ \<Rightarrow> name | Select _ _ \<Rightarrow> ''select'' | Append _ _ _ _ \<Rightarrow> ''append'' | Authenticate _ _ \<Rightarrow> ''authenticate'')"

definition call_args :: "imap_call \<Rightarrow> pystr list" where
  "call_args call = (case call of Call _ args \<Rightarrow> args | _ \<Rightarrow> [])"

definition command_and_check :: "imap_call \<Rightarrow> bool \<Rightarrow> (client, dat) act" where
  \<comment> \<open>with \<open>unpack=False\<close>; the flag is \<open>uid\<close>\<close>
  "command_and_check call uid = withE (\<lambda>cl.
     bindE (imapE (if uid \<and> cl_use_uid cl then imap_uid (call_name call) (call_args call) else imap_meth call)) (\<lambda>(typ, data).
     bindE (liftE (checkok (call_name call) typ data)) (\<lambda>_. retE data)))"

definition command_unpacked :: "imap_call \<Rightarrow> bool \<Rightarrow> (client, resp_record option) act" where
  \<comment> \<open>with \<open>unpack=True\<close>\<close>
  "command_unpacked call uid = bindE (command_and_check call uid) (\<lambda>data. liftE (unpacked data))"

fun consume :: "nat \<Rightarrow> nat \<Rightarrow> bytes option \<Rightarrow> imapval list list \<Rightarrow> (imap4, imapval list list) act" where
  \<comment> \<open>the loop of \<open>_consume_until_tagged_response\<close>\<close>
  "consume depth 0 tag resps c = (Inl OUT_OF_FUEL, c)"
| "consume depth (Suc k) tag resps c =
     bindE get_response (\<lambda>line. withE (\<lambda>c.
       case (case tag of None \<Rightarrow> None | Some t \<Rightarrow> map_of (im_tagged c) t) of
         None \<Rightarrow> raiseE (KeyError ''tag'')
       | Some (Some r) \<Rightarrow> retE resps
       | Some None \<Rightarrow>
           (case line of
              None \<Rightarrow> raiseE (AttributeError ''startswith'')
            | Some l \<Rightarrow> bindE (liftE (parse_untagged_response depth l)) (\<lambda>r. consume depth k tag (resps @ [r]))))) c"

definition consume_until_tagged_response :: "env \<Rightarrow> bytes option \<Rightarrow> bytes \<Rightarrow> (client, bytes \<times> imapval list list) act" where
  "consume_until_tagged_response env tag cmd = withE (\<lambda>cl.
     bindE (imapE (consume (ev_depth env) (Suc (length (im_inbox (cl_imap cl)))) tag [])) (\<lambda>resps. withE (\<lambda>cl.
       case map_of (im_tagged (cl_imap cl)) (the tag) of
         Some (Some (typ, data)) \<Rightarrow>
           bindE (modE (\<lambda>cl. cl\<lparr>cl_imap := (cl_imap cl)\<lparr>im_tagged := AList.delete (the tag) (im_tagged (cl_imap cl))\<rparr>\<rparr>)) (\<lambda>_.
           bindE (liftE (checkok cmd typ (Some [Line data]))) (\<lambda>_. retE (data, resps)))
       | _ \<Rightarrow> raiseE (KeyError ''tag''))))"

section \<open>Commands with literals\<close>

function send_literal_wait :: "bytes \<Rightarrow> (imap4, unit) act" where
  \<comment> \<open>\<open>while self._imap._get_response()\<close> of \<open>_send_literal\<close>\<close>
  "send_literal_wait tag c =
     (case get_response c of
        (Inl e, d) \<Rightarrow> (Inl e, d)
      | (Inr None, d) \<Rightarrow> (Inr (), d)
      | (Inr (Some line), d) \<Rightarrow>
          if line = [] then (Inr (), d)
          else (case map_of (im_tagged d) tag of
              Some (Some r) \<Rightarrow> (Inl (ImapAbort ''unexpected response while waiting for continuation response''), d)
            | _ \<Rightarrow> send_literal_wait tag d))"
  by pat_completeness auto
termination
  by (relation "measure (\<lambda>(_, c). length (im_inbox c))") (auto dest!: get_response_shrinks[OF sym])

declare send_literal_wait.simps [simp del]

definition send_literal :: "bytes \<Rightarrow> bytes \<Rightarrow> (imap4, unit) act" where
  "send_literal tag item =
     bindE (send ('' '' @ [CHR 0x7B] @ dec (length item) @ [CHR 0x7D] @ CRLF)) (\<lambda>_.
     bindE (send_literal_wait tag) (\<lambda>_. send item))"

fun send_items :: "bytes \<Rightarrow> (bytes \<times> bool) list \<Rightarrow> bytes list \<Rightarrow> (imap4, bytes list) act" where
  \<comment> \<open>the loop of \<open>_raw_command\<close>; the result is what is left in \<open>line\<close>\<close>
  "send_items tag [] line = retE line"
| "send_items tag ((item, is_last) # items) line =
     (if is8bit item then
        bindE (whenE (line \<noteq> []) (send (py_join '' '' line))) (\<lambda>_.
        bindE (send_literal tag item) (\<lambda>_.
        bindE (whenE (\<not> is_last) (send '' '')) (\<lambda>_. send_items tag items [])))
      else send_items tag items (line @ [item]))"

definition raw_command :: "bytes \<Rightarrow> bytes list \<Rightarrow> (client, bytes \<times> dat) act" where
  "raw_command cmd args = withE (\<lambda>cl.
     let cmd = py_upper cmd in
     imapE (bindE new_tag (\<lambda>tag.
       let prefix = [tag] @ (if cl_use_uid cl then [''UID''] else []) @ [cmd] in
       bindE (send_items tag (iter_with_last (prefix @ args)) []) (\<lambda>line.
       bindE (whenE (line \<noteq> []) (send (py_join '' '' line))) (\<lambda>_.
       bindE (send CRLF) (\<lambda>_. command_complete cmd tag))))))"

definition raw_command_untagged :: "bytes \<Rightarrow> bytes list \<Rightarrow> (client, dat) act" where
  "raw_command_untagged cmd args =
     bindE (raw_command cmd args) (\<lambda>(typ, data).
     bindE (imapE (untagged_response typ data cmd)) (\<lambda>(typ, data).
     bindE (liftE (checkok cmd typ data)) (\<lambda>_. retE data)))"

section \<open>Sessions\<close>

definition starttls :: "pyexc + imap4 \<Rightarrow> (client, resp_record option) act" where
  \<comment> \<open>\<open>wrapped\<close>: what wrapping the socket gives, an error or the connection over the new socket\<close>
  "starttls wrapped = withE (\<lambda>cl.
     if cl_ssl cl \<or> cl_starttls_done cl then raiseE (ImapAbort ''TLS session already established'')
     else bindE (imapE (simple_command (ascii ''STARTTLS'') [])) (\<lambda>(typ, data).
       bindE (liftE (checkok ''starttls'' typ data)) (\<lambda>_.
       bindE (modE (\<lambda>cl. cl\<lparr>cl_starttls_done := True, cl_cached_capabilities := None\<rparr>)) (\<lambda>_.
       bindE (liftE wrapped) (\<lambda>imap.
       bindE (modE (\<lambda>cl. cl\<lparr>cl_imap := imap\<rparr>)) (\<lambda>_. liftE (unpacked data)))))))"

definition text_args :: "pystr option \<Rightarrow> pyexc + pystr list" where
  \<comment> \<open>\<open>to_unicode\<close> of an argument; \<open>imaplib\<close> leaves out an argument that is \<open>None\<close>\<close>
  "text_args s = (case s of None \<Rightarrow> Inr [] | Some t \<Rightarrow> sbind (to_unicode t) (\<lambda>u. Inr [Uni u]))"

definition login :: "pystr option \<Rightarrow> pystr option \<Rightarrow> (client, resp_record option) act" where
  "login username password =
     bindE (liftE (text_args username)) (\<lambda>u.
     bindE (liftE (text_args password)) (\<lambda>p.
     if p = [] then raiseE (AttributeError ''replace'')
     else command_unpacked (Call ''login'' (u @ p)) False))"

definition oauth_login :: "bytes option \<Rightarrow> (client, resp_record option) act" where
  \<comment> \<open>\<open>None\<close>: the package \<open>oauth2\<close> is not installed; otherwise what it builds for the URL and the tokens\<close>
  "oauth_login xoauth_string =
     (case xoauth_string of
        Some s \<Rightarrow> command_unpacked (Authenticate ''XOAUTH'' s) False
      | None \<Rightarrow> raiseE (ImapError ''The optional oauth2 package is needed for OAUTH authentication''))"

definition oauth2_login :: "bytes \<Rightarrow> bytes \<Rightarrow> bytes \<Rightarrow> bytes option \<Rightarrow> (client, dat) act" where
  "oauth2_login user access_token mech vendor =
     (let auth_string = ''user='' @ user @ [CHR 0x01] @ ''auth=Bearer '' @ access_token @ [CHR 0x01];
          auth_string = auth_string @ (case vendor of Some (v # vs) \<Rightarrow> ''vendor='' @ (v # vs) @ [CHR 0x01] | _ \<Rightarrow> []);
          auth_string = auth_string @ [CHR 0x01]
      in command_and_check (Authenticate mech auth_string) False)"

definition logout :: "(client, resp_record option) act" where
  "logout =
     bindE (imapE imap_logout) (\<lambda>(typ, data).
     bindE (liftE (check_resp ''BYE'' ''logout'' typ data)) (\<lambda>_. liftE (unpacked data)))"

definition client_shutdown :: "(imap4, unit) act \<Rightarrow> (client, unit) act" where
  \<comment> \<open>\<open>shutdown\<close>, which is the one of the connection\<close>
  "client_shutdown shut = imapE shut"

fun py_words :: "bytes \<Rightarrow> bytes list" where
  \<comment> \<open>\<open>s.split()\<close>\<close>
  "py_words [] = []"
| "py_words (c # cs) =
     (if is_space c then py_words cs
      else (case cs of
          [] \<Rightarrow> [[c]]
        | d # _ \<Rightarrow> if is_space d then [c] # py_words cs
                   else (case py_words cs of [] \<Rightarrow> [[c]] | w # ws \<Rightarrow> (c # w) # ws)))"

definition save_capabilities :: "resp_record option \<Rightarrow> (client, bytes list) act" where
  "save_capabilities raw_response =
     (case raw_response of
        Some (Line r) \<Rightarrow>
          (let caps = py_words (py_upper r) in
           bindE (modE (\<lambda>cl. cl\<lparr>cl_cached_capabilities := Some caps\<rparr>)) (\<lambda>_. retE caps))
      | _ \<Rightarrow> raiseE (AttributeError ''upper''))"

definition untagged_dict :: "client \<Rightarrow> (pystr \<times> resp_record list) list" where
  "untagged_dict cl = map (\<lambda>(k, v). (Str k, v)) (im_untagged (cl_imap cl))"

definition capabilities :: "(client, bytes list) act" where
  "capabilities = withE (\<lambda>cl.
     case cl_cached_capabilities cl of
       Some (c # cs) \<Rightarrow> retE (c # cs)
     | _ \<Rightarrow>
         bindE (liftE (normaliser_pop (untagged_dict cl) (Str ''CAPABILITY'') (Some []))) (\<lambda>(response, untagged).
         bindE (modE (\<lambda>cl. cl\<lparr>cl_imap := (cl_imap cl)\<lparr>im_untagged := map (\<lambda>(k, v). (key_text k, v)) untagged\<rparr>\<rparr>)) (\<lambda>_.
         case response of
           d # _ \<Rightarrow> save_capabilities (Some d)
         | [] \<Rightarrow>
             if im_state (cl_imap cl) \<in> {''SELECTED'', ''AUTH''}
             then bindE (command_unpacked (Call ''capability'' []) False) save_capabilities
             else retE (im_capabilities (cl_imap cl)))))"

definition has_capability :: "pystr \<Rightarrow> (client, bool) act" where
  "has_capability capability =
     bindE (liftE (to_bytes capability)) (\<lambda>c. bindE capabilities (\<lambda>cs. retE (py_upper c \<in> set cs)))"

datatype id_parameters = NoParams | Params "(pystr \<times> pystr) list" | NotADict

definition id_command :: "env \<Rightarrow> id_parameters \<Rightarrow> (client, imapval list) act" where
  "id_command env parameters =
     bindE (has_capability (ascii ''ID'')) (\<lambda>has.
     if \<not> has then raiseE (ValueError ''server does not support IMAP ID extension'')
     else bindE (liftE (case parameters of
         NoParams \<Rightarrow> Inr (map of_char ''NIL'')
       | NotADict \<Rightarrow> Inl (TypeError ''parameters should be a dictionary'')
       | Params ps \<Rightarrow> seq_to_parenstr (Many (concat (map (\<lambda>(k, v). [quote k, quote v]) ps))))) (\<lambda>args.
     bindE (imapE (simple_command (ascii ''ID'') [Uni args])) (\<lambda>(typ, data).
     bindE (liftE (checkok ''id'' typ data)) (\<lambda>_.
     bindE (imapE (untagged_response typ data ''ID'')) (\<lambda>(typ, data).
     liftE (parse_response (ev_depth env) data))))))"

datatype ns_text = NsText "nat list" | NsRaw imapval

definition ns_prefix :: "bool \<Rightarrow> imapval \<Rightarrow> pyexc + ns_text" where
  "ns_prefix folder_encode v =
     (case v of
        IBytes b \<Rightarrow> if folder_encode then sbind (imap_decode b) (\<lambda>u. Inr (NsText u)) else Inr (NsRaw v)
      | _ \<Rightarrow> Inr (NsRaw v))"

definition ns_separator :: "imapval \<Rightarrow> pyexc + ns_text" where
  "ns_separator v = (case v of IBytes b \<Rightarrow> sbind (decode_ascii b) (\<lambda>u. Inr (NsText u)) | _ \<Rightarrow> Inr (NsRaw v))"

definition ns_item :: "bool \<Rightarrow> imapval \<Rightarrow> pyexc + (ns_text \<times> ns_text) list option" where
  "ns_item folder_encode item =
     (if item = INone then Inr None
      else sbind (seq_items item) (\<lambda>pairs.
        sbind (sequence (map (\<lambda>p. sbind (seq_items p) (\<lambda>vs. case vs of
            [prefix, separator] \<Rightarrow>
              sbind (ns_prefix folder_encode prefix) (\<lambda>p. sbind (ns_separator separator) (\<lambda>s. Inr (p, s)))
          | _ \<Rightarrow> Inl (ValueError ''wrong number of values to unpack''))) pairs)) (\<lambda>ps. Inr (Some ps))))"

record namespaces =
  ns_personal :: "(ns_text \<times> ns_text) list option"
  ns_other :: "(ns_text \<times> ns_text) list option"
  ns_shared :: "(ns_text \<times> ns_text) list option"

definition namespace :: "env \<Rightarrow> (client, namespaces) act" where
  "namespace env =
     bindE (command_and_check (Call ''namespace'' []) False) (\<lambda>data.
     bindE (liftE (parse_response (ev_depth env) data)) (\<lambda>items. withE (\<lambda>cl.
     bindE (liftE (sequence (map (ns_item (cl_folder_encode cl)) items))) (\<lambda>parts.
     case parts of
       [p, ot, sh] \<Rightarrow> retE \<lparr>ns_personal = p, ns_other = ot, ns_shared = sh\<rparr>
     | _ \<Rightarrow> raiseE (TypeError ''__new__() takes exactly 4 arguments'')))))"

section \<open>Folders\<close>

definition some_items :: "dat \<Rightarrow> resp_record list" where
  \<comment> \<open>\<open>[item for item in folder_data if item not in ('', None)]\<close>\<close>
  "some_items folder_data = (case folder_data of None \<Rightarrow> [] | Some ds \<Rightarrow> filter (\<lambda>d. d \<noteq> Line []) ds)"

fun folder_entries :: "bool \<Rightarrow> imapval list \<Rightarrow> pyexc + (imapval \<times> imapval \<times> ns_text) list" where
  "folder_entries folder_encode (flags # delim # name # parsed) =
     sbind (case name of
         IInt n \<Rightarrow> Inr (NsText (map of_char (dec_int n)))
       | _ \<Rightarrow> ns_prefix folder_encode name) (\<lambda>name.
     sbind (folder_entries folder_encode parsed) (\<lambda>ret. Inr ((flags, delim, name) # ret)))"
| "folder_entries folder_encode [] = Inr []"
| "folder_entries folder_encode parsed = Inl (ValueError ''need more values to unpack'')"

definition proc_folder_list :: "env \<Rightarrow> bool \<Rightarrow> dat \<Rightarrow> pyexc + (imapval \<times> imapval \<times> ns_text) list" where
  "proc_folder_list env folder_encode folder_data =
     sbind (parse_response (ev_depth env) (Some (some_items folder_data))) (folder_entries folder_encode)"

definition do_list :: "env \<Rightarrow> bytes \<Rightarrow> pystr \<Rightarrow> pystr \<Rightarrow> (client, (imapval \<times> imapval \<times> ns_text) list) act" where
  "do_list env cmd directory pattern = withE (\<lambda>cl.
     bindE (liftE (normalise_folder (cl_folder_encode cl) directory)) (\<lambda>directory.
     bindE (liftE (normalise_folder (cl_folder_encode cl) pattern)) (\<lambda>pattern.
     bindE (imapE (simple_command (ascii cmd) [directory, pattern])) (\<lambda>(typ, dat).
     bindE (liftE (checkok cmd typ dat)) (\<lambda>_.
     bindE (imapE (untagged_response typ dat cmd)) (\<lambda>(typ, dat).
     liftE (proc_folder_list env (cl_folder_encode cl) dat)))))))"

definition list_folders :: "env \<Rightarrow> pystr \<Rightarrow> pystr \<Rightarrow> (client, (imapval \<times> imapval \<times> ns_text) list) act" where
  "list_folders env directory pattern = do_list env ''LIST'' directory pattern"

definition xlist_folders :: "env \<Rightarrow> pystr \<Rightarrow> pystr \<Rightarrow> (client, (imapval \<times> imapval \<times> ns_text) list) act" where
  "xlist_folders env directory pattern = do_list env ''XLIST'' directory pattern"

definition list_sub_folders :: "env \<Rightarrow> pystr \<Rightarrow> pystr \<Rightarrow> (client, (imapval \<times> imapval \<times> ns_text) list) act" where
  "list_sub_folders env directory pattern = do_list env ''LSUB'' directory pattern"

definition folder_exists :: "env \<Rightarrow> pystr \<Rightarrow> (client, bool) act" where
  "folder_exists env folder = bindE (list_folders env (ascii []) folder) (\<lambda>fs. retE (length fs > 0))"

datatype sel_val = SelInt int | SelTrue | SelWords "bytes list" | SelRaw "resp_record list"

definition upper_dash :: "char \<Rightarrow> bool" where
  "upper_dash c \<longleftrightarrow> c = CHR ''-'' \<or> (65 \<le> (of_char c :: nat) \<and> (of_char c :: nat) \<le> 90)"

fun last_close :: "bytes \<Rightarrow> bytes option" where
  \<comment> \<open>what \<open>(.*)\)\]\<close> matches for the group: up to the last \<open>)]\<close> of the line\<close>
  "last_close [] = None"
| "last_close (c # cs) =
     (if c = CHR 0x0A then None
      else case last_close cs of
        Some d \<Rightarrow> Some (c # d)
      | None \<Rightarrow> if c = CHR '')'' \<and> take 1 cs = '']'' then Some [] else None)"

definition ok_code :: "bytes \<Rightarrow> (bytes \<times> bytes option) option" where
  \<comment> \<open>\<open>\[(?P<key>[A-Z-]+)( \((?P<data>.*)\))?\]\<close>\<close>
  "ok_code line =
     (if take 1 line \<noteq> ''['' then None
      else let key = takeWhile upper_dash (tl line); r = dropWhile upper_dash (tl line) in
        if key = [] then None
        else if take 1 r = '']'' then Some (key, None)
        else if take 2 r = '' ('' then map_option (\<lambda>d. (key, Some d)) (last_close (drop 2 r))
        else None)"

fun permanent_flags :: "resp_record list \<Rightarrow> (bytes \<rightharpoonup> sel_val) \<Rightarrow> pyexc + (bytes \<rightharpoonup> sel_val)" where
  "permanent_flags [] out = Inr out"
| "permanent_flags (WithLiteral l b # lines) out = Inl (TypeError ''expected string or buffer'')"
| "permanent_flags (Line line # lines) out =
     (case ok_code line of
        Some (key, data) \<Rightarrow>
          if key = ''PERMANENTFLAGS'' then
            (case data of
               None \<Rightarrow> Inl (AttributeError ''split'')
             | Some d \<Rightarrow> permanent_flags lines (out(key \<mapsto> SelWords (py_words d))))
          else permanent_flags lines out
      | None \<Rightarrow> permanent_flags lines out)"

definition select_value :: "bytes \<Rightarrow> resp_record list \<Rightarrow> pyexc + sel_val" where
  "select_value key value =
     (let v0 = (case value of [] \<Rightarrow> Inl (IndexError ''list index out of range'') | v # _ \<Rightarrow> Inr v) in
      if key \<in> {''EXISTS'', ''RECENT'', ''UIDNEXT'', ''UIDVALIDITY'', ''HIGHESTMODSEQ''} then
        sbind v0 (\<lambda>v. case v of
            Line l \<Rightarrow> sbind (int_of_bytes l) (\<lambda>n. Inr (SelInt n))
          | WithLiteral _ _ \<Rightarrow> Inl (TypeError ''int() argument must be a string or a number''))
      else if key = ''READ-WRITE'' then Inr SelTrue
      else if key = ''FLAGS'' then
        sbind v0 (\<lambda>v. case v of
            Line l \<Rightarrow> Inr (SelWords (py_words (butlast (tl l))))
          | WithLiteral _ _ \<Rightarrow> Inl (AttributeError ''split''))
      else Inr (SelRaw value))"

fun select_items :: "(bytes \<times> resp_record list) list \<Rightarrow> (bytes \<rightharpoonup> sel_val) \<Rightarrow> pyexc + (bytes \<rightharpoonup> sel_val)" where
  "select_items [] out = Inr out"
| "select_items ((key, value) # items) out =
     (let key = py_upper key in
      if key \<in> {''OK'', ''PERMANENTFLAGS''} then select_items items out
      else sbind (select_value key value) (\<lambda>v. select_items items (out(key \<mapsto> v))))"

definition process_select_response :: "(pystr \<times> resp_record list) list \<Rightarrow> pyexc + (bytes \<rightharpoonup> sel_val)" where
  "process_select_response untagged =
     sbind (normaliser_get untagged (Str ''OK'') (Some [])) (\<lambda>lines.
     sbind (permanent_flags lines Map.empty) (\<lambda>out.
     sbind (normaliser_iteritems untagged) (\<lambda>items. select_items items out)))"

definition select_folder :: "pystr \<Rightarrow> bool \<Rightarrow> (client, bytes \<rightharpoonup> sel_val) act" where
  "select_folder folder readonly = withE (\<lambda>cl.
     bindE (liftE (normalise_folder (cl_folder_encode cl) folder)) (\<lambda>f.
     bindE (command_and_check (Select f readonly) False) (\<lambda>_. withE (\<lambda>cl.
     liftE (process_select_response (untagged_dict cl))))))"

definition folder_status :: "env \<Rightarrow> pystr \<Rightarrow> texts option \<Rightarrow> (client, (imapval \<times> imapval) list) act" where
  \<comment> \<open>the pairs the dictionary is built from\<close>
  "folder_status env folder what = withE (\<lambda>cl.
     bindE (liftE (case what of
         None \<Rightarrow> Inr (map (map of_char) [''MESSAGES'', ''RECENT'', ''UIDNEXT'', ''UIDVALIDITY'', ''UNSEEN''])
       | Some w \<Rightarrow> normalise_text_list w)) (\<lambda>what.
     let whats = [0x28] @ py_join [0x20] what @ [0x29] in
     bindE (liftE (normalise_folder (cl_folder_encode cl) folder)) (\<lambda>f.
     bindE (command_and_check (Call ''status'' [f, Uni whats]) False) (\<lambda>data.
     bindE (liftE (parse_response (ev_depth env) data)) (\<lambda>vs.
     case vs of
       [_, status_items] \<Rightarrow> bindE (liftE (seq_items status_items)) (\<lambda>items. retE (as_pairs items))
     | _ \<Rightarrow> raiseE (ValueError ''wrong number of values to unpack''))))))"

definition close_folder :: "(client, resp_record option) act" where
  "close_folder = command_unpacked (Call ''close'' []) False"

definition folder_command :: "bytes \<Rightarrow> pystr list \<Rightarrow> pystr list \<Rightarrow> (client, dat) act" where
  \<comment> \<open>a command on folder names, each normalised, and further arguments\<close>
  "folder_command cmd folders args = withE (\<lambda>cl.
     bindE (liftE (sequence (map (normalise_folder (cl_folder_encode cl)) folders))) (\<lambda>fs.
     command_and_check (Call cmd (fs @ args)) False))"

definition unpackE :: "(client, dat) act \<Rightarrow> (client, resp_record option) act" where
  "unpackE m = bindE m (\<lambda>data. liftE (unpacked data))"

definition create_folder :: "pystr \<Rightarrow> (client, resp_record option) act" where
  "create_folder folder = unpackE (folder_command ''create'' [folder] [])"

definition rename_folder :: "pystr \<Rightarrow> pystr \<Rightarrow> (client, resp_record option) act" where
  "rename_folder old_name new_name = unpackE (folder_command ''rename'' [old_name, new_name] [])"

definition delete_folder :: "pystr \<Rightarrow> (client, resp_record option) act" where
  "delete_folder folder = unpackE (folder_command ''delete'' [folder] [])"

definition subscribe_folder :: "pystr \<Rightarrow> (client, dat) act" where
  "subscribe_folder folder = folder_command ''subscribe'' [folder] []"

definition unsubscribe_folder :: "pystr \<Rightarrow> (client, dat) act" where
  "unsubscribe_folder folder = folder_command ''unsubscribe'' [folder] []"

definition setacl :: "pystr \<Rightarrow> pystr \<Rightarrow> pystr \<Rightarrow> (client, resp_record option) act" where
  "setacl folder who what = unpackE (folder_command ''setacl'' [folder] [who, what])"

definition getacl :: "pystr \<Rightarrow> (client, (bytes \<times> bytes) list) act" where
  "getacl folder =
     bindE (folder_command ''getacl'' [folder] []) (\<lambda>data.
     bindE (liftE (case data of
         None \<Rightarrow> Inl (TypeError ''argument of lexer is None'')
       | Some ds \<Rightarrow> (case lexer ds of (ts, None) \<Rightarrow> Inr (map fst ts) | (ts, Some e) \<Rightarrow> Inl e))) (\<lambda>parts.
     let parts = drop 1 parts in
     if odd (length parts) then raiseE (IndexError ''list index out of range'') else retE (as_pairs parts)))"

section \<open>Searching, fetching and flags\<close>

definition message_list_data :: "dat \<Rightarrow> pyexc + bytes option list" where
  "message_list_data data =
     (case data of
        None \<Rightarrow> Inr [None]
      | Some [WithLiteral l b] \<Rightarrow> Inl (TypeError ''expected string or buffer'')
      | Some ds \<Rightarrow> Inr (map (\<lambda>d. case d of Line l \<Rightarrow> Some l | WithLiteral l _ \<Rightarrow> Some l) ds))"

definition search_args :: "env \<Rightarrow> criteria \<Rightarrow> pystr option \<Rightarrow> pyexc + bytes list" where
  "search_args env criteria charset =
     (let charset = (if charset \<in> {None, Some (Str []), Some (Uni [])} then None else charset) in
      sbind (case charset of None \<Rightarrow> Inr [] | Some c \<Rightarrow> sbind (to_bytes c) (\<lambda>c. Inr [''CHARSET'', c])) (\<lambda>args.
      sbind (normalise_search_criteria (ev_codecs env) criteria (map_option key_text charset)) (\<lambda>cs.
        Inr (args @ cs))))"

definition do_search :: "env \<Rightarrow> criteria \<Rightarrow> pystr option \<Rightarrow> (client, search_ids) act" where
  \<comment> \<open>\<open>_search\<close>\<close>
  "do_search env criteria charset =
     bindE (liftE (search_args env criteria charset)) (\<lambda>args.
     bindE (raw_command_untagged ''SEARCH'' args) (\<lambda>data.
     bindE (liftE (message_list_data data)) (\<lambda>d.
     liftE (parse_message_list (ev_maxint env) (ev_depth env) d))))"

definition search :: "env \<Rightarrow> criteria \<Rightarrow> pystr option \<Rightarrow> (client, search_ids) act" where
  "search env criteria charset = do_search env criteria charset"

definition gmail_search :: "env \<Rightarrow> pystr \<Rightarrow> pystr option \<Rightarrow> (client, search_ids) act" where
  "gmail_search env query charset = do_search env (Items [CText (Str ''X-GM-RAW''), CText query]) charset"

definition sort_messages :: "env \<Rightarrow> texts \<Rightarrow> criteria \<Rightarrow> pystr \<Rightarrow> (client, int list) act" where
  \<comment> \<open>\<open>sort\<close>\<close>
  "sort_messages env sort_criteria criteria charset =
     bindE (has_capability (ascii ''SORT'')) (\<lambda>has.
     if \<not> has then raiseE (ValueError ''The server does not support the SORT extension'')
     else bindE (liftE (normalise_sort_criteria sort_criteria)) (\<lambda>sc.
     bindE (liftE (to_bytes charset)) (\<lambda>cs.
     bindE (liftE (normalise_search_criteria (ev_codecs env) criteria (Some (key_text charset)))) (\<lambda>args.
     bindE (raw_command_untagged ''SORT'' ([sc, cs] @ args)) (\<lambda>data.
     bindE (liftE (unpacked data)) (\<lambda>ids.
     case ids of
       Some (Line l) \<Rightarrow> liftE (sequence (map int_of_bytes (py_words l)))
     | _ \<Rightarrow> raiseE (AttributeError ''split'')))))))"

definition thread :: "env \<Rightarrow> pystr \<Rightarrow> criteria \<Rightarrow> pystr \<Rightarrow> (client, imapval list) act" where
  "thread env algorithm criteria charset =
     bindE (liftE (to_bytes algorithm)) (\<lambda>algorithm.
     bindE (has_capability (Str (''THREAD='' @ algorithm))) (\<lambda>has.
     if \<not> has then raiseE (ValueError ''server does not support the threading algorithm'')
     else bindE (liftE (to_bytes charset)) (\<lambda>cs.
     bindE (liftE (normalise_search_criteria (ev_codecs env) criteria (Some (key_text charset)))) (\<lambda>args.
     bindE (raw_command_untagged ''THREAD'' ([algorithm, cs] @ args)) (\<lambda>data.
     liftE (parse_response (ev_depth env) data))))))"

definition fetch :: "env \<Rightarrow> messages \<Rightarrow> texts \<Rightarrow> texts \<Rightarrow> (client, int \<rightharpoonup> msg_data) act" where
  \<comment> \<open>the last argument is \<open>modifiers\<close>, empty when there are none\<close>
  "fetch env messages data modifiers =
     (if no_messages messages then retE Map.empty
      else withE (\<lambda>cl.
        bindE (liftE (join_message_ids messages)) (\<lambda>ids.
        bindE (liftE (seq_to_parenstr_upper data)) (\<lambda>items.
        bindE (liftE (if modifiers \<in> {Many [], One (Str []), One (Uni [])} then Inr []
                      else sbind (seq_to_parenstr_upper modifiers) (\<lambda>m. Inr [Uni m]))) (\<lambda>mods.
        let args = [Str ids, Uni items] @ mods in
        bindE (imapE (if cl_use_uid cl then command (ascii ''UID'') (ascii ''FETCH'' # args) None []
                      else command (ascii ''FETCH'') args None [])) (\<lambda>tag.
        bindE (imapE (command_complete ''FETCH'' tag)) (\<lambda>(typ, data).
        bindE (liftE (checkok ''fetch'' typ data)) (\<lambda>_.
        bindE (imapE (untagged_response typ data ''FETCH'')) (\<lambda>(typ, data). withE (\<lambda>cl.
        liftE (parse_fetch_response (ev_parsedate_tz env) (ev_sys env) (ev_depth env) data
                 (cl_normalise_times cl) (cl_use_uid cl))))))))))))"

fun filter_fetch_ids :: "int list \<Rightarrow> (int \<rightharpoonup> msg_data) \<Rightarrow> bytes \<Rightarrow> pyexc + (int \<rightharpoonup> fetch_val)" where
  "filter_fetch_ids [] d key = Inr Map.empty"
| "filter_fetch_ids (msgid # ids) d key =
     (case d msgid of
        None \<Rightarrow> filter_fetch_ids ids d key
      | Some data \<Rightarrow>
          (case data key of
             None \<Rightarrow> Inl (KeyError key)
           | Some v \<Rightarrow> sbind (filter_fetch_ids ids d key) (\<lambda>m. Inr (m(msgid \<mapsto> v)))))"

definition filter_fetch_dict :: "(int \<rightharpoonup> msg_data) \<Rightarrow> bytes \<Rightarrow> pyexc + (int \<rightharpoonup> fetch_val)" where
  \<comment> \<open>over the identifiers of the dictionary, which is finite\<close>
  "filter_fetch_dict fetch_dict key = filter_fetch_ids (sorted_list_of_set (dom fetch_dict)) fetch_dict key"

definition store :: "env \<Rightarrow> bytes \<Rightarrow> messages \<Rightarrow> texts \<Rightarrow> bytes \<Rightarrow> (client, int \<rightharpoonup> fetch_val) act" where
  "store env cmd messages flags fetch_key =
     (if no_messages messages then retE Map.empty
      else
        bindE (liftE (join_message_ids messages)) (\<lambda>ids.
        bindE (liftE (seq_to_parenstr flags)) (\<lambda>fs.
        bindE (command_and_check (Call ''store'' [Str ids, Str cmd, Uni fs]) True) (\<lambda>data.
        bindE (liftE (parse_fetch_response (ev_parsedate_tz env) (ev_sys env) (ev_depth env) data True True)) (\<lambda>d.
        liftE (filter_fetch_dict d fetch_key))))))"

definition get_flags :: "env \<Rightarrow> messages \<Rightarrow> (client, int \<rightharpoonup> fetch_val) act" where
  "get_flags env messages =
     bindE (fetch env messages (Many [ascii ''FLAGS'']) (Many [])) (\<lambda>response.
     liftE (filter_fetch_dict response ''FLAGS''))"

definition add_flags :: "env \<Rightarrow> messages \<Rightarrow> texts \<Rightarrow> (client, int \<rightharpoonup> fetch_val) act" where
  "add_flags env messages flags = store env ''+FLAGS'' messages flags ''FLAGS''"

definition remove_flags :: "env \<Rightarrow> messages \<Rightarrow> texts \<Rightarrow> (client, int \<rightharpoonup> fetch_val) act" where
  "remove_flags env messages flags = store env ''-FLAGS'' messages flags ''FLAGS''"

definition set_flags :: "env \<Rightarrow> messages \<Rightarrow> texts \<Rightarrow> (client, int \<rightharpoonup> fetch_val) act" where
  "set_flags env messages flags = store env ''FLAGS'' messages flags ''FLAGS''"

definition get_gmail_labels :: "env \<Rightarrow> messages \<Rightarrow> (client, int \<rightharpoonup> fetch_val) act" where
  "get_gmail_labels env messages =
     bindE (fetch env messages (Many [Str ''X-GM-LABELS'']) (Many [])) (\<lambda>response.
     liftE (filter_fetch_dict response ''X-GM-LABELS''))"

definition add_gmail_labels :: "env \<Rightarrow> messages \<Rightarrow> texts \<Rightarrow> (client, int \<rightharpoonup> fetch_val) act" where
  "add_gmail_labels env messages labels =
     store env ''+X-GM-LABELS'' messages (Many (normalise_labels labels)) ''X-GM-LABELS''"

definition remove_gmail_labels :: "env \<Rightarrow> messages \<Rightarrow> texts \<Rightarrow> (client, int \<rightharpoonup> fetch_val) act" where
  "remove_gmail_labels env messages labels =
     store env ''-X-GM-LABELS'' messages (Many (normalise_labels labels)) ''X-GM-LABELS''"

definition set_gmail_labels :: "env \<Rightarrow> messages \<Rightarrow> texts \<Rightarrow> (client, int \<rightharpoonup> fetch_val) act" where
  "set_gmail_labels env messages labels =
     store env ''X-GM-LABELS'' messages (Many (normalise_labels labels)) ''X-GM-LABELS''"

definition delete_messages :: "env \<Rightarrow> messages \<Rightarrow> (client, int \<rightharpoonup> fetch_val) act" where
  "delete_messages env messages = add_flags env messages (One (Str DELETED))"

definition append_message :: "env \<Rightarrow> pystr \<Rightarrow> pystr \<Rightarrow> texts \<Rightarrow> datetime option \<Rightarrow> (client, resp_record option) act" where
  \<comment> \<open>\<open>append\<close>\<close>
  "append_message env folder msg flags msg_time = withE (\<lambda>cl.
     bindE (liftE (case msg_time of
         None \<Rightarrow> Inr None
       | Some t \<Rightarrow> sbind (datetime_to_INTERNALDATE (ev_sys env) t) (\<lambda>s.
           Inr (Some (Str ([DOUBLE_QUOTE] @ s @ [DOUBLE_QUOTE])))))) (\<lambda>time_val.
     bindE (liftE (normalise_folder (cl_folder_encode cl) folder)) (\<lambda>f.
     bindE (liftE (seq_to_parenstr flags)) (\<lambda>fs.
     bindE (liftE (to_bytes msg)) (\<lambda>m.
     command_unpacked (Append f (Uni fs) time_val m) False)))))"

definition copy_messages :: "messages \<Rightarrow> pystr \<Rightarrow> (client, resp_record option) act" where
  \<comment> \<open>\<open>copy\<close>\<close>
  "copy_messages messages folder = withE (\<lambda>cl.
     bindE (liftE (join_message_ids messages)) (\<lambda>ids.
     bindE (liftE (normalise_folder (cl_folder_encode cl) folder)) (\<lambda>f.
     command_unpacked (Call ''copy'' [Str ids, f]) True)))"

section \<open>Commands that collect untagged responses\<close>

definition run_and_consume :: "env \<Rightarrow> bytes \<Rightarrow> (client, bytes \<times> imapval list list) act" where
  "run_and_consume env cmd =
     bindE (imapE (command (ascii cmd) [] None [])) (\<lambda>tag. consume_until_tagged_response env (Some tag) cmd)"

definition noop :: "env \<Rightarrow> (client, bytes \<times> imapval list list) act" where
  "noop env = run_and_consume env ''NOOP''"

definition expunge :: "env \<Rightarrow> (client, bytes \<times> imapval list list) act" where
  "expunge env = run_and_consume env ''EXPUNGE''"

definition idle :: "(client, unit) act" where
  "idle =
     bindE (imapE (command (ascii ''IDLE'') [] None [])) (\<lambda>tag.
     bindE (modE (\<lambda>cl. cl\<lparr>cl_idle_tag := Some tag\<rparr>)) (\<lambda>_.
     bindE (imapE get_response) (\<lambda>resp.
     whenE (resp \<noteq> None) (raiseE (ImapError ''Unexpected IDLE response'')))))"

fun idle_lines :: "nat \<Rightarrow> bytes list \<Rightarrow> pyexc \<Rightarrow> imapval list list \<Rightarrow> pyexc + imapval list list" where
  \<comment> \<open>the reading loop: the lines that are there, and the exception that ends them\<close>
  "idle_lines depth [] ending resps =
     (case ending of
        SocketError _ \<Rightarrow> Inr resps
      | SocketTimeout _ \<Rightarrow> Inr resps
      | ImapAbort m \<Rightarrow> if \<exists>i<length m. starts_with ''EOF'' (drop i m) then Inr resps else Inl ending
      | _ \<Rightarrow> Inl ending)"
| "idle_lines depth (line # lines) ending resps =
     sbind (parse_untagged_response depth line) (\<lambda>r. idle_lines depth lines ending (resps @ [r]))"

definition idle_check :: "env \<Rightarrow> bool \<Rightarrow> bytes list \<Rightarrow> pyexc \<Rightarrow> (client, imapval list list) act" where
  \<comment> \<open>\<open>ready\<close>: what \<open>select.select\<close> says of the socket before the timeout\<close>
  "idle_check env ready lines ending =
     bindE (sock_settimeout None) (\<lambda>_.
     bindE (sock_settimeout (Some 0)) (\<lambda>_.
     finallyE (liftE (if ready then idle_lines (ev_depth env) lines ending [] else Inr []))
       (bindE (sock_settimeout None) (\<lambda>_. set_timeout))))"

definition idle_done :: "env \<Rightarrow> (client, bytes \<times> imapval list list) act" where
  "idle_done env =
     bindE (imapE (send (''DONE'' @ CRLF))) (\<lambda>_. withE (\<lambda>cl.
     consume_until_tagged_response env (cl_idle_tag cl) ''IDLE''))"


end
