(* ===== verification/ImapSession.thy ===== *)
theory ImapSession
  imports ImapClient
begin

text \<open>
  A session as a state machine: one step is a call of any method of \<open>IMAPClient\<close>, with any arguments,
  whether it returns or raises. The locale \<open>session_invariant\<close> states what a property of the object has
  to satisfy to be kept by every method; it is interpreted on the settings fixed by the constructor
  and on the timeout of the socket. The other lemmas are about the cache of capabilities and about the
  bytes \<open>_raw_command\<close> writes.
\<close>

section \<open>Steps\<close>

inductive client_step :: "client \<Rightarrow> client \<Rightarrow> bool" where
  "client_step cl (snd (starttls wrapped cl))"
| "client_step cl (snd (login u p cl))"
| "client_step cl (snd (oauth_login xoauth_string cl))"
| "client_step cl (snd (oauth2_login user access_token mech vendor cl))"
| "client_step cl (snd (logout cl))"
| "client_step cl (snd (client_shutdown shut cl))"
| "client_step cl (snd (id_command env ps cl))"
| "client_step cl (snd (capabilities cl))"
| "client_step cl (snd (has_capability c cl))"
| "client_step cl (snd (namespace env cl))"
| "client_step cl (snd (do_list env cmd dir pat cl))"
| "client_step cl (snd (folder_exists env f cl))"
| "client_step cl (snd (select_folder f ro cl))"
| "client_step cl (snd (folder_status env f what cl))"
| "client_step cl (snd (close_folder cl))"
| "client_step cl (snd (folder_command cmd fs args cl))"
| "client_step cl (snd (unpackE (folder_command cmd fs args) cl))"
| "client_step cl (snd (getacl f cl))"
| "client_step cl (snd (search env crit ch cl))"
| "client_step cl (snd (sort_messages env sc crit charset cl))"
| "client_step cl (snd (thread env alg crit charset cl))"
| "client_step cl (snd (fetch env ms ws mods cl))"
| "client_step cl (snd (store env cmd ms flags key cl))"
| "client_step cl (snd (get_flags env ms cl))"
| "client_step cl (snd (get_gmail_labels env ms cl))"
| "client_step cl (snd (append_message env f msg flags t cl))"
| "client_step cl (snd (copy_messages ms f cl))"
| "client_step cl (snd (run_and_consume env cmd cl))"
| "client_step cl (snd (idle cl))"
| "client_step cl (snd (idle_check env ready lines ending cl))"
| "client_step cl (snd (idle_done env cl))"

section \<open>What every method keeps\<close>

locale session_invariant =
  fixes I :: "client \<Rightarrow> bool"
  assumes connection: "\<And>cl c. I cl \<Longrightarrow> I (cl\<lparr>cl_imap := c\<rparr>)"
    and cache: "\<And>cl cs. I cl \<Longrightarrow> I (cl\<lparr>cl_cached_capabilities := cs\<rparr>)"
    and secured: "\<And>cl. I cl \<Longrightarrow> I (cl\<lparr>cl_starttls_done := True\<rparr>)"
    and idle_tag: "\<And>cl t. I cl \<Longrightarrow> I (cl\<lparr>cl_idle_tag := t\<rparr>)"
    and waiting: "\<And>cl. I cl \<Longrightarrow> I (cl\<lparr>cl_sock_timeout := cl_timeout cl\<rparr>)"
begin

lemma imapE_keeps [keeps_rule, intro]: "keeps I (imapE m)"
  by (auto simp: keeps_def imapE_def connection split: prod.splits)

lemma connection_keeps [keeps_rule, intro]: "keeps I (modE (\<lambda>cl. cl\<lparr>cl_imap := f cl\<rparr>))"
  by (simp add: keeps_def connection)

lemma cache_keeps [keeps_rule, intro]: "keeps I (modE (\<lambda>cl. cl\<lparr>cl_cached_capabilities := cs\<rparr>))"
  by (simp add: keeps_def cache)

lemma secured_keeps [keeps_rule, intro]:
  "keeps I (modE (\<lambda>cl. cl\<lparr>cl_starttls_done := True, cl_cached_capabilities := None\<rparr>))"
proof -
  have "I (cl\<lparr>cl_starttls_done := True, cl_cached_capabilities := None\<rparr>)" if "I cl" for cl
    using cache[OF secured[OF that], of None] by simp
  then show ?thesis by (simp add: keeps_def)
qed

lemma idle_tag_keeps [keeps_rule, intro]: "keeps I (modE (\<lambda>cl. cl\<lparr>cl_idle_tag := t\<rparr>))"
  by (simp add: keeps_def idle_tag)

lemmas pieces = keeps_basic keeps_bindE keeps_withE keeps_whenE imapE_keeps connection_keeps cache_keeps
  secured_keeps idle_tag_keeps

lemma command_and_check_keeps [keeps_rule, intro]: "keeps I (command_and_check call uid)"
  unfolding command_and_check_def by (auto intro!: pieces split: prod.splits)

lemma command_unpacked_keeps [keeps_rule, intro]: "keeps I (command_unpacked call uid)"
  unfolding command_unpacked_def by (auto intro!: pieces command_and_check_keeps)

lemma raw_command_untagged_keeps [keeps_rule, intro]: "keeps I (raw_command_untagged cmd args)"
  unfolding raw_command_untagged_def raw_command_def by (auto intro!: pieces simp: Let_def split: prod.splits)

lemma consume_until_keeps [keeps_rule, intro]: "keeps I (consume_until_tagged_response env tag cmd)"
  unfolding consume_until_tagged_response_def by (auto intro!: pieces split: option.splits prod.splits)

lemma save_capabilities_keeps [keeps_rule, intro]: "keeps I (save_capabilities r)"
  unfolding save_capabilities_def by (auto intro!: pieces simp: Let_def split: option.splits resp_record.splits)

lemma capabilities_keeps [keeps_rule, intro]: "keeps I capabilities"
  unfolding capabilities_def
  by (auto intro!: pieces command_unpacked_keeps save_capabilities_keeps split: option.splits list.splits)

lemma has_capability_keeps [keeps_rule, intro]: "keeps I (has_capability c)"
  unfolding has_capability_def by (auto intro!: pieces capabilities_keeps)

lemmas calls = pieces command_and_check_keeps command_unpacked_keeps raw_command_untagged_keeps consume_until_keeps
  save_capabilities_keeps capabilities_keeps has_capability_keeps

lemma folder_command_keeps: "keeps I (folder_command cmd fs args)"
  unfolding folder_command_def by (auto intro!: calls)

lemma do_list_keeps: "keeps I (do_list env cmd dir pat)"
  unfolding do_list_def by (auto intro!: calls split: prod.splits)

lemma fetch_keeps: "keeps I (fetch env ms ws mods)"
  unfolding fetch_def by (auto intro!: calls simp: Let_def split: prod.splits)

lemma session_keeps:
  "keeps I (starttls wrapped)" "keeps I (login u p)" "keeps I (oauth2_login user access_token mech vendor)"
  "keeps I (oauth_login xoauth_string)"
  "keeps I logout" "keeps I (id_command env ps)" "keeps I (namespace env)" "keeps I (client_shutdown shut)"
  unfolding starttls_def login_def oauth2_login_def oauth_login_def logout_def client_shutdown_def id_command_def namespace_def
  by (auto intro!: calls simp: Let_def split: prod.splits list.splits option.splits)

lemma folder_keeps:
  "keeps I (folder_exists env f)" "keeps I (select_folder f ro)" "keeps I (folder_status env f what)"
  "keeps I close_folder" "keeps I (unpackE (folder_command cmd fs args))" "keeps I (getacl f)"
  unfolding folder_exists_def list_folders_def select_folder_def folder_status_def close_folder_def unpackE_def getacl_def
  by (auto intro!: calls do_list_keeps folder_command_keeps simp: Let_def split: prod.splits list.splits)

lemma message_keeps:
  "keeps I (search env crit ch)" "keeps I (sort_messages env sc crit charset)" "keeps I (thread env alg crit charset)"
  "keeps I (store env cmd ms flags key)" "keeps I (get_flags env ms)" "keeps I (get_gmail_labels env ms)"
  "keeps I (append_message env f msg flags t)" "keeps I (copy_messages ms f)"
  unfolding search_def do_search_def sort_messages_def thread_def store_def get_flags_def get_gmail_labels_def append_message_def
    copy_messages_def
  by (auto intro!: calls fetch_keeps simp: Let_def split: prod.splits option.splits resp_record.splits)

lemma idle_check_settled:
  "snd (idle_check env ready lines ending cl) =
     (if cl_stream cl then cl else cl\<lparr>cl_sock_timeout := cl_timeout cl\<rparr>)"
  by (cases "cl_timeout cl")
    (simp_all add: idle_check_def finallyE_def bindE_def set_timeout_def sock_settimeout_def split: sum.splits)

lemma idle_keeps:
  "keeps I (run_and_consume env cmd)" "keeps I idle" "keeps I (idle_check env ready lines ending)" "keeps I (idle_done env)"
proof -
  show "keeps I (idle_check env ready lines ending)"
  proof (unfold keeps_def, intro allI impI)
    fix cl assume "I cl"
    then have "I (cl\<lparr>cl_sock_timeout := cl_timeout cl\<rparr>)" by (rule waiting)
    then show "I (snd (idle_check env ready lines ending cl))"
      using \<open>I cl\<close> by (simp add: idle_check_settled)
  qed
qed (unfold run_and_consume_def idle_def idle_done_def, auto intro!: calls)

theorem step_keeps: "client_step cl cl' \<Longrightarrow> I cl \<Longrightarrow> I cl'"
  by (induction rule: client_step.induct)
    (auto intro: keepsD[OF session_keeps(1)] keepsD[OF session_keeps(2)] keepsD[OF session_keeps(3)]
      keepsD[OF session_keeps(4)] keepsD[OF session_keeps(5)] keepsD[OF session_keeps(6)] keepsD[OF session_keeps(7)] keepsD[OF session_keeps(8)]
      keepsD[OF capabilities_keeps] keepsD[OF has_capability_keeps] keepsD[OF do_list_keeps]
      keepsD[OF folder_keeps(1)] keepsD[OF folder_keeps(2)] keepsD[OF folder_keeps(3)]
      keepsD[OF folder_keeps(4)] keepsD[OF folder_keeps(5)] keepsD[OF folder_keeps(6)] keepsD[OF folder_command_keeps]
      keepsD[OF message_keeps(1)] keepsD[OF message_keeps(2)] keepsD[OF message_keeps(3)] keepsD[OF message_keeps(4)]
      keepsD[OF message_keeps(5)] keepsD[OF message_keeps(6)] keepsD[OF message_keeps(7)] keepsD[OF message_keeps(8)]
      keepsD[OF fetch_keeps] keepsD[OF idle_keeps(1)] keepsD[OF idle_keeps(2)] keepsD[OF idle_keeps(3)]
      keepsD[OF idle_keeps(4)])

theorem session_keeps_invariant: "client_step\<^sup>*\<^sup>* cl cl' \<Longrightarrow> I cl \<Longrightarrow> I cl'"
  by (induction rule: rtranclp_induct) (auto intro: step_keeps)

end

text \<open>The settings of the constructor, and the timeout of the socket outside \<open>idle_check\<close>.\<close>

definition same_settings :: "client \<Rightarrow> client \<Rightarrow> bool" where
  "same_settings a b \<longleftrightarrow> cl_host b = cl_host a \<and> cl_port b = cl_port a \<and> cl_ssl b = cl_ssl a \<and> cl_stream b = cl_stream a
     \<and> cl_use_uid b = cl_use_uid a \<and> cl_folder_encode b = cl_folder_encode a
     \<and> cl_normalise_times b = cl_normalise_times a \<and> cl_timeout b = cl_timeout a"

definition timeout_applied :: "client \<Rightarrow> bool" where
  "timeout_applied cl \<longleftrightarrow> cl_sock_timeout cl = cl_timeout cl"

interpretation settings: session_invariant "same_settings a"
  by unfold_locales (simp_all add: same_settings_def)

interpretation socket: session_invariant timeout_applied
  by unfold_locales (simp_all add: timeout_applied_def)

lemma new_client_timeout: "new_client connect host port use_uid ssl stream timeout = Inr cl \<Longrightarrow>
    timeout_applied cl \<and> cl_timeout cl = timeout"
  by (cases timeout)
    (auto simp: new_client_def timeout_applied_def set_timeout_def sock_settimeout_def outcome Let_def split: if_splits sum.splits)

text \<open>
  A client on the streams of a command has no socket: with a timeout it is not made, although the command
  has been started, and \<open>idle_check\<close> raises before it reads.
\<close>

lemma stream_client_no_timeout:
  assumes "connect (Stream host) (Some t) = Inr imap"
  shows "new_client connect host None use_uid False True (Some t) = Inl no_socket"
  using assms by (simp add: new_client_def create_IMAP4_def set_timeout_def sock_settimeout_def)

lemma stream_client_no_idle: "cl_stream cl \<Longrightarrow> idle_check env ready lines ending cl = (Inl no_socket, cl)"
  by (simp add: idle_check_def sock_settimeout_def bindE_def)

end
