(* ===== verification/ImapWire.thy ===== *)
theory ImapWire
  imports ImapSession
begin

text \<open>
  What a client writes to the server and what it makes of the replies: the bytes \<open>_raw_command\<close> sends,
  argument by argument, with literals for the arguments that are not ASCII; a completed command and
  its untagged data; and, put together, a search answered by a list of identifiers.
\<close>

section \<open>The text of a command\<close>

definition wire_item :: "bytes \<Rightarrow> bytes" where
  \<comment> \<open>an argument as RFC 3501 writes it: a literal when it is not ASCII\<close>
  "wire_item b = (if is8bit b then [CHR 0x7B] @ dec (length b) @ [CHR 0x7D] @ CRLF @ b else b)"

fun glue :: "bytes list \<Rightarrow> bytes list \<Rightarrow> bytes" where
  \<comment> \<open>what is written for the items, \<open>line\<close> being the words not yet written\<close>
  "glue line [] = py_join '' '' line"
| "glue line (x # xs) =
     (if is8bit x
      then py_join '' '' line @ '' '' @ wire_item x @ (if xs = [] then [] else '' '' @ glue [] xs)
      else glue (line @ [x]) xs)"

fun apart :: "bytes list \<Rightarrow> bool" where
  \<comment> \<open>no two literals in a row\<close>
  "apart (x # y # xs) \<longleftrightarrow> (is8bit x \<longrightarrow> \<not> is8bit y) \<and> apart (y # xs)"
| "apart xs \<longleftrightarrow> True"

lemma py_join_append:
  "xs \<noteq> [] \<Longrightarrow> ys \<noteq> [] \<Longrightarrow> py_join sep (xs @ ys) = py_join sep xs @ sep @ py_join sep ys"
  by (induction xs rule: list_nonempty_induct) (simp_all add: py_join_Cons)

lemma glue_apart:
  "apart xs \<Longrightarrow> line \<noteq> [] \<or> xs \<noteq> [] \<and> \<not> is8bit (hd xs) \<Longrightarrow> list_all (\<lambda>w. \<not> is8bit w) line \<Longrightarrow>
     glue line xs = py_join '' '' (line @ map wire_item xs)"
proof (induction line xs rule: glue.induct)
  case (1 line)
  then show ?case by simp
next
  case (2 line x xs)
  show ?case
  proof (cases "is8bit x")
    case True
    with "2.prems" have line: "line \<noteq> []" by auto
    show ?thesis
    proof (cases xs)
      case Nil
      with True line show ?thesis by (simp add: py_join_append)
    next
      case (Cons y ys)
      with True "2.prems"(1) have "\<not> is8bit y" "apart xs" by simp_all
      with "2.IH"(1)[OF True] Cons have "glue [] xs = py_join '' '' (map wire_item xs)" by simp
      moreover have "py_join '' '' (line @ map wire_item (x # xs)) = py_join '' '' line @ '' '' @ py_join '' '' (map wire_item (x # xs))"
        using line by (intro py_join_append) simp_all
      ultimately show ?thesis using True Cons by (simp add: py_join_Cons)
    qed
  next
    case False
    moreover have "apart xs" using "2.prems"(1) by (cases xs) simp_all
    ultimately show ?thesis using "2.IH"(2) "2.prems"(3) by (simp add: wire_item_def)
  qed
qed

fun marked :: "'a list \<Rightarrow> ('a \<times> bool) list" where
  "marked [] = []"
| "marked (x # xs) = (x, xs = []) # marked xs"

lemma iter_with_last_marked: "iter_with_last xs = marked xs"
proof (induction xs)
  case Nil
  then show ?case by (simp add: iter_with_last_def)
next
  case (Cons x xs)
  have "iter_with_last (x # xs) = (x, xs = []) # iter_with_last xs"
    by (simp add: iter_with_last_def Let_def upt_conv_Cons map_Suc_upt[symmetric] comp_def del: upt_Suc)
      (simp add: eq_diff_eq add.commute)
  with Cons show ?case by simp
qed

lemma send_literal_written:
  assumes "im_inbox c = Continuation # rest"
  shows "send_literal tag item c = (Inr (), c\<lparr>im_inbox := rest,
    im_sent := im_sent c @ ['' '' @ [CHR 0x7B] @ dec (length item) @ [CHR 0x7D] @ CRLF, item]\<rparr>)"
proof -
  have "send_literal_wait tag (c\<lparr>im_sent := s\<rparr>) = (Inr (), c\<lparr>im_inbox := rest, im_sent := s\<rparr>)" for s
    using assms by (subst send_literal_wait.simps) (simp add: get_response_def)
  then show ?thesis by (simp add: send_literal_def send_def bindE_def)
qed

lemma send_items_written:
  "im_inbox c = replicate (length (filter is8bit xs)) Continuation @ rest \<Longrightarrow>
   \<exists>ss line'. send_items tag (marked xs) line c
       = (Inr line', c\<lparr>im_inbox := rest, im_sent := im_sent c @ ss\<rparr>)
     \<and> concat ss @ py_join '' '' line' = glue line xs"
proof (induction xs arbitrary: line c)
  case Nil
  then show ?case by (intro exI[of _ "[]"] exI[of _ line]) simp
next
  case (Cons x xs)
  show ?case
  proof (cases "is8bit x")
    case False
    with Cons show ?thesis by simp
  next
    case True
    let ?pre = "(if line = [] then [] else [py_join '' '' line])
        @ ['' '' @ [CHR 0x7B] @ dec (length x) @ [CHR 0x7D] @ CRLF, x] @ (if xs = [] then [] else ['' ''])"
    let ?d = "c\<lparr>im_inbox := replicate (length (filter is8bit xs)) Continuation @ rest, im_sent := im_sent c @ ?pre\<rparr>"
    have step: "send_items tag (marked (x # xs)) line c = send_items tag (marked xs) [] ?d"
      using True Cons.prems by (simp add: bindE_def whenE_def send_def send_literal_written)
    from Cons.IH[of ?d "[]"] obtain ss line' where
      ss: "send_items tag (marked xs) [] ?d = (Inr line', ?d\<lparr>im_inbox := rest, im_sent := im_sent ?d @ ss\<rparr>)"
      and g: "concat ss @ py_join '' '' line' = glue [] xs" by auto
    have "concat (?pre @ ss) @ py_join '' '' line' = concat ?pre @ glue [] xs"
      by (simp only: concat_append append_assoc g)
    also have "\<dots> = glue line (x # xs)" using True by (simp add: wire_item_def)
    finally have "concat (?pre @ ss) @ py_join '' '' line' = glue line (x # xs)" .
    moreover have "send_items tag (marked (x # xs)) line c
        = (Inr line', c\<lparr>im_inbox := rest, im_sent := im_sent c @ ?pre @ ss\<rparr>)"
      unfolding step ss by simp
    ultimately show ?thesis by blast
  qed
qed

section \<open>Completed commands\<close>

definition quiet :: "imap4 \<Rightarrow> bool" where
  \<comment> \<open>no \<open>BYE\<close> has been received\<close>
  "quiet c \<longleftrightarrow> map_of (im_untagged c) ''BYE'' = None"

lemma quiet_check_bye [simp]: "quiet c \<Longrightarrow> check_bye c = (Inr (), c)"
  by (simp add: check_bye_def quiet_def)

lemma untagged_append: "map_of (im_untagged (append_untagged t d c)) k =
    (if k = t then Some ((case map_of (im_untagged c) t of None \<Rightarrow> [] | Some ds \<Rightarrow> ds) @ d) else map_of (im_untagged c) k)"
  by (simp add: append_untagged_def update_conv')

lemma append_untagged_other [simp]:
  "im_sent (append_untagged t d c) = im_sent c" "im_tagged (append_untagged t d c) = im_tagged c"
  by (simp_all add: append_untagged_def)

text \<open>A command answered by untagged data of one type and then completed.\<close>

lemma tagged_response_scripted:
  assumes "im_inbox c = [Untagged typ ds line, Tagged tag ''OK'' msg] @ rest"
    and "map_of (im_tagged c) tag = Some None" and "quiet c"
    and "typ \<notin> {''OK'', ''NO'', ''BAD'', ''BYE''}" and "response_code msg = None"
  obtains d where "tagged_response tag c = (Inr (''OK'', msg), d)"
    and "im_untagged d = im_untagged (append_untagged typ ds c)" and "im_sent d = im_sent c" and "quiet d"
    and "im_inbox d = rest"
proof -
  let ?c1 = "append_untagged typ ds (c\<lparr>im_inbox := Tagged tag ''OK'' msg # rest\<rparr>)"
  let ?c2 = "?c1\<lparr>im_inbox := rest, im_tagged := AList.update tag (Some (''OK'', msg)) (im_tagged c)\<rparr>"
  have 1: "get_response c = (Inr (Some line), ?c1)"
    using assms(1,4) by (simp add: get_response_def bracketed_def)
  have tag: "tag \<in> fst ` set (im_tagged c)" using assms(2) by (metis domI dom_map_of_conv_image_fst)
  have 2: "get_response ?c1 = (Inr (Some (tag @ '' '' @ ''OK'' @ '' '' @ msg)), ?c2)"
    using tag assms(5) by (simp add: get_response_def bracketed_def append_untagged_def)
  have q1: "quiet ?c1" using assms(3,4) by (auto simp: quiet_def untagged_append)
  then have q2: "quiet ?c2" by (simp add: quiet_def)
  let ?d = "?c2\<lparr>im_tagged := AList.delete tag (im_tagged ?c2)\<rparr>"
  have "tagged_response tag c = tagged_response tag ?c1"
    using assms(2,3) 1 by (subst tagged_response.simps) simp
  also have "\<dots> = tagged_response tag ?c2"
    using assms(2) q1 2 by (subst tagged_response.simps) simp
  also have "\<dots> = (Inr (''OK'', msg), ?d)"
    by (subst tagged_response.simps) (simp add: update_conv')
  finally show ?thesis using q2 by (intro that[of ?d]) (simp_all add: quiet_def append_untagged_def)
qed

lemma command_complete_scripted:
  assumes "im_inbox c = [Untagged typ ds line, Tagged tag ''OK'' msg] @ rest"
    and "map_of (im_tagged c) tag = Some None" and "quiet c"
    and "typ \<notin> {''OK'', ''NO'', ''BAD'', ''BYE''}" and "response_code msg = None"
  obtains d where "command_complete name tag c = (Inr (''OK'', Some [Line msg]), d)"
    and "im_untagged d = im_untagged (append_untagged typ ds c)" and "im_sent d = im_sent c" and "quiet d"
    and "im_inbox d = rest"
proof -
  from tagged_response_scripted[OF assms] obtain d where d: "tagged_response tag c = (Inr (''OK'', msg), d)"
    "im_untagged d = im_untagged (append_untagged typ ds c)" "im_sent d = im_sent c" "quiet d" "im_inbox d = rest" .
  then show ?thesis using assms(3) by (intro that[of d]) (simp_all add: command_complete_def bindE_def whenE_def)
qed

lemma untagged_response_taken:
  assumes "map_of (im_untagged c) typ = Some ds" and "t \<noteq> ''NO''"
  shows "untagged_response t data typ c = (Inr (t, Some ds), c\<lparr>im_untagged := AList.delete typ (im_untagged c)\<rparr>)"
  using assms by (simp add: untagged_response_def)

section \<open>A command and its answer\<close>

definition next_tag :: "client \<Rightarrow> bytes" where
  "next_tag cl = im_tagpre (cl_imap cl) @ dec (im_tagnum (cl_imap cl))"

definition command_items :: "client \<Rightarrow> bytes \<Rightarrow> bytes list \<Rightarrow> bytes list" where
  "command_items cl cmd args = [next_tag cl] @ (if cl_use_uid cl then [''UID''] else []) @ [cmd] @ args"

definition answered :: "client \<Rightarrow> bytes \<Rightarrow> bytes list \<Rightarrow> resp_record list \<Rightarrow> bool" where
  \<comment> \<open>the server asks for each literal, sends one untagged reply with the data and completes the command;
    nothing of that type, and no \<open>BYE\<close>, has been received before\<close>
  "answered cl cmd args ds \<longleftrightarrow>
     (let c = cl_imap cl in
      (\<exists>line msg rest. im_inbox c = replicate (length (filter is8bit args)) Continuation
           @ [Untagged cmd ds line, Tagged (next_tag cl) ''OK'' msg] @ rest \<and> response_code msg = None)
      \<and> quiet c \<and> map_of (im_untagged c) cmd = None \<and> \<not> is8bit (next_tag cl))"

lemma apart_plain: "\<not> is8bit x \<Longrightarrow> apart (x # xs) = apart xs"
  by (cases xs) simp_all

lemma raw_command_answered:
  assumes "answered cl cmd args ds" and "apart args"
    and cmd: "py_upper cmd = cmd" "\<not> is8bit cmd" "cmd \<notin> {''OK'', ''NO'', ''BAD'', ''BYE''}"
  obtains d msg where "raw_command cmd args cl = (Inr (''OK'', Some [Line msg]), cl\<lparr>cl_imap := d\<rparr>)"
    and "map_of (im_untagged d) cmd = Some ds"
    and "concat (im_sent d) = concat (im_sent (cl_imap cl)) @ py_join '' '' (map wire_item (command_items cl cmd args)) @ CRLF"
proof -
  let ?c = "cl_imap cl" and ?tag = "next_tag cl" and ?xs = "command_items cl cmd args"
  from assms(1) obtain line msg rest where
    inbox: "im_inbox ?c = replicate (length (filter is8bit args)) Continuation
        @ [Untagged cmd ds line, Tagged ?tag ''OK'' msg] @ rest"
    and code: "response_code msg = None" and quiet: "quiet ?c" and none: "map_of (im_untagged ?c) cmd = None"
    and tag: "\<not> is8bit ?tag" by (auto simp: answered_def Let_def)
  let ?script = "[Untagged cmd ds line, Tagged ?tag ''OK'' msg] @ rest"
  let ?c1 = "?c\<lparr>im_tagnum := im_tagnum ?c + 1, im_tagged := AList.update ?tag None (im_tagged ?c)\<rparr>"
  have uid: "\<not> is8bit ''UID''" by (simp add: is8bit_def)
  have eight: "filter is8bit ?xs = filter is8bit args" using tag uid cmd(2) by (simp add: command_items_def)
  have "im_inbox ?c1 = replicate (length (filter is8bit ?xs)) Continuation @ ?script"
    using inbox by (simp add: eight)
  from send_items_written[OF this, of ?tag "[]"] obtain ss line' where
    items: "send_items ?tag (marked ?xs) [] ?c1 = (Inr line', ?c1\<lparr>im_inbox := ?script, im_sent := im_sent ?c1 @ ss\<rparr>)"
    and written: "concat ss @ py_join '' '' line' = glue [] ?xs" by blast
  have sep: "apart ?xs" using assms(2) tag uid cmd(2) by (simp add: command_items_def apart_plain)
  have glued: "glue [] ?xs = py_join '' '' (map wire_item ?xs)"
    using glue_apart[OF sep, of "[]"] tag by (simp add: command_items_def)
  let ?c2 = "?c1\<lparr>im_inbox := ?script, im_sent := im_sent ?c @ ss @ (if line' = [] then [] else [py_join '' '' line']) @ [CRLF]\<rparr>"
  have "quiet ?c2" using quiet by (simp add: quiet_def)
  from command_complete_scripted[of ?c2 cmd ds line ?tag msg rest cmd, OF _ _ this cmd(3) code] obtain d where
    compl: "command_complete cmd ?tag ?c2 = (Inr (''OK'', Some [Line msg]), d)"
    and d: "im_untagged d = im_untagged (append_untagged cmd ds ?c2)" "im_sent d = im_sent ?c2"
    by (auto simp: update_conv')
  have "raw_command cmd args cl = (Inr (''OK'', Some [Line msg]), cl\<lparr>cl_imap := d\<rparr>)"
  proof -
    have new: "new_tag ?c = (Inr ?tag, ?c1)" by (simp add: new_tag_def next_tag_def Let_def)
    have xs: "[?tag] @ (if cl_use_uid cl then [''UID''] else []) @ [cmd] @ args = ?xs" by (simp add: command_items_def)
    show ?thesis
      using compl items
      by (cases "line' = []") (simp_all add: raw_command_def Let_def imapE_def bindE_def new cmd(1) iter_with_last_marked send_def whenE_def
            xs[simplified] del: marked.simps)
  qed
  moreover have "map_of (im_untagged d) cmd = Some ds" using none by (simp add: d(1) untagged_append)
  moreover have "concat (im_sent d) = concat (im_sent ?c) @ (concat ss @ py_join '' '' line') @ CRLF" by (simp add: d(2))
  ultimately show ?thesis by (intro that) (simp_all add: written glued)
qed

lemma raw_command_untagged_answered:
  assumes "answered cl cmd args ds" and "apart args"
    and cmd: "py_upper cmd = cmd" "\<not> is8bit cmd" "cmd \<notin> {''OK'', ''NO'', ''BAD'', ''BYE''}"
  obtains cl' where "raw_command_untagged cmd args cl = (Inr (Some ds), cl')"
    and "concat (im_sent (cl_imap cl')) =
      concat (im_sent (cl_imap cl)) @ py_join '' '' (map wire_item (command_items cl cmd args)) @ CRLF"
proof -
  from raw_command_answered[OF assms] obtain d msg where
    raw: "raw_command cmd args cl = (Inr (''OK'', Some [Line msg]), cl\<lparr>cl_imap := d\<rparr>)"
    and taken: "map_of (im_untagged d) cmd = Some ds"
    and sent: "concat (im_sent d) = concat (im_sent (cl_imap cl)) @ py_join '' '' (map wire_item (command_items cl cmd args)) @ CRLF" .
  let ?cl = "cl\<lparr>cl_imap := d\<lparr>im_untagged := AList.delete cmd (im_untagged d)\<rparr>\<rparr>"
  have "raw_command_untagged cmd args cl = (Inr (Some ds), ?cl)"
    using raw untagged_response_taken[OF taken]
    by (simp add: raw_command_untagged_def bindE_def imapE_def checkok_def check_resp_def)
  with sent show ?thesis by (intro that[of ?cl]) simp_all
qed

lemma message_list_data_one [simp]: "message_list_data (Some [Line l]) = Inr [Some l]"
  by (simp add: message_list_data_def)

lemma search_answered:
  assumes "search_args env criteria charset = Inr args" and "answered cl ''SEARCH'' args [Line (py_join '' '' (map dec ns))]"
    and "apart args" and "ns \<noteq> []"
  obtains cl' where "search env criteria charset cl = (Inr \<lparr>si_ids = map int ns, si_modseq = None\<rparr>, cl')"
    and "concat (im_sent (cl_imap cl')) =
      concat (im_sent (cl_imap cl)) @ py_join '' '' (map wire_item (command_items cl ''SEARCH'' args)) @ CRLF"
proof -
  have cmd: "py_upper ''SEARCH'' = ''SEARCH''" "\<not> is8bit ''SEARCH''" by (simp_all add: py_upper_def upper_char_def is8bit_def)
  from raw_command_untagged_answered[OF assms(2,3) cmd] obtain cl' where
    "raw_command_untagged ''SEARCH'' args cl = (Inr (Some [Line (py_join '' '' (map dec ns))]), cl')"
    "concat (im_sent (cl_imap cl')) =
      concat (im_sent (cl_imap cl)) @ py_join '' '' (map wire_item (command_items cl ''SEARCH'' args)) @ CRLF"
    by auto
  then show ?thesis
    using parse_message_list_ids[OF assms(4)] assms(1) by (intro that[of cl']) (simp_all add: search_def do_search_def bindE_def)
qed

section \<open>Lists of folders\<close>

lemma lexer_append: "lexer rs = (ts, None) \<Longrightarrow> lexer (rs @ rs') = (ts @ fst (lexer rs'), snd (lexer rs'))"
proof (induction rs arbitrary: ts)
  case Nil
  then show ?case by simp
next
  case (Cons r rs)
  then show ?case by (auto split: sum.splits prod.splits option.splits)
qed

definition show_line :: "shown list \<Rightarrow> resp_record list" where
  "show_line vs = records_of [] (with_spaces (map lexemes vs))"

lemma lexer_lines:
  "list_all (list_all shown_ok) vss \<Longrightarrow>
     \<exists>ts. lexer (concat (map show_line vss)) = (ts, None)
        \<and> list_all2 fits ts (concat (map (no_space \<circ> lexemes) (concat vss)))"
proof (induction vss)
  case Nil
  then show ?case by simp
next
  case (Cons vs vss)
  then have "list_all (list_all shown_ok) vss" "list_all shown_ok vs" by simp_all
  from Cons.IH[OF this(1)] obtain ts where ts: "lexer (concat (map show_line vss)) = (ts, None)"
    "list_all2 fits ts (concat (map (no_space \<circ> lexemes) (concat vss)))" by blast
  note \<open>list_all shown_ok vs\<close>
  with lexer_records[of "[]" "with_spaces (map lexemes vs)"] with_spaces_delimited[of vs] obtain us
    where us: "lexer (show_line vs) = (us, None)" "list_all2 fits us (no_space (with_spaces (map lexemes vs)))"
    by (auto simp: show_line_def)
  have "list_all2 fits us (concat (map (no_space \<circ> lexemes) vs))"
    using us(2) by (simp add: no_space_with_spaces comp_def)
  with ts(2) have "list_all2 fits (us @ ts) (concat (map (no_space \<circ> lexemes) (concat (vs # vss))))"
    by (simp add: list_all2_appendI)
  moreover have "lexer (concat (map show_line (vs # vss))) = (us @ ts, None)"
    using lexer_append[OF us(1), of "concat (map show_line vss)"] ts(1) by simp
  ultimately show ?case by blast
qed

lemma records_of_ne: "records_of acc ls \<noteq> []"
  by (induction acc ls rule: records_of.induct) simp_all

lemma gen_parsed_lines:
  assumes "list_all (list_all shown_ok) vss" and "\<forall>vs\<in>set vss. \<forall>v\<in>set vs. nesting v \<le> depth"
  shows "gen_parsed_response depth (concat (map show_line vss)) = (map value_of (concat vss), None)"
proof -
  from lexer_lines[OF assms(1)] obtain ts where ts: "lexer (concat (map show_line vss)) = (ts, None)"
    "list_all2 fits ts (concat (map (no_space \<circ> lexemes) (concat vss)))" by blast
  have p: "prints v \<and> nesting v \<le> depth" if v: "v \<in> set (concat vss)" for v
  proof -
    from v obtain vs where "vs \<in> set vss" "v \<in> set vs" by auto
    with assms show ?thesis by (auto simp: list_all_iff intro: shown_prints)
  qed
  have "gen_loop (Suc (length ts)) depth None (ts, None) = (map value_of (concat vss), None)"
    by (rule gen_loop_prints) (use p ts(2) in \<open>auto\<close>)
  moreover have "vss = []" if "concat (map show_line vss) = []"
    using that by (cases vss) (simp_all add: show_line_def records_of_ne)
  ultimately show ?thesis
    unfolding gen_parsed_response_def ts(1) Let_def fst_conv by (cases "vss = []") auto
qed

lemma parse_response_lines:
  assumes "list_all (list_all shown_ok) vss" and "\<forall>vs\<in>set vss. \<forall>v\<in>set vs. nesting v \<le> depth"
  shows "parse_response depth (Some (concat (map show_line vss))) = Inr (map value_of (concat vss))"
  using gen_parsed_lines[OF assms] by (simp add: parse_response_def collect_def)

type_synonym shown_folder = "bytes list \<times> bytes \<times> nat list"
  \<comment> \<open>the flags, the delimiter, the name\<close>

definition show_folder :: "shown_folder \<Rightarrow> shown list" where
  \<comment> \<open>the LIST response: the name in modified UTF-7\<close>
  "show_folder f = (case f of (flags, delim, name) \<Rightarrow>
     [STuple (map SAtom flags), SQuoted delim, SQuoted (imap_encode name)])"

definition folder_ok :: "shown_folder \<Rightarrow> bool" where
  "folder_ok f \<longleftrightarrow> (case f of (flags, delim, name) \<Rightarrow>
     list_all plain_atom flags \<and> list_all (\<lambda>c. c < 2 ^ 16 \<and> c \<notin> {9, 10, 13}) name)"

definition listed_folder :: "shown_folder \<Rightarrow> imapval \<times> imapval \<times> ns_text" where
  "listed_folder f = (case f of (flags, delim, name) \<Rightarrow> (ITuple (map IBytes flags), IBytes delim, NsText name))"

lemma folder_entries_shown:
  "list_all folder_ok fs \<Longrightarrow>
     folder_entries True (map value_of (concat (map show_folder fs))) = Inr (map listed_folder fs)"
proof (induction fs)
  case Nil
  then show ?case by simp
next
  case (Cons f fs)
  obtain flags delim name where f: "f = (flags, delim, name)" by (cases f)
  have "imap_decode (imap_encode name) = Inr name"
    using decode_encode_loop[of "[]" name] Cons.prems by (simp add: f folder_ok_def imap_decode_def imap_encode_def)
  then show ?case
    using Cons by (simp add: f show_folder_def listed_folder_def ns_prefix_def comp_def)
qed

lemma records_no_literal:
  "list_all (\<lambda>x. \<not> is_literal x) ls \<Longrightarrow> records_of acc ls = [Line (acc @ concat (map lexeme_text ls))]"
proof (induction ls arbitrary: acc)
  case Nil
  then show ?case by simp
next
  case (Cons l ls)
  then show ?case by (cases l) (simp_all add: is_literal_def)
qed

lemma with_spaces_no_literal:
  "list_all (list_all (\<lambda>x. \<not> is_literal x)) xs \<Longrightarrow> list_all (\<lambda>x. \<not> is_literal x) (with_spaces xs)"
  by (induction xs rule: with_spaces.induct) (simp_all add: is_literal_def)

lemma some_items_folders: "some_items (Some (concat (map (show_line \<circ> show_folder) fs))) = concat (map (show_line \<circ> show_folder) fs)"
proof -
  have "Line [] \<notin> set (show_line (show_folder f))" for f
  proof -
    obtain flags delim name where f: "f = (flags, delim, name)" by (cases f)
    let ?ls = "with_spaces (map lexemes (show_folder f))"
    have "list_all (\<lambda>x. \<not> is_literal x) (with_spaces (map (lexemes \<circ> SAtom) flags))"
      by (rule with_spaces_no_literal) (simp add: list_all_iff is_literal_def)
    then have "list_all (\<lambda>x. \<not> is_literal x) ?ls"
      by (simp add: f show_folder_def is_literal_def comp_def)
    from records_no_literal[OF this, of "[]"] show ?thesis
      unfolding show_line_def by (simp only:) (simp add: f show_folder_def)
  qed
  then have "filter (\<lambda>d. d \<noteq> Line []) (concat (map (show_line \<circ> show_folder) fs)) = concat (map (show_line \<circ> show_folder) fs)"
    by (intro filter_True) auto
  then show ?thesis by (simp only: some_items_def option.case)
qed

lemma proc_folder_list_shown:
  assumes "list_all folder_ok fs" and "0 < ev_depth env"
  shows "proc_folder_list env True (Some (concat (map (show_line \<circ> show_folder) fs))) = Inr (map listed_folder fs)"
proof -
  have ok: "list_all (list_all shown_ok) (map show_folder fs)"
    using assms(1) by (auto simp: list_all_iff show_folder_def folder_ok_def split: prod.splits)
  have depth: "\<forall>vs\<in>set (map show_folder fs). \<forall>v\<in>set vs. nesting v \<le> ev_depth env"
  proof (intro ballI)
    fix vs v assume "vs \<in> set (map show_folder fs)" "v \<in> set vs"
    then obtain flags delim name where v: "v \<in> {STuple (map SAtom flags), SQuoted delim, SQuoted name}"
      by (auto simp: show_folder_def split: prod.splits)
    have "Max (insert 0 (nesting ` set (map SAtom flags))) = 0"
      by (rule Max_eqI) auto
    with v assms(2) show "nesting v \<le> ev_depth env" by auto
  qed
  have "parse_response (ev_depth env) (Some (concat (map (show_line \<circ> show_folder) fs)))
      = Inr (map value_of (concat (map show_folder fs)))"
    using parse_response_lines[OF ok depth] by (simp add: comp_def)
  then show ?thesis
    using folder_entries_shown[OF assms(1)] by (simp only: proc_folder_list_def some_items_folders sbind_simps)
qed

end
