(* ===== verification/ImapSample.thy ===== *)
theory ImapSample
  imports ImapWire
begin

text \<open>
  A client with a given list of replies to come, for the witnesses of the properties of sessions, and
  how a command runs that the next reply completes.
\<close>

section \<open>A client and a script\<close>

definition sample_system :: system_time where
  "sample_system = \<lparr>tm_isdst = 0, daylight = 0, altzone = 0, timezone = -3600\<rparr>"

definition sample_env :: env where
  "sample_env = \<lparr>ev_depth = 900, ev_maxint = 2 ^ 63 - 1, ev_parsedate_tz = (\<lambda>_. Inr None), ev_sys = sample_system,
     ev_codecs = (\<lambda>_ u. encode_ascii u)\<rparr>"

definition sample_imap :: "reply list \<Rightarrow> imap4" where
  "sample_imap inbox = \<lparr>im_inbox = inbox, im_sent = [], im_tagged = [], im_untagged = [], im_state = ''SELECTED'',
     im_capabilities = [''IMAP4REV1''], im_tagpre = ''T'', im_tagnum = 1, im_is_readonly = False\<rparr>"

definition sample_client :: "reply list \<Rightarrow> client" where
  "sample_client inbox = \<lparr>cl_host = ''host'', cl_port = Some 143, cl_ssl = False, cl_stream = False, cl_use_uid = True,
     cl_folder_encode = True, cl_normalise_times = True, cl_timeout = Some 30, cl_starttls_done = False,
     cl_cached_capabilities = None, cl_imap = sample_imap inbox, cl_idle_tag = None, cl_sock_timeout = Some 30\<rparr>"

lemma dec_small: "n < 10 \<Longrightarrow> dec n = [char_of (48 + n)]"
  by (subst dec.simps) simp

lemmas sample_simps = sample_client_def sample_imap_def sample_env_def sample_system_def dec_small char_of_def bit_0

section \<open>A command completed at once\<close>

definition fresh_client :: client where
  "fresh_client = (let cl = sample_client [Tagged ''T1'' ''OK'' ''go''] in cl\<lparr>cl_imap := (cl_imap cl)\<lparr>im_state := ''NONAUTH''\<rparr>\<rparr>)"

lemma starttls_known: "''STARTTLS'' \<in> fst ` set client_Commands" "allowed_states client_Commands ''STARTTLS'' = [''NONAUTH'']"
  by code_simp+

lemma command_complete_done:
  assumes "im_inbox c = [Tagged tag ''OK'' msg]" and "map_of (im_tagged c) tag = Some None" and "quiet c"
    and "response_code msg = None"
  shows "\<exists>d. command_complete name tag c = (Inr (''OK'', Some [Line msg]), d)"
proof -
  let ?c = "c\<lparr>im_inbox := [], im_tagged := AList.update tag (Some (''OK'', msg)) (im_tagged c)\<rparr>"
  let ?d = "?c\<lparr>im_tagged := AList.delete tag (im_tagged ?c)\<rparr>"
  have "tag \<in> fst ` set (im_tagged c)" using assms(2) by (metis domI dom_map_of_conv_image_fst)
  then have "get_response c = (Inr (Some (tag @ '' '' @ ''OK'' @ '' '' @ msg)), ?c)"
    using assms(1,4) by (simp add: get_response_def bracketed_def)
  then have "tagged_response tag c = tagged_response tag ?c"
    using assms(2,3) by (subst tagged_response.simps) simp
  also have "\<dots> = (Inr (''OK'', msg), ?d)"
    by (subst tagged_response.simps) (simp add: update_conv')
  finally have "tagged_response tag c = (Inr (''OK'', msg), ?d)" .
  moreover have "quiet ?d" using assms(3) by (simp add: quiet_def)
  ultimately show ?thesis using assms(3) by (simp add: command_complete_def bindE_def whenE_def)
qed

end
