(* ===== verification/ImapSpec.thy ===== *)
theory ImapSpec
  imports ImapSample
begin

text \<open>
  The properties of the IMAP client: its lexer and parser, the encoding of names, what a session
  sends and receives, and what a client keeps.
  Witnesses use the client and the server scripts of ImapSample.
\<close>

section \<open>Searching\<close>


lemma sample_search_args:
  "search_args sample_env (Items [CText (Str ''SUBJECT''), CText (Str ''a b'')]) None
     = Inr [''SUBJECT'', CHR 0x22 # ''a b'' @ [CHR 0x22]]"
  by (simp add: search_args_def normalise_search_criteria_def no_criteria_def handle_one_search_criteria_def
      to_bytes_in_def maybe_quote_cases char_classes escape_quotes_def)

lemma sample_answered:
  "answered (sample_client [Untagged ''SEARCH'' [Line ''3 7''] [], Tagged ''T1'' ''OK'' ''done'']) ''SEARCH''
     [''SUBJECT'', CHR 0x22 # ''a b'' @ [CHR 0x22]] [Line (py_join '' '' (map dec [3, 7]))]"
  by (simp add: answered_def quiet_def next_tag_def sample_simps is8bit_def response_code_def)


text \<open>
  Two adjacent arguments that are not ASCII are written as literals with two spaces between them
  (\<open>_raw_command\<close> and \<open>_send_literal\<close> each write one), where the grammar of IMAP has one.
\<close>
theorem adjacent_literals_two_spaces:
  assumes "im_inbox c = [Continuation, Continuation] @ rest" and "\<not> is8bit w" and "is8bit a" and "is8bit b"
  shows "\<exists>d. send_items tag (iter_with_last [w, a, b]) [] c = (Inr [], d)
    \<and> concat (im_sent d) = concat (im_sent c) @ w @ '' '' @ wire_item a @ ''  '' @ wire_item b"
  using assms by (simp add: iter_with_last_marked bindE_def whenE_def send_def send_literal_written wire_item_def)

theorem adjacent_literals_two_spaces_witness:
  "\<exists>d. send_items ''T1'' (iter_with_last [''SEARCH'', [CHR 0xE9], [CHR 0xE8]]) [] (sample_imap [Continuation, Continuation])
      = (Inr [], d)
    \<and> concat (im_sent d) = ''SEARCH '' @ wire_item [CHR 0xE9] @ ''  '' @ wire_item [CHR 0xE8]"
  using adjacent_literals_two_spaces[of "sample_imap [Continuation, Continuation]" "[]" "''SEARCH''" "[CHR 0xE9]" "[CHR 0xE8]" "''T1''"]
  by (simp add: sample_simps is8bit_def)

section \<open>Responses\<close>

text \<open>
  C6: What a server sends for a list of values is parsed to these values: numbers, atoms, quoted
  strings, literals of any bytes, NIL and nested lists, within the recursion limit.
\<close>
theorem parse_response_round_trip:
  assumes "list_all shown_ok vs" and "\<forall>v\<in>set vs. nesting v \<le> depth"
  shows "parse_response depth (Some (records_of [] (with_spaces (map lexemes vs)))) = Inr (map value_of vs)"
  using assms by (rule parse_response_prints)

theorem parse_response_round_trip_witness:
  "parse_response 2 (Some [WithLiteral ''3 (UID 7 X (NIL {2}'' [CHR 0x0A, CHR 0xFF], Line ''))''])
     = Inr [IInt 3, ITuple [IBytes ''UID'', IInt 7, IBytes ''X'', ITuple [INone, IBytes [CHR 0x0A, CHR 0xFF]]]]"
  using parse_response_round_trip[of "[SNum 3, STuple [SAtom ''UID'', SNum 7, SAtom ''X'', STuple [SNil, SLiteral [CHR 0x0A, CHR 0xFF]]]]" 2]
  by (simp add: sample_simps plain_atom_def NON_SPECIALS_def SPECIALS_def is_digit_def literal_mark_def)


text \<open>
  C32: The lexer works on an iterator that takes characters back. What it delivers is the scan of the
  text that is left: first the characters pushed back, the last one first, then the source.
\<close>
theorem token_stream_refines_scan: "read_token_stream s = scan (pi_rest s)"
  by (rule read_token_stream_scan)

text \<open>
  The messages of a FETCH response are found under their identifiers, or under their sequence
  numbers when identifiers are not asked for, each item with its value; no other message is there.
\<close>
theorem fetch_finds_items:
  assumes "\<forall>x\<in>set ms. message_ok depth x" and "0 < depth"
    and "distinct (map (\<lambda>(n, u, kvs). if uk then u else n) ms)"
  shows "\<exists>r. parse_fetch_response pd sys depth
      (Some (records_of [] (with_spaces (map lexemes (concat (map show_message ms)))))) nt uk = Inr r
    \<and> dom r = (\<lambda>(n, u, kvs). int (if uk then u else n)) ` set ms
    \<and> (\<forall>(n, u, kvs)\<in>set ms. \<exists>d. r (int (if uk then u else n)) = Some d
         \<and> d ''SEQ'' = Some (FInt (int n)) \<and> d ''UID'' = (if uk then None else Some (FInt (int u)))
         \<and> (\<forall>(k, v)\<in>set kvs. d (py_upper k) = Some (FVal (value_of v))))"
  using fetched_found[OF assms(1,3)] by (intro exI[of _ "fetched uk ms"] conjI fetch_printed[OF assms(1,2)]) simp_all

theorem fetch_finds_items_witness:
  "\<exists>r. parse_fetch_response (\<lambda>_. Inr None) sample_system 9 (Some [Line ''1 (UID 7 X 5) 2 (UID 8)'']) True True = Inr r
     \<and> dom r = {7, 8} \<and> (\<exists>d. r 7 = Some d \<and> d ''SEQ'' = Some (FInt 1) \<and> d ''UID'' = None \<and> d ''X'' = Some (FVal (IInt 5)))"
proof -
  have "message_ok 9 (1, 7, [(''X'', SNum 5)])" "message_ok 9 (2, 8, [])"
    by (simp_all add: plain_atom_def NON_SPECIALS_def SPECIALS_def is_digit_def special_keys_def py_upper_def upper_char_def)
  with fetch_finds_items[of "[(1, 7, [(''X'', SNum 5)]), (2, 8, [])]" 9 True "\<lambda>_. Inr None" sample_system True]
  show ?thesis by (simp add: sample_simps show_items_def py_upper_def upper_char_def) blast
qed

section \<open>Names of folders\<close>





text \<open>
  C25: The folders a server lists, one response each, with flags, delimiter and name in modified UTF-7,
  are delivered in order with their flags, delimiters and names.
\<close>
theorem listed_folders_delivered:
  assumes "list_all folder_ok fs" and "0 < ev_depth env"
  shows "proc_folder_list env True (Some (concat (map (show_line \<circ> show_folder) fs))) = Inr (map listed_folder fs)"
  using assms by (rule proc_folder_list_shown)

theorem listed_folders_delivered_witness:
  "proc_folder_list sample_env True (Some (concat (map (show_line \<circ> show_folder)
       [([''HasNoChildren''], ''/'', [0x49, 0x4E]), ([], ''/'', [0x4A, 0xE9])])))
   = Inr [(ITuple [IBytes ''HasNoChildren''], IBytes ''/'', NsText [0x49, 0x4E]), (ITuple [], IBytes ''/'', NsText [0x4A, 0xE9])]"
  using listed_folders_delivered[of "[([''HasNoChildren''], ''/'', [0x49, 0x4E]), ([], ''/'', [0x4A, 0xE9])]" sample_env]
  by (simp add: folder_ok_def listed_folder_def sample_env_def plain_atom_def NON_SPECIALS_def SPECIALS_def is_digit_def)

section \<open>The client over a session\<close>

text \<open>
  C8: Whatever methods are called, in whatever order and whether they return or raise, a client keeps
  the settings of its constructor, and outside \<open>idle_check\<close> its socket has the client's timeout.
\<close>
theorem session_keeps_settings:
  assumes "new_client connect host port use_uid ssl stream timeout = Inr start" and "client_step\<^sup>*\<^sup>* start cl"
  shows "cl_sock_timeout cl = timeout \<and> cl_host cl = cl_host start \<and> cl_port cl = cl_port start
    \<and> cl_ssl cl = cl_ssl start \<and> cl_stream cl = cl_stream start \<and> cl_use_uid cl = cl_use_uid start
    \<and> cl_folder_encode cl = cl_folder_encode start \<and> cl_normalise_times cl = cl_normalise_times start"
proof -
  have "same_settings start cl"
    using settings.session_keeps_invariant[OF assms(2), of start] by (simp add: same_settings_def)
  moreover have "timeout_applied cl" "cl_timeout start = timeout"
    using socket.session_keeps_invariant[OF assms(2)] new_client_timeout[OF assms(1)] by simp_all
  ultimately show ?thesis by (simp add: same_settings_def timeout_applied_def)
qed

theorem session_keeps_settings_witness:
  "let start = sample_client [] in
   cl_sock_timeout (snd (capabilities (snd (login (Some (Str ''u'')) None start)))) = Some 30"
proof -
  let ?start = "sample_client []"
  let ?cl = "snd (capabilities (snd (login (Some (Str ''u'')) None ?start)))"
  have new: "new_client (\<lambda>_ _. Inr (sample_imap [])) ''host'' None True False False (Some 30) = Inr ?start"
    by (simp add: new_client_def Let_def set_timeout_def sock_settimeout_def sample_client_def)
  have "client_step\<^sup>*\<^sup>* ?start ?cl"
    by (rule rtranclp.rtrancl_into_rtrancl[OF r_into_rtranclp]) (rule client_step.intros)+
  from session_keeps_settings[OF new this] show ?thesis by (simp add: Let_def)
qed

lemma save_capabilities_cached: "save_capabilities r cl = (Inr caps, cl') \<Longrightarrow> cl_cached_capabilities cl' = Some caps"
  by (auto simp: save_capabilities_def outcome Let_def split: option.split_asm resp_record.split_asm)

text \<open>
  The capabilities a logged-in client has learnt are remembered: asked again, it answers the same
  and nothing is sent.
\<close>
theorem capabilities_remembered:
  assumes "capabilities cl = (Inr (c # cs), cl')" and "im_state (cl_imap cl) \<in> {''SELECTED'', ''AUTH''}"
  shows "capabilities cl' = (Inr (c # cs), cl')"
proof -
  have "cl_cached_capabilities cl' = Some (c # cs)"
    using assms by (auto simp: capabilities_def outcome dest: save_capabilities_cached
        split: option.split_asm list.split_asm prod.split_asm) (metis list.exhaust save_capabilities_cached)+
  then show ?thesis by (simp add: capabilities_def)
qed

theorem capabilities_remembered_witness:
  "let cl = sample_client []; cl = cl\<lparr>cl_imap := (cl_imap cl)\<lparr>im_untagged := [(''CAPABILITY'', [Line ''IMAP4rev1 Idle''])]\<rparr>\<rparr>;
       cl' = snd (capabilities cl)
   in capabilities cl' = (Inr [''IMAP4REV1'', ''IDLE''], cl')"
proof -
  let ?cl = "let cl = sample_client [] in cl\<lparr>cl_imap := (cl_imap cl)\<lparr>im_untagged := [(''CAPABILITY'', [Line ''IMAP4rev1 Idle''])]\<rparr>\<rparr>"
  have key: "first_present [(Str ''CAPABILITY'', v)] (gen_keys (Str ''CAPABILITY'')) = Inr (Some (Str ''CAPABILITY''))" for v :: "resp_record list"
    by (simp add: gen_keys_def py_eq_def)
  have "capabilities ?cl = (Inr [''IMAP4REV1'', ''IDLE''], snd (capabilities ?cl))"
    by (simp add: capabilities_def sample_simps bindE_def normaliser_pop_def untagged_dict_def py_eq_def key save_capabilities_def py_upper_def upper_char_def is_space_def Let_def)
  from capabilities_remembered[OF this] show ?thesis by (simp add: Let_def sample_simps)
qed

text \<open>
  A connection is secured at most once: after a STARTTLS that the server accepted, the attempt
  raises and changes nothing, and the capabilities learnt before are forgotten.
\<close>
theorem starttls_once:
  assumes "starttls wrapped cl = (Inr r, cl')"
  shows "cl_cached_capabilities cl' = None \<and> Inr (cl_imap cl') = wrapped
    \<and> starttls again cl' = (Inl (ImapAbort ''TLS session already established''), cl')"
  using assms by (auto simp: starttls_def outcome Let_def split: if_splits prod.splits)

theorem starttls_once_witness:
  "\<exists>r cl'. starttls (Inr (sample_imap [])) fresh_client = (Inr r, cl')
     \<and> starttls (Inr (sample_imap [])) cl' = (Inl (ImapAbort ''TLS session already established''), cl')"
proof -
  have "\<exists>r cl'. starttls (Inr (sample_imap [])) fresh_client = (Inr r, cl')"
  proof -
    let ?c = "(cl_imap fresh_client)\<lparr>im_tagnum := 2, im_tagged := [(''T1'', None)], im_sent := [''T1 STARTTLS'' @ CRLF]\<rparr>"
    have "command (ascii ''STARTTLS'') [] None [] (cl_imap fresh_client) = (Inr ''T1'', ?c)"
      by (simp add: command_def fresh_client_def sample_simps Let_def key_text_def starttls_known ascii_def new_tag_def
          bindE_def interpolated_def to_unicode_def decode_ascii_def encode_ascii_def is_ascii_def send_def)
    moreover obtain d where "command_complete ''STARTTLS'' ''T1'' ?c = (Inr (''OK'', Some [Line ''go'']), d)"
      using command_complete_done[of ?c "''T1''" "''go''" "''STARTTLS''"]
      by (auto simp: fresh_client_def sample_simps quiet_def response_code_def Let_def)
    moreover have "key_text (ascii ''STARTTLS'') = ''STARTTLS''" by (simp add: key_text_def ascii_def char_of_def bit_0)
    ultimately show ?thesis
      by (simp add: starttls_def simple_command_def bindE_def imapE_def checkok_def check_resp_def unpacked_def)
        (simp add: fresh_client_def sample_simps)
  qed
  then obtain r cl' where ok: "starttls (Inr (sample_imap [])) fresh_client = (Inr r, cl')" by blast
  from ok starttls_once[OF ok, of "Inr (sample_imap [])"] show ?thesis by blast
qed

text \<open>
  A time stamp with an offset is turned into the same instant of the system's time zone, seconds
  unchanged, whatever days, months and years lie between, or the conversion raises.
\<close>
theorem native_time_same_instant:
  assumes "datetime_to_native sys dt = Inr d" and "datetime_ok dt" and "dt_tz dt = Some off"
    and "for_system sys = Inr loff"
  shows "minute_count d - loff = minute_count dt - off \<and> dt_second d = dt_second dt \<and> datetime_ok d
    \<and> dt_tz d = None"
  using assms by (rule datetime_to_native_count)

theorem native_time_same_instant_witness:
  "let sys = \<lparr>tm_isdst = 0, daylight = 0, altzone = 0, timezone = 18000\<rparr>;
       dt = \<lparr>dt_year = 2016, dt_month = 1, dt_day = 1, dt_hour = 2, dt_minute = 30, dt_second = 5, dt_tz = Some 60\<rparr>;
       d = \<lparr>dt_year = 2015, dt_month = 12, dt_day = 31, dt_hour = 20, dt_minute = 30, dt_second = 5, dt_tz = None\<rparr>
   in datetime_to_native sys dt = Inr d \<and> minute_count d + 300 = minute_count dt - 60"
proof -
  let ?sys = "\<lparr>tm_isdst = 0, daylight = 0, altzone = 0, timezone = 18000\<rparr>"
  let ?dt = "\<lparr>dt_year = 2016, dt_month = 1, dt_day = 1, dt_hour = 2, dt_minute = 30, dt_second = 5, dt_tz = Some 60\<rparr>"
  let ?d = "\<lparr>dt_year = 2015, dt_month = 12, dt_day = 31, dt_hour = 20, dt_minute = 30, dt_second = 5, dt_tz = None\<rparr>"
  have zone: "for_system ?sys = Inr (- 300)" by (simp add: for_system_def FixedOffset_def)
  have native: "datetime_to_native ?sys ?dt = Inr ?d"
    by (simp add: datetime_to_native_def zone utcoffset_def add_minutes_def Let_def prev_day_def date_ok_def days_in_month_def)
  have "datetime_ok ?dt" by (simp add: datetime_ok_def date_ok_def days_in_month_def)
  from native_time_same_instant[OF native this _ zone, of 60] native show ?thesis by (simp add: Let_def)
qed

end
