(* ===== verification/SslFile.thy ===== *)
theory SslFile
  imports PyBase
begin

text \<open>
  backports/ssl/core.py: \<open>_safe_ssl_call\<close> and the file object \<open>_fileobject\<close> that imaplib reads a TLS
  connection through. The connection is the bytes the peer will send and a schedule: what each call of
  pyOpenSSL's \<open>recv\<close> and \<open>sendall\<close> does. A call with nothing left on the schedule does all it is asked
  for. The locale \<open>line_source\<close> is what a reader of lines relies on; the file object provides it as long
  as no call fails.
\<close>

section \<open>The connection\<close>

datatype ssl_arg = AInt int | AStr bytes | APair int bytes

datatype recv_event =
    Data nat
    \<comment> \<open>at most \<open>n + 1\<close> bytes are delivered\<close>
  | Want bool
    \<comment> \<open>\<open>WantReadError\<close> or \<open>WantWriteError\<close>; whether \<open>select\<close> then finds the socket ready in time\<close>
  | SysCall "ssl_arg list"
  | ZeroReturn
  | OtherError

record conn =
  sk_stream :: bytes
  sk_recvs :: "recv_event list"
  sk_written :: bytes
  sk_sends :: "(nat \<times> pyexc) option list"
    \<comment> \<open>\<open>Some (k, e)\<close>: \<open>sendall\<close> fails with \<open>e\<close> after \<open>k\<close> bytes\<close>

definition syscall_error :: "bool \<Rightarrow> ssl_arg list \<Rightarrow> pyexc + bytes" where
  \<comment> \<open>the handler of \<open>SysCallError\<close>; the name \<open>SSLSysCallError\<close> is not defined\<close>
  "syscall_error suppress_ragged_eofs args =
     (case args of
        [] \<Rightarrow> Inl (IndexError ''tuple index out of range'')
      | a # _ \<Rightarrow>
          if suppress_ragged_eofs \<and> a = APair (-1) ''Unexpected EOF'' then Inr []
          else if a = AInt 0 then Inl (SSLError ''SSLEOFError'')
          else Inl (NameError ''SSLSysCallError''))"

fun safe_recv :: "bool \<Rightarrow> nat \<Rightarrow> recv_event list \<Rightarrow> conn \<Rightarrow> (pyexc + bytes) \<times> conn" where
  \<comment> \<open>\<open>_safe_ssl_call(suppress_ragged_eofs, sock, 'recv', n)\<close>, over the schedule\<close>
  "safe_recv ragged n [] c =
     (Inr (take n (sk_stream c)), c\<lparr>sk_stream := drop n (sk_stream c), sk_recvs := []\<rparr>)"
| "safe_recv ragged n (Data k # es) c =
     (let m = min n (Suc k) in
      (Inr (take m (sk_stream c)), c\<lparr>sk_stream := drop m (sk_stream c), sk_recvs := es\<rparr>))"
| "safe_recv ragged n (Want ready # es) c =
     (if ready then safe_recv ragged n es c
      else (Inl (SocketTimeout ''timed out''), c\<lparr>sk_recvs := es\<rparr>))"
| "safe_recv ragged n (SysCall args # es) c = (syscall_error ragged args, c\<lparr>sk_recvs := es\<rparr>)"
| "safe_recv ragged n (ZeroReturn # es) c = (Inl (SSLError ''SSLZeroReturnError''), c\<lparr>sk_recvs := es\<rparr>)"
| "safe_recv ragged n (OtherError # es) c = (Inl (SSLError ''SSLError''), c\<lparr>sk_recvs := es\<rparr>)"

definition recv :: "nat \<Rightarrow> conn \<Rightarrow> (pyexc + bytes) \<times> conn" where
  \<comment> \<open>as the file object calls it\<close>
  "recv n c = safe_recv False n (sk_recvs c) c"

definition sendall :: "bytes \<Rightarrow> conn \<Rightarrow> (pyexc + unit) \<times> conn" where
  "sendall data c =
     (case sk_sends c of
        Some (k, e) # es \<Rightarrow> (Inl e, c\<lparr>sk_written := sk_written c @ take k data, sk_sends := es\<rparr>)
      | None # es \<Rightarrow> (Inr (), c\<lparr>sk_written := sk_written c @ data, sk_sends := es\<rparr>)
      | [] \<Rightarrow> (Inr (), c\<lparr>sk_written := sk_written c @ data\<rparr>))"

definition no_failure :: "conn \<Rightarrow> bool" where
  "no_failure c \<longleftrightarrow> list_all (\<lambda>e. case e of Data _ \<Rightarrow> True | Want r \<Rightarrow> r | _ \<Rightarrow> False) (sk_recvs c)"

lemma safe_recv_data:
  "safe_recv False n es c = (Inr d, c') \<Longrightarrow>
     \<exists>m. d = take m (sk_stream c) \<and> sk_stream c' = drop m (sk_stream c) \<and> m \<le> n \<and> (n \<noteq> 0 \<longrightarrow> m \<noteq> 0)"
proof (induction False n es c rule: safe_recv.induct)
  case (1 n c)
  then show ?case by (intro exI[of _ n]) auto
next
  case (2 n k es c)
  then show ?case by (intro exI[of _ "min n (Suc k)"]) (auto simp: Let_def)
qed (auto simp: syscall_error_def split: if_splits list.splits)

lemma recv_data:
  assumes "recv n c = (Inr d, c')"
  shows "sk_stream c = d @ sk_stream c'" "length d \<le> n" "d = [] \<and> n \<noteq> 0 \<Longrightarrow> sk_stream c = []"
proof -
  from safe_recv_data[of n "sk_recvs c" c d c'] assms obtain m where
    m: "d = take m (sk_stream c)" "sk_stream c' = drop m (sk_stream c)" "m \<le> n" "n \<noteq> 0 \<longrightarrow> m \<noteq> 0"
    by (auto simp: recv_def)
  then show "sk_stream c = d @ sk_stream c'" "length d \<le> n" "d = [] \<and> n \<noteq> 0 \<Longrightarrow> sk_stream c = []" by auto
qed

lemma safe_recv_returns:
  "list_all (\<lambda>e. case e of Data _ \<Rightarrow> True | Want r \<Rightarrow> r | _ \<Rightarrow> False) es \<Longrightarrow>
     \<exists>d c'. safe_recv ragged n es c = (Inr d, c') \<and> no_failure c'"
proof (induction ragged n es c rule: safe_recv.induct)
  case (2 ragged n k es c)
  then show ?case by (simp add: Let_def no_failure_def)
qed (auto simp: no_failure_def)

lemma recv_returns: "no_failure c \<Longrightarrow> \<exists>d c'. recv n c = (Inr d, c') \<and> no_failure c'"
  using safe_recv_returns by (simp add: recv_def no_failure_def)

section \<open>The file object\<close>

record fileobject =
  fo_sock :: conn
  fo_open :: bool
    \<comment> \<open>\<open>_sock is not None\<close>\<close>
  fo_rbufsize :: nat
  fo_wbufsize :: nat
  fo_rbuf :: bytes
  fo_wbuf :: "bytes list"
  fo_wbuf_len :: nat
  fo_close :: bool

definition default_bufsize :: nat where "default_bufsize = 8192"

definition new_fileobject :: "conn \<Rightarrow> int \<Rightarrow> bool \<Rightarrow> fileobject" where
  "new_fileobject sock bufsize close =
     (let bufsize = (if bufsize < 0 then default_bufsize else nat bufsize) in
      \<lparr>fo_sock = sock, fo_open = True,
       fo_rbufsize = (if bufsize = 0 then 1 else if bufsize = 1 then default_bufsize else bufsize),
       fo_wbufsize = bufsize, fo_rbuf = [], fo_wbuf = [], fo_wbuf_len = 0, fo_close = close\<rparr>)"

definition recvE :: "nat \<Rightarrow> (fileobject, bytes) act" where
  "recvE n f =
     (if fo_open f then (case recv n (fo_sock f) of (r, c) \<Rightarrow> (r, f\<lparr>fo_sock := c\<rparr>))
      else (Inl (AttributeError ''recv''), f))"

definition set_rbuf :: "bytes \<Rightarrow> (fileobject, unit) act" where
  "set_rbuf b = modE (\<lambda>f. f\<lparr>fo_rbuf := b\<rparr>)"

definition pending :: "fileobject \<Rightarrow> bytes" where
  \<comment> \<open>the bytes not yet read by the user of the file object\<close>
  "pending f = fo_rbuf f @ sk_stream (fo_sock f)"

definition healthy :: "fileobject \<Rightarrow> bool" where
  "healthy f \<longleftrightarrow> no_failure (fo_sock f) \<and> fo_open f \<and> 0 < fo_rbufsize f"

lemma recvE_shrinks:
  "recvE n f = (Inr d, f') \<Longrightarrow> d \<noteq> [] \<Longrightarrow> length (sk_stream (fo_sock f')) < length (sk_stream (fo_sock f))"
  using recv_data(1) by (fastforce simp: recvE_def split: prod.splits if_splits)

subsection \<open>read\<close>

function read_loop :: "nat \<Rightarrow> bytes \<Rightarrow> (fileobject, bytes) act" where
  "read_loop sz buf f =
     (let left = sz - length buf in
      case recvE left f of
        (Inl e, g) \<Rightarrow> (Inl e, g)
      | (Inr data, g) \<Rightarrow>
          if data = [] then (Inr buf, g)
          else if length data = sz \<and> buf = [] then (Inr data, g)
          else if length data = left then (Inr (buf @ data), g)
          else if \<not> length data \<le> left then (Inl (AssertionError ''recv''), g)
          else read_loop sz (buf @ data) g)"
  by pat_completeness auto
termination
  by (relation "measure (\<lambda>(_, _, f). length (sk_stream (fo_sock f)))") (auto dest!: recvE_shrinks[OF sym])

declare read_loop.simps [simp del]

definition fo_read :: "int \<Rightarrow> (fileobject, bytes) act" where
  "fo_read sz = withE (\<lambda>f.
     let buf = fo_rbuf f in
     if sz < 0 then
       bindE (set_rbuf []) (\<lambda>_.
       bindE (recvE (max (fo_rbufsize f) default_bufsize)) (\<lambda>data. retE (buf @ data)))
     else if int (length buf) \<ge> sz then
       bindE (set_rbuf (drop (nat sz) buf)) (\<lambda>_. retE (take (nat sz) buf))
     else bindE (set_rbuf []) (\<lambda>_. read_loop (nat sz) buf))"

subsection \<open>readline\<close>

definition NL :: char where "NL = CHR 0x0A"

fun line_end :: "bytes \<Rightarrow> nat option" where
  \<comment> \<open>where the first line of the text ends: one past its newline\<close>
  "line_end [] = None"
| "line_end (c # cs) = (if c = NL then Some 1 else map_option Suc (line_end cs))"

definition first_line :: "bytes \<Rightarrow> bytes" where
  "first_line b = (case line_end b of None \<Rightarrow> b | Some n \<Rightarrow> take n b)"

definition bio_readline :: "int \<Rightarrow> bytes \<Rightarrow> bytes" where
  \<comment> \<open>\<open>BytesIO.readline(sz)\<close> from the start\<close>
  "bio_readline sz b = (if sz < 0 then first_line b else take (nat sz) (first_line b))"

function byte_loop :: "bytes \<Rightarrow> (fileobject, bytes) act" where
  \<comment> \<open>the unbuffered case: one byte at a time\<close>
  "byte_loop acc f =
     (case recvE 1 f of
        (Inl e, g) \<Rightarrow> (Inl e, g)
      | (Inr data, g) \<Rightarrow>
          if data = [] then (Inr acc, g)
          else if data = [NL] then (Inr (acc @ data), g)
          else byte_loop (acc @ data) g)"
  by pat_completeness auto
termination
  by (relation "measure (\<lambda>(_, f). length (sk_stream (fo_sock f)))") (auto dest!: recvE_shrinks[OF sym])

declare byte_loop.simps [simp del]

function line_loop :: "bytes \<Rightarrow> (fileobject, bytes) act" where
  "line_loop buf f =
     (case recvE (fo_rbufsize f) f of
        (Inl e, g) \<Rightarrow> (Inl e, g)
      | (Inr data, g) \<Rightarrow>
          if data = [] then (Inr buf, g)
          else (case line_end data of
              Some nl \<Rightarrow> (Inr (buf @ take nl data), g\<lparr>fo_rbuf := drop nl data\<rparr>)
            | None \<Rightarrow> line_loop (buf @ data) g))"
  by pat_completeness auto
termination
  by (relation "measure (\<lambda>(_, f). length (sk_stream (fo_sock f)))") (auto dest!: recvE_shrinks[OF sym])

declare line_loop.simps [simp del]

function sized_loop :: "nat \<Rightarrow> bytes \<Rightarrow> (fileobject, bytes) act" where
  "sized_loop sz buf f =
     (case recvE (fo_rbufsize f) f of
        (Inl e, g) \<Rightarrow> (Inl e, g)
      | (Inr data, g) \<Rightarrow>
          if data = [] then (Inr buf, g)
          else let left = sz - length buf in
            (case line_end (take left data) of
               Some nl \<Rightarrow> (Inr (buf @ take nl data), g\<lparr>fo_rbuf := drop nl data\<rparr>)
             | None \<Rightarrow>
                 if length data = sz \<and> buf = [] then (Inr data, g)
                 else if length data \<ge> left
                 then (Inr (buf @ take left data), g\<lparr>fo_rbuf := drop left data\<rparr>)
                 else sized_loop sz (buf @ data) g))"
  by pat_completeness auto
termination
  by (relation "measure (\<lambda>(_, _, f). length (sk_stream (fo_sock f)))") (auto dest!: recvE_shrinks[OF sym])

declare sized_loop.simps [simp del]

definition fo_readline :: "int \<Rightarrow> (fileobject, bytes) act" where
  "fo_readline sz = withE (\<lambda>f.
     let buf = fo_rbuf f; bline = bio_readline sz buf in
     if buf \<noteq> [] \<and> ((bline \<noteq> [] \<and> last bline = NL) \<or> int (length bline) = sz) then
       bindE (set_rbuf (drop (length bline) buf)) (\<lambda>_. retE bline)
     else if sz < 0 then
       (if fo_rbufsize f \<le> 1 then bindE (set_rbuf []) (\<lambda>_. byte_loop buf)
        else bindE (set_rbuf []) (\<lambda>_. line_loop buf))
     else if int (length buf) \<ge> sz then
       bindE (set_rbuf (drop (nat sz) buf)) (\<lambda>_. retE (take (nat sz) buf))
     else bindE (set_rbuf []) (\<lambda>_. sized_loop (nat sz) buf))"

section \<open>Reading refines the stream of bytes\<close>

lemma line_end_None: "line_end b = None \<longleftrightarrow> NL \<notin> set b"
  by (induction b) auto

lemma line_end_Some: "line_end b = Some n \<Longrightarrow> 0 < n \<and> n \<le> length b \<and> take n b \<noteq> [] \<and> last (take n b) = NL"
proof (induction b arbitrary: n)
  case (Cons c b)
  then show ?case by (cases "c = NL") (auto split: if_splits)
qed simp

lemma line_end_append:
  "line_end (a @ b) = (case line_end a of Some n \<Rightarrow> Some n | None \<Rightarrow> map_option (\<lambda>n. length a + n) (line_end b))"
  by (cases "line_end b"; induction a) (auto split: option.splits)

lemma first_line_prefix: "first_line b = take (length (first_line b)) b"
  by (auto simp: first_line_def dest: line_end_Some split: option.splits)

lemma length_first_line: "length (first_line b) \<le> length b"
  by (auto simp: first_line_def split: option.splits)

lemma first_line_no_nl: "NL \<notin> set b \<Longrightarrow> first_line b = b"
  by (simp add: first_line_def line_end_None[symmetric])

lemma first_line_append_nl: "NL \<in> set a \<Longrightarrow> first_line (a @ b) = first_line a"
  by (auto simp: first_line_def line_end_append dest: line_end_Some line_end_None[THEN iffD1] split: option.splits)

lemma first_line_append_no_nl: "NL \<notin> set a \<Longrightarrow> first_line (a @ b) = a @ first_line b"
  by (auto simp: first_line_def line_end_append line_end_None[symmetric] split: option.splits)

lemma first_line_last: "NL \<in> set b \<Longrightarrow> first_line b \<noteq> [] \<and> last (first_line b) = NL"
  by (auto simp: first_line_def dest: line_end_Some line_end_None[THEN iffD1] split: option.splits)

lemma first_line_take: "k < length (first_line b) \<Longrightarrow> NL \<notin> set (take k b)"
proof (induction b arbitrary: k)
  case Nil
  then show ?case by simp
next
  case (Cons c b)
  show ?case
  proof (cases "c = NL")
    case True
    with Cons.prems show ?thesis by (simp add: first_line_def)
  next
    case False
    then have "first_line (c # b) = c # first_line b"
      using first_line_append_no_nl[of "[c]" b] by simp
    with Cons False show ?thesis by (cases k) auto
  qed
qed

lemma recvE_healthy:
  assumes "healthy f" and "0 < n"
  obtains d g where "recvE n f = (Inr d, g)" and "healthy g" and "fo_rbuf g = fo_rbuf f"
    and "sk_stream (fo_sock f) = d @ sk_stream (fo_sock g)" and "length d \<le> n"
    and "d = [] \<Longrightarrow> sk_stream (fo_sock f) = []" and "fo_rbufsize g = fo_rbufsize f"
proof -
  from recv_returns[of "fo_sock f" n] assms(1) obtain d c where
    r: "recv n (fo_sock f) = (Inr d, c)" "no_failure c" by (auto simp: healthy_def)
  show ?thesis
    by (rule that[of d "f\<lparr>fo_sock := c\<rparr>"])
      (use r recv_data[OF r(1)] assms in \<open>auto simp: recvE_def healthy_def\<close>)
qed

lemma read_loop_spec:
  "healthy f \<Longrightarrow> fo_rbuf f = [] \<Longrightarrow> length buf < sz \<Longrightarrow>
     \<exists>g. read_loop sz buf f = (Inr (take sz (buf @ sk_stream (fo_sock f))), g)
       \<and> pending g = drop sz (buf @ sk_stream (fo_sock f)) \<and> healthy g"
proof (induction sz buf f rule: read_loop.induct)
  case (1 sz buf f)
  let ?left = "sz - length buf"
  from "1.prems" have left: "0 < ?left" by simp
  obtain d g where r: "recvE ?left f = (Inr d, g)" and g: "healthy g" "fo_rbuf g = []"
    and s: "sk_stream (fo_sock f) = d @ sk_stream (fo_sock g)" and d: "length d \<le> ?left"
    and eof: "d = [] \<Longrightarrow> sk_stream (fo_sock f) = []"
    using recvE_healthy[OF "1.prems"(1) left] "1.prems"(2) by metis
  consider "d = []" | "d \<noteq> []" "length d = ?left" | "d \<noteq> []" "length d < ?left" using d by linarith
  then show ?case
  proof cases
    case 1
    with r eof s g "1.prems"(3) show ?thesis
      by (subst read_loop.simps) (simp add: pending_def)
  next
    case 2
    with r s g "1.prems"(3) show ?thesis
      by (subst read_loop.simps) (auto simp: pending_def Let_def)
  next
    case 3
    have "\<not> (length d = sz \<and> buf = [])" using 3 by auto
    moreover have "length (buf @ d) < sz" using 3 by simp
    ultimately show ?thesis
      using "1.IH"[OF refl r[symmetric]] 3 r s g
      by (subst read_loop.simps) simp
  qed
qed

lemma byte_loop_spec:
  "healthy f \<Longrightarrow> fo_rbuf f = [] \<Longrightarrow> NL \<notin> set buf \<Longrightarrow>
     \<exists>g. byte_loop buf f = (Inr (first_line (buf @ sk_stream (fo_sock f))), g) \<and> healthy g
       \<and> first_line (buf @ sk_stream (fo_sock f)) @ pending g = buf @ sk_stream (fo_sock f)"
proof (induction buf f rule: byte_loop.induct)
  case (1 buf f)
  obtain d g where r: "recvE 1 f = (Inr d, g)" and g: "healthy g" "fo_rbuf g = []"
    and s: "sk_stream (fo_sock f) = d @ sk_stream (fo_sock g)" and d: "length d \<le> 1"
    and eof: "d = [] \<Longrightarrow> sk_stream (fo_sock f) = []"
    using recvE_healthy[OF "1.prems"(1), of 1] "1.prems"(2) by (metis zero_less_one)
  consider "d = []" | "d = [NL]" | c where "d = [c]" "c \<noteq> NL" using d by (cases d) auto
  then show ?case
  proof cases
    case 1
    with r eof s g "1.prems"(3) show ?thesis
      by (subst byte_loop.simps) (simp add: pending_def first_line_no_nl)
  next
    case 2
    have "first_line (NL # x) = [NL]" for x by (simp add: first_line_def)
    with 2 r s g "1.prems"(3) show ?thesis
      by (subst byte_loop.simps) (simp add: pending_def first_line_append_no_nl)
  next
    case 3
    with "1.IH"[OF r[symmetric] refl] r s g "1.prems"(3) show ?thesis
      by (subst byte_loop.simps) auto
  qed
qed

lemma line_loop_spec:
  "healthy f \<Longrightarrow> fo_rbuf f = [] \<Longrightarrow> NL \<notin> set buf \<Longrightarrow>
     \<exists>g. line_loop buf f = (Inr (first_line (buf @ sk_stream (fo_sock f))), g) \<and> healthy g
       \<and> first_line (buf @ sk_stream (fo_sock f)) @ pending g = buf @ sk_stream (fo_sock f)"
proof (induction buf f rule: line_loop.induct)
  case (1 buf f)
  have "0 < fo_rbufsize f" using "1.prems"(1) by (simp add: healthy_def)
  then obtain d g where r: "recvE (fo_rbufsize f) f = (Inr d, g)" and g: "healthy g" "fo_rbuf g = []"
    and s: "sk_stream (fo_sock f) = d @ sk_stream (fo_sock g)"
    and eof: "d = [] \<Longrightarrow> sk_stream (fo_sock f) = []"
    using recvE_healthy[OF "1.prems"(1)] "1.prems"(2) by metis
  show ?case
  proof (cases "d = []")
    case True
    with r eof s g "1.prems"(3) show ?thesis
      by (subst line_loop.simps) (simp add: pending_def first_line_no_nl)
  next
    case False
    show ?thesis
    proof (cases "line_end d")
      case None
      then have "NL \<notin> set d" by (simp add: line_end_None)
      with "1.IH"[OF r[symmetric] refl False None] r s g False None "1.prems"(3) show ?thesis
        by (subst line_loop.simps) auto
    next
      case (Some nl)
      then have "NL \<in> set d" using line_end_None[of d] by auto
      then have "first_line (buf @ d @ x) = buf @ take nl d" for x
        using Some "1.prems"(3) by (simp add: first_line_append_no_nl first_line_append_nl) (simp add: first_line_def)
      with Some False r s g show ?thesis
        by (subst line_loop.simps) (auto simp: pending_def healthy_def)
    qed
  qed
qed

lemma cut_at_line_end:
  assumes "line_end (take (sz - length buf) d) = Some nl" and "NL \<notin> set buf" and "length buf < sz"
  shows "first_line (buf @ d @ x) = buf @ take nl d" and "length (buf @ take nl d) \<le> sz" and "min (sz - length buf) nl = nl"
proof -
  let ?t = "take (sz - length buf) d"
  have nl: "nl \<le> length ?t" "NL \<in> set ?t" using line_end_Some[OF assms(1)] line_end_None[of ?t] assms(1) by auto
  then have "take nl ?t = take nl d" by (simp add: min_absorb1)
  moreover have "d = ?t @ drop (sz - length buf) d" by simp
  ultimately show "first_line (buf @ d @ x) = buf @ take nl d"
    using assms(1,2) nl(2)
    by (metis append.assoc first_line_append_nl first_line_append_no_nl first_line_def option.simps(5))
  show "length (buf @ take nl d) \<le> sz" "min (sz - length buf) nl = nl" using nl(1) assms(3) by auto
qed

lemma cut_at_size:
  assumes "NL \<notin> set (take (sz - length buf) d)" and "NL \<notin> set buf" and "length buf < sz" and "sz - length buf \<le> length d"
  shows "take sz (first_line (buf @ d @ x)) = buf @ take (sz - length buf) d"
proof -
  let ?t = "take (sz - length buf) d"
  have "first_line (buf @ d @ x) = buf @ ?t @ first_line (drop (sz - length buf) d @ x)"
    using assms(1,2) by (metis append.assoc append_take_drop_id first_line_append_no_nl)
  moreover have "length ?t = sz - length buf" using assms(4) by simp
  ultimately show ?thesis using assms(3) by simp
qed

lemma sized_loop_spec:
  "healthy f \<Longrightarrow> fo_rbuf f = [] \<Longrightarrow> NL \<notin> set buf \<Longrightarrow> length buf < sz \<Longrightarrow>
     \<exists>g. sized_loop sz buf f = (Inr (take sz (first_line (buf @ sk_stream (fo_sock f)))), g) \<and> healthy g
       \<and> take sz (first_line (buf @ sk_stream (fo_sock f))) @ pending g = buf @ sk_stream (fo_sock f)"
proof (induction sz buf f rule: sized_loop.induct)
  case (1 sz buf f)
  let ?left = "sz - length buf"
  have "0 < fo_rbufsize f" using "1.prems"(1) by (simp add: healthy_def)
  then obtain d g where r: "recvE (fo_rbufsize f) f = (Inr d, g)" and g: "healthy g" "fo_rbuf g = []"
    and s: "sk_stream (fo_sock f) = d @ sk_stream (fo_sock g)"
    and eof: "d = [] \<Longrightarrow> sk_stream (fo_sock f) = []"
    using recvE_healthy[OF "1.prems"(1)] "1.prems"(2) by metis
  consider "d = []" | nl where "d \<noteq> []" "line_end (take ?left d) = Some nl"
    | "d \<noteq> []" "line_end (take ?left d) = None" "?left \<le> length d" | "line_end (take ?left d) = None" "length d < ?left" "d \<noteq> []"
    by (cases "line_end (take ?left d)") force+
  then show ?case
  proof cases
    case 1
    with r eof s g "1.prems"(3,4) show ?thesis
      by (subst sized_loop.simps) (simp add: pending_def first_line_no_nl)
  next
    case (2 nl)
    note cut = cut_at_line_end[OF 2(2) "1.prems"(3,4)]
    from cut(2,3) 2 r s g show ?thesis
      by (subst sized_loop.simps) (auto simp: pending_def healthy_def cut(1))
  next
    case 3
    then have cut: "take sz (first_line (buf @ d @ x)) = buf @ take ?left d" for x
      using cut_at_size[OF _ "1.prems"(3,4)] by (simp add: line_end_None)
    show ?thesis
    proof (cases "length d = sz \<and> buf = []")
      case True
      with 3 r s g cut show ?thesis by (subst sized_loop.simps) (simp add: pending_def)
    next
      case False
      with 3 r s g cut show ?thesis
        by (subst sized_loop.simps) (auto simp: pending_def healthy_def Let_def)
    qed
  next
    case 4
    then have "NL \<notin> set d" "\<not> (length d = sz \<and> buf = [])" "length (buf @ d) < sz"
      using "1.prems"(4) by (auto simp: line_end_None)
    then show ?thesis
      using "1.IH"[OF r[symmetric] refl 4(3) refl 4(1)] 4 r s g "1.prems"(3)
      by (subst sized_loop.simps) (simp add: Let_def)
  qed
qed

lemma first_line_whole: "first_line b @ drop (length (first_line b)) b = b"
  using first_line_prefix[of b] by (metis append_take_drop_id)

text \<open>When the buffer is enough to answer \<open>readline\<close>, and when it is not.\<close>

definition line_buffered :: "int \<Rightarrow> bytes \<Rightarrow> bool" where
  "line_buffered n buf \<longleftrightarrow> (let b = bio_readline n buf in
     buf \<noteq> [] \<and> ((b \<noteq> [] \<and> last b = NL) \<or> int (length b) = n))"

lemma bio_readline_prefix: "bio_readline n buf = take (length (bio_readline n buf)) buf"
  using first_line_prefix[of buf] by (auto simp: bio_readline_def) (metis take_take min.commute)

lemma bio_readline_newline:
  assumes "bio_readline n buf \<noteq> []" and "last (bio_readline n buf) = NL"
  shows "bio_readline n (buf @ s) = bio_readline n buf"
proof -
  have "NL \<in> set (bio_readline n buf)" using assms last_in_set[of "bio_readline n buf"] by simp
  then have "NL \<in> set buf" by (subst (asm) bio_readline_prefix) (rule in_set_takeD)
  then show ?thesis by (simp add: bio_readline_def first_line_append_nl)
qed

lemma first_line_append_prefix: "take (length (first_line buf)) (first_line (buf @ s)) = first_line buf"
proof (cases "NL \<in> set buf")
  case False
  then show ?thesis by (simp add: first_line_append_no_nl first_line_no_nl)
qed (simp add: first_line_append_nl)

lemma bio_readline_buffered:
  assumes "line_buffered n buf"
  shows "bio_readline n (buf @ s) = bio_readline n buf"
proof (cases "int (length (bio_readline n buf)) = n")
  case True
  then have n: "\<not> n < 0" by linarith
  with True have "nat n \<le> length (first_line buf)" by (simp add: bio_readline_def)
  then have "take (nat n) (first_line (buf @ s)) = take (nat n) (first_line buf)"
    using first_line_append_prefix[of buf s] by (metis min.absorb1 take_take)
  with n show ?thesis by (simp add: bio_readline_def)
next
  case False
  with assms bio_readline_newline show ?thesis by (auto simp: line_buffered_def Let_def)
qed

lemma not_buffered_no_newline:
  assumes "\<not> line_buffered n buf" and "n < 0 \<or> int (length buf) < n"
  shows "NL \<notin> set buf"
proof
  assume nl: "NL \<in> set buf"
  then have "buf \<noteq> []" by auto
  have "length (first_line buf) \<le> length buf" by (rule length_first_line)
  then have "bio_readline n buf = first_line buf" using assms(2) by (auto simp: bio_readline_def)
  with first_line_last[OF nl] assms(1) \<open>buf \<noteq> []\<close> show False by (simp add: line_buffered_def)
qed

lemma not_buffered_enough:
  assumes "\<not> line_buffered n buf" and "0 \<le> n" and "n \<le> int (length buf)"
  shows "take (nat n) (first_line (buf @ s)) = take (nat n) buf"
proof (cases "n = 0 \<or> NL \<notin> set buf")
  case True
  with assms show ?thesis by (auto simp: first_line_append_no_nl)
next
  case False
  then have "buf \<noteq> []" by auto
  with assms False have "length (first_line buf) < nat n"
    by (auto simp: bio_readline_def line_buffered_def not_less)
  with first_line_last[of buf] False assms \<open>buf \<noteq> []\<close> show ?thesis by (simp add: bio_readline_def line_buffered_def)
qed

lemma fo_readline_cases:
  "fo_readline n f =
     (let buf = fo_rbuf f; b = bio_readline n buf; f' = f\<lparr>fo_rbuf := []\<rparr> in
      if line_buffered n buf then (Inr b, f\<lparr>fo_rbuf := drop (length b) buf\<rparr>)
      else if n < 0 then if fo_rbufsize f \<le> 1 then byte_loop buf f' else line_loop buf f'
      else if n \<le> int (length buf) then (Inr (take (nat n) buf), f\<lparr>fo_rbuf := drop (nat n) buf\<rparr>)
      else sized_loop (nat n) buf f')"
proof (cases "line_buffered n (fo_rbuf f)")
  case True
  then show ?thesis by (simp add: fo_readline_def line_buffered_def Let_def set_rbuf_def)
next
  case False
  then show ?thesis
    unfolding fo_readline_def line_buffered_def Let_def withE_simp
    by (simp only: if_False) (simp add: set_rbuf_def)
qed

theorem fo_readline_spec:
  assumes "healthy f"
  shows "\<exists>g. fo_readline n f = (Inr (bio_readline n (pending f)), g) \<and> healthy g
    \<and> bio_readline n (pending f) @ pending g = pending f"
proof (cases "line_buffered n (fo_rbuf f)")
  case True
  let ?b = "bio_readline n (fo_rbuf f)"
  have "?b @ drop (length ?b) (fo_rbuf f) = fo_rbuf f" using bio_readline_prefix by (metis append_take_drop_id)
  then have "?b @ pending (f\<lparr>fo_rbuf := drop (length ?b) (fo_rbuf f)\<rparr>) = pending f" by (simp add: pending_def)
  with True assms bio_readline_buffered[OF True] show ?thesis
    by (simp add: fo_readline_cases healthy_def Let_def pending_def)
next
  case False
  let ?buf = "fo_rbuf f" and ?s = "sk_stream (fo_sock f)" and ?f = "f\<lparr>fo_rbuf := []\<rparr>"
  have f: "healthy ?f" "fo_rbuf ?f = []" "fo_sock ?f = fo_sock f" using assms by (simp_all add: healthy_def)
  note nonl = not_buffered_no_newline[OF False]
  note step = fo_readline_cases bio_readline_def pending_def Let_def
  consider "n < 0" "fo_rbufsize f \<le> 1" | "n < 0" "1 < fo_rbufsize f" | "0 \<le> n" "n \<le> int (length ?buf)" | "int (length ?buf) < n"
    by linarith
  then show ?thesis
  proof cases
    case 1
    with byte_loop_spec[OF f(1,2) nonl] False show ?thesis by (auto simp: step)
  next
    case 2
    with line_loop_spec[OF f(1,2) nonl] False show ?thesis by (auto simp: step)
  next
    case 3
    with not_buffered_enough[OF False 3, of ?s] False assms show ?thesis by (simp add: step healthy_def)
  next
    case 4
    then have "length ?buf < nat n" by linarith
    with sized_loop_spec[OF f(1,2) nonl this] 4 False show ?thesis by (auto simp: step)
  qed
qed

theorem fo_read_spec:
  assumes "healthy f"
  shows "\<exists>g. fo_read (int n) f = (Inr (take n (pending f)), g) \<and> pending g = drop n (pending f) \<and> healthy g"
proof (cases "n \<le> length (fo_rbuf f)")
  case True
  then show ?thesis using assms by (simp add: fo_read_def set_rbuf_def pending_def healthy_def Let_def)
next
  case False
  have "healthy (f\<lparr>fo_rbuf := []\<rparr>)" using assms by (simp add: healthy_def)
  from read_loop_spec[OF this, of "fo_rbuf f" n] False obtain g where
    "read_loop n (fo_rbuf f) (f\<lparr>fo_rbuf := []\<rparr>) = (Inr (take n (pending f)), g)"
    "pending g = drop n (pending f)" "healthy g"
    by (auto simp: pending_def)
  with False show ?thesis by (simp add: fo_read_def set_rbuf_def Let_def)
qed

section \<open>Lines of a source\<close>

fun read_lines :: "('s, bytes) act \<Rightarrow> nat \<Rightarrow> nat \<Rightarrow> nat \<Rightarrow> bytes list \<Rightarrow> ('s, bytes list) act" where
  \<comment> \<open>the loop of \<open>readlines\<close>; \<open>hint\<close> is \<open>sizehint\<close>, with 0 for none\<close>
  "read_lines rl hint 0 tot ls s = (Inl (RuntimeError ''out of fuel''), s)"
| "read_lines rl hint (Suc k) tot ls s =
     bindE rl (\<lambda>line.
       if line = [] then retE ls
       else if hint \<noteq> 0 \<and> tot + length line \<ge> hint then retE (ls @ [line])
       else read_lines rl hint k (tot + length line) (ls @ [line])) s"

definition fo_readlines :: "nat \<Rightarrow> (fileobject, bytes list) act" where
  "fo_readlines hint = withE (\<lambda>f. read_lines (fo_readline (-1)) hint (Suc (length (pending f))) 0 [])"

definition fo_next :: "(fileobject, bytes option) act" where
  \<comment> \<open>the iterator: \<open>None\<close> stands for \<open>StopIteration\<close>\<close>
  "fo_next = bindE (fo_readline (-1)) (\<lambda>line. retE (if line = [] then None else Some line))"

function lines_of :: "bytes \<Rightarrow> bytes list" where
  "lines_of b = (if b = [] then [] else first_line b # lines_of (drop (length (first_line b)) b))"
  by pat_completeness auto
termination
proof (relation "measure length")
  fix b :: bytes
  assume "b \<noteq> []"
  then have "first_line b \<noteq> []" by (auto simp: first_line_def dest: line_end_Some split: option.splits)
  with \<open>b \<noteq> []\<close> show "(drop (length (first_line b)) b, b) \<in> measure length" by simp
qed simp

declare lines_of.simps [simp del]

lemma first_line_empty: "first_line b = [] \<longleftrightarrow> b = []"
  by (auto simp: first_line_def dest: line_end_Some split: option.splits)

lemma concat_lines_of: "concat (lines_of b) = b"
proof (induction b rule: lines_of.induct)
  case (1 b)
  then show ?case using first_line_whole[of b] by (subst lines_of.simps) simp
qed

text \<open>What a client that reads line by line relies on.\<close>

locale line_source =
  fixes readline :: "('s, bytes) act" and rest :: "'s \<Rightarrow> bytes" and ok :: "'s \<Rightarrow> bool"
  assumes reads: "ok s \<Longrightarrow>
    \<exists>t. readline s = (Inr (first_line (rest s)), t) \<and> ok t \<and> first_line (rest s) @ rest t = rest s"
begin

lemma reads_rest:
  assumes "ok s"
  obtains t where "readline s = (Inr (first_line (rest s)), t)" and "ok t"
    and "rest t = drop (length (first_line (rest s))) (rest s)"
  using reads[OF assms] by (metis append_eq_conv_conj)

lemma read_lines_all:
  "ok s \<Longrightarrow> length (rest s) < k \<Longrightarrow>
     \<exists>t. read_lines readline 0 k tot ls s = (Inr (ls @ lines_of (rest s)), t) \<and> ok t \<and> rest t = []"
proof (induction k arbitrary: s tot ls)
  case 0
  then show ?case by simp
next
  case (Suc k)
  obtain t where t: "readline s = (Inr (first_line (rest s)), t)" "ok t"
    "rest t = drop (length (first_line (rest s))) (rest s)" using reads_rest[OF Suc.prems(1)] by metis
  show ?case
  proof (cases "rest s = []")
    case True
    with t show ?thesis by (simp add: bindE_def first_line_empty lines_of.simps)
  next
    case False
    then have ne: "first_line (rest s) \<noteq> []" by (simp add: first_line_empty)
    then have "length (rest t) < k" using Suc.prems(2) False t(3) by (cases "first_line (rest s)"; cases "rest s") auto
    from Suc.IH[OF t(2) this, of "tot + length (first_line (rest s))" "ls @ [first_line (rest s)]"] t ne False
    show ?thesis by (subst lines_of.simps) (simp add: bindE_def)
  qed
qed

end

interpretation fo: line_source "fo_readline (-1)" pending healthy
  by unfold_locales (use fo_readline_spec[of _ "-1"] in \<open>simp add: bio_readline_def\<close>)

section \<open>Writing\<close>

function flush_loop :: "nat \<Rightarrow> nat \<Rightarrow> bytes \<Rightarrow> conn \<Rightarrow> (pyexc + unit) \<times> nat \<times> conn" where
  \<comment> \<open>from \<open>write_offset\<close> on, in pieces of the buffer's size; also the offset reached\<close>
  "flush_loop buffer_size off data c =
     (if off < length data \<and> 0 < buffer_size then
        (case sendall (take buffer_size (drop off data)) c of
           (Inl e, d) \<Rightarrow> (Inl e, off, d)
         | (Inr _, d) \<Rightarrow> flush_loop buffer_size (off + buffer_size) data d)
      else (Inr (), off, c))"
  by pat_completeness auto
termination by (relation "measure (\<lambda>(_, off, data, _). length data - off)") auto

declare flush_loop.simps [simp del]

definition fo_flush :: "(fileobject, unit) act" where
  "fo_flush f =
     (if fo_wbuf f = [] then (Inr (), f)
      else let data = concat (fo_wbuf f) in
        (case (if fo_open f then flush_loop (max (fo_rbufsize f) default_bufsize) 0 data (fo_sock f)
               else (if data = [] then Inr () else Inl (AttributeError ''sendall''), 0, fo_sock f)) of
           (r, off, c) \<Rightarrow>
             (r, f\<lparr>fo_sock := c,
                   fo_wbuf := (if off < length data then [drop off data] else []),
                   fo_wbuf_len := (if off < length data then length (drop off data) else 0)\<rparr>)))"

definition fo_write :: "bytes \<Rightarrow> (fileobject, unit) act" where
  "fo_write data =
     (if data = [] then retE ()
      else bindE (modE (\<lambda>f. f\<lparr>fo_wbuf := fo_wbuf f @ [data], fo_wbuf_len := fo_wbuf_len f + length data\<rparr>)) (\<lambda>_.
        withE (\<lambda>f. whenE (fo_wbufsize f = 0 \<or> (fo_wbufsize f = 1 \<and> NL \<in> set data)
            \<or> (1 < fo_wbufsize f \<and> fo_wbufsize f \<le> fo_wbuf_len f)) fo_flush)))"

definition fo_writelines :: "bytes list \<Rightarrow> (fileobject, unit) act" where
  "fo_writelines ls =
     (let lines = filter (\<lambda>l. l \<noteq> []) ls in
      bindE (modE (\<lambda>f. f\<lparr>fo_wbuf_len := fo_wbuf_len f + sum_list (map length lines), fo_wbuf := fo_wbuf f @ lines\<rparr>)) (\<lambda>_.
      withE (\<lambda>f. whenE (fo_wbufsize f \<le> 1 \<or> fo_wbufsize f \<le> fo_wbuf_len f) fo_flush)))"

definition closed :: "fileobject \<Rightarrow> bool" where
  "closed f = (\<not> fo_open f)"

definition fo_close_file :: "(fileobject, unit) act" where
  \<comment> \<open>\<open>close\<close>: closing the socket itself is left out\<close>
  "fo_close_file f =
     (case (if fo_open f then fo_flush f else (Inr (), f)) of (r, g) \<Rightarrow> (r, g\<lparr>fo_open := False\<rparr>))"

definition fo_del :: "(fileobject, unit) act" where
  \<comment> \<open>\<open>__del__\<close>: what closing raises is dropped\<close>
  "fo_del f = (Inr (), snd (fo_close_file f))"

definition fo_fileno :: "int \<Rightarrow> (fileobject, int) act" where
  \<comment> \<open>the number of the socket is given\<close>
  "fo_fileno number = withE (\<lambda>f. if fo_open f then retE number else raiseE (AttributeError ''fileno''))"

definition written_or_kept :: "fileobject \<Rightarrow> bytes" where
  "written_or_kept f = sk_written (fo_sock f) @ concat (fo_wbuf f)"

definition clean_event :: "(nat \<times> pyexc) option \<Rightarrow> bool" where
  \<comment> \<open>a call of \<open>sendall\<close> that fails has sent nothing\<close>
  "clean_event e \<longleftrightarrow> (case e of Some (k, _) \<Rightarrow> k = 0 | None \<Rightarrow> True)"

definition clean_sends :: "conn \<Rightarrow> bool" where
  "clean_sends c \<longleftrightarrow> list_all clean_event (sk_sends c)"

lemma sendall_clean:
  assumes "clean_sends c" and "sendall b c = (r, d)"
  shows "clean_sends d" "sk_written d = (case r of Inl _ \<Rightarrow> sk_written c | Inr _ \<Rightarrow> sk_written c @ b)"
  using assms by (auto simp: sendall_def clean_sends_def clean_event_def split: list.splits option.splits)

lemma flush_loop_kept:
  "0 < bs \<Longrightarrow> clean_sends c \<Longrightarrow> flush_loop bs off data c = (r, off', d) \<Longrightarrow>
     sk_written d @ drop off' data = sk_written c @ drop off data \<and> clean_sends d
     \<and> (r = Inr () \<longrightarrow> length data \<le> off')"
proof (induction bs off data c rule: flush_loop.induct)
  case (1 bs off data c)
  show ?case
  proof (cases "off < length data")
    case False
    with 1 show ?thesis by (subst (asm) flush_loop.simps) auto
  next
    case True
    obtain q e where s: "sendall (take bs (drop off data)) c = (q, e)" by fastforce
    show ?thesis
    proof (cases q)
      case (Inl x)
      then have "sk_written e = sk_written c \<and> clean_sends e"
        using sendall_clean[OF "1.prems"(2) s] by simp
      with Inl s True "1.prems" show ?thesis by (subst (asm) flush_loop.simps) auto
    next
      case (Inr u)
      have e: "sk_written e = sk_written c @ take bs (drop off data) \<and> clean_sends e"
        using sendall_clean[OF "1.prems"(2) s] Inr by simp
      have rest: "take bs (drop off data) @ drop (off + bs) data = drop off data"
        by (metis add.commute append_take_drop_id drop_drop)
      from "1.prems"(3) s True Inr "1.prems"(1) have "flush_loop bs (off + bs) data e = (r, off', d)"
        by (subst (asm) flush_loop.simps) simp
      with "1.IH"[of _ e] e rest True Inr s "1.prems"(1) show ?thesis by simp
    qed
  qed
qed

lemma fo_flush_kept:
  assumes "clean_sends (fo_sock f)" and "fo_flush f = (r, g)"
  shows "written_or_kept g = written_or_kept f \<and> clean_sends (fo_sock g) \<and> (r = Inr () \<longrightarrow> fo_wbuf g = [])"
proof (cases "fo_wbuf f = []")
  case True
  with assms show ?thesis by (simp add: fo_flush_def)
next
  case False
  let ?bs = "max (fo_rbufsize f) default_bufsize" and ?data = "concat (fo_wbuf f)"
  have "0 < ?bs" by (simp add: default_bufsize_def)
  obtain q off c where l: "flush_loop ?bs 0 ?data (fo_sock f) = (q, off, c)" by (metis prod_cases3)
  from flush_loop_kept[OF \<open>0 < ?bs\<close> assms(1) l] False assms l show ?thesis
    by (auto simp: fo_flush_def written_or_kept_def Let_def split: if_splits prod.splits)
qed

lemma fo_write_kept:
  assumes "clean_sends (fo_sock f)" and "fo_write data f = (r, g)"
  shows "written_or_kept g = written_or_kept f @ data \<and> clean_sends (fo_sock g)"
proof (cases "data = []")
  case True
  with assms show ?thesis by (simp add: fo_write_def)
next
  case False
  let ?f = "f\<lparr>fo_wbuf := fo_wbuf f @ [data], fo_wbuf_len := fo_wbuf_len f + length data\<rparr>"
  have w: "written_or_kept ?f = written_or_kept f @ data" by (simp add: written_or_kept_def)
  from assms(2) False have "fo_flush ?f = (r, g) \<or> g = ?f"
    by (auto simp: fo_write_def whenE_def split: if_splits)
  then show ?thesis using fo_flush_kept[of ?f r g] assms(1) w by auto
qed

end
