(* ===== verification/SslCore.thy ===== *)
theory SslCore
  imports SslFile
begin

text \<open>
  backports/ssl/core.py: certificates. Matching of a host name against the names of a certificate, the
  handshake that ends with it, the dictionary made of a certificate, and contexts. Names of
  certificates and hosts are ASCII. \<open>_dnsname_match\<close> uses the module \<open>re\<close>, which the file does not
  import: where a name has a wildcard the code raises \<open>NameError\<close>, and so does the model. pyOpenSSL is
  a parameter: what its calls raise is the schedule of SslFile.
\<close>

section \<open>Host names\<close>

definition dnsname_match :: "bytes \<Rightarrow> bytes \<Rightarrow> nat \<Rightarrow> pyexc + bool" where
  "dnsname_match dn hostname max_wildcards =
     (if dn = [] then Inr False
      else let parts = py_split (CHR ''.'') dn; leftmost = hd parts;
               wildcards = length (filter (\<lambda>c. c = CHR ''*'') leftmost)
        in if max_wildcards < wildcards then Inl (CertificateError ''too many wildcards in certificate DNS name'')
           else if wildcards = 0 then Inr (py_lower dn = py_lower hostname)
           else Inl (NameError ''global name 're' is not defined''))"

record cert =
  ct_subjectAltName :: "(bytes \<times> bytes) list"
  ct_subject :: "(bytes \<times> bytes) list list"
  ct_issuer :: "(bytes \<times> bytes) list list"
  ct_version :: "(bytes \<times> bytes) list"
    \<comment> \<open>the code puts the subject there\<close>
  ct_serialNumber :: int
  ct_notBefore :: "bytes option"
  ct_notAfter :: "bytes option"

fun name_loop :: "bytes \<Rightarrow> bytes \<Rightarrow> (bytes \<times> bytes) list \<Rightarrow> bytes list \<Rightarrow> pyexc + bool \<times> bytes list" where
  \<comment> \<open>the loops of \<open>match_hostname\<close>: whether it returns, and \<open>dnsnames\<close>\<close>
  "name_loop key hostname [] dnsnames = Inr (False, dnsnames)"
| "name_loop key hostname ((k, value) # names) dnsnames =
     (if k = key then
        sbind (dnsname_match value hostname 1) (\<lambda>m.
          if m then Inr (True, dnsnames) else name_loop key hostname names (dnsnames @ [value]))
      else name_loop key hostname names dnsnames)"

definition mismatch :: "bytes list \<Rightarrow> pyexc" where
  "mismatch dnsnames = CertificateError
     (if length dnsnames > 1 then ''hostname doesn't match either''
      else if length dnsnames = 1 then ''hostname doesn't match''
      else ''no appropriate commonName or subjectAltName fields were found'')"

definition match_hostname :: "cert option \<Rightarrow> bytes \<Rightarrow> pyexc + unit" where
  \<comment> \<open>\<open>None\<close>: an empty or no certificate\<close>
  "match_hostname cert hostname =
     (case cert of
        None \<Rightarrow> Inl (ValueError ''empty or no certificate'')
      | Some c \<Rightarrow>
          sbind (name_loop ''DNS'' hostname (ct_subjectAltName c) []) (\<lambda>(found, dnsnames).
          if found then Inr ()
          else sbind (if dnsnames = [] then name_loop ''commonName'' hostname (concat (ct_subject c)) dnsnames
                      else Inr (False, dnsnames)) (\<lambda>(found, dnsnames).
          if found then Inr () else Inl (mismatch dnsnames))))"

section \<open>Certificates of the peer, and the handshake\<close>

record x509 =
  x_subject :: "(bytes \<times> bytes) list"
  x_issuer :: "(bytes \<times> bytes) list"
  x_serial_number :: int
  x_notBefore :: "bytes option"
  x_notAfter :: "bytes option"
  x_alt_names :: "bytes list option"
    \<comment> \<open>\<open>None\<close> when \<open>get_subject_alt_name\<close> could not be imported\<close>

definition resolve_alias :: "bytes \<Rightarrow> bytes" where
  "resolve_alias alias =
     (case map_of [(''C'', ''countryName''), (''ST'', ''stateOrProvinceName''), (''L'', ''localityName''),
         (''O'', ''organizationName''), (''OU'', ''organizationalUnitName''), (''CN'', ''commonName'')] alias of
        Some n \<Rightarrow> n | None \<Rightarrow> alias)"

definition to_components :: "(bytes \<times> bytes) list \<Rightarrow> (bytes \<times> bytes) list list" where
  "to_components name = map (\<lambda>(n, value). [(resolve_alias n, value)]) name"

definition getpeercert :: "x509 \<Rightarrow> cert" where
  \<comment> \<open>not in binary form\<close>
  "getpeercert c =
     \<lparr>ct_subjectAltName = (case x_alt_names c of None \<Rightarrow> [] | Some vs \<Rightarrow> map (\<lambda>v. (''DNS'', v)) vs),
      ct_subject = to_components (x_subject c), ct_issuer = to_components (x_issuer c), ct_version = x_subject c,
      ct_serialNumber = x_serial_number c, ct_notBefore = x_notBefore c, ct_notAfter = x_notAfter c\<rparr>"

definition getpeercert_binary :: "(x509 \<Rightarrow> bytes) \<Rightarrow> x509 \<Rightarrow> bytes" where
  \<comment> \<open>\<open>getpeercert(True)\<close>; \<open>dump\<close>: \<open>crypto.dump_certificate\<close>\<close>
  "getpeercert_binary dump c = dump c"

fun safe_call :: "bool \<Rightarrow> recv_event list \<Rightarrow> pyexc + recv_event list" where
  \<comment> \<open>\<open>_safe_ssl_call\<close> of a call with nothing to deliver; what is left of the schedule\<close>
  "safe_call ragged [] = Inr []"
| "safe_call ragged (Data k # es) = Inr es"
| "safe_call ragged (Want ready # es) = (if ready then safe_call ragged es else Inl (SocketTimeout ''timed out''))"
| "safe_call ragged (SysCall args # es) = sbind (syscall_error ragged args) (\<lambda>_. Inr es)"
| "safe_call ragged (ZeroReturn # es) = Inl (SSLError ''SSLZeroReturnError'')"
| "safe_call ragged (OtherError # es) = Inl (SSLError ''SSLError'')"

record ssl_socket =
  ss_check_hostname :: bool
  ss_servername :: "bytes option"
  ss_peer :: x509
  ss_calls :: "recv_event list"
  ss_connected :: "pyexc + bool"
    \<comment> \<open>what \<open>connected\<close> gives: an error of \<open>getpeername\<close> other than ENOTCONN is raised\<close>

definition do_handshake :: "ssl_socket \<Rightarrow> pyexc + unit" where
  "do_handshake s =
     sbind (safe_call False (ss_calls s)) (\<lambda>_.
     if ss_check_hostname s then
       (case ss_servername s of
          None \<Rightarrow> Inl (AttributeError ''decode'')
        | Some h \<Rightarrow> match_hostname (Some (getpeercert (ss_peer s))) h)
     else Inr ())"

definition new_ssl_socket :: "x509 \<Rightarrow> recv_event list \<Rightarrow> (pyexc + bool) \<Rightarrow> bool \<Rightarrow> bool \<Rightarrow> bytes option \<Rightarrow> bool \<Rightarrow> pyexc + ssl_socket" where
  \<comment> \<open>\<open>SSLSocket.__init__\<close>: the server name is only set on the client side\<close>
  "new_ssl_socket peer calls connected server_side do_handshake_on_connect server_hostname check_hostname =
     (let s = \<lparr>ss_check_hostname = check_hostname,
         ss_servername = (if server_side \<or> server_hostname = Some [] then None else server_hostname),
         ss_peer = peer, ss_calls = calls, ss_connected = connected\<rparr>
      in sbind connected (\<lambda>c.
         if c \<and> do_handshake_on_connect then sbind (do_handshake s) (\<lambda>_. Inr s) else Inr s))"

definition ENOTCONN :: int where "ENOTCONN = 107"

definition connected :: "int option \<Rightarrow> pyexc + bool" where
  \<comment> \<open>given the number of the socket error of \<open>getpeername\<close>, if any\<close>
  "connected err =
     (case err of
        None \<Rightarrow> Inr True
      | Some errno \<Rightarrow> if errno \<noteq> ENOTCONN then Inl (SocketError ''getpeername'') else Inr False)"

section \<open>Sending\<close>

datatype send_event =
    Sent nat
    \<comment> \<open>a call of \<open>send\<close> takes at most \<open>n + 1\<close> bytes\<close>
  | SendWant nat bool
    \<comment> \<open>\<open>WantWriteError\<close> after \<open>n\<close> bytes; whether the socket is then ready in time\<close>
  | SendFail nat pyexc
    \<comment> \<open>an error of the guarded call after \<open>n\<close> bytes\<close>

fun ssl_send :: "bytes \<Rightarrow> send_event list \<Rightarrow> (pyexc + nat) \<times> bytes \<times> send_event list" where
  \<comment> \<open>\<open>SSLSocket.send\<close>: how much was taken, what was sent, the schedule left\<close>
  "ssl_send data [] = (Inr (length data), data, [])"
| "ssl_send data (Sent n # es) = (Inr (min (length data) (Suc n)), take (Suc n) data, es)"
| "ssl_send data (SendWant n ready # es) =
     (if ready then ssl_send data es else (Inl (SocketTimeout ''timed out''), [], es))"
| "ssl_send data (SendFail n e # es) = (Inl e, [], es)"

fun ssl_sendall :: "bytes \<Rightarrow> send_event list \<Rightarrow> (pyexc + unit) \<times> bytes \<times> send_event list" where
  \<comment> \<open>\<open>SSLSocket.sendall\<close>: the guarded call is repeated with all of the data\<close>
  "ssl_sendall data [] = (Inr (), data, [])"
| "ssl_sendall data (Sent n # es) = (Inr (), data, es)"
| "ssl_sendall data (SendWant n ready # es) =
     (if ready then (case ssl_sendall data es of (r, sent, es') \<Rightarrow> (r, take n data @ sent, es'))
      else (Inl (SocketTimeout ''timed out''), take n data, es))"
| "ssl_sendall data (SendFail n e # es) = (Inl e, take n data, es)"

definition selected_npn_protocol :: "pyexc + bytes" where
  "selected_npn_protocol = Inl (NotImplementedError [])"

section \<open>Contexts\<close>

definition OP_ALL :: int where
  "OP_ALL = fold (\<lambda>bit acc. Bit_Operations.or acc (push_bit bit 1)) (31 # [0..<10]) 0"

datatype location = DefaultPaths | Loaded "bytes option" "bytes option" | LoadedData bytes

datatype chain_part = CertFile bytes | KeyFile bytes

record ssl_context =
  sc_protocol :: int
  sc_options :: int
  sc_verify_mode :: int
  sc_check_hostname :: bool
  sc_ciphers :: "bytes option"
  sc_locations :: "location list"
  sc_chain :: "chain_part list"
  sc_password :: "bytes option"

definition new_context :: "int \<Rightarrow> int \<Rightarrow> ssl_context" where
  \<comment> \<open>\<open>SSLContext(protocol)\<close>; \<open>verify\<close> is the mode a new pyOpenSSL context has\<close>
  "new_context verify protocol =
     \<lparr>sc_protocol = protocol, sc_options = OP_ALL, sc_verify_mode = verify, sc_check_hostname = False,
      sc_ciphers = None, sc_locations = [DefaultPaths], sc_chain = [], sc_password = None\<rparr>"

definition add_options :: "int \<Rightarrow> ssl_context \<Rightarrow> ssl_context" where
  "add_options flag c = c\<lparr>sc_options := Bit_Operations.or (sc_options c) flag\<rparr>"

definition set_verify_mode :: "int \<Rightarrow> ssl_context \<Rightarrow> ssl_context" where
  \<comment> \<open>the setter; the callback accepts what OpenSSL accepts\<close>
  "set_verify_mode value c = c\<lparr>sc_verify_mode := value\<rparr>"

definition set_default_verify_paths :: "ssl_context \<Rightarrow> ssl_context" where
  "set_default_verify_paths c = c\<lparr>sc_locations := sc_locations c @ [DefaultPaths]\<rparr>"

definition set_npn_protocols :: "bytes list \<Rightarrow> ssl_context \<Rightarrow> pyexc + ssl_context" where
  "set_npn_protocols protocols c = Inl (NotImplementedError [])"

definition load_verify_locations :: "(location \<Rightarrow> pyexc + unit) \<Rightarrow> bytes option \<Rightarrow> bytes option \<Rightarrow> bytes option \<Rightarrow>
    ssl_context \<Rightarrow> pyexc + ssl_context" where
  \<comment> \<open>\<open>load\<close>: what pyOpenSSL makes of a location\<close>
  "load_verify_locations load cafile capath cadata c =
     sbind (load (Loaded cafile capath)) (\<lambda>_.
     let c = c\<lparr>sc_locations := sc_locations c @ [Loaded cafile capath]\<rparr> in
     case cadata of
       None \<Rightarrow> Inr c
     | Some d \<Rightarrow> sbind (load (LoadedData d)) (\<lambda>_. Inr (c\<lparr>sc_locations := sc_locations c @ [LoadedData d]\<rparr>)))"

definition load_cert_chain :: "(chain_part \<Rightarrow> pyexc + unit) \<Rightarrow> bytes \<Rightarrow> bytes option \<Rightarrow> bytes option \<Rightarrow> ssl_context \<Rightarrow>
    pyexc + ssl_context" where
  \<comment> \<open>\<open>use\<close>: what pyOpenSSL makes of a file\<close>
  "load_cert_chain use certfile keyfile password c =
     sbind (use (CertFile certfile)) (\<lambda>_.
     let c = c\<lparr>sc_chain := sc_chain c @ [CertFile certfile]\<rparr>;
         c = (case password of None \<Rightarrow> c | Some p \<Rightarrow> c\<lparr>sc_password := Some p\<rparr>);
         keyfile = (case keyfile of Some (k # ks) \<Rightarrow> k # ks | _ \<Rightarrow> certfile)
     in sbind (use (KeyFile keyfile)) (\<lambda>_. Inr (c\<lparr>sc_chain := sc_chain c @ [KeyFile keyfile]\<rparr>)))"

section \<open>Reading from a socket\<close>

definition ssl_recv :: "bool \<Rightarrow> nat \<Rightarrow> (conn, bytes) act" where
  \<comment> \<open>\<open>SSLSocket.recv\<close>, with the setting \<open>_suppress_ragged_eofs\<close>\<close>
  "ssl_recv suppress_ragged_eofs bufsize c = safe_recv suppress_ragged_eofs bufsize (sk_recvs c) c"

definition makefile :: "int option \<Rightarrow> conn \<Rightarrow> fileobject" where
  "makefile buffering c = new_fileobject c (case buffering of None \<Rightarrow> -1 | Some n \<Rightarrow> n) False"

definition ssl_connect :: "pyexc + unit \<Rightarrow> bool \<Rightarrow> ssl_socket \<Rightarrow> pyexc + unit" where
  \<comment> \<open>\<open>established\<close>: what connecting gives\<close>
  "ssl_connect established do_handshake_on_connect s =
     sbind established (\<lambda>_. if do_handshake_on_connect then do_handshake s else Inr ())"

text \<open>
  Where a method of a socket goes: the class has some of its own, passes eight on to the connection of
  pyOpenSSL, and has no other.
\<close>

datatype target = OnConnection bytes | OwnMethod bytes

definition proxied :: "bytes list" where
  "proxied = [''accept'', ''bind'', ''close'', ''fileno'', ''getsockname'', ''listen'', ''setblocking'', ''settimeout'']"

definition own_methods :: "bytes list" where
  "own_methods = [''connected'', ''connect'', ''do_handshake'', ''recv'', ''send'', ''sendall'', ''selected_npn_protocol'',
     ''getpeercert'', ''makefile'', ''family'']"

definition socket_method :: "bytes \<Rightarrow> pyexc + target" where
  \<comment> \<open>\<open>_proxy\<close>, and the lookup of a method of \<open>SSLSocket\<close>\<close>
  "socket_method name =
     (if name \<in> set proxied then Inr (OnConnection name)
      else if name \<in> set own_methods then Inr (OwnMethod name)
      else Inl (AttributeError name))"

lemma sendall_repeats:
  "n \<le> length data \<Longrightarrow> ssl_sendall data (SendWant n True # Sent k # es) = (Inr (), take n data @ data, es)"
  by simp

section \<open>What matching accepts\<close>

definition plain_dn :: "bytes \<Rightarrow> bool" where
  \<comment> \<open>no wildcard in the leftmost label\<close>
  "plain_dn dn \<longleftrightarrow> CHR ''*'' \<notin> set (hd (py_split (CHR ''.'') dn))"

lemma dnsname_match_plain:
  "plain_dn dn \<Longrightarrow> dnsname_match dn h n = Inr (dn \<noteq> [] \<and> py_lower dn = py_lower h)"
  by (auto simp: dnsname_match_def plain_dn_def Let_def filter_empty_conv)

lemma dnsname_match_wildcard:
  assumes "\<not> plain_dn dn"
  shows "\<exists>e. dnsname_match dn h 1 = Inl e \<and> (e = NameError ''global name 're' is not defined''
    \<or> e = CertificateError ''too many wildcards in certificate DNS name'')"
proof -
  have "CHR ''*'' \<in> set (hd (py_split (CHR ''.'') dn))" using assms by (simp add: plain_dn_def)
  moreover from this have "dn \<noteq> []" by auto
  ultimately show ?thesis by (auto simp: dnsname_match_def Let_def filter_empty_conv)
qed

definition names_of :: "bytes \<Rightarrow> (bytes \<times> bytes) list \<Rightarrow> bytes list" where
  "names_of key ns = map snd (filter (\<lambda>(k, v). k = key) ns)"

lemma names_of_Cons [simp]: "names_of key ((k, v) # ns) = (if k = key then v # names_of key ns else names_of key ns)"
  by (simp add: names_of_def)

lemma name_loop_plain:
  "\<forall>v\<in>set (names_of key ns). plain_dn v \<Longrightarrow>
     (\<exists>v\<in>set (names_of key ns). v \<noteq> [] \<and> py_lower v = py_lower h) \<and> (\<exists>ds. name_loop key h ns acc = Inr (True, ds))
     \<or> \<not> (\<exists>v\<in>set (names_of key ns). v \<noteq> [] \<and> py_lower v = py_lower h)
       \<and> name_loop key h ns acc = Inr (False, acc @ names_of key ns)"
proof (induction key h ns acc rule: name_loop.induct)
  case (1 key h acc)
  then show ?case by (simp add: names_of_def)
next
  case (2 key h k v ns acc)
  show ?case
  proof (cases "k = key")
    case False
    with 2 show ?thesis by simp
  next
    case True
    with 2 have "plain_dn v" by simp
    note m = dnsname_match_plain[OF this]
    show ?thesis
    proof (cases "v \<noteq> [] \<and> py_lower v = py_lower h")
      case True
      with m \<open>k = key\<close> show ?thesis by auto
    next
      case False
      have "\<forall>v\<in>set (names_of key ns). plain_dn v" using "2.prems" \<open>k = key\<close> by simp
      with False m \<open>k = key\<close> "2.IH"(1)[OF \<open>k = key\<close>, of False] show ?thesis
        by auto
    qed
  qed
qed

lemma match_hostname_plain:
  assumes "\<forall>v\<in>set (names_of ''DNS'' (ct_subjectAltName c)). plain_dn v"
    and "\<forall>v\<in>set (names_of ''commonName'' (concat (ct_subject c))). plain_dn v"
  shows "match_hostname (Some c) h = Inr () \<longleftrightarrow>
    (\<exists>v\<in>set (if names_of ''DNS'' (ct_subjectAltName c) = [] then names_of ''commonName'' (concat (ct_subject c))
             else names_of ''DNS'' (ct_subjectAltName c)). v \<noteq> [] \<and> py_lower v = py_lower h)"
  using name_loop_plain[OF assms(1), of h "[]"] name_loop_plain[OF assms(2), of h "[]"]
  by (auto simp: match_hostname_def)

lemma names_of_alt: "names_of ''DNS'' (map (\<lambda>v. (''DNS'', v)) vs) = vs"
  by (simp add: names_of_def comp_def)

lemma do_handshake_checked:
  "do_handshake s = Inr () \<Longrightarrow> ss_check_hostname s \<Longrightarrow>
     \<exists>h. ss_servername s = Some h \<and> match_hostname (Some (getpeercert (ss_peer s))) h = Inr ()"
  by (auto simp: do_handshake_def outcome split: option.splits)

end
