(* ===== verification/ImapTls.thy ===== *)
theory ImapTls
  imports SslCore ImapConn
begin

text \<open>
  tls.py: the default context of the client, wrapping a socket, and the TLS connection class of imaplib
  with its sending loop and its reading through the file object of SslFile. What pyOpenSSL does is a
  parameter. The lemmas show what every default context insists on, that the loop sends each byte once,
  and that a line of the server is what imaplib's line reader returns.
\<close>

section \<open>Contexts\<close>

datatype trust = TrustAll | TrustFor "bytes list"

type_synonym win_cert = "bytes \<times> bytes \<times> trust"
  \<comment> \<open>the bytes of a certificate, its encoding, what it is trusted for\<close>

record ossl =
  VERIFY_NONE :: int
  VERIFY_PEER :: int
  VERIFY_FAIL_IF_NO_PEER_CERT :: int
  PROTOCOL_SSLv23 :: int
  OP_NO_SSLv2 :: int
  OP_NO_SSLv3 :: int
  ossl_options :: "bytes \<Rightarrow> int option"
    \<comment> \<open>the options that may be missing, by name\<close>
  ossl_load :: "location \<Rightarrow> pyexc + unit"
  ossl_win32 :: "(bytes \<Rightarrow> win_cert list) option"
    \<comment> \<open>on Windows, \<open>enum_certificates\<close>\<close>

definition CERT_NONE :: "ossl \<Rightarrow> int" where
  "CERT_NONE ossl = VERIFY_NONE ossl"

definition CERT_REQUIRED :: "ossl \<Rightarrow> int" where
  "CERT_REQUIRED ossl = Bit_Operations.or (VERIFY_PEER ossl) (VERIFY_FAIL_IF_NO_PEER_CERT ossl)"

definition RESTRICTED_SERVER_CIPHERS :: bytes where
  "RESTRICTED_SERVER_CIPHERS =
     ''ECDH+AESGCM:DH+AESGCM:ECDH+AES256:DH+AES256:ECDH+AES128:DH+AES:ECDH+HIGH:''
     @ ''DH+HIGH:ECDH+3DES:DH+3DES:RSA+AESGCM:RSA+AES:RSA+HIGH:RSA+3DES:!aNULL:''
     @ ''!eNULL:!MD5:!DSS:!RC4''"

definition set_options :: "ossl \<Rightarrow> ssl_context \<Rightarrow> ssl_context" where
  "set_options ossl c =
     (let getattr = (\<lambda>n. case ossl_options ossl n of None \<Rightarrow> 0 | Some v \<Rightarrow> v) in
      add_options (getattr ''OP_SINGLE_ECDH_USE'') (add_options (getattr ''OP_SINGLE_DH_USE'')
        (add_options (getattr ''OP_CIPHER_SERVER_PREFERENCE'') (add_options (getattr ''OP_NO_COMPRESSION'')
          (add_options (OP_NO_SSLv3 ossl) (add_options (OP_NO_SSLv2 ossl) c))))))"

definition truthy_bytes :: "bytes option \<Rightarrow> bool" where
  "truthy_bytes b = (b \<notin> {None, Some []})"

definition SERVER_AUTH :: bytes where
  "SERVER_AUTH = ''1.3.6.1.5.5.7.3.1''"

definition windows_certs :: "(bytes \<Rightarrow> win_cert list) \<Rightarrow> bytes" where
  "windows_certs enum_certificates =
     concat (map (\<lambda>storename. concat (map (\<lambda>(cert, encoding, trust).
         if encoding = ''x509_asn'' \<and> (case trust of TrustAll \<Rightarrow> True | TrustFor ps \<Rightarrow> SERVER_AUTH \<in> set ps) then cert else [])
       (enum_certificates storename))) [''CA'', ''ROOT''])"

definition create_default_context :: "ossl \<Rightarrow> bytes option \<Rightarrow> bytes option \<Rightarrow> bytes option \<Rightarrow> pyexc + ssl_context" where
  "create_default_context ossl cafile capath cadata =
     (let context = new_context (VERIFY_NONE ossl) (PROTOCOL_SSLv23 ossl);
          context = context\<lparr>sc_verify_mode := CERT_REQUIRED ossl\<rparr>;
          context = context\<lparr>sc_check_hostname := True\<rparr>;
          context = set_options ossl context;
          context = context\<lparr>sc_ciphers := Some RESTRICTED_SERVER_CIPHERS\<rparr>
      in if truthy_bytes cafile \<or> truthy_bytes capath \<or> truthy_bytes cadata
         then load_verify_locations (ossl_load ossl) cafile capath cadata context
         else if sc_verify_mode context \<noteq> CERT_NONE ossl
         then (case ossl_win32 ossl of
             None \<Rightarrow> Inr (context\<lparr>sc_locations := sc_locations context @ [DefaultPaths]\<rparr>)
           | Some enum_certificates \<Rightarrow>
               let certs = windows_certs enum_certificates in
               if certs \<noteq> [] then load_verify_locations (ossl_load ossl) None None (Some certs) context
               else Inr context)
         else Inr context)"

section \<open>Wrapping a socket\<close>

record peer =
  pr_x509 :: x509
  pr_calls :: "recv_event list"
  pr_connected :: "pyexc + bool"

definition context_wrap_socket :: "peer \<Rightarrow> ssl_context \<Rightarrow> bytes \<Rightarrow> pyexc + ssl_socket" where
  \<comment> \<open>\<open>SSLContext.wrap_socket(sock, server_hostname=hostname)\<close>\<close>
  "context_wrap_socket p c hostname =
     new_ssl_socket (pr_x509 p) (pr_calls p) (pr_connected p) False True (Some hostname) (sc_check_hostname c)"

definition wrap_socket :: "ossl \<Rightarrow> peer \<Rightarrow> ssl_context option \<Rightarrow> bytes \<Rightarrow> (pyexc + ssl_socket) \<times> bool" where
  \<comment> \<open>also whether the socket has been shut down and closed\<close>
  "wrap_socket ossl p ctx hostname =
     (case (case ctx of Some c \<Rightarrow> Inr c | None \<Rightarrow> create_default_context ossl None None None) of
        Inl e \<Rightarrow> (Inl e, False)
      | Inr c \<Rightarrow>
          (case context_wrap_socket p c hostname of
             Inr s \<Rightarrow> (Inr s, False)
           | Inl (CertificateError m) \<Rightarrow>
               (Inl (ImapError (''certificate error for '' @ hostname @ '': '' @ m)), True)
           | Inl (SSLError m) \<Rightarrow> (Inl (ImapError (''SSL error for '' @ hostname @ '': '' @ m)), True)
           | Inl e \<Rightarrow> (Inl e, False)))"

definition ssl_wrap_socket :: "ossl \<Rightarrow> (chain_part \<Rightarrow> pyexc + unit) \<Rightarrow> peer \<Rightarrow> bytes option \<Rightarrow> bytes option \<Rightarrow> bool \<Rightarrow> int option \<Rightarrow>
    int option \<Rightarrow> bytes option \<Rightarrow> bool \<Rightarrow> bytes option \<Rightarrow> pyexc + ssl_socket" where
  \<comment> \<open>the function \<open>wrap_socket\<close> of core.py; contexts have no method \<open>set_ciphers\<close>\<close>
  "ssl_wrap_socket ossl use p keyfile certfile server_side cert_reqs ssl_version ca_certs do_handshake_on_connect ciphers =
     (let c = new_context (VERIFY_NONE ossl) (case ssl_version of Some v \<Rightarrow> v | None \<Rightarrow> PROTOCOL_SSLv23 ossl);
          c = c\<lparr>sc_verify_mode := (case cert_reqs of Some r \<Rightarrow> r | None \<Rightarrow> CERT_NONE ossl)\<rparr> in
      sbind (case certfile of None \<Rightarrow> Inr c | Some f \<Rightarrow> load_cert_chain use f keyfile None c) (\<lambda>c.
      sbind (if ca_certs = None then Inr c else load_verify_locations (ossl_load ossl) ca_certs None None c) (\<lambda>c.
      if ciphers \<noteq> None then Inl (AttributeError ''set_ciphers'')
      else new_ssl_socket (pr_x509 p) (pr_calls p) (pr_connected p) server_side do_handshake_on_connect None
             (sc_check_hostname c))))"

section \<open>The connection class\<close>

definition tls_open :: "ossl \<Rightarrow> pyexc + conn \<Rightarrow> peer \<Rightarrow> ssl_context option \<Rightarrow> bytes \<Rightarrow> pyexc + ssl_socket \<times> fileobject" where
  \<comment> \<open>\<open>IMAP4_TLS.open\<close>; \<open>created\<close>: what \<open>socket.create_connection\<close> gives\<close>
  "tls_open ossl created p ctx host =
     sbind created (\<lambda>sock. sbind (fst (wrap_socket ossl p ctx host)) (\<lambda>s. Inr (s, makefile None sock)))"

definition new_imap4_tls :: "ossl \<Rightarrow> (int option \<Rightarrow> pyexc + conn) \<Rightarrow> peer \<Rightarrow> ssl_context option \<Rightarrow> int option \<Rightarrow> bytes \<Rightarrow>
    pyexc + ssl_socket \<times> fileobject" where
  \<comment> \<open>\<open>IMAP4_TLS.__init__\<close>, up to the opening: the timeout is that of connecting\<close>
  "new_imap4_tls ossl create p ctx timeout host = tls_open ossl (create timeout) p ctx host"

definition with_shutdown_method :: "bytes \<Rightarrow> pyexc + target" where
  \<comment> \<open>a method of \<open>_SSLSocketWithShutdown\<close>\<close>
  "with_shutdown_method name =
     (if name = ''shutdown'' then Inr (OnConnection ''sock_shutdown'') else socket_method name)"

function tls_send_loop :: "nat \<Rightarrow> bytes \<Rightarrow> nat list \<Rightarrow> bytes" where
  \<comment> \<open>\<open>IMAP4_TLS.send\<close>: what reaches the socket. Each call of \<open>sock.send\<close> takes at most \<open>n + 1\<close> bytes,
    \<open>n\<close> from the schedule, or all when nothing is scheduled\<close>
  "tls_send_loop remaining data sched =
     (if remaining = 0 then []
      else let sent = (case sched of [] \<Rightarrow> length data | n # _ \<Rightarrow> min (length data) (Suc n)) in
        take sent data
        @ (if sent = remaining \<or> sent = 0 then [] else tls_send_loop (remaining - sent) (drop sent data) (tl sched)))"
  by pat_completeness auto
termination by (relation "measure (\<lambda>(r, _, _). r)") auto

declare tls_send_loop.simps [simp del]

definition tls_send :: "bytes \<Rightarrow> nat list \<Rightarrow> bytes" where
  "tls_send data sched = tls_send_loop (length data) data sched"

definition tls_read :: "nat \<Rightarrow> (fileobject, bytes) act" where
  "tls_read n = fo_read (int n)"

definition tls_readline :: "(fileobject, bytes) act" where
  "tls_readline = fo_readline (-1)"

definition get_line :: "(fileobject, bytes) act" where
  \<comment> \<open>\<open>imaplib.IMAP4._get_line\<close>\<close>
  "get_line =
     bindE tls_readline (\<lambda>line.
     if line = [] then raiseE (ImapAbort ''socket error: EOF'')
     else if \<not> ends_with CRLF line then raiseE (ImapAbort ''socket error: unterminated line'')
     else retE (take (length line - 2) line))"

definition tls_shutdown :: "pyexc + unit \<Rightarrow> fileobject \<Rightarrow> (pyexc + unit) \<times> fileobject \<times> bool" where
  \<comment> \<open>\<open>IMAP4_TLS.shutdown\<close>; \<open>shut\<close>: what shutting the TLS connection down gives. Also whether the socket has
    been closed\<close>
  "tls_shutdown shut f =
     (case fo_close_file f of
        (Inl e, g) \<Rightarrow> (Inl e, g, False)
      | (Inr _, g) \<Rightarrow> (case shut of Inl e \<Rightarrow> (Inl e, g, False) | Inr _ \<Rightarrow> (Inr (), g, True)))"

section \<open>Properties\<close>

text \<open>What the client and imaplib call on a wrapped socket is there; \<open>shutdown\<close> only through the wrapper.\<close>

lemma wrapped_socket_methods:
  "list_all (\<lambda>m. \<exists>t. with_shutdown_method m = Inr t)
     [''settimeout'', ''setblocking'', ''fileno'', ''makefile'', ''send'', ''sendall'', ''shutdown'', ''close'']"
  "socket_method ''shutdown'' = Inl (AttributeError ''shutdown'')"
  by (simp_all add: with_shutdown_method_def socket_method_def proxied_def own_methods_def)

lemma or_absorb: "Bit_Operations.and (Bit_Operations.or a (b :: int)) b = b"
  by (simp add: bit_eq_iff bit_and_iff bit_or_iff) blast

definition option_set :: "int \<Rightarrow> ssl_context \<Rightarrow> bool" where
  "option_set flag c \<longleftrightarrow> Bit_Operations.and (sc_options c) flag = flag"

lemma option_set_add: "option_set flag (add_options flag c)"
  by (simp add: option_set_def add_options_def or_absorb)

lemma option_set_keep: "option_set flag c \<Longrightarrow> option_set flag (add_options g c)"
  by (simp add: option_set_def add_options_def bit_eq_iff bit_and_iff bit_or_iff) blast

lemma add_options_fields [simp]:
  "sc_verify_mode (add_options flag c) = sc_verify_mode c" "sc_check_hostname (add_options flag c) = sc_check_hostname c"
  by (simp_all add: add_options_def)

lemma set_options_set: "option_set (OP_NO_SSLv2 ossl) (set_options ossl c)" "option_set (OP_NO_SSLv3 ossl) (set_options ossl c)"
  by (simp_all add: set_options_def option_set_add option_set_keep)

lemma set_options_fields [simp]:
  "sc_verify_mode (set_options ossl c) = sc_verify_mode c" "sc_check_hostname (set_options ossl c) = sc_check_hostname c"
  by (simp_all add: set_options_def)

lemma option_set_other [simp]:
  "option_set f (c\<lparr>sc_ciphers := x\<rparr>) = option_set f c" "option_set f (c\<lparr>sc_locations := y\<rparr>) = option_set f c"
  by (simp_all add: option_set_def)

lemma default_context_fields:
  assumes "create_default_context ossl cafile capath cadata = Inr c"
  shows "sc_verify_mode c = CERT_REQUIRED ossl \<and> sc_check_hostname c
    \<and> option_set (OP_NO_SSLv2 ossl) c \<and> option_set (OP_NO_SSLv3 ossl) c"
  using assms by (auto simp: create_default_context_def load_verify_locations_def Let_def outcome set_options_set
      split: if_splits option.splits)

lemma default_context_made: "ossl_win32 ossl = None \<Longrightarrow> \<exists>c. create_default_context ossl None None None = Inr c"
  by (cases "CERT_REQUIRED ossl = CERT_NONE ossl") (simp_all add: create_default_context_def Let_def truthy_bytes_def)

lemma tls_send_loop_all: "remaining = length data \<Longrightarrow> tls_send_loop remaining data sched = data"
proof (induction remaining data sched rule: tls_send_loop.induct)
  case (1 remaining data sched)
  show ?case
  proof (cases "remaining = 0")
    case True
    with "1.prems" show ?thesis by (subst tls_send_loop.simps) simp
  next
    case False
    let ?sent = "case sched of [] \<Rightarrow> length data | n # _ \<Rightarrow> min (length data) (Suc n)"
    have sent: "?sent \<le> length data" "0 < ?sent" using False "1.prems" by (auto split: list.splits)
    show ?thesis
    proof (cases "?sent = remaining")
      case True
      with False "1.prems" sent show ?thesis by (subst tls_send_loop.simps) (simp add: Let_def)
    next
      case ne: False
      have "tls_send_loop (remaining - ?sent) (drop ?sent data) (tl sched) = drop ?sent data"
        using "1.IH"[OF False refl] ne sent "1.prems" by simp
      with ne False sent show ?thesis by (subst tls_send_loop.simps) (simp add: Let_def)
    qed
  qed
qed

lemma tls_open_file:
  "tls_open ossl (Inr c) p ctx host = Inr (s, f) \<Longrightarrow> no_failure c \<Longrightarrow> healthy f \<and> pending f = sk_stream c"
  by (auto simp: tls_open_def makefile_def new_fileobject_def Let_def outcome healthy_def pending_def default_bufsize_def)

lemma get_line_line:
  assumes "healthy f" and "pending f = l @ CRLF @ rest" and "NL \<notin> set l"
  shows "\<exists>g. get_line f = (Inr l, g) \<and> pending g = rest \<and> healthy g"
proof -
  have "first_line (l @ CRLF @ rest) = l @ CRLF"
    using first_line_append_no_nl[OF assms(3), of "CRLF @ rest"] by (simp add: CRLF_def first_line_def NL_def)
  with fo_readline_spec[OF assms(1), of "-1"] assms(2) obtain g where
    g: "fo_readline (-1) f = (Inr (l @ CRLF), g)" "healthy g" "l @ CRLF @ pending g = l @ CRLF @ rest"
    by (auto simp: bio_readline_def)
  have "ends_with CRLF (l @ CRLF)" "length CRLF = 2" by (simp_all add: ends_with_def CRLF_def)
  with g show ?thesis by (auto simp: get_line_def tls_readline_def bindE_def)
qed

end
