(* ===== verification/ImapConfig.thy ===== *)
theory ImapConfig
  imports ImapTls ImapClient
begin

text \<open>
  config.py: reading the configuration of an IMAP client, the cache of OAuth tokens, and
  \<open>create_client_from_config\<close>, which puts contexts (ImapTls) and sessions (ImapClient) together. The
  parser of INI files is the standard library's; a file is its sections as association lists, without
  interpolation. Conversions to numbers with a fraction and the home directory are parameters.
\<close>

section \<open>Defaults\<close>

datatype cval = CNone | CBool bool

definition get_config_defaults :: "(bytes \<times> cval) list" where
  "get_config_defaults =
     [(''username'', CNone), (''password'', CNone), (''ssl'', CBool False), (''ssl_check_hostname'', CBool True),
      (''ssl_verify_cert'', CBool True), (''ssl_ca_file'', CNone), (''timeout'', CNone), (''starttls'', CBool False),
      (''stream'', CBool False), (''oauth'', CBool False), (''oauth_token'', CNone), (''oauth_token_secret'', CNone),
      (''oauth_url'', CNone), (''oauth2'', CBool False), (''oauth2_client_id'', CNone),
      (''oauth2_client_secret'', CNone), (''oauth2_refresh_token'', CNone), (''expect_failure'', CNone)]"

definition get_string_config_defaults :: "(bytes \<times> bytes option) list" where
  "get_string_config_defaults =
     map (\<lambda>(k, v). (k, case v of CNone \<Rightarrow> None | CBool True \<Rightarrow> Some ''true'' | CBool False \<Rightarrow> Some ''false''))
       get_config_defaults"

section \<open>Reading a section\<close>

record ini =
  ini_default :: "(bytes \<times> bytes) list"
  ini_sections :: "(bytes \<times> (bytes \<times> bytes) list) list"

definition NoOptionError :: pyexc where "NoOptionError = RuntimeError ''NoOptionError''"

definition parser_get :: "ini \<Rightarrow> bytes \<Rightarrow> bytes \<Rightarrow> pyexc + bytes option" where
  \<comment> \<open>\<open>parser.get(section, name)\<close>: the section, then DEFAULT, then the defaults of the parser\<close>
  "parser_get file sect name =
     (let own = (if sect = ''DEFAULT'' then Some [] else map_of (ini_sections file) sect) in
      case own of
        None \<Rightarrow> Inl (RuntimeError ''NoSectionError'')
      | Some kvs \<Rightarrow>
          (case map_of (kvs @ ini_default file) name of
             Some v \<Rightarrow> Inr (Some v)
           | None \<Rightarrow> (case map_of get_string_config_defaults name of
               Some v \<Rightarrow> Inr v
             | None \<Rightarrow> Inl NoOptionError)))"

definition getboolean :: "ini \<Rightarrow> bytes \<Rightarrow> bytes \<Rightarrow> pyexc + bool" where
  "getboolean file sect name =
     sbind (parser_get file sect name) (\<lambda>v. case v of
       None \<Rightarrow> Inl (AttributeError ''lower'')
     | Some b \<Rightarrow>
         (case map_of [(''1'', True), (''yes'', True), (''true'', True), (''on'', True), (''0'', False), (''no'', False),
             (''false'', False), (''off'', False)] (py_lower b) of
            Some r \<Rightarrow> Inr r
          | None \<Rightarrow> Inl (ValueError ''Not a boolean'')))"

definition get_allowing_none :: "ini \<Rightarrow> bytes \<Rightarrow> bytes \<Rightarrow> (bytes \<Rightarrow> pyexc + 'a) \<Rightarrow> pyexc + 'a option" where
  "get_allowing_none file sect name typefunc =
     (case parser_get file sect name of
        Inl e \<Rightarrow> if e = NoOptionError then Inr None else Inl e
      | Inr v \<Rightarrow> (case v of None \<Rightarrow> Inr None | Some [] \<Rightarrow> Inr None
          | Some b \<Rightarrow> sbind (typefunc b) (\<lambda>x. Inr (Some x))))"

record conf =
  cf_host :: "bytes option"
  cf_port :: "int option"
  cf_ssl :: bool
  cf_starttls :: bool
  cf_ssl_check_hostname :: bool
  cf_ssl_verify_cert :: bool
  cf_ssl_ca_file :: "bytes option"
  cf_timeout :: "int option"
  cf_stream :: bool
  cf_username :: "bytes option"
  cf_password :: "bytes option"
  cf_oauth :: bool
  cf_oauth_url :: "bytes option"
  cf_oauth_token :: "bytes option"
  cf_oauth_token_secret :: "bytes option"
  cf_oauth2 :: bool
  cf_oauth2_client_id :: "bytes option"
  cf_oauth2_client_secret :: "bytes option"
  cf_oauth2_refresh_token :: "bytes option"
  cf_expect_failure :: "bytes option"

definition read_config_section :: "(bytes \<Rightarrow> bytes) \<Rightarrow> (bytes \<Rightarrow> pyexc + int) \<Rightarrow> ini \<Rightarrow> bytes \<Rightarrow> pyexc + conf" where
  "read_config_section expanduser to_float file sect =
     (let get = parser_get file sect; getb = getboolean file sect in
      sbind (get ''ssl_ca_file'') (\<lambda>ssl_ca_file.
      let ssl_ca_file = (case ssl_ca_file of Some (c # cs) \<Rightarrow> Some (expanduser (c # cs)) | f \<Rightarrow> f) in
      sbind (get ''host'') (\<lambda>host.
      sbind (get_allowing_none file sect ''port'' int_of_bytes) (\<lambda>port.
      sbind (getb ''ssl'') (\<lambda>ssl.
      sbind (getb ''starttls'') (\<lambda>starttls.
      sbind (getb ''ssl_check_hostname'') (\<lambda>ssl_check_hostname.
      sbind (getb ''ssl_verify_cert'') (\<lambda>ssl_verify_cert.
      sbind (get_allowing_none file sect ''timeout'' to_float) (\<lambda>timeout.
      sbind (getb ''stream'') (\<lambda>stream.
      sbind (get ''username'') (\<lambda>username.
      sbind (get ''password'') (\<lambda>password.
      sbind (getb ''oauth'') (\<lambda>oauth.
      sbind (get ''oauth_url'') (\<lambda>oauth_url.
      sbind (get ''oauth_token'') (\<lambda>oauth_token.
      sbind (get ''oauth_token_secret'') (\<lambda>oauth_token_secret.
      sbind (getb ''oauth2'') (\<lambda>oauth2.
      sbind (get ''oauth2_client_id'') (\<lambda>oauth2_client_id.
      sbind (get ''oauth2_client_secret'') (\<lambda>oauth2_client_secret.
      sbind (get ''oauth2_refresh_token'') (\<lambda>oauth2_refresh_token.
      sbind (get ''expect_failure'') (\<lambda>expect_failure.
      Inr \<lparr>cf_host = host, cf_port = port, cf_ssl = ssl, cf_starttls = starttls,
        cf_ssl_check_hostname = ssl_check_hostname, cf_ssl_verify_cert = ssl_verify_cert,
        cf_ssl_ca_file = ssl_ca_file, cf_timeout = timeout, cf_stream = stream, cf_username = username,
        cf_password = password, cf_oauth = oauth, cf_oauth_url = oauth_url, cf_oauth_token = oauth_token,
        cf_oauth_token_secret = oauth_token_secret, cf_oauth2 = oauth2, cf_oauth2_client_id = oauth2_client_id,
        cf_oauth2_client_secret = oauth2_client_secret, cf_oauth2_refresh_token = oauth2_refresh_token,
        cf_expect_failure = expect_failure\<rparr>)))))))))))))))))))))"

definition parse_config_file :: "(bytes \<Rightarrow> bytes) \<Rightarrow> (bytes \<Rightarrow> pyexc + int) \<Rightarrow> ini \<Rightarrow> pyexc + conf \<times> (bytes \<times> conf) list" where
  \<comment> \<open>the configuration and its \<open>alternates\<close>, of the file once parsed\<close>
  "parse_config_file expanduser to_float file =
     sbind (read_config_section expanduser to_float file ''DEFAULT'') (\<lambda>conf.
     if truthy_bytes (cf_expect_failure conf)
     then Inl (ValueError ''expect_failure should not be set for the DEFAULT section'')
     else sbind (sequence (map (\<lambda>(s, _). sbind (read_config_section expanduser to_float file s) (\<lambda>c. Inr (s, c)))
                  (ini_sections file))) (\<lambda>alternates. Inr (conf, alternates)))"

section \<open>OAuth tokens\<close>

type_synonym oauth_key = "bytes option \<times> bytes option \<times> bytes option \<times> bytes option"

definition OAUTH2_REFRESH_URLS :: "(bytes \<times> bytes) list" where
  "OAUTH2_REFRESH_URLS =
     [(''imap.gmail.com'', ''https://accounts.google.com/o/oauth2/token''),
      (''imap.mail.yahoo.com'', ''https://api.login.yahoo.com/oauth2/get_token'')]"

definition refresh_oauth2_token :: "(bytes \<Rightarrow> bytes list \<Rightarrow> pyexc + bytes) \<Rightarrow> oauth_key \<Rightarrow> pyexc + bytes" where
  \<comment> \<open>\<open>post\<close>: the answer of the server to the three values, as far as \<open>access_token\<close> of its JSON\<close>
  "refresh_oauth2_token post key =
     (case key of (hostname, client_id, client_secret, refresh_token) \<Rightarrow>
        (case (case hostname of None \<Rightarrow> None | Some h \<Rightarrow> map_of OAUTH2_REFRESH_URLS h) of
           None \<Rightarrow> Inl (ValueError ''don't know where to refresh OAUTH2 token'')
         | Some url \<Rightarrow>
             sbind (sequence (map (\<lambda>v. case v of None \<Rightarrow> Inl (AttributeError ''encode'')
                 | Some b \<Rightarrow> if is_ascii b then Inr b else Inl (UnicodeError ''ordinal not in range(128)''))
               [client_id, client_secret, refresh_token])) (post url)))"

definition get_oauth2_token :: "(oauth_key \<Rightarrow> pyexc + bytes) \<Rightarrow> oauth_key \<Rightarrow> (oauth_key \<Rightarrow> bytes option, bytes) act" where
  \<comment> \<open>over the cache of the process\<close>
  "get_oauth2_token refresh cache_key = withE (\<lambda>cache.
     case cache cache_key of
       Some (c # cs) \<Rightarrow> retE (c # cs)
     | _ \<Rightarrow>
         bindE (liftE (refresh cache_key)) (\<lambda>token.
         bindE (modE (\<lambda>cache. cache(cache_key \<mapsto> token))) (\<lambda>_. retE token)))"

section \<open>A client from a configuration\<close>

definition config_context :: "ossl \<Rightarrow> conf \<Rightarrow> pyexc + ssl_context option" where
  "config_context ossl conf =
     (if cf_ssl conf then
        sbind (create_default_context ossl None None None) (\<lambda>c.
        let c = c\<lparr>sc_check_hostname := cf_ssl_check_hostname conf\<rparr>;
            c = (if \<not> cf_ssl_verify_cert conf then c\<lparr>sc_verify_mode := CERT_NONE ossl\<rparr> else c) in
        if truthy_bytes (cf_ssl_ca_file conf)
        then sbind (load_verify_locations (ossl_load ossl) (cf_ssl_ca_file conf) None None c) (\<lambda>c. Inr (Some c))
        else Inr (Some c))
      else Inr None)"

record surroundings =
  sr_connect :: "ssl_context option \<Rightarrow> transport \<Rightarrow> int option \<Rightarrow> pyexc + imap4"
  sr_starttls :: "ssl_context option \<Rightarrow> pyexc + imap4"
    \<comment> \<open>the connection after STARTTLS, wrapped with the context given\<close>
  sr_xoauth_string :: "bytes option \<Rightarrow> bytes option \<Rightarrow> bytes option \<Rightarrow> bytes option"
    \<comment> \<open>what the package \<open>oauth2\<close> builds for URL, token and secret, \<open>None\<close> without it\<close>
  sr_refresh :: "oauth_key \<Rightarrow> pyexc + bytes"

definition opt_text :: "bytes option \<Rightarrow> bytes" where
  \<comment> \<open>a value interpolated by \<open>%s\<close>\<close>
  "opt_text b = (case b of None \<Rightarrow> ''None'' | Some s \<Rightarrow> s)"

definition config_login :: "surroundings \<Rightarrow> conf \<Rightarrow> client \<times> (oauth_key \<Rightarrow> bytes option) \<Rightarrow>
    (pyexc + unit) \<times> client \<times> (oauth_key \<Rightarrow> bytes option)" where
  \<comment> \<open>the \<open>try\<close> block; the state is the client and the cache of tokens\<close>
  "config_login sr conf = (\<lambda>(cl, cache).
     case (if cf_starttls conf then starttls (sr_starttls sr None) cl else (Inr None, cl)) of
       (Inl e, cl) \<Rightarrow> (Inl e, cl, cache)
     | (Inr _, cl) \<Rightarrow>
         if cf_oauth conf then
           (case oauth_login (sr_xoauth_string sr (cf_oauth_url conf) (cf_oauth_token conf) (cf_oauth_token_secret conf)) cl of
              (Inl e, cl) \<Rightarrow> (Inl e, cl, cache) | (Inr _, cl) \<Rightarrow> (Inr (), cl, cache))
         else if cf_oauth2 conf then
           (case get_oauth2_token (sr_refresh sr)
               (cf_host conf, cf_oauth2_client_id conf, cf_oauth2_client_secret conf, cf_oauth2_refresh_token conf) cache of
              (Inl e, cache) \<Rightarrow> (Inl e, cl, cache)
            | (Inr token, cache) \<Rightarrow>
                (case oauth2_login (opt_text (cf_username conf)) token ''XOAUTH2'' None cl of
                   (Inl e, cl) \<Rightarrow> (Inl e, cl, cache) | (Inr _, cl) \<Rightarrow> (Inr (), cl, cache)))
         else if \<not> cf_stream conf then
           (case login (map_option Str (cf_username conf)) (map_option Str (cf_password conf)) cl of
              (Inl e, cl) \<Rightarrow> (Inl e, cl, cache) | (Inr _, cl) \<Rightarrow> (Inr (), cl, cache))
         else (Inr (), cl, cache))"

definition create_client_from_config :: "ossl \<Rightarrow> surroundings \<Rightarrow> conf \<Rightarrow> (oauth_key \<Rightarrow> bytes option) \<Rightarrow>
    (pyexc + client) \<times> bool \<times> (oauth_key \<Rightarrow> bytes option)" where
  \<comment> \<open>also whether the client was shut down, and the cache\<close>
  "create_client_from_config ossl sr conf cache =
     (case sbind (config_context ossl conf) (\<lambda>ctx.
         new_client (sr_connect sr ctx) (opt_text (cf_host conf)) (cf_port conf) True (cf_ssl conf) (cf_stream conf)
           (cf_timeout conf)) of
        Inl e \<Rightarrow> (Inl e, False, cache)
      | Inr cl \<Rightarrow>
          (case config_login sr conf (cl, cache) of
             (Inr _, cl, cache) \<Rightarrow> (Inr cl, False, cache)
           | (Inl e, cl, cache) \<Rightarrow> (Inl e, True, cache)))"

section \<open>Bunch\<close>

definition bunch_getattr :: "(bytes \<rightharpoonup> 'v) \<Rightarrow> bytes \<Rightarrow> pyexc + 'v" where
  "bunch_getattr b k = (case b k of None \<Rightarrow> Inl (AttributeError '''') | Some v \<Rightarrow> Inr v)"

definition bunch_setattr :: "bytes \<Rightarrow> 'v \<Rightarrow> (bytes \<rightharpoonup> 'v) \<Rightarrow> (bytes \<rightharpoonup> 'v)" where
  "bunch_setattr k v b = b(k \<mapsto> v)"

section \<open>Logging in\<close>

lemma imap_meth_login_state:
  "imap_meth (Call ''login'' args) c = (Inr r, d) \<Longrightarrow> im_state d = ''AUTH''"
  by (auto simp: imap_meth_def raise_unless_ok_def set_state_def outcome split: prod.splits if_splits)

lemma imap_meth_authenticate_state:
  "imap_meth (Authenticate mech auth) c = (Inr r, d) \<Longrightarrow> im_state d = ''AUTH''"
  by (auto simp: imap_meth_def raise_unless_ok_def set_state_def outcome split: prod.splits if_splits)

lemma command_and_check_imap:
  assumes "command_and_check call False cl = (Inr data, cl')"
  obtains r where "imap_meth call (cl_imap cl) = (Inr r, cl_imap cl')"
  using assms by (auto simp: command_and_check_def imapE_def outcome split: prod.splits)

lemma login_state: "login u p cl = (Inr r, cl') \<Longrightarrow> im_state (cl_imap cl') = ''AUTH''"
  by (auto simp: login_def command_unpacked_def outcome split: if_splits elim!: command_and_check_imap
      dest: imap_meth_login_state)

lemma oauth_login_state: "oauth_login s cl = (Inr r, cl') \<Longrightarrow> im_state (cl_imap cl') = ''AUTH''"
  by (auto simp: oauth_login_def command_unpacked_def outcome split: option.split_asm elim!: command_and_check_imap
      dest: imap_meth_authenticate_state)

lemma oauth2_login_state: "oauth2_login user t mech v cl = (Inr r, cl') \<Longrightarrow> im_state (cl_imap cl') = ''AUTH''"
  by (auto simp: oauth2_login_def Let_def elim!: command_and_check_imap dest: imap_meth_authenticate_state)

lemma config_client_state:
  assumes "cf_oauth conf \<or> cf_oauth2 conf \<or> \<not> cf_stream conf"
  shows "case create_client_from_config ossl sr conf cache of
      (Inr cl, down, _) \<Rightarrow> im_state (cl_imap cl) = ''AUTH'' \<and> \<not> down
    | (Inl e, down, _) \<Rightarrow> down = (\<exists>ctx cl. config_context ossl conf = Inr ctx
         \<and> new_client (sr_connect sr ctx) (opt_text (cf_host conf)) (cf_port conf) True (cf_ssl conf) (cf_stream conf)
             (cf_timeout conf) = Inr cl)"
proof -
  have auth: "im_state (cl_imap cl') = ''AUTH''" if "config_login sr conf (cl, c) = (Inr (), cl', c')" for cl c cl' c'
    using that assms by (auto simp: config_login_def dest: login_state oauth_login_state oauth2_login_state split: prod.splits sum.splits if_splits)
  let ?made = "sbind (config_context ossl conf) (\<lambda>ctx.
         new_client (sr_connect sr ctx) (opt_text (cf_host conf)) (cf_port conf) True (cf_ssl conf) (cf_stream conf)
           (cf_timeout conf))"
  show ?thesis
  proof (cases ?made)
    case (Inl e)
    then show ?thesis by (auto simp: create_client_from_config_def outcome)
  next
    case (Inr cl)
    obtain r cl' cache' where l: "config_login sr conf (cl, cache) = (r, cl', cache')" by (metis prod_cases3)
    show ?thesis
    proof (cases r)
      case (Inl e)
      with Inr l show ?thesis by (auto simp: create_client_from_config_def outcome)
    next
      case (Inr u)
      with \<open>?made = Inr cl\<close> l auth[of cl cache cl' cache'] show ?thesis by (auto simp: create_client_from_config_def outcome)
    qed
  qed
qed

end
