(* ===== verification/TlsSpec.thy ===== *)
theory TlsSpec
  imports ImapConfig ImapSample
begin

text \<open>
  The properties of the TLS layer: the file object as a refinement of the stream of bytes, its buffer and
  its writes, lines as imaplib reads them, certificates and contexts, and clients made from a
  configuration. Witnesses use a connection with a short script of receiving calls.
\<close>

section \<open>Reading\<close>

definition tls_file :: "bytes \<Rightarrow> recv_event list \<Rightarrow> fileobject" where
  "tls_file stream recvs = new_fileobject \<lparr>sk_stream = stream, sk_recvs = recvs, sk_written = [], sk_sends = []\<rparr> (-1) False"

lemma tls_file_simps [simp]:
  "pending (tls_file s rs) = s" "fo_rbufsize (tls_file s rs) = default_bufsize" "fo_open (tls_file s rs)"
  "sk_recvs (fo_sock (tls_file s rs)) = rs" "sk_sends (fo_sock (tls_file s rs)) = []"
  "fo_rbuf (tls_file s rs) = []" "written_or_kept (tls_file s rs) = []"
  by (simp_all add: tls_file_def new_fileobject_def pending_def Let_def default_bufsize_def written_or_kept_def)

text \<open>
  C17: However the bytes arrive, as long as no call fails, the file object behaves as the stream of the
  bytes not yet read: \<open>readline\<close> delivers the first line of it, \<open>read\<close> the first bytes of it,
  \<open>readlines\<close> all its lines, and what they deliver is what is gone from it.
\<close>
theorem file_object_refines_stream:
  assumes "healthy f"
  shows "(\<exists>g. fo_readline n f = (Inr (bio_readline n (pending f)), g) \<and> healthy g
      \<and> pending g = drop (length (bio_readline n (pending f))) (pending f))
    \<and> (\<exists>g. fo_read (int k) f = (Inr (take k (pending f)), g) \<and> healthy g \<and> pending g = drop k (pending f))
    \<and> (\<exists>g. fo_readlines 0 f = (Inr (lines_of (pending f)), g) \<and> healthy g \<and> pending g = [])"
proof -
  obtain g where "fo_readline n f = (Inr (bio_readline n (pending f)), g)" "healthy g"
    "bio_readline n (pending f) @ pending g = pending f" using fo_readline_spec[OF assms] by blast
  moreover from this have "pending g = drop (length (bio_readline n (pending f))) (pending f)"
    by (metis append_eq_conv_conj)
  moreover obtain h where "fo_readlines 0 f = (Inr (lines_of (pending f)), h)" "healthy h" "pending h = []"
    using fo.read_lines_all[OF assms, of "Suc (length (pending f))" 0 "[]"] by (auto simp: fo_readlines_def)
  ultimately show ?thesis using fo_read_spec[OF assms, of k] by blast
qed

theorem file_object_refines_stream_witness:
  "\<exists>g. fo_readline (-1) (tls_file (''a'' @ [NL] @ ''b'') [Data 0, Want True, Data 0, Data 5]) = (Inr (''a'' @ [NL]), g)
     \<and> pending g = ''b''"
proof -
  have "healthy (tls_file (''a'' @ [NL] @ ''b'') [Data 0, Want True, Data 0, Data 5])"
    by (simp add: healthy_def no_failure_def default_bufsize_def)
  from file_object_refines_stream[OF this, of "-1"] show ?thesis
    by (auto simp: bio_readline_def first_line_def NL_def)
qed

definition buffered :: "nat \<Rightarrow> fileobject \<Rightarrow> bool" where
  "buffered k f \<longleftrightarrow> fo_rbufsize f = k \<and> length (fo_rbuf f) \<le> k"

lemma recvE_buffered: "recvE n f = (r, g) \<Longrightarrow> buffered k f \<Longrightarrow> buffered k g \<and> (\<forall>d. r = Inr d \<longrightarrow> length d \<le> n)"
  using recv_data(2) by (auto simp: recvE_def buffered_def split: prod.splits if_splits)

lemma drop_buffered: "buffered k f \<Longrightarrow> length d \<le> k \<Longrightarrow> buffered k (f\<lparr>fo_rbuf := drop n d\<rparr>)"
  by (simp add: buffered_def)

lemma loops_buffered:
  "buffered k f \<Longrightarrow> buffered k (snd (read_loop sz buf f))"
  "buffered k f \<Longrightarrow> buffered k (snd (byte_loop buf f))"
  "buffered k f \<Longrightarrow> buffered k (snd (line_loop buf f))"
  "buffered k f \<Longrightarrow> buffered k (snd (sized_loop sz buf f))"
proof -
  show "buffered k f \<Longrightarrow> buffered k (snd (read_loop sz buf f))"
  proof (induction sz buf f rule: read_loop.induct)
    case (1 sz buf f)
    obtain r g where r: "recvE (sz - length buf) f = (r, g)" by fastforce
    show ?case
      using recvE_buffered[OF r "1.prems"] 1(1)[OF refl r[symmetric]] 
      by (subst read_loop.simps) (auto simp: r Let_def split: sum.splits)
  qed
  show "buffered k f \<Longrightarrow> buffered k (snd (byte_loop buf f))"
  proof (induction buf f rule: byte_loop.induct)
    case (1 buf f)
    obtain r g where r: "recvE 1 f = (r, g)" by fastforce
    show ?case
      using recvE_buffered[OF r "1.prems"] 1(1)[OF r[symmetric]]
      by (subst byte_loop.simps) (auto simp: r[unfolded One_nat_def] split: sum.splits)
  qed
  show "buffered k f \<Longrightarrow> buffered k (snd (line_loop buf f))"
  proof (induction buf f rule: line_loop.induct)
    case (1 buf f)
    obtain r g where r: "recvE (fo_rbufsize f) f = (r, g)" by fastforce
    have k: "fo_rbufsize f = k" using "1.prems" by (simp add: buffered_def)
    show ?case
      using recvE_buffered[OF r "1.prems"] 1(1)[OF r[symmetric]]
      by (subst line_loop.simps) (auto simp: r r[unfolded k] k intro: drop_buffered split: sum.splits option.splits)
  qed
  show "buffered k f \<Longrightarrow> buffered k (snd (sized_loop sz buf f))"
  proof (induction sz buf f rule: sized_loop.induct)
    case (1 sz buf f)
    obtain r g where r: "recvE (fo_rbufsize f) f = (r, g)" by fastforce
    have k: "fo_rbufsize f = k" using "1.prems" by (simp add: buffered_def)
    show ?case
      using recvE_buffered[OF r "1.prems"] 1(1)[OF r[symmetric]]
      by (subst sized_loop.simps) (auto simp: r r[unfolded k] k Let_def intro: drop_buffered split: sum.splits option.splits)
  qed
qed

text \<open>
  C34: The buffer of a file object never holds more than its size, whatever is read from it and whether
  the calls return or raise.
\<close>
theorem buffer_bounded:
  assumes "length (fo_rbuf f) \<le> fo_rbufsize f"
  shows "length (fo_rbuf (snd (fo_readline n f))) \<le> fo_rbufsize f \<and> fo_rbufsize (snd (fo_readline n f)) = fo_rbufsize f
    \<and> length (fo_rbuf (snd (fo_read n f))) \<le> fo_rbufsize f \<and> fo_rbufsize (snd (fo_read n f)) = fo_rbufsize f"
proof -
  let ?k = "fo_rbufsize f"
  have start: "buffered ?k f" using assms by (simp add: buffered_def)
  have set: "buffered ?k (f\<lparr>fo_rbuf := drop m (fo_rbuf f)\<rparr>)" "buffered ?k (f\<lparr>fo_rbuf := []\<rparr>)" for m
    using assms by (simp_all add: buffered_def)
  note loops = loops_buffered(1)[OF set(2)] loops_buffered(2)[OF set(2)] loops_buffered(3)[OF set(2)] loops_buffered(4)[OF set(2)]
  have "buffered ?k (snd (fo_readline n f))"
    using set loops by (simp add: fo_readline_def Let_def bindE_def set_rbuf_def)
  moreover have "buffered ?k (snd (fo_read n f))"
  proof (cases "n < 0")
    case True
    obtain r g where r: "recvE (max ?k default_bufsize) (f\<lparr>fo_rbuf := []\<rparr>) = (r, g)" by fastforce
    from recvE_buffered[OF r set(2)] True show ?thesis
      by (auto simp: fo_read_def Let_def bindE_def set_rbuf_def r split: sum.splits)
  next
    case False
    then show ?thesis using set loops by (simp add: fo_read_def Let_def bindE_def set_rbuf_def)
  qed
  ultimately show ?thesis by (simp add: buffered_def)
qed

theorem buffer_bounded_witness:
  "length (fo_rbuf (snd (fo_readline 3 (tls_file ''abc'' [Want False])))) \<le> 8192"
  using buffer_bounded[of "tls_file ''abc'' [Want False]" 3] by (simp add: default_bufsize_def)

text \<open>
  A line that has arrived in part is lost when the connection is not ready for more: \<open>readline\<close>
  empties the buffer before it receives, and what it held is not put back when receiving raises.
\<close>
theorem partial_line_lost:
  assumes "fo_rbuf f \<noteq> []" and "NL \<notin> set (fo_rbuf f)" and "fo_open f" and "1 < fo_rbufsize f"
    and "sk_recvs (fo_sock f) = Want False # es"
  shows "\<exists>g. fo_readline (-1) f = (Inl (SocketTimeout ''timed out''), g) \<and> pending f = fo_rbuf f @ pending g"
proof -
  have "bio_readline (-1) (fo_rbuf f) = fo_rbuf f" using assms(2) by (simp add: bio_readline_def first_line_no_nl)
  moreover have "last (fo_rbuf f) \<noteq> NL" using assms(1,2) last_in_set by metis
  ultimately show ?thesis
    using assms by (simp add: fo_readline_def Let_def bindE_def set_rbuf_def line_loop.simps recvE_def recv_def pending_def)
qed

theorem partial_line_lost_witness:
  "\<exists>g. fo_readline (-1) ((tls_file ''ne'' [Want False])\<lparr>fo_rbuf := ''o''\<rparr>) = (Inl (SocketTimeout ''timed out''), g)
     \<and> pending g = ''ne''"
proof -
  let ?f = "(tls_file ''ne'' [Want False])\<lparr>fo_rbuf := ''o''\<rparr>"
  have "fo_rbuf ?f = ''o''" "fo_open ?f" "1 < fo_rbufsize ?f" "sk_recvs (fo_sock ?f) = Want False # []" "pending ?f = ''one''"
    by (simp_all add: tls_file_def new_fileobject_def default_bufsize_def Let_def pending_def)
  then show ?thesis using partial_line_lost[of ?f "[]"] by (simp add: NL_def eq_commute[of "''ne''"])
qed

text \<open>
  imaplib's line reader over the file object delivers the next line without its CRLF; at the end of
  the stream, and for a line that does not end in CRLF, it aborts. The rest stays to be read.
\<close>
theorem tls_get_line:
  assumes "healthy f"
  shows "\<exists>g. get_line f =
      (let line = first_line (pending f) in
       if pending f = [] then Inl (ImapAbort ''socket error: EOF'')
       else if ends_with CRLF line then Inr (take (length line - 2) line)
       else Inl (ImapAbort ''socket error: unterminated line''), g)
    \<and> healthy g \<and> first_line (pending f) @ pending g = pending f"
proof -
  obtain g where g: "fo_readline (-1) f = (Inr (first_line (pending f)), g)" "healthy g"
    "first_line (pending f) @ pending g = pending f"
    using fo_readline_spec[OF assms, of "-1"] by (auto simp: bio_readline_def)
  then show ?thesis by (auto simp: get_line_def tls_readline_def bindE_def Let_def first_line_empty)
qed

theorem tls_get_line_witness:
  "\<exists>g. get_line (tls_file (''* OK'' @ CRLF @ ''* B'') [Data 1]) = (Inr ''* OK'', g) \<and> pending g = ''* B''"
proof -
  have "healthy (tls_file (''* OK'' @ CRLF @ ''* B'') [Data 1])"
    by (simp add: healthy_def no_failure_def default_bufsize_def)
  from tls_get_line[OF this] show ?thesis
    by (auto simp: Let_def first_line_def NL_def CRLF_def ends_with_def)
qed

section \<open>Writing\<close>



section \<open>Contexts and certificates\<close>

text \<open>
  Every default context insists on a certificate and on its host name, and refuses SSLv2 and SSLv3,
  whatever certificate authorities are loaded.
\<close>
theorem default_context_strict:
  assumes "create_default_context ossl cafile capath cadata = Inr c"
  shows "sc_verify_mode c = CERT_REQUIRED ossl \<and> sc_check_hostname c
    \<and> option_set (OP_NO_SSLv2 ossl) c \<and> option_set (OP_NO_SSLv3 ossl) c"
  using assms by (rule default_context_fields)

definition sample_ossl :: ossl where
  "sample_ossl = \<lparr>VERIFY_NONE = 0, VERIFY_PEER = 1, VERIFY_FAIL_IF_NO_PEER_CERT = 2, PROTOCOL_SSLv23 = 3,
     OP_NO_SSLv2 = 0x1000000, OP_NO_SSLv3 = 0x2000000, ossl_options = (\<lambda>_. None), ossl_load = (\<lambda>_. Inr ()),
     ossl_win32 = None\<rparr>"

theorem default_context_strict_witness:
  "\<exists>c. create_default_context sample_ossl (Some ''ca.pem'') None None = Inr c \<and> sc_verify_mode c = 3 \<and> sc_check_hostname c"
proof -
  obtain c where c: "create_default_context sample_ossl (Some ''ca.pem'') None None = Inr c"
    by (simp add: create_default_context_def Let_def truthy_bytes_def load_verify_locations_def sample_ossl_def)
  from default_context_strict[OF c] c show ?thesis by (auto simp: CERT_REQUIRED_def sample_ossl_def)
qed

lemma name_loop_found:
  "name_loop key h ns acc = Inr (True, ds) \<Longrightarrow> \<exists>v\<in>set (names_of key ns). v \<noteq> [] \<and> py_lower v = py_lower h"
  "name_loop key h ns acc = Inr (False, ds) \<Longrightarrow> ds = acc @ names_of key ns"
  by (induction key h ns acc rule: name_loop.induct)
    (auto simp: names_of_def dnsname_match_def Let_def outcome split: if_splits)

definition certificate_names :: "x509 \<Rightarrow> bytes list" where
  \<comment> \<open>the DNS names of a certificate or, when it has none, its common names\<close>
  "certificate_names c =
     (case x_alt_names c of
        Some (v # vs) \<Rightarrow> v # vs
      | _ \<Rightarrow> map snd (filter (\<lambda>(k, v). k \<in> {''CN'', ''commonName''}) (x_subject c)))"

lemma resolve_alias_common: "resolve_alias n = ''commonName'' \<longleftrightarrow> n \<in> {''CN'', ''commonName''}"
  by (auto simp: resolve_alias_def split: option.splits if_splits)

lemma names_of_subject:
  "names_of ''commonName'' (concat (to_components subj)) = map snd (filter (\<lambda>(k, v). k \<in> {''CN'', ''commonName''}) subj)"
  by (induction subj) (auto simp: to_components_def names_of_def resolve_alias_common split: if_splits)

lemma match_hostname_found:
  assumes "match_hostname (Some c) h = Inr ()"
  shows "\<exists>v\<in>set (if names_of ''DNS'' (ct_subjectAltName c) = [] then names_of ''commonName'' (concat (ct_subject c))
             else names_of ''DNS'' (ct_subjectAltName c)). v \<noteq> [] \<and> py_lower v = py_lower h"
proof -
  let ?D = "names_of ''DNS'' (ct_subjectAltName c)"
  obtain found ds where l: "name_loop ''DNS'' h (ct_subjectAltName c) [] = Inr (found, ds)"
    using assms by (auto simp: match_hostname_def outcome)
  show ?thesis
  proof (cases found)
    case True
    have v: "\<exists>v\<in>set ?D. v \<noteq> [] \<and> py_lower v = py_lower h"
      using name_loop_found(1)[of "''DNS''" h "ct_subjectAltName c" "[]" ds] l True by simp
    then have "?D \<noteq> []" by auto
    with v show ?thesis by (simp only: if_False)
  next
    case False
    have "ds = ?D" using name_loop_found(2)[of "''DNS''" h "ct_subjectAltName c" "[]" ds] l False by simp
    with assms l False obtain es where "?D = []" "name_loop ''commonName'' h (concat (ct_subject c)) ds = Inr (True, es)"
      by (auto simp: match_hostname_def outcome split: if_splits)
    with name_loop_found(1)[of "''commonName''" h "concat (ct_subject c)" ds es] show ?thesis by simp
  qed
qed

lemma match_hostname_names:
  assumes "match_hostname (Some (getpeercert c)) h = Inr ()"
  shows "\<exists>v\<in>set (certificate_names c). v \<noteq> [] \<and> py_lower v = py_lower h"
proof -
  have "(if names_of ''DNS'' (ct_subjectAltName (getpeercert c)) = [] then names_of ''commonName'' (concat (ct_subject (getpeercert c)))
      else names_of ''DNS'' (ct_subjectAltName (getpeercert c))) = certificate_names c"
    by (auto simp: getpeercert_def certificate_names_def names_of_alt names_of_subject split: option.split list.split)
      (simp add: names_of_def)
  with match_hostname_found[OF assms] show ?thesis by (simp only:)
qed

text \<open>
  C18: When wrapping a connected socket with the default context succeeds, the certificate of the peer
  carries the host's name, up to case: as a DNS name, or as a common name if it has no DNS names.
\<close>
theorem wrapped_socket_names_host:
  assumes "wrap_socket ossl p None host = (Inr s, shut)" and "pr_connected p = Inr True"
  shows "\<exists>v\<in>set (certificate_names (pr_x509 p)). v \<noteq> [] \<and> py_lower v = py_lower host"
proof -
  obtain c where c: "create_default_context ossl None None None = Inr c" and s: "context_wrap_socket p c host = Inr s"
    using assms(1) by (auto simp: wrap_socket_def split: sum.splits pyexc.splits)
  have "sc_check_hostname c" using default_context_fields[OF c] by simp
  with s assms(2) have "match_hostname (Some (getpeercert (pr_x509 p))) host = Inr ()"
    by (auto simp: context_wrap_socket_def new_ssl_socket_def do_handshake_def Let_def outcome split: if_splits)
  then show ?thesis by (rule match_hostname_names)
qed

definition sample_peer :: "bytes list \<Rightarrow> peer" where
  "sample_peer names = \<lparr>pr_x509 = \<lparr>x_subject = [(''CN'', ''other'')], x_issuer = [], x_serial_number = 1,
     x_notBefore = None, x_notAfter = None, x_alt_names = Some names\<rparr>, pr_calls = [Want True],
     pr_connected = Inr True\<rparr>"

theorem wrapped_socket_names_host_witness:
  "\<exists>v\<in>set (certificate_names (pr_x509 (sample_peer [''a.org'', ''Mail.example.org'']))).
     v \<noteq> [] \<and> py_lower v = py_lower ''mail.example.org''"
proof -
  have "\<exists>s. wrap_socket sample_ossl (sample_peer [''a.org'', ''Mail.example.org'']) None ''mail.example.org'' = (Inr s, False)"
    by (simp add: wrap_socket_def create_default_context_def Let_def truthy_bytes_def sample_ossl_def sample_peer_def
        context_wrap_socket_def new_ssl_socket_def do_handshake_def match_hostname_def getpeercert_def dnsname_match_def py_lower_def
        lower_char_def CERT_REQUIRED_def CERT_NONE_def char_of_def bit_0)
  then obtain s where "wrap_socket sample_ossl (sample_peer [''a.org'', ''Mail.example.org'']) None ''mail.example.org'' = (Inr s, False)" by blast
  from wrapped_socket_names_host[OF this] show ?thesis by (simp add: sample_peer_def)
qed

text \<open>
  On other platforms than Windows a certificate whose name has a wildcard makes wrapping a connected socket raise a \<open>NameError\<close>, even for
  a host the wildcard is meant for, and the socket is left open: the matching needs a module the file
  does not import.
\<close>
theorem wildcard_certificate_unusable:
  assumes "x_alt_names (pr_x509 p) = Some [v]" and "length (filter (\<lambda>c. c = CHR ''*'') (hd (py_split (CHR ''.'') v))) = 1"
    and "host \<noteq> []" and "pr_connected p = Inr True" and "list_all (\<lambda>e. e = Want True) (pr_calls p)"
    and "ossl_win32 ossl = None"
  shows "wrap_socket ossl p None host = (Inl (NameError ''global name 're' is not defined''), False)"
proof -
  have v: "v \<noteq> []" using assms(2) by auto
  have ready: "list_all (\<lambda>e. e = Want True) es \<Longrightarrow> safe_call False es = Inr []" for es
    by (induction es) simp_all
  have "dnsname_match v host 1 = Inl (NameError ''global name 're' is not defined'')"
    using assms(2) v by (simp add: dnsname_match_def Let_def)
  then have match: "match_hostname (Some (getpeercert (pr_x509 p))) host = Inl (NameError ''global name 're' is not defined'')"
    using assms(1) by (simp add: match_hostname_def getpeercert_def)
  obtain c where c: "create_default_context ossl None None None = Inr c" "sc_check_hostname c"
    using default_context_made[OF assms(6)] default_context_fields by blast
  have "context_wrap_socket p c host = Inl (NameError ''global name 're' is not defined'')"
    using assms(3,4) c(2) match ready[OF assms(5)]
    by (simp add: context_wrap_socket_def new_ssl_socket_def do_handshake_def Let_def)
  then show ?thesis using c(1) by (simp add: wrap_socket_def)
qed

theorem wildcard_certificate_unusable_witness:
  "wrap_socket sample_ossl (sample_peer [''*.example.org'']) None ''mail.example.org''
     = (Inl (NameError ''global name 're' is not defined''), False)"
  by (rule wildcard_certificate_unusable[where v = "''*.example.org''"]) (simp_all add: sample_peer_def sample_ossl_def)

section \<open>Clients from a configuration\<close>


definition sample_conf :: conf where
  "sample_conf = \<lparr>cf_host = Some ''h'', cf_port = None, cf_ssl = False, cf_starttls = False, cf_ssl_check_hostname = True,
     cf_ssl_verify_cert = True, cf_ssl_ca_file = None, cf_timeout = None, cf_stream = False, cf_username = Some ''u'',
     cf_password = Some ''p'', cf_oauth = False, cf_oauth_url = None, cf_oauth_token = None, cf_oauth_token_secret = None,
     cf_oauth2 = False, cf_oauth2_client_id = None, cf_oauth2_client_secret = None, cf_oauth2_refresh_token = None,
     cf_expect_failure = None\<rparr>"

definition sample_surroundings :: surroundings where
  "sample_surroundings = \<lparr>sr_connect = (\<lambda>_ _ _. Inr (cl_imap fresh_client)), sr_starttls = (\<lambda>_. Inl (ImapAbort [])),
     sr_xoauth_string = (\<lambda>_ _ _. None), sr_refresh = (\<lambda>_. Inl (ImapAbort []))\<rparr>"

lemma login_known: "''LOGIN'' \<in> fst ` set client_Commands" "allowed_states client_Commands ''LOGIN'' = [''NONAUTH'']"
  by code_simp+

lemma pystr_quote: "quote (Uni [0x70]) = Uni [0x22, 0x70, 0x22]"
  by (simp add: quote_def escaped_def replace_one_def)

lemma sample_login:
  assumes "cl_imap cl = cl_imap fresh_client"
  shows "\<exists>r cl'. login (Some (Str ''u'')) (Some (Str ''p'')) cl = (Inr r, cl')"
proof -
  let ?c = "(cl_imap fresh_client)\<lparr>im_tagnum := 2, im_tagged := [(''T1'', None)],
    im_sent := [''T1 LOGIN u '' @ [CHR 0x22] @ ''p'' @ [CHR 0x22] @ CRLF]\<rparr>"
  have "command (Str ''LOGIN'') [Uni [0x75], pq (Uni [0x70])] None [] (cl_imap fresh_client) = (Inr ''T1'', ?c)"
    by (simp add: command_def fresh_client_def sample_simps Let_def key_text_def login_known new_tag_def pq_def pystr_quote
        bindE_def interpolated_def to_unicode_def decode_ascii_def encode_ascii_def is_ascii_def send_def)
  moreover obtain d where "command_complete ''LOGIN'' ''T1'' ?c = (Inr (''OK'', Some [Line ''go'']), d)"
    using command_complete_done[of ?c "''T1''" "''go''" "''LOGIN''"]
    by (auto simp: fresh_client_def sample_simps quiet_def response_code_def Let_def)
  moreover have "text_args (Some (Str ''u'')) = Inr [Uni [0x75]]" "text_args (Some (Str ''p'')) = Inr [Uni [0x70]]"
    by (simp_all add: text_args_def to_unicode_def decode_ascii_def is_ascii_def)
  ultimately show ?thesis
    by (simp add: login_def bindE_def command_unpacked_def command_and_check_def imapE_def imap_meth_def simple_command_def
        key_text_def raise_unless_ok_def set_state_def checkok_def check_resp_def unpacked_def assms call_name_def)
qed

lemma sample_client_made:
  "\<exists>cl' cache. create_client_from_config sample_ossl sample_surroundings sample_conf Map.empty = (Inr cl', False, cache)"
proof -
  obtain cl where new: "new_client (\<lambda>_ _. Inr (cl_imap fresh_client)) ''h'' None True False False None = Inr cl"
    and imap: "cl_imap cl = cl_imap fresh_client"
    by (simp add: new_client_def Let_def set_timeout_def sock_settimeout_def)
  then show ?thesis
    using sample_login[OF imap] new
    by (auto simp: create_client_from_config_def sample_surroundings_def sample_conf_def config_context_def opt_text_def config_login_def)
qed


end
