(* ===== verification/ImapLine.thy ===== *)
theory ImapLine
  imports ImapTls ImapSample "HOL-Library.Sublist"
begin

text \<open>
  The lines of the server, byte by byte: what \<open>imaplib.IMAP4._get_response\<close> does with the file object of
  a TLS connection. It reads a line, matches it with the patterns of imaplib, and reads the literals a
  line announces. ImapConn has the replies already taken apart (\<open>get_response\<close> on \<open>im_inbox\<close>); here the
  reading of bytes is proved to refine it: as long as no call of the connection fails, every response
  comes out the same, ends at the same byte, and leaves the same object behind.
\<close>

section \<open>Matching lines\<close>

definition is_capital :: "char \<Rightarrow> bool" where
  \<comment> \<open>\<open>[A-Z]\<close>\<close>
  "is_capital c \<longleftrightarrow> 65 \<le> (of_char c :: nat) \<and> (of_char c :: nat) \<le> 90"

definition is_type_char :: "char \<Rightarrow> bool" where
  \<comment> \<open>\<open>[A-Z-]\<close>\<close>
  "is_type_char c \<longleftrightarrow> c = CHR ''-'' \<or> is_capital c"

definition literal_size_at :: "bytes \<Rightarrow> nat option" where
  \<comment> \<open>\<open>Literal\<close>, \<open>.*{(?P<size>\d+)}$\<close>: the size a line ends with\<close>
  "literal_size_at l =
     (case rev l of
        [] \<Rightarrow> None
      | b # r \<Rightarrow>
          let ds = takeWhile is_digit r in
          if b = CHR 0x7D \<and> ds \<noteq> [] \<and> take 1 (dropWhile is_digit r) = [CHR 0x7B]
          then Some (dec_value (rev ds) 0) else None)"

definition after_space :: "bytes \<Rightarrow> bytes option" where
  \<comment> \<open>the optional group \<open>( (?P<data>.*))?\<close>\<close>
  "after_space r = (case r of c # d \<Rightarrow> if c = CHR '' '' then Some d else None | [] \<Rightarrow> None)"

definition match_type :: "(char \<Rightarrow> bool) \<Rightarrow> bytes \<Rightarrow> (bytes \<times> bytes option) option" where
  "match_type P r =
     (let typ = takeWhile P r in
      if typ = [] then None else Some (typ, after_space (dropWhile P r)))"

definition match_Untagged_response :: "bytes \<Rightarrow> (bytes \<times> bytes option) option" where
  \<comment> \<open>\<open>\* (?P<type>[A-Z-]+)( (?P<data>.*))?\<close>\<close>
  "match_Untagged_response l = (if take 2 l = ''* '' then match_type is_type_char (drop 2 l) else None)"

definition match_Untagged_status :: "bytes \<Rightarrow> (bytes \<times> bytes \<times> bytes option) option" where
  \<comment> \<open>\<open>\* (?P<data>\d+) (?P<type>[A-Z-]+)( (?P<data2>.*))?\<close>: type, data and data2\<close>
  "match_Untagged_status l =
     (if take 2 l \<noteq> ''* '' then None
      else let ds = takeWhile is_digit (drop 2 l) in
        if ds = [] then None
        else (case after_space (dropWhile is_digit (drop 2 l)) of
            None \<Rightarrow> None
          | Some r \<Rightarrow> map_option (\<lambda>(typ, d2). (typ, ds, d2)) (match_type is_type_char r)))"

definition match_tag :: "bytes \<Rightarrow> bytes \<Rightarrow> (bytes \<times> bytes \<times> bytes) option" where
  \<comment> \<open>\<open>tagre\<close>, \<open>(?P<tag>PRE\d+) (?P<type>[A-Z]+) (?P<data>.*)\<close>\<close>
  "match_tag tagpre l =
     (let r = drop (length tagpre) l; ds = takeWhile is_digit r in
      if take (length tagpre) l \<noteq> tagpre \<or> ds = [] then None
      else (case after_space (dropWhile is_digit r) of
          None \<Rightarrow> None
        | Some r \<Rightarrow> (case match_type is_capital r of
            Some (typ, Some dat) \<Rightarrow> Some (tagpre @ ds, typ, dat)
          | _ \<Rightarrow> None)))"

section \<open>The connection over a file\<close>

record wire =
  wi_file :: fileobject
  wi_imap :: imap4
    \<comment> \<open>its \<open>im_inbox\<close> is not used\<close>

definition on_file :: "(fileobject, 'a) act \<Rightarrow> (wire, 'a) act" where
  "on_file m w = (case m (wi_file w) of (r, f) \<Rightarrow> (r, w\<lparr>wi_file := f\<rparr>))"

definition on_imap :: "(imap4 \<Rightarrow> imap4) \<Rightarrow> (wire, unit) act" where
  "on_imap h = modE (\<lambda>w. w\<lparr>wi_imap := h (wi_imap w)\<rparr>)"

fun read_literals :: "nat \<Rightarrow> bytes \<Rightarrow> bytes \<Rightarrow> (wire, bytes) act" where
  \<comment> \<open>\<open>while self._match(Literal, dat)\<close>: stores what is read as it comes, returns the last line\<close>
  "read_literals 0 typ dat = raiseE (RuntimeError ''out of fuel'')"
| "read_literals (Suc k) typ dat =
     (case literal_size_at dat of
        None \<Rightarrow> bindE (on_imap (append_untagged typ [Line dat])) (\<lambda>_. retE dat)
      | Some sz \<Rightarrow>
          bindE (on_file (tls_read sz)) (\<lambda>data.
          bindE (on_imap (append_untagged typ [WithLiteral dat data])) (\<lambda>_.
          bindE (on_file get_line) (\<lambda>dat. read_literals k typ dat))))"

definition wire_untagged :: "bytes \<Rightarrow> bytes \<Rightarrow> bytes \<Rightarrow> (wire, bytes option) act" where
  "wire_untagged resp typ dat = withE (\<lambda>w.
     bindE (read_literals (Suc (length (pending (wi_file w)))) typ dat) (\<lambda>dat.
     bindE (on_imap (bracketed typ dat)) (\<lambda>_. retE (Some resp))))"

definition wire_response :: "(wire, bytes option) act" where
  \<comment> \<open>\<open>_get_response\<close>\<close>
  "wire_response =
     bindE (on_file get_line) (\<lambda>resp. withE (\<lambda>w.
     case match_tag (im_tagpre (wi_imap w)) resp of
       Some (tag, typ, dat) \<Rightarrow>
         if tag \<notin> fst ` set (im_tagged (wi_imap w)) then raiseE (ImapAbort ''unexpected tagged response'')
         else bindE (on_imap (\<lambda>c. c\<lparr>im_tagged := AList.update tag (Some (typ, dat)) (im_tagged c)\<rparr>)) (\<lambda>_.
              bindE (on_imap (bracketed typ dat)) (\<lambda>_. retE (Some resp)))
     | None \<Rightarrow>
         (case match_Untagged_response resp of
            Some (typ, dat) \<Rightarrow> wire_untagged resp typ (case dat of None \<Rightarrow> [] | Some d \<Rightarrow> d)
          | None \<Rightarrow>
              (case match_Untagged_status resp of
                 Some (typ, dat, dat2) \<Rightarrow>
                   wire_untagged resp typ (case dat2 of None \<Rightarrow> dat | Some d \<Rightarrow> if d = [] then dat else dat @ '' '' @ d)
               | None \<Rightarrow>
                   if take 1 resp = ''+'' then retE None
                   else raiseE (ImapAbort ''unexpected response'')))))"

section \<open>What a server sends\<close>

datatype server_line =
    SvTagged bytes bytes bytes
    \<comment> \<open>tag, type, text\<close>
  | SvUntagged "nat option" bytes "resp_record list"
    \<comment> \<open>the number before the type, if any; the type; the data\<close>
  | SvContinuation bytes

fun record_bytes :: "resp_record \<Rightarrow> bytes" where
  "record_bytes (Line l) = l @ CRLF"
| "record_bytes (WithLiteral l d) = l @ CRLF @ d"

definition records_bytes :: "resp_record list \<Rightarrow> bytes" where
  "records_bytes rs = concat (map record_bytes rs)"

fun head_text :: "resp_record list \<Rightarrow> bytes" where
  "head_text (Line l # rs) = l"
| "head_text (WithLiteral l d # rs) = l"
| "head_text [] = []"

definition spaced :: "bytes \<Rightarrow> bytes" where
  "spaced t = (if t = [] then [] else CHR '' '' # t)"

fun with_first :: "(bytes \<Rightarrow> bytes) \<Rightarrow> resp_record list \<Rightarrow> resp_record list" where
  "with_first f (Line l # rs) = Line (f l) # rs"
| "with_first f (WithLiteral l d # rs) = WithLiteral (f l) d # rs"
| "with_first f [] = []"

definition head_line :: "nat option \<Rightarrow> bytes \<Rightarrow> bytes" where
  "head_line n typ = ''* '' @ (case n of None \<Rightarrow> [] | Some n \<Rightarrow> dec n @ '' '') @ typ"

fun server_bytes :: "server_line \<Rightarrow> bytes" where
  "server_bytes (SvTagged tag typ dat) = tag @ '' '' @ typ @ '' '' @ dat @ CRLF"
| "server_bytes (SvUntagged n typ rs) = head_line n typ @ records_bytes (with_first spaced rs)"
| "server_bytes (SvContinuation t) = ''+'' @ t @ CRLF"

fun reply_of :: "server_line \<Rightarrow> reply" where
  \<comment> \<open>the reply of ImapConn that is meant\<close>
  "reply_of (SvTagged tag typ dat) = Tagged tag typ dat"
| "reply_of (SvUntagged n typ rs) =
     Untagged typ (with_first (\<lambda>t. case n of None \<Rightarrow> t | Some n \<Rightarrow> dec n @ spaced t) rs)
       (head_line n typ @ spaced (head_text rs))"
| "reply_of (SvContinuation t) = Continuation"

fun records_ok :: "resp_record list \<Rightarrow> bool" where
  \<comment> \<open>texts are lines; all but the last announce their literal\<close>
  "records_ok [] = False"
| "records_ok [Line l] = (NL \<notin> set l \<and> literal_size_at l = None)"
| "records_ok (WithLiteral l d # rs) = (NL \<notin> set l \<and> literal_size_at l = Some (length d) \<and> records_ok rs)"
| "records_ok _ = False"

fun server_ok :: "bytes \<Rightarrow> server_line \<Rightarrow> bool" where
  "server_ok tagpre (SvTagged tag typ dat) =
     ((\<exists>ds. tag = tagpre @ ds \<and> ds \<noteq> [] \<and> list_all is_digit ds) \<and> typ \<noteq> [] \<and> list_all is_capital typ \<and> NL \<notin> set dat)"
| "server_ok tagpre (SvUntagged n typ rs) = (typ \<noteq> [] \<and> list_all is_type_char typ \<and> records_ok rs)"
| "server_ok tagpre (SvContinuation t) = (NL \<notin> set t)"

section \<open>The patterns on what a server sends\<close>

lemma char_class_simps [simp]:
  "\<not> is_capital (CHR ''*'')" "\<not> is_digit (CHR ''*'')" "\<not> is_capital (CHR ''+'')" "\<not> is_digit (CHR ''+'')"
  "\<not> is_type_char (CHR '' '')" "\<not> is_capital (CHR '' '')" "\<not> is_digit (CHR '' '')"
  by (simp_all add: is_capital_def is_digit_def is_type_char_def)

lemma class_no_nl: "is_digit c \<Longrightarrow> c \<noteq> NL" "is_type_char c \<Longrightarrow> c \<noteq> NL" "is_capital c \<Longrightarrow> is_type_char c"
  "is_digit c \<Longrightarrow> \<not> is_type_char c"
  by (auto simp: is_digit_def is_capital_def is_type_char_def NL_def Let_def)

lemma takeWhile_stop: "list_all P xs \<Longrightarrow> ys = [] \<or> \<not> P (hd ys) \<Longrightarrow>
    takeWhile P (xs @ ys) = xs \<and> dropWhile P (xs @ ys) = ys"
  by (induction xs) (cases ys; simp)+

lemma after_spaced: "after_space (spaced t) = (if t = [] then None else Some t)"
  by (simp add: spaced_def after_space_def)

lemma match_type_spaced:
  assumes "typ \<noteq> []" and "list_all is_type_char typ"
  shows "match_type is_type_char (typ @ spaced t) = Some (typ, if t = [] then None else Some t)"
proof -
  have "spaced t = [] \<or> \<not> is_type_char (hd (spaced t))" by (simp add: spaced_def)
  from takeWhile_stop[OF assms(2) this] have
    w: "takeWhile is_type_char (typ @ spaced t) = typ" "dropWhile is_type_char (typ @ spaced t) = spaced t" by auto
  show ?thesis unfolding match_type_def w Let_def after_spaced using assms(1) by simp
qed

lemma literal_size_at_space: "literal_size_at (p @ CHR '' '' # t) = literal_size_at t"
proof (cases "rev t")
  case (Cons b r)
  have "takeWhile is_digit (r @ CHR '' '' # q) = takeWhile is_digit r"
    "take 1 (dropWhile is_digit (r @ CHR '' '' # q)) = [CHR 0x7B] \<longleftrightarrow> take 1 (dropWhile is_digit r) = [CHR 0x7B]" for q
    by (induction r) auto
  with Cons show ?thesis by (simp add: literal_size_at_def Let_def)
qed (simp add: literal_size_at_def)

lemma literal_size_at_digits: "list_all is_digit ds \<Longrightarrow> literal_size_at ds = None"
proof (cases "rev ds")
  case (Cons b r)
  assume "list_all is_digit ds"
  with Cons have "b \<in> set ds" by (metis list.set_intros(1) set_rev)
  with \<open>list_all is_digit ds\<close> have "is_digit b" by (simp add: list_all_iff)
  then have "b \<noteq> CHR 0x7D" by (auto simp: is_digit_def)
  with Cons show ?thesis by (simp add: literal_size_at_def Let_def)
qed (simp add: literal_size_at_def)

definition numbered :: "nat option \<Rightarrow> bytes \<Rightarrow> bytes" where
  \<comment> \<open>the data imaplib makes of a text after a number\<close>
  "numbered n t = (case n of None \<Rightarrow> t | Some n \<Rightarrow> dec n @ spaced t)"

lemma literal_size_at_numbered [simp]: "literal_size_at (numbered n t) = literal_size_at t"
  using literal_size_at_digits[OF dec_digits(1)] 
  by (auto simp: numbered_def spaced_def literal_size_at_space split: option.splits) (simp add: literal_size_at_def)

lemma no_nl_numbered [simp]: "NL \<in> set (numbered n t) \<longleftrightarrow> NL \<in> set t"
  using dec_digits(1) class_no_nl(1)
  by (auto simp: numbered_def spaced_def list_all_iff NL_def split: option.splits)

lemma records_ok_numbered: "records_ok rs \<Longrightarrow> records_ok (with_first (numbered n) rs)"
  by (cases rs rule: records_ok.cases) simp_all

lemma match_tag_none:
  assumes "list_all is_capital tagpre" and "\<not> is_capital c" and "\<not> is_digit c"
  shows "match_tag tagpre (c # l) = None"
proof (cases tagpre)
  case (Cons a t)
  with assms have "a \<noteq> c" by auto
  with Cons show ?thesis by (simp add: match_tag_def Let_def)
qed (use assms in \<open>simp add: match_tag_def\<close>)

lemma match_untagged_line:
  assumes "typ \<noteq> []" and "list_all is_type_char typ"
  shows "match_Untagged_response (head_line None typ @ spaced t) = Some (typ, if t = [] then None else Some t)"
    and "match_Untagged_response (head_line (Some m) typ @ spaced t) = None"
    and "match_Untagged_status (head_line (Some m) typ @ spaced t) = Some (typ, dec m, if t = [] then None else Some t)"
proof -
  show "match_Untagged_response (head_line None typ @ spaced t) = Some (typ, if t = [] then None else Some t)"
    using match_type_spaced[OF assms] by (simp add: match_Untagged_response_def head_line_def)
  obtain d ds where d: "dec m = d # ds" "is_digit d" using dec_digits[of m] by (cases "dec m") auto
  have "\<not> is_type_char d" using class_no_nl(4)[OF d(2)] .
  then show "match_Untagged_response (head_line (Some m) typ @ spaced t) = None"
    using d by (simp add: match_Untagged_response_def head_line_def match_type_def)
  have "takeWhile is_digit (dec m @ '' '' @ typ @ spaced t) = dec m"
    "dropWhile is_digit (dec m @ '' '' @ typ @ spaced t) = '' '' @ typ @ spaced t"
    using takeWhile_stop[OF dec_digits(1), of "'' '' @ typ @ spaced t" m] by simp_all
  then show "match_Untagged_status (head_line (Some m) typ @ spaced t) = Some (typ, dec m, if t = [] then None else Some t)"
    using match_type_spaced[OF assms, of t] dec_digits(2)[of m]
    by (simp add: match_Untagged_status_def head_line_def after_space_def Let_def)
qed

lemma match_tag_tagged:
  assumes "ds \<noteq> []" "list_all is_digit ds" "typ \<noteq> []" "list_all is_capital typ"
  shows "match_tag tagpre (tagpre @ ds @ '' '' @ typ @ '' '' @ dat) = Some (tagpre @ ds, typ, dat)"
  using takeWhile_stop[OF assms(2), of "'' '' @ typ @ '' '' @ dat"] takeWhile_stop[OF assms(4), of "'' '' @ dat"] assms(1,3)
  by (simp add: match_tag_def match_type_def after_space_def Let_def)

section \<open>Reading what a server sends\<close>

fun after_line :: "resp_record list \<Rightarrow> bytes" where
  \<comment> \<open>what follows the first line of the records\<close>
  "after_line (WithLiteral l d # rs) = d @ records_bytes rs"
| "after_line _ = []"

lemma append_untagged_twice: "append_untagged typ b (append_untagged typ a c) = append_untagged typ (a @ b) c"
  by (simp add: append_untagged_def update_conv')

lemma records_bytes_first: "records_ok rs \<Longrightarrow> records_bytes rs = head_text rs @ CRLF @ after_line rs"
  by (cases rs rule: records_ok.cases) (simp_all add: records_bytes_def)

lemma records_head_no_nl: "records_ok rs \<Longrightarrow> NL \<notin> set (head_text rs)"
  by (cases rs rule: records_ok.cases) simp_all

lemma length_after_line: "records_ok rs \<Longrightarrow> length rs \<le> Suc (length (after_line rs))"
proof (induction rs rule: records_ok.induct)
  case (3 l d rs)
  then show ?case using records_bytes_first[of rs] by (simp add: CRLF_def)
qed simp_all

lemma with_first_simps [simp]:
  "after_line (with_first f rs) = after_line rs" "head_text (with_first f rs) = (if rs = [] then [] else f (head_text rs))"
  by (cases "(f, rs)" rule: with_first.cases; simp)+

lemma read_literals_records:
  "records_ok rs \<Longrightarrow> healthy (wi_file w) \<Longrightarrow> pending (wi_file w) = after_line rs @ rest \<Longrightarrow> length rs \<le> k \<Longrightarrow>
     \<exists>g. read_literals k typ (head_text rs) w
       = (Inr (last_text rs), w\<lparr>wi_file := g, wi_imap := append_untagged typ rs (wi_imap w)\<rparr>)
       \<and> healthy g \<and> pending g = rest"
proof (induction rs arbitrary: k w rule: records_ok.induct)
  case (2 l)
  then obtain k' where k: "k = Suc k'" by (cases k) simp_all
  from "2.prems" show ?case
    by (intro exI[of _ "wi_file w"]) (simp add: k on_imap_def last_text_def)
next
  case (3 l d rs)
  then obtain k' where k: "k = Suc k'" by (cases k) simp_all
  from "3.prems" have ok: "records_ok rs" and sz: "literal_size_at l = Some (length d)" by simp_all
  have p: "pending (wi_file w) = d @ head_text rs @ CRLF @ after_line rs @ rest"
    using "3.prems"(3) records_bytes_first[OF ok] by simp
  from fo_read_spec[OF "3.prems"(2), of "length d"] p obtain f where
    f: "fo_read (int (length d)) (wi_file w) = (Inr d, f)" "pending f = head_text rs @ CRLF @ after_line rs @ rest" "healthy f"
    by auto
  from get_line_line[OF f(3,2) records_head_no_nl[OF ok]] obtain g where
    g: "get_line f = (Inr (head_text rs), g)" "pending g = after_line rs @ rest" "healthy g" by blast
  let ?w = "w\<lparr>wi_file := g, wi_imap := append_untagged typ [WithLiteral l d] (wi_imap w)\<rparr>"
  have step: "read_literals k typ l w = read_literals k' typ (head_text rs) ?w"
    by (simp add: k sz on_imap_def on_file_def tls_read_def bindE_def f g) (cases w; simp)
  have "last_text (WithLiteral l d # rs) = last_text rs"
    using ok by (cases rs) (simp_all add: last_text_def)
  with "3.IH"[OF ok, of ?w k'] g "3.prems"(4) k show ?case
    by (simp add: step[unfolded k] append_untagged_twice del: read_literals.simps)
qed simp_all

section \<open>The reader of bytes and the queue of replies\<close>

lemma inbox_commutes [simp]:
  "append_untagged t d (c\<lparr>im_inbox := x\<rparr>) = (append_untagged t d c)\<lparr>im_inbox := x\<rparr>"
  "bracketed t l (c\<lparr>im_inbox := x\<rparr>) = (bracketed t l c)\<lparr>im_inbox := x\<rparr>"
  by (auto simp: append_untagged_def bracketed_def split: option.splits)

lemma inbox_idem: "im_inbox c = x \<Longrightarrow> c\<lparr>im_inbox := x\<rparr> = c"
  by auto

lemma tagpre_kept [simp]:
  "im_tagpre (append_untagged t d c) = im_tagpre c" "im_tagpre (bracketed t l c) = im_tagpre c"
  by (auto simp: append_untagged_def bracketed_def split: option.splits)

lemma wire_untagged_records:
  assumes "records_ok rs" and "healthy (wi_file w)" and "pending (wi_file w) = after_line rs @ rest"
  shows "\<exists>g. wire_untagged resp typ (head_text rs) w = (Inr (Some resp),
      w\<lparr>wi_file := g, wi_imap := bracketed typ (last_text rs) (append_untagged typ rs (wi_imap w))\<rparr>)
    \<and> healthy g \<and> pending g = rest"
proof -
  have "length rs \<le> Suc (length (pending (wi_file w)))" using length_after_line[OF assms(1)] assms(3) by simp
  from read_literals_records[OF assms this, of "typ"] show ?thesis
    by (auto simp: wire_untagged_def bindE_def on_imap_def)
qed

lemma on_file_get_line:
  assumes "healthy (wi_file w)" and "pending (wi_file w) = l @ CRLF @ rest" and "NL \<notin> set l"
  obtains g where "on_file get_line w = (Inr l, w\<lparr>wi_file := g\<rparr>)" and "healthy g" and "pending g = rest"
  using get_line_line[OF assms] by (auto simp: on_file_def)

lemma class_list_no_nl:
  "list_all is_digit xs \<Longrightarrow> NL \<notin> set xs" "list_all is_type_char xs \<Longrightarrow> NL \<notin> set xs"
  "list_all is_capital xs \<Longrightarrow> NL \<notin> set xs"
  using class_no_nl by (auto simp: list_all_iff)

lemma head_line_no_nl: "list_all is_type_char typ \<Longrightarrow> NL \<notin> set (head_line n typ)"
  using class_list_no_nl(1)[OF dec_digits(1)] class_list_no_nl(2)
  by (auto simp: head_line_def NL_def split: option.splits)

lemma wire_response_line:
  "on_file get_line w = (Inr l, w') \<Longrightarrow> wire_response w =
     (case match_tag (im_tagpre (wi_imap w')) l of
        Some (tag, typ, dat) \<Rightarrow>
          if tag \<notin> fst ` set (im_tagged (wi_imap w')) then (Inl (ImapAbort ''unexpected tagged response''), w')
          else (Inr (Some l), w'\<lparr>wi_imap := bracketed typ dat
            ((wi_imap w')\<lparr>im_tagged := AList.update tag (Some (typ, dat)) (im_tagged (wi_imap w'))\<rparr>)\<rparr>)
      | None \<Rightarrow>
          (case match_Untagged_response l of
             Some (typ, dat) \<Rightarrow> wire_untagged l typ (case dat of None \<Rightarrow> [] | Some d \<Rightarrow> d) w'
           | None \<Rightarrow>
               (case match_Untagged_status l of
                  Some (typ, dat, dat2) \<Rightarrow>
                    wire_untagged l typ (case dat2 of None \<Rightarrow> dat | Some d \<Rightarrow> if d = [] then dat else dat @ '' '' @ d) w'
                | None \<Rightarrow> if take 1 l = ''+'' then (Inr None, w') else (Inl (ImapAbort ''unexpected response''), w'))))"
  by (auto simp: wire_response_def bindE_def on_imap_def split: option.splits)

lemma wire_response_untagged:
  assumes "healthy (wi_file w)" and "pending (wi_file w) = server_bytes (SvUntagged n typ rs) @ rest"
    and ok: "typ \<noteq> []" "list_all is_type_char typ" "records_ok rs" and pre: "list_all is_capital (im_tagpre (wi_imap w))"
  shows "\<exists>g. wire_response w = (Inr (Some (head_line n typ @ spaced (head_text rs))),
      w\<lparr>wi_file := g, wi_imap := bracketed typ (last_text (with_first (numbered n) rs))
         (append_untagged typ (with_first (numbered n) rs) (wi_imap w))\<rparr>)
    \<and> healthy g \<and> pending g = rest"
proof -
  let ?l = "head_line n typ @ spaced (head_text rs)" and ?rs = "with_first (numbered n) rs"
  have ne: "rs \<noteq> []" using ok(3) by auto
  have "records_bytes (with_first spaced rs) = spaced (head_text rs) @ CRLF @ after_line rs"
    using ok(3) by (cases rs rule: records_ok.cases) (simp_all add: records_bytes_def)
  with assms(2) have p: "pending (wi_file w) = ?l @ CRLF @ after_line rs @ rest" by simp
  have "NL \<notin> set ?l" using head_line_no_nl[OF ok(2)] records_head_no_nl[OF ok(3)] by (simp add: spaced_def NL_def)
  from on_file_get_line[OF assms(1) p this] obtain f where
    f: "on_file get_line w = (Inr ?l, w\<lparr>wi_file := f\<rparr>)" "healthy f" "pending f = after_line rs @ rest" by blast
  have tag: "match_tag (im_tagpre (wi_imap w)) ?l = None"
    using match_tag_none[OF pre, of "CHR ''*''" "tl ?l"] by (simp add: head_line_def)
  let ?w = "w\<lparr>wi_file := f\<rparr>"
  have "wire_response w = wire_untagged ?l typ (head_text ?rs) ?w"
  proof (cases n)
    case None
    then show ?thesis
      using match_untagged_line(1)[OF ok(1,2), of "head_text rs"] ne tag
      by (simp add: wire_response_def bindE_def f(1) numbered_def)
  next
    case (Some m)
    then show ?thesis
      using match_untagged_line(2,3)[OF ok(1,2), of m "head_text rs"] ne tag
      by (simp add: wire_response_def bindE_def f(1) numbered_def spaced_def)
  qed
  with wire_untagged_records[OF records_ok_numbered[OF ok(3)], of ?w n rest ?l "typ"] f show ?thesis by simp
qed

lemma wire_response_tagged:
  assumes "healthy (wi_file w)" and "pending (wi_file w) = server_bytes (SvTagged tag typ dat) @ rest"
    and ok: "server_ok (im_tagpre (wi_imap w)) (SvTagged tag typ dat)" and pre: "list_all is_capital (im_tagpre (wi_imap w))"
  shows "\<exists>g. wire_response w = (case get_response ((wi_imap w)\<lparr>im_inbox := Tagged tag typ dat # qs\<rparr>) of
        (r, d) \<Rightarrow> (r, w\<lparr>wi_file := g, wi_imap := d\<lparr>im_inbox := im_inbox (wi_imap w)\<rparr>\<rparr>))
    \<and> healthy g \<and> pending g = rest"
proof -
  let ?l = "tag @ '' '' @ typ @ '' '' @ dat"
  from ok obtain ds where ds: "tag = im_tagpre (wi_imap w) @ ds" "ds \<noteq> []" "list_all is_digit ds"
    and t: "typ \<noteq> []" "list_all is_capital typ" "NL \<notin> set dat" by auto
  have m: "match_tag (im_tagpre (wi_imap w)) ?l = Some (tag, typ, dat)"
    using match_tag_tagged[OF ds(2,3) t(1,2), of "im_tagpre (wi_imap w)" dat] ds(1) by simp
  have "NL \<notin> set ?l"
    using class_list_no_nl(1)[OF ds(3)] class_list_no_nl(3)[OF t(2)] class_list_no_nl(3)[OF pre] t(3) ds(1) by (simp add: NL_def)
  with assms(1,2) obtain f where
    f: "on_file get_line w = (Inr ?l, w\<lparr>wi_file := f\<rparr>)" "healthy f" "pending f = rest"
    by (auto intro: on_file_get_line[of w ?l rest])
  show ?thesis
  proof (intro exI[of _ f] conjI)
    show "wire_response w = (case get_response ((wi_imap w)\<lparr>im_inbox := Tagged tag typ dat # qs\<rparr>) of
        (r, d) \<Rightarrow> (r, w\<lparr>wi_file := f, wi_imap := d\<lparr>im_inbox := im_inbox (wi_imap w)\<rparr>\<rparr>))"
    proof (cases "tag \<in> fst ` set (im_tagged (wi_imap w))")
      case True
      let ?upd = "\<lambda>c. c\<lparr>im_tagged := AList.update tag (Some (typ, dat)) (im_tagged c)\<rparr>"
      have "?upd ((wi_imap w)\<lparr>im_inbox := qs\<rparr>) = (?upd (wi_imap w))\<lparr>im_inbox := qs\<rparr>" by simp
      then have "bracketed typ dat (?upd ((wi_imap w)\<lparr>im_inbox := qs\<rparr>)) = (bracketed typ dat (?upd (wi_imap w)))\<lparr>im_inbox := qs\<rparr>"
        by (simp only: inbox_commutes)
      moreover have "im_inbox (bracketed typ dat (?upd (wi_imap w))) = im_inbox (wi_imap w)" by simp
      moreover have "wire_response w = (Inr (Some ?l), w\<lparr>wi_file := f, wi_imap := bracketed typ dat (?upd (wi_imap w))\<rparr>)"
        using m True by (simp add: wire_response_line[OF f(1)])
      ultimately show ?thesis using True by (simp add: get_response_def)
    next
      case False
      then show ?thesis using m by (simp add: wire_response_line[OF f(1)] get_response_def)
    qed
  qed (use f in simp_all)
qed

lemma wire_response_continuation:
  assumes "healthy (wi_file w)" and "pending (wi_file w) = server_bytes (SvContinuation t) @ rest" and "NL \<notin> set t"
    and pre: "list_all is_capital (im_tagpre (wi_imap w))"
  shows "\<exists>g. wire_response w = (Inr None, w\<lparr>wi_file := g\<rparr>) \<and> healthy g \<and> pending g = rest"
proof -
  let ?l = "CHR ''+'' # t"
  have "NL \<notin> set ?l" using assms(3) by (simp add: NL_def)
  with assms(1,2) obtain f where
    f: "on_file get_line w = (Inr ?l, w\<lparr>wi_file := f\<rparr>)" "healthy f" "pending f = rest"
    by (auto intro: on_file_get_line[of w ?l rest])
  have "match_Untagged_response ?l = None" "match_Untagged_status ?l = None"
    by (simp_all add: match_Untagged_response_def match_Untagged_status_def numeral_2_eq_2)
  then have "wire_response w = (Inr None, w\<lparr>wi_file := f\<rparr>)"
    using match_tag_none[OF pre, of "CHR ''+''" t] by (simp add: wire_response_line[OF f(1)])
  with f show ?thesis by blast
qed

definition agrees :: "server_line list \<Rightarrow> wire \<Rightarrow> imap4 \<Rightarrow> bool" where
  \<comment> \<open>the bytes to come are those of \<open>ss\<close>, the queue of the other holds their replies, and otherwise the
    objects are the same\<close>
  "agrees ss w c \<longleftrightarrow> healthy (wi_file w) \<and> pending (wi_file w) = concat (map server_bytes ss)
     \<and> list_all (server_ok (im_tagpre c)) ss \<and> list_all is_capital (im_tagpre c)
     \<and> im_inbox c = map reply_of ss \<and> wi_imap w = c\<lparr>im_inbox := im_inbox (wi_imap w)\<rparr>"

lemma get_response_tagpre: "im_tagpre (snd (get_response c)) = im_tagpre c"
  by (auto simp: get_response_def Let_def split: list.splits reply.splits)

lemma wire_response_one:
  assumes "healthy (wi_file w)" and "pending (wi_file w) = server_bytes s @ rest"
    and ok: "server_ok (im_tagpre (wi_imap w)) s" and pre: "list_all is_capital (im_tagpre (wi_imap w))"
  shows "\<exists>g. wire_response w = (case get_response ((wi_imap w)\<lparr>im_inbox := reply_of s # qs\<rparr>) of
        (r, d) \<Rightarrow> (r, w\<lparr>wi_file := g, wi_imap := d\<lparr>im_inbox := im_inbox (wi_imap w)\<rparr>\<rparr>))
    \<and> healthy g \<and> pending g = rest"
proof (cases s)
  case (SvTagged tag "typ" dat)
  with wire_response_tagged[OF assms(1) _ _ pre] assms(2) ok show ?thesis by simp
next
  case (SvUntagged n "typ" rs)
  let ?rs = "with_first (numbered n) rs"
  have rs: "(\<lambda>t. case n of None \<Rightarrow> t | Some n \<Rightarrow> dec n @ spaced t) = numbered n" by (simp add: numbered_def fun_eq_iff)
  have "bracketed typ (last_text ?rs) (append_untagged typ ?rs ((wi_imap w)\<lparr>im_inbox := qs\<rparr>))
      = (bracketed typ (last_text ?rs) (append_untagged typ ?rs (wi_imap w)))\<lparr>im_inbox := qs\<rparr>"
    by (simp only: inbox_commutes)
  moreover have e: "(bracketed typ (last_text ?rs) (append_untagged typ ?rs (wi_imap w)))\<lparr>im_inbox := im_inbox (wi_imap w)\<rparr>
      = bracketed typ (last_text ?rs) (append_untagged typ ?rs (wi_imap w))" by (rule inbox_idem) simp
  ultimately show ?thesis
    using wire_response_untagged[OF assms(1) _ _ _ _ pre, of n "typ" rs rest] assms(2) ok SvUntagged
    by (simp add: get_response_def rs e)
next
  case (SvContinuation t)
  with wire_response_continuation[OF assms(1) _ _ pre] assms(2) ok show ?thesis by (simp add: get_response_def)
qed

theorem wire_response_agrees:
  assumes "agrees ss w c"
  shows "\<exists>w'. wire_response w = (fst (get_response c), w') \<and> agrees (tl ss) w' (snd (get_response c))"
proof (cases ss)
  case Nil
  with assms have h: "healthy (wi_file w)" "pending (wi_file w) = []" by (simp_all add: agrees_def)
  with fo_readline_spec[OF h(1), of "-1"] obtain g where
    g: "fo_readline (-1) (wi_file w) = (Inr [], g)" "healthy g" "pending g = []"
    by (auto simp: bio_readline_def first_line_def)
  then have "wire_response w = (Inl (ImapAbort ''socket error: EOF''), w\<lparr>wi_file := g\<rparr>)"
    by (simp add: wire_response_def bindE_def on_file_def get_line_def tls_readline_def)
  with assms g Nil show ?thesis by (auto simp: agrees_def get_response_def)
next
  case (Cons s ss')
  let ?c = "(wi_imap w)\<lparr>im_inbox := reply_of s # map reply_of ss'\<rparr>"
  have a: "healthy (wi_file w)" "pending (wi_file w) = server_bytes s @ concat (map server_bytes ss')"
    "list_all (server_ok (im_tagpre c)) ss'" "server_ok (im_tagpre c) s" "list_all is_capital (im_tagpre c)"
    and w: "wi_imap w = c\<lparr>im_inbox := im_inbox (wi_imap w)\<rparr>" and i: "im_inbox c = reply_of s # map reply_of ss'"
    using assms Cons by (simp_all add: agrees_def)
  have "?c = (c\<lparr>im_inbox := im_inbox (wi_imap w)\<rparr>)\<lparr>im_inbox := reply_of s # map reply_of ss'\<rparr>" by (rule arg_cong[OF w])
  then have c: "?c = c" using i by (simp add: inbox_idem)
  have pre: "im_tagpre (wi_imap w) = im_tagpre c" using arg_cong[OF w, of im_tagpre] by simp
  from wire_response_one[OF a(1,2), of "map reply_of ss'"] a pre c obtain g where
    g: "wire_response w = (case get_response c of (r, d) \<Rightarrow> (r, w\<lparr>wi_file := g, wi_imap := d\<lparr>im_inbox := im_inbox (wi_imap w)\<rparr>\<rparr>))"
    "healthy g" "pending g = concat (map server_bytes ss')" by auto
  have "im_inbox (snd (get_response c)) = map reply_of ss'"
    using i by (auto simp: get_response_def Let_def split: reply.splits)
  with g a get_response_tagpre[of c] Cons show ?thesis by (auto simp: agrees_def split: prod.splits)
qed

fun repeatE :: "nat \<Rightarrow> ('s, 'a) act \<Rightarrow> ('s, 'a list) act" where
  \<comment> \<open>a call repeated, stopping at the first exception\<close>
  "repeatE 0 m = retE []"
| "repeatE (Suc n) m = bindE m (\<lambda>x. bindE (repeatE n m) (\<lambda>xs. retE (x # xs)))"

lemma wire_responses_agree:
  "agrees ss w c \<Longrightarrow> \<exists>w' ss'. repeatE n wire_response w = (fst (repeatE n get_response c), w')
     \<and> agrees ss' w' (snd (repeatE n get_response c)) \<and> suffix ss' ss
     \<and> ((\<exists>xs. fst (repeatE n get_response c) = Inr xs) \<longrightarrow> ss' = drop n ss)"
proof (induction n arbitrary: ss w c)
  case 0
  then show ?case by auto
next
  case (Suc n)
  obtain r d where g: "get_response c = (r, d)" by fastforce
  with wire_response_agrees[OF Suc.prems] obtain w1 where w1: "wire_response w = (r, w1)" "agrees (tl ss) w1 d" by auto
  show ?case
  proof (cases r)
    case (Inl e)
    with g w1 show ?thesis by (auto simp: bindE_def intro!: exI[of _ "tl ss"] suffix_tl)
  next
    case (Inr x)
    from Suc.IH[OF w1(2)] obtain w' ss' where
      w': "repeatE n wire_response w1 = (fst (repeatE n get_response d), w')" "agrees ss' w' (snd (repeatE n get_response d))"
      "suffix ss' (tl ss)" "(\<exists>xs. fst (repeatE n get_response d) = Inr xs) \<longrightarrow> ss' = drop n (tl ss)" by blast
    have "suffix ss' ss" using w'(3) suffix_order.trans[OF _ suffix_tl] by blast
    with w' g w1 Inr show ?thesis
      by (cases "repeatE n get_response d"; cases "fst (repeatE n get_response d)")
        (auto simp: bindE_def drop_Suc intro!: exI[of _ ss'])
  qed
qed

section \<open>From the bytes of a FETCH to its messages\<close>

fun quoted_lines :: "shown \<Rightarrow> bool" where
  \<comment> \<open>no quoted string has a newline in it\<close>
  "quoted_lines (SQuoted b) = (NL \<notin> set b)"
| "quoted_lines (STuple vs) = list_all quoted_lines vs"
| "quoted_lines _ = True"

fun lexeme_line :: "lexeme \<Rightarrow> bool" where
  "lexeme_line (LLiteral l) = True"
| "lexeme_line x = (NL \<notin> set (lexeme_text x))"

lemma literal_size_at_mark: "literal_size_at (acc @ literal_mark l) = Some (length l)"
proof -
  have d: "list_all is_digit (rev (dec (length l)))" using dec_digits(1)[of "length l"] by (simp add: list_all_iff)
  have "\<not> is_digit (CHR 0x7B)" by (simp add: is_digit_def)
  then have "takeWhile is_digit (rev (dec (length l)) @ CHR 0x7B # rev acc) = rev (dec (length l))"
    "dropWhile is_digit (rev (dec (length l)) @ CHR 0x7B # rev acc) = CHR 0x7B # rev acc"
    using takeWhile_stop[OF d, of "CHR 0x7B # rev acc"] by simp_all
  then show ?thesis using dec_digits(2)[of "length l"] by (simp add: literal_size_at_def literal_mark_def Let_def)
qed

lemma literal_mark_no_nl: "NL \<notin> set (literal_mark l)"
  using class_list_no_nl(1)[OF dec_digits(1)] by (auto simp: literal_mark_def NL_def)

lemma records_of_ok:
  "NL \<notin> set acc \<Longrightarrow> list_all lexeme_line ls \<Longrightarrow> p \<noteq> CHR 0x7D \<Longrightarrow> p \<noteq> NL \<Longrightarrow> records_ok (records_of acc (ls @ [LParen p]))"
proof (induction acc ls rule: records_of.induct)
  case (2 acc l ls)
  then show ?case using literal_mark_no_nl literal_size_at_mark by simp
qed (simp_all add: literal_size_at_def)

lemma list_all_with_spaces: "list_all (list_all P) xs \<Longrightarrow> P LSp \<Longrightarrow> list_all P (with_spaces xs)"
  by (induction xs rule: with_spaces.induct) simp_all

lemma lexemes_line: "shown_ok v \<Longrightarrow> quoted_lines v \<Longrightarrow> list_all lexeme_line (lexemes v)"
proof (induction v rule: lexemes.induct)
  case (2 n)
  then show ?case using class_list_no_nl(1)[OF dec_digits(1)] by simp
next
  case (3 w)
  then show ?case by (auto simp: plain_atom_def list_all_iff NON_SPECIALS_def NL_def)
next
  case (4 b)
  then show ?case by (auto simp: escape_quotes_def DOUBLE_QUOTE_def BACKSLASH_def NL_def)
next
  case (6 vs)
  then have "list_all (list_all lexeme_line) (map lexemes vs)" by (auto simp: list_all_iff)
  from list_all_with_spaces[OF this] show ?case by (simp add: NL_def)
qed (simp_all add: NL_def)

lemma show_line_tuple_ok: "shown_ok (STuple vs) \<Longrightarrow> quoted_lines (STuple vs) \<Longrightarrow> records_ok (show_line [STuple vs])"
  using lexemes_line[of "STuple vs"] records_of_ok[of "''(''" "with_spaces (map lexemes vs)" "CHR '')''"]
  by (simp add: show_line_def NL_def)

lemma records_of_prefix: "records_of (a @ acc) ls = with_first (\<lambda>t. a @ t) (records_of acc ls)"
  by (induction acc ls rule: records_of.induct) simp_all

lemma first_text_records: "\<exists>t. head_text (records_of acc ls) = acc @ t"
proof (induction acc ls rule: records_of.induct)
qed auto

lemma show_line_numbered:
  "with_first (numbered (Some n)) (show_line [STuple vs]) = show_line [SNum n, STuple vs]"
proof -
  let ?ls = "with_spaces (map lexemes vs) @ [LParen (CHR '')'')]"
  have rec: "show_line [SNum n, STuple vs] = with_first (\<lambda>t. dec n @ '' '' @ t) (show_line [STuple vs])"
    using records_of_prefix[of "dec n @ '' ''" "''(''" ?ls] by (simp add: show_line_def)
  obtain t where t: "head_text (show_line [STuple vs]) = CHR ''('' # t"
    using first_text_records[of "''(''" ?ls] by (auto simp: show_line_def)
  have "with_first f rs = with_first g rs" if "f (head_text rs) = g (head_text rs)" for f g and rs
    using that by (cases "(f, rs)" rule: with_first.cases) simp_all
  from this[of "numbered (Some n)" "show_line [STuple vs]" "\<lambda>t. dec n @ '' '' @ t"] show ?thesis
    using rec t by (simp add: numbered_def spaced_def)
qed

definition fetch_line :: "shown_msg \<Rightarrow> server_line" where
  \<comment> \<open>\<open>* n FETCH (UID u ...)\<close>\<close>
  "fetch_line m = (case m of (n, u, kvs) \<Rightarrow>
     SvUntagged (Some n) ''FETCH'' (show_line [STuple (SAtom ''UID'' # SNum u # show_items kvs)]))"

definition untagged_data :: "bytes \<Rightarrow> imap4 \<Rightarrow> resp_record list" where
  "untagged_data k c = (case map_of (im_untagged c) k of None \<Rightarrow> [] | Some ds \<Rightarrow> ds)"

definition message_lines :: "shown_msg \<Rightarrow> bool" where
  "message_lines m \<longleftrightarrow> (case m of (n, u, kvs) \<Rightarrow> \<forall>(k, v)\<in>set kvs. quoted_lines v)"

lemma message_tuple_ok:
  assumes "message_ok depth (n, u, kvs)" and "message_lines (n, u, kvs)"
  shows "records_ok (show_line [STuple (SAtom ''UID'' # SNum u # show_items kvs)])"
proof (rule show_line_tuple_ok)
  show "shown_ok (STuple (SAtom ''UID'' # SNum u # show_items kvs))"
    using assms(1) plain_UID by (auto simp: show_items_def list_all_iff)
  show "quoted_lines (STuple (SAtom ''UID'' # SNum u # show_items kvs))"
    using assms(2) by (auto simp: show_items_def list_all_iff message_lines_def)
qed

lemma wire_response_fetch:
  assumes "healthy (wi_file w)" and "pending (wi_file w) = server_bytes (fetch_line m) @ rest"
    and "message_ok depth m" and "message_lines m" and pre: "list_all is_capital (im_tagpre (wi_imap w))"
  shows "\<exists>l g. wire_response w = (Inr l, w\<lparr>wi_file := g, wi_imap := append_untagged ''FETCH'' (show_line (show_message m)) (wi_imap w)\<rparr>)
    \<and> healthy g \<and> pending g = rest"
proof -
  obtain n u kvs where m: "m = (n, u, kvs)" by (cases m)
  have "bracketed ''FETCH'' l c = c" for l c by (simp add: bracketed_def)
  moreover have "list_all is_type_char ''FETCH''" by (simp add: is_type_char_def is_capital_def)
  ultimately show ?thesis
    using wire_response_untagged[OF assms(1) assms(2)[unfolded fetch_line_def m prod.case] _ _ _ pre]
      message_tuple_ok[of depth n u kvs] assms(3,4)
    by (auto simp: m show_line_numbered)
qed

lemma wire_fetches:
  "healthy (wi_file w) \<Longrightarrow> pending (wi_file w) = concat (map (\<lambda>m. server_bytes (fetch_line m)) ms) @ rest \<Longrightarrow>
   \<forall>m\<in>set ms. message_ok depth m \<and> message_lines m \<Longrightarrow> list_all is_capital (im_tagpre (wi_imap w)) \<Longrightarrow>
     \<exists>ls w'. repeatE (length ms) wire_response w = (Inr ls, w') \<and> healthy (wi_file w') \<and> pending (wi_file w') = rest
       \<and> untagged_data ''FETCH'' (wi_imap w') = untagged_data ''FETCH'' (wi_imap w) @ concat (map (\<lambda>m. show_line (show_message m)) ms)"
proof (induction ms arbitrary: w)
  case (Cons m ms)
  from Cons.prems wire_response_fetch[of w m "concat (map (\<lambda>m. server_bytes (fetch_line m)) ms) @ rest" depth] obtain l g where
    g: "wire_response w = (Inr l, w\<lparr>wi_file := g, wi_imap := append_untagged ''FETCH'' (show_line (show_message m)) (wi_imap w)\<rparr>)"
    "healthy g" "pending g = concat (map (\<lambda>m. server_bytes (fetch_line m)) ms) @ rest" by auto
  let ?w = "w\<lparr>wi_file := g, wi_imap := append_untagged ''FETCH'' (show_line (show_message m)) (wi_imap w)\<rparr>"
  from Cons.IH[of ?w] Cons.prems g(2,3) obtain ls w' where
    "repeatE (length ms) wire_response ?w = (Inr ls, w')" "healthy (wi_file w')" "pending (wi_file w') = rest"
    "untagged_data ''FETCH'' (wi_imap w') = untagged_data ''FETCH'' (wi_imap ?w) @ concat (map (\<lambda>m. show_line (show_message m)) ms)"
    by auto
  moreover have "untagged_data ''FETCH'' (wi_imap ?w) = untagged_data ''FETCH'' (wi_imap w) @ show_line (show_message m)"
    by (simp add: untagged_data_def append_untagged_def update_conv')
  ultimately show ?case using g(1) by (auto simp: bindE_def)
qed simp

lemma fetch_lines_parsed:
  assumes "\<forall>m\<in>set ms. message_ok depth m" and "0 < depth"
  shows "parse_fetch_response pd sys depth (Some (concat (map (\<lambda>m. show_line (show_message m)) ms))) nt uk = Inr (fetched uk ms)"
proof -
  have ok: "list_all (list_all shown_ok) (map show_message ms)" "\<forall>vs\<in>set (map show_message ms). \<forall>v\<in>set vs. nesting v \<le> depth"
    using shown_message_ok[OF _ assms(2)] assms(1) unfolding list_all_iff by fastforce+
  from gen_parsed_lines[OF this] fetch_loop_messages[OF assms(1)] show ?thesis
    by (simp add: parse_fetch_response_def fetched_def comp_def)
qed

end
