(* ===== verification/PyText.thy ===== *)
theory PyText
  imports PyBase
begin

text \<open>
  The text Python's \<open>repr\<close> makes of a string and of a list of strings, for what the programs print.
\<close>

definition NEWLINE :: bytes where "NEWLINE = [CHR 0x0A]"

definition hex_lower :: "nat \<Rightarrow> char" where
  "hex_lower d = ''0123456789abcdef'' ! d"

definition repr_char :: "char \<Rightarrow> char \<Rightarrow> bytes" where
  "repr_char q c =
     (let n = (of_char c :: nat) in
      if c = q \<or> n = 92 then [CHR 0x5C, c]
      else if n = 9 then [CHR 0x5C, CHR ''t''] else if n = 10 then [CHR 0x5C, CHR ''n'']
      else if n = 13 then [CHR 0x5C, CHR ''r'']
      else if n < 32 \<or> 127 \<le> n then [CHR 0x5C, CHR ''x'', hex_lower (n div 16), hex_lower (n mod 16)]
      else [c])"

definition py_repr :: "bytes \<Rightarrow> bytes" where
  \<comment> \<open>\<open>repr\<close> of a byte string\<close>
  "py_repr b =
     (let q = (if CHR 0x27 \<in> set b \<and> CHR 0x22 \<notin> set b then CHR 0x22 else CHR 0x27) in
      [q] @ concat (map (repr_char q) b) @ [q])"

definition repr_list :: "bytes list \<Rightarrow> bytes" where
  "repr_list ns = ''['' @ py_join '', '' (map py_repr ns) @ '']''"

end
