(* ===== verification/ImapLog.thy ===== *)
theory ImapLog
  imports ImapClient PyText
begin

text \<open>
  The debugging output of imapclient.py: the property \<open>debug\<close>, the log file, and \<open>_raw_command\<close> with
  what it writes to the log. The log is kept beside the client; the time of an entry is an argument.
\<close>

section \<open>The log\<close>

record log =
  lg_level :: int
    \<comment> \<open>\<open>debug\<close> of imaplib\<close>
  lg_file :: bytes

datatype level = Switch bool | Level int

definition debug_set :: "level \<Rightarrow> log \<Rightarrow> log" where
  "debug_set level lg =
     lg\<lparr>lg_level := (case level of Switch True \<Rightarrow> 4 | Switch False \<Rightarrow> 0 | Level n \<Rightarrow> n)\<rparr>"

definition debug_get :: "log \<Rightarrow> int" where
  "debug_get lg = lg_level lg"

definition log_ts :: "bytes \<Rightarrow> log \<Rightarrow> log" where
  "log_ts now lg = lg\<lparr>lg_file := lg_file lg @ now @ '' ''\<rparr>"

definition unquoted :: "bytes \<Rightarrow> bytes" where
  \<comment> \<open>\<open>repr\<close> of bytes without what stands before the first quotation mark, and without the marks\<close>
  "unquoted b =
     (let t = py_repr b; i = length (takeWhile (\<lambda>c. c \<noteq> CHR 0x22 \<and> c \<noteq> CHR 0x27) t) in butlast (drop (i + 1) t))"

datatype log_text = LogBytes bytes | LogText bytes

definition log_write :: "log_text \<Rightarrow> bool \<Rightarrow> log \<Rightarrow> log" where
  "log_write t end_line lg =
     lg\<lparr>lg_file := lg_file lg @ (case t of LogBytes b \<Rightarrow> unquoted b | LogText s \<Rightarrow> s) @ (if end_line then NEWLINE else [])\<rparr>"

definition log_message :: "bytes \<Rightarrow> log_text \<Rightarrow> log \<Rightarrow> log" where
  \<comment> \<open>\<open>_log\<close>, which also stands in for the log method of imaplib\<close>
  "log_message now t lg = log_write t True (log_ts now lg)"

section \<open>Commands\<close>

definition logE :: "(log \<Rightarrow> log) \<Rightarrow> ('s \<times> log, unit) act" where
  \<comment> \<open>\<open>if self.debug >= 4\<close>\<close>
  "logE f = modE (\<lambda>(s, lg). (s, if 4 \<le> lg_level lg then f lg else lg))"

definition logged_literal :: "bytes \<Rightarrow> bytes \<Rightarrow> (imap4 \<times> log, unit) act" where
  "logged_literal tag item =
     (let announced = '' '' @ [CHR 0x7B] @ dec (length item) @ [CHR 0x7D] @ CRLF in
      bindE (logE (log_write (LogBytes announced) True)) (\<lambda>_.
      bindE (on_object (send announced)) (\<lambda>_.
      bindE (on_object (send_literal_wait tag)) (\<lambda>_.
      bindE (logE (log_write (LogText ''   (literal) > '') False)) (\<lambda>_.
      bindE (logE (log_write (LogBytes item) False)) (\<lambda>_. on_object (send item)))))))"

definition logged_line :: "bytes list \<Rightarrow> (imap4 \<times> log, unit) act" where
  "logged_line line =
     whenE (line \<noteq> []) (bindE (logE (log_write (LogBytes (py_join '' '' line)) False)) (\<lambda>_.
       on_object (send (py_join '' '' line))))"

fun logged_items :: "bytes \<Rightarrow> (bytes \<times> bool) list \<Rightarrow> bytes list \<Rightarrow> (imap4 \<times> log, bytes list) act" where
  "logged_items tag [] line = retE line"
| "logged_items tag ((item, is_last) # items) line =
     (if is8bit item then
        bindE (logged_line line) (\<lambda>_.
        bindE (logged_literal tag item) (\<lambda>_.
        bindE (on_object (whenE (\<not> is_last) (send '' ''))) (\<lambda>_. logged_items tag items [])))
      else logged_items tag items (line @ [item]))"

definition logged_imapE :: "(imap4 \<times> log, 'a) act \<Rightarrow> (client \<times> log, 'a) act" where
  "logged_imapE m st =
     (case m (cl_imap (fst st), snd st) of (r, c, lg) \<Rightarrow> (r, (fst st)\<lparr>cl_imap := c\<rparr>, lg))"

definition logged_command :: "bytes \<Rightarrow> bytes \<Rightarrow> bytes list \<Rightarrow> (client \<times> log, bytes \<times> dat) act" where
  \<comment> \<open>\<open>_raw_command\<close>\<close>
  "logged_command now cmd args = withE (\<lambda>(cl, _).
     let cmd = py_upper cmd in
     bindE (logE (\<lambda>lg. log_write (LogText ''> '') False (log_ts now lg))) (\<lambda>_.
     logged_imapE (bindE (on_object new_tag) (\<lambda>tag.
       let prefix = [tag] @ (if cl_use_uid cl then [''UID''] else []) @ [cmd] in
       bindE (logged_items tag (iter_with_last (prefix @ args)) []) (\<lambda>line.
       bindE (logged_line line) (\<lambda>_.
       bindE (on_object (send CRLF)) (\<lambda>_.
       bindE (logE (log_write (LogText []) True)) (\<lambda>_. on_object (command_complete cmd tag)))))))))"

section \<open>Logging changes nothing else\<close>

definition same_run :: "('s \<times> log, 'a) act \<Rightarrow> ('s, 'a) act \<Rightarrow> bool" where
  \<comment> \<open>the logged call does what the other one does, and at a lower level it leaves the log\<close>
  "same_run m n \<longleftrightarrow> (\<forall>s lg. fst (m (s, lg)) = fst (n s) \<and> fst (snd (m (s, lg))) = snd (n s)
     \<and> lg_level (snd (snd (m (s, lg)))) = lg_level lg \<and> (lg_level lg < 4 \<longrightarrow> snd (snd (m (s, lg))) = lg))"

lemma same_run_I:
  "(\<And>s lg. \<exists>lg'. m (s, lg) = (fst (n s), snd (n s), lg') \<and> lg_level lg' = lg_level lg \<and> (lg_level lg < 4 \<longrightarrow> lg' = lg)) \<Longrightarrow>
     same_run m n"
  unfolding same_run_def by (metis fst_conv snd_conv)

lemma same_run_D:
  "same_run m n \<Longrightarrow> \<exists>lg'. m (s, lg) = (fst (n s), snd (n s), lg') \<and> lg_level lg' = lg_level lg \<and> (lg_level lg < 4 \<longrightarrow> lg' = lg)"
  unfolding same_run_def by (metis prod.collapse)

lemma same_run_object: "same_run (on_object n) n"
  by (rule same_run_I) (simp add: on_object_def split: prod.split)

lemma same_run_bind:
  assumes "same_run m n" and "\<And>x. same_run (f x) (g x)"
  shows "same_run (bindE m f) (bindE n g)"
proof (rule same_run_I)
  fix s lg
  obtain lg1 where m: "m (s, lg) = (fst (n s), snd (n s), lg1)" "lg_level lg1 = lg_level lg" "lg_level lg < 4 \<longrightarrow> lg1 = lg"
    using same_run_D[OF assms(1)] by blast
  show "\<exists>lg'. bindE m f (s, lg) = (fst (bindE n g s), snd (bindE n g s), lg') \<and> lg_level lg' = lg_level lg
      \<and> (lg_level lg < 4 \<longrightarrow> lg' = lg)"
  proof (cases "n s")
    case (Pair r t)
    show ?thesis
    proof (cases r)
      case (Inl e)
      with m Pair show ?thesis by (simp add: bindE_def)
    next
      case (Inr x)
      obtain lg2 where "f x (t, lg1) = (fst (g x t), snd (g x t), lg2)" "lg_level lg2 = lg_level lg1" "lg_level lg1 < 4 \<longrightarrow> lg2 = lg1"
        using same_run_D[OF assms(2)] by blast
      with m Pair Inr show ?thesis by (simp add: bindE_def)
    qed
  qed
qed

lemma same_run_log:
  assumes "\<And>lg. lg_level (h lg) = lg_level lg" and "same_run m n"
  shows "same_run (bindE (logE h) (\<lambda>_. m)) n"
proof (rule same_run_I)
  fix s lg
  let ?lg = "if 4 \<le> lg_level lg then h lg else lg"
  obtain lg' where "m (s, ?lg) = (fst (n s), snd (n s), lg')" "lg_level lg' = lg_level ?lg" "lg_level ?lg < 4 \<longrightarrow> lg' = ?lg"
    using same_run_D[OF assms(2)] by blast
  then show "\<exists>lg'. bindE (logE h) (\<lambda>_. m) (s, lg) = (fst (n s), snd (n s), lg') \<and> lg_level lg' = lg_level lg
      \<and> (lg_level lg < 4 \<longrightarrow> lg' = lg)"
    using assms(1) by (auto simp: logE_def)
qed

lemma same_run_when: "same_run m n \<Longrightarrow> same_run (whenE b m) (whenE b n)"
  by (cases b) (simp_all add: same_run_def)

lemma log_level [simp]: "lg_level (log_write t e lg) = lg_level lg" "lg_level (log_ts now lg) = lg_level lg"
  by (simp_all add: log_write_def log_ts_def)

lemmas same_run_rules = same_run_object same_run_bind same_run_log same_run_when

lemma same_run_literal: "same_run (logged_literal tag item) (send_literal tag item)"
  unfolding logged_literal_def send_literal_def Let_def by (auto intro!: same_run_rules)

lemma same_run_line: "same_run (logged_line line) (whenE (line \<noteq> []) (send (py_join '' '' line)))"
  unfolding logged_line_def by (auto intro!: same_run_rules)

lemma same_run_items: "same_run (logged_items tag items line) (send_items tag items line)"
proof (induction tag items line rule: send_items.induct)
  case (1 tag line)
  show ?case by (simp add: same_run_def)
next
  case (2 tag item is_last items line)
  then show ?case by (auto intro!: same_run_bind same_run_line same_run_literal same_run_object)
qed

lemma same_run_imap: "same_run m n \<Longrightarrow> same_run (logged_imapE m) (imapE n)"
proof (rule same_run_I)
  fix cl :: client and lg
  assume "same_run m n"
  from same_run_D[OF this, of "cl_imap cl" lg] obtain lg' where "m (cl_imap cl, lg) = (fst (n (cl_imap cl)), snd (n (cl_imap cl)), lg')" "lg_level lg' = lg_level lg"
    "lg_level lg < 4 \<longrightarrow> lg' = lg" by blast
  then show "\<exists>lg'. logged_imapE m (cl, lg) = (fst (imapE n cl), snd (imapE n cl), lg') \<and> lg_level lg' = lg_level lg
      \<and> (lg_level lg < 4 \<longrightarrow> lg' = lg)"
    by (simp add: logged_imapE_def imapE_def split: prod.split)
qed

lemma same_run_withE: "(\<And>x. same_run (f x) (g x)) \<Longrightarrow> same_run (withE (\<lambda>(s, _). f s)) (withE g)"
  by (simp add: same_run_def)

lemma same_run_command: "same_run (logged_command now cmd args) (raw_command cmd args)"
proof -
  have ending: "same_run (bindE (logE (log_write (LogText []) True)) (\<lambda>_. on_object m)) m" for m :: "(imap4, 'a) act"
    by (rule same_run_log[OF _ same_run_object]) simp
  show ?thesis
    unfolding logged_command_def raw_command_def Let_def
    by (rule same_run_withE, rule same_run_log, simp, rule same_run_imap, rule same_run_bind[OF same_run_object],
      rule same_run_bind[OF same_run_items], rule same_run_bind[OF same_run_line],
      rule same_run_bind[OF same_run_object], rule ending)
qed

end
