(* ===== verification/WireSpec.thy ===== *)
theory WireSpec
  imports TlsSpec ImapLine ImapLog
begin

text \<open>
  The properties that lead from the bytes of a TLS connection to what the client makes of them: reading
  responses from the file object, and the messages of a FETCH; and what logging does to a command.
\<close>

section \<open>Responses\<close>

text \<open>
  C7: Reading responses byte by byte refines the queue of replies the client is modelled on: as long as no
  call of the connection fails, any number of responses comes out the same from the bytes of the server's
  lines, literals included, as from the queue, exceptions too, and the two agree afterwards.
\<close>
theorem wire_refines_replies:
  assumes "agrees ss w c"
  shows "\<exists>w' ss'. repeatE n wire_response w = (fst (repeatE n get_response c), w')
    \<and> agrees ss' w' (snd (repeatE n get_response c)) \<and> suffix ss' ss"
  using wire_responses_agree[OF assms] by blast

definition wire_of :: "bytes \<Rightarrow> recv_event list \<Rightarrow> imap4 \<Rightarrow> wire" where
  "wire_of b recvs c = \<lparr>wi_file = tls_file b recvs, wi_imap = c\<rparr>"

lemma repeatE_two: "repeatE 2 m = bindE m (\<lambda>x. bindE m (\<lambda>y. retE [x, y]))"
  unfolding numeral_2_eq_2 by (rule ext) (auto simp: bindE_def split: prod.splits sum.splits)

theorem wire_refines_replies_witness:
  "\<exists>w'. repeatE 2 wire_response (wire_of (''* 3 EXISTS'' @ CRLF @ ''+ idling'' @ CRLF) [Data 4, Want True] (sample_imap []))
     = (Inr [Some ''* 3 EXISTS'', None], w') \<and> pending (wi_file w') = []"
proof -
  let ?ss = "[SvUntagged (Some 3) ''EXISTS'' [Line []], SvContinuation '' idling'']"
  let ?c = "sample_imap (map reply_of ?ss)"
  let ?w = "wire_of (''* 3 EXISTS'' @ CRLF @ ''+ idling'' @ CRLF) [Data 4, Want True] (sample_imap [])"
  have "agrees ?ss ?w ?c"
    by (simp add: agrees_def wire_of_def healthy_def no_failure_def default_bufsize_def sample_imap_def
      head_line_def dec_small char_of_def bit_0 records_bytes_def spaced_def literal_size_at_def NL_def
      is_capital_def is_type_char_def CRLF_def)
  moreover have "\<exists>d. repeatE 2 get_response ?c = (Inr [Some ''* 3 EXISTS'', None], d) \<and> im_inbox d = []"
    by (simp add: repeatE_two bindE_def get_response_def sample_imap_def bracketed_def append_untagged_def
      head_line_def dec_small char_of_def bit_0 spaced_def)
  then obtain d where d: "repeatE 2 get_response ?c = (Inr [Some ''* 3 EXISTS'', None], d)" "im_inbox d = []" by blast
  ultimately obtain w' ss' where "repeatE 2 wire_response ?w = (Inr [Some ''* 3 EXISTS'', None], w')" "agrees ss' w' d"
    using wire_refines_replies[of ?ss ?w ?c 2] unfolding d by auto
  with d(2) show ?thesis by (auto simp: agrees_def)
qed



section \<open>Debugging output\<close>

text \<open>
  C14: Logging and not logging are equivalent: at every debug level a command written with its log sends,
  reads, returns and raises what the command does without; below level 4 the log stays as it is.
\<close>
theorem debug_transparent:
  "fst (logged_command now cmd args (cl, lg)) = fst (raw_command cmd args cl)
   \<and> fst (snd (logged_command now cmd args (cl, lg))) = snd (raw_command cmd args cl)
   \<and> (snd (snd (logged_command now cmd args (cl, lg))) = lg \<or> 4 \<le> lg_level lg)"
  using same_run_command[of now cmd args] unfolding same_run_def by (meson not_le)

end
