(* ===== verification/SslAlt.thy ===== *)
theory SslAlt
  imports SslCore
begin

text \<open>
  backports/ssl/subject_alt_name.py: the ASN.1 types of the extension and \<open>get_subject_alt_name\<close>. The
  types are data for the package pyasn1, which is not under src/: they are written down as terms of
  \<open>asn1_type\<close>, and its decoder is a parameter that takes the type and the bytes.
\<close>

section \<open>The types\<close>

datatype asn1_prim =
    TeletexString | PrintableString | UniversalString | UTF8String | BMPString | IA5String
  | ObjectIdentifier | BooleanType | OctetString

datatype asn1_type =
    Prim asn1_prim
  | Sized nat nat asn1_type
    \<comment> \<open>\<open>ValueSizeConstraint\<close>\<close>
  | Implicit nat asn1_type
    \<comment> \<open>an implicit context tag\<close>
  | Choice "(bytes \<times> asn1_type) list"
  | Sequence "(bytes \<times> asn1_type \<times> bool) list"
    \<comment> \<open>whether a component has a default\<close>
  | SequenceOf asn1_type
  | SetOf asn1_type

definition MAX_SIZE :: nat where "MAX_SIZE = 64"

definition DirectoryString :: asn1_type where
  "DirectoryString = Choice
     (map (\<lambda>(n, p). (n, Sized 1 MAX_SIZE (Prim p)))
       [(''teletexString'', TeletexString), (''printableString'', PrintableString),
        (''universalString'', UniversalString), (''utf8String'', UTF8String), (''bmpString'', BMPString),
        (''ia5String'', IA5String)])"

definition AttributeValue :: asn1_type where "AttributeValue = DirectoryString"

definition AttributeType :: asn1_type where "AttributeType = Prim ObjectIdentifier"

definition AttributeTypeAndValue :: asn1_type where
  "AttributeTypeAndValue = Sequence [(''type'', AttributeType, False), (''value'', AttributeValue, False)]"

definition RelativeDistinguishedName :: asn1_type where
  "RelativeDistinguishedName = SetOf AttributeTypeAndValue"

definition RDNSequence :: asn1_type where "RDNSequence = SequenceOf RelativeDistinguishedName"

definition Name :: asn1_type where "Name = Choice [([], RDNSequence)]"

definition Extension :: asn1_type where
  "Extension = Sequence [(''extnID'', Prim ObjectIdentifier, False), (''critical'', Prim BooleanType, True),
     (''extnValue'', Prim OctetString, False)]"

definition Extensions :: asn1_type where "Extensions = Sized 1 MAX_SIZE (SequenceOf Extension)"

definition GeneralName :: asn1_type where
  \<comment> \<open>the alternatives with the tags 0, 3 and 5 are commented out\<close>
  "GeneralName = Choice
     [(''rfc822Name'', Implicit 1 (Prim IA5String)), (''dNSName'', Implicit 2 (Prim IA5String)),
      (''directoryName'', Implicit 4 Name), (''uniformResourceIdentifier'', Implicit 6 (Prim IA5String)),
      (''iPAddress'', Implicit 7 (Prim OctetString)), (''registeredID'', Implicit 8 (Prim ObjectIdentifier))]"

definition GeneralNames :: asn1_type where "GeneralNames = Sized 1 MAX_SIZE (SequenceOf GeneralName)"

definition SubjectAltName :: asn1_type where
  \<comment> \<open>the class replaces the size of its base\<close>
  "SubjectAltName = Sized 1 1024 (SequenceOf GeneralName)"

section \<open>The names of a certificate\<close>

datatype decoded =
    Names "(bytes \<times> bytes) list"
    \<comment> \<open>an instance of \<open>SubjectAltName\<close>: the name of the alternative taken and the bytes of its value\<close>
  | OtherValue
    \<comment> \<open>anything else, such as the bytes after the value\<close>

type_synonym der_decoder = "asn1_type \<Rightarrow> bytes \<Rightarrow> pyexc + decoded list"
  \<comment> \<open>\<open>der_decoder.decode\<close>\<close>

record extension =
  ex_short_name :: bytes
  ex_data :: bytes

fun dns_components :: "decoded list \<Rightarrow> bytes list" where
  "dns_components [] = []"
| "dns_components (OtherValue # ds) = dns_components ds"
| "dns_components (Names components # ds) =
     map snd (filter (\<lambda>(n, v). n = ''dNSName'') components) @ dns_components ds"

fun extension_loop :: "der_decoder \<Rightarrow> extension list \<Rightarrow> bytes list \<Rightarrow> pyexc + bytes list" where
  "extension_loop decode [] dns_name = Inr dns_name"
| "extension_loop decode (ext # exts) dns_name =
     (if ex_short_name ext \<noteq> ''subjectAltName'' then extension_loop decode exts dns_name
      else sbind (decode SubjectAltName (ex_data ext)) (\<lambda>decoded_dat.
           extension_loop decode exts (dns_name @ dns_components decoded_dat)))"

definition get_subject_alt_name :: "der_decoder \<Rightarrow> extension list \<Rightarrow> pyexc + bytes list" where
  "get_subject_alt_name decode exts = extension_loop decode exts []"

definition certificate_of :: "der_decoder option \<Rightarrow> x509 \<Rightarrow> extension list \<Rightarrow> pyexc + x509" where
  \<comment> \<open>the peer certificate with the names of its extensions; \<open>None\<close> when pyasn1 cannot be imported\<close>
  "certificate_of decode c exts =
     (case decode of
        None \<Rightarrow> Inr (c\<lparr>x_alt_names := None\<rparr>)
      | Some d \<Rightarrow> sbind (get_subject_alt_name d exts) (\<lambda>ns. Inr (c\<lparr>x_alt_names := Some ns\<rparr>)))"

lemma dns_components_iff:
  "v \<in> set (dns_components ds) \<longleftrightarrow> (\<exists>ns. Names ns \<in> set ds \<and> (''dNSName'', v) \<in> set ns)"
  by (induction ds rule: dns_components.induct) (auto simp: image_iff)

lemma extension_loop_names:
  "extension_loop decode exts acc = Inr names \<Longrightarrow> v \<in> set names \<longleftrightarrow>
     v \<in> set acc \<or> (\<exists>ext ds ns. ext \<in> set exts \<and> ex_short_name ext = ''subjectAltName''
       \<and> decode SubjectAltName (ex_data ext) = Inr ds \<and> Names ns \<in> set ds \<and> (''dNSName'', v) \<in> set ns)"
proof (induction decode exts acc rule: extension_loop.induct)
  case (2 decode ext exts acc)
  show ?case
  proof (cases "ex_short_name ext = ''subjectAltName''")
    case True
    with "2.prems" obtain ds where ds: "decode SubjectAltName (ex_data ext) = Inr ds"
      "extension_loop decode exts (acc @ dns_components ds) = Inr names" by (auto simp: outcome)
    from "2.IH"(2)[of ds] True ds(2) have "v \<in> set names \<longleftrightarrow> v \<in> set (acc @ dns_components ds) \<or>
        (\<exists>ext ds ns. ext \<in> set exts \<and> ex_short_name ext = ''subjectAltName''
         \<and> decode SubjectAltName (ex_data ext) = Inr ds \<and> Names ns \<in> set ds \<and> (''dNSName'', v) \<in> set ns)" by blast
    with ds(1) True show ?thesis by (auto simp: dns_components_iff)
  next
    case False
    with 2 show ?thesis by auto
  qed
qed simp

lemma extension_loop_error:
  "extension_loop decode exts acc = Inl e \<Longrightarrow> \<exists>ext\<in>set exts. ex_short_name ext = ''subjectAltName''
     \<and> decode SubjectAltName (ex_data ext) = Inl e"
  by (induction decode exts acc rule: extension_loop.induct) (auto simp: outcome split: if_splits)

end
