(* ===== verification/SslPatch.thy ===== *)
theory SslPatch
  imports ImapTls
begin

text \<open>
  backports/ssl/monkey.py: replacing attributes of a module by those of a backport, with the originals
  kept in \<open>saved\<close>, and what core.py declares to be replaced. A module is its map of attributes under its
  name, which is taken to stay what it is; importing a module that is not there raises.
\<close>

section \<open>Modules\<close>

datatype 'a item =
    Item 'a
  | IStr bytes
  | INames "bytes list"
  | IModule bytes

record 'a world =
  wd_modules :: "bytes \<rightharpoonup> bytes \<rightharpoonup> 'a item"
  wd_saved :: "bytes \<rightharpoonup> bytes \<rightharpoonup> 'a item"

definition attribute :: "'a world \<Rightarrow> bytes \<Rightarrow> bytes \<Rightarrow> 'a item option" where
  "attribute w module attr = (case wd_modules w module of None \<Rightarrow> None | Some d \<Rightarrow> d attr)"

definition import_module :: "bytes \<Rightarrow> ('a world, bytes) act" where
  \<comment> \<open>\<open>__import__(name)\<close>, which returns the package at the top for a name with dots\<close>
  "import_module name = withE (\<lambda>w.
     if wd_modules w name = None then raiseE (ImportError name) else retE (takeWhile (\<lambda>c. c \<noteq> CHR ''.'') name))"

definition getattrE :: "bytes \<Rightarrow> bytes \<Rightarrow> ('a world, 'a item) act" where
  "getattrE module attr = withE (\<lambda>w. case attribute w module attr of
     None \<Rightarrow> raiseE (AttributeError attr) | Some v \<Rightarrow> retE v)"

definition set_attribute :: "bytes \<Rightarrow> bytes \<Rightarrow> 'a item option \<Rightarrow> 'a world \<Rightarrow> 'a world" where
  \<comment> \<open>\<open>setattr\<close>, and \<open>delattr\<close> with \<open>None\<close>\<close>
  "set_attribute module attr v w =
     (case wd_modules w module of
        None \<Rightarrow> w
      | Some d \<Rightarrow> w\<lparr>wd_modules := (wd_modules w)(module \<mapsto> d(attr := v))\<rparr>)"

definition save_item :: "bytes \<Rightarrow> bytes \<Rightarrow> 'a item \<Rightarrow> 'a world \<Rightarrow> 'a world" where
  \<comment> \<open>\<open>saved.setdefault(module.__name__, {}).setdefault(attr, olditem)\<close>\<close>
  "save_item module attr olditem w =
     (let d = (case wd_saved w module of None \<Rightarrow> Map.empty | Some d \<Rightarrow> d) in
      w\<lparr>wd_saved := (wd_saved w)(module \<mapsto> (if d attr = None then d(attr \<mapsto> olditem) else d))\<rparr>)"

section \<open>Patching\<close>

definition patch_item :: "bytes \<Rightarrow> bytes \<Rightarrow> 'a item \<Rightarrow> 'a world \<Rightarrow> 'a world" where
  "patch_item module attr newitem w =
     (let w = (case attribute w module attr of None \<Rightarrow> w | Some olditem \<Rightarrow> save_item module attr olditem w)
      in set_attribute module attr (Some newitem) w)"

definition remove_item :: "bytes \<Rightarrow> bytes \<Rightarrow> 'a world \<Rightarrow> 'a world" where
  "remove_item module attr w =
     (case attribute w module attr of
        None \<Rightarrow> w
      | Some olditem \<Rightarrow> set_attribute module attr None (save_item module attr olditem w))"

fun patch_items :: "bytes \<Rightarrow> bytes \<Rightarrow> bytes list \<Rightarrow> ('a world, unit) act" where
  \<comment> \<open>the loop of \<open>patch_module\<close>\<close>
  "patch_items module backport [] = retE ()"
| "patch_items module backport (attr # items) =
     bindE (getattrE backport attr) (\<lambda>v.
     bindE (modE (patch_item module attr v)) (\<lambda>_. patch_items module backport items))"

definition patch_module :: "bytes \<Rightarrow> bytes list option \<Rightarrow> ('a world, unit) act" where
  "patch_module name items =
     bindE (import_module ''backports'') (\<lambda>backports.
     bindE (getattrE backports ''ssl'') (\<lambda>ssl.
     case ssl of
       IModule ssl \<Rightarrow>
         bindE (getattrE ssl name) (\<lambda>m.
         case m of
           IModule backported \<Rightarrow> withE (\<lambda>w.
             case (case attribute w backported ''__target__'' of None \<Rightarrow> IStr name | Some v \<Rightarrow> v) of
               IStr module_name \<Rightarrow>
                 bindE (import_module module_name) (\<lambda>module.
                 bindE (case items of
                     Some is \<Rightarrow> retE is
                   | None \<Rightarrow> (case attribute w backported ''__implements__'' of
                         None \<Rightarrow> raiseE (AttributeError ''does not have __implements__'')
                       | Some (INames is) \<Rightarrow> retE is
                       | Some _ \<Rightarrow> raiseE (TypeError ''not iterable''))) (\<lambda>is.
                 patch_items module backported is))
             | _ \<Rightarrow> raiseE (TypeError ''__import__() argument 1 must be string''))
         | _ \<Rightarrow> raiseE (AttributeError ''__target__''))
     | _ \<Rightarrow> raiseE (AttributeError name)))"

definition patch :: "('a world, unit) act" where
  "patch = patch_module ''core'' None"

section \<open>The originals\<close>

fun get_items :: "bytes \<Rightarrow> (bytes \<rightharpoonup> 'a item) \<Rightarrow> bytes list \<Rightarrow> ('a world, 'a item list) act" where
  \<comment> \<open>\<open>_get_original\<close>; the module is imported when it is first needed\<close>
  "get_items name d [] = retE []"
| "get_items name d (i # items) =
     bindE (case d i of
         Some v \<Rightarrow> retE v
       | None \<Rightarrow> bindE (import_module name) (\<lambda>module. getattrE module i)) (\<lambda>v.
     bindE (get_items name d items) (\<lambda>vs. retE (v # vs)))"

definition get_original :: "bytes \<Rightarrow> bytes list \<Rightarrow> ('a world, 'a item list) act" where
  \<comment> \<open>with a list; for a string the code delivers the only item\<close>
  "get_original name items = withE (\<lambda>w.
     get_items name (case wd_saved w name of None \<Rightarrow> Map.empty | Some d \<Rightarrow> d) items)"

section \<open>What core.py replaces\<close>

definition OPENSSL_ATTRS :: "(bytes \<times> bytes) list" where
  "OPENSSL_ATTRS = [(''OP_NO_COMPRESSION'', ''OP_NO_COMPRESSION''), (''PROTOCOL_SSLv23'', ''SSLv23_METHOD''),
     (''PROTOCOL_SSLv3'', ''SSLv3_METHOD''), (''PROTOCOL_TLSv1'', ''TLSv1_METHOD''),
     (''PROTOCOL_TLSv1_1'', ''TLSv1_1_METHOD''), (''PROTOCOL_TLSv1_2'', ''TLSv1_2_METHOD'')]"

definition implements :: "(bytes \<rightharpoonup> int) option \<Rightarrow> bytes list" where
  \<comment> \<open>\<open>__implements__\<close>; \<open>None\<close> without pyOpenSSL. The order of the attributes is that of a dictionary and
    does not matter to what is replaced\<close>
  "implements ossl =
     [''SSLError'', ''CertificateError'', ''match_hostname'', ''SSLSocket'', ''SSLContext'', ''wrap_socket'', ''_fileobject'']
     @ (case ossl of
          None \<Rightarrow> []
        | Some attrs \<Rightarrow> map fst (filter (\<lambda>(external, internal). attrs internal \<notin> {None, Some 0}) OPENSSL_ATTRS))"

definition core_names :: "(bytes \<rightharpoonup> int) option \<Rightarrow> bytes set" where
  \<comment> \<open>which of these names core.py defines in the end: without pyOpenSSL four are deleted\<close>
  "core_names ossl = set (implements ossl)
     - (if ossl = None then {''SSLSocket'', ''SSLContext'', ''wrap_socket'', ''_fileobject''} else {})"

section \<open>Lemmas\<close>

definition saved_item :: "'a world \<Rightarrow> bytes \<Rightarrow> bytes \<Rightarrow> 'a item option" where
  "saved_item w module attr = (case wd_saved w module of None \<Rightarrow> None | Some d \<Rightarrow> d attr)"

lemma attribute_set [simp]:
  "attribute (set_attribute m a v w) m' a' = (if m' = m \<and> a' = a \<and> wd_modules w m \<noteq> None then v else attribute w m' a')"
  "saved_item (set_attribute m a v w) = saved_item w"
  "dom (wd_modules (set_attribute m a v w)) = dom (wd_modules w)"
  by (auto simp: attribute_def set_attribute_def saved_item_def fun_eq_iff split: option.splits)

lemma save_item_simps [simp]:
  "saved_item (save_item m a x w) m' a' =
     (if m' = m \<and> a' = a then Some (case saved_item w m a of None \<Rightarrow> x | Some y \<Rightarrow> y) else saved_item w m' a')"
  "attribute (save_item m a x w) = attribute w" "wd_modules (save_item m a x w) = wd_modules w"
  by (auto simp: attribute_def save_item_def saved_item_def Let_def fun_eq_iff split: option.splits)

lemma attribute_module: "attribute w m a = Some v \<Longrightarrow> wd_modules w m \<noteq> None"
  by (auto simp: attribute_def split: option.splits)

definition original :: "'a world \<Rightarrow> bytes \<Rightarrow> bytes \<Rightarrow> 'a item option" where
  \<comment> \<open>what \<open>get_original\<close> finds\<close>
  "original w m a = (case saved_item w m a of Some v \<Rightarrow> Some v | None \<Rightarrow> attribute w m a)"

lemma original_saved: "attribute w m a = Some x \<Longrightarrow> original (save_item m a x w) = original w"
  by (auto simp: original_def fun_eq_iff split: option.splits)

lemma original_set:
  "original w m' a' = Some v \<Longrightarrow> attribute w m a \<noteq> None \<longrightarrow> saved_item w m a \<noteq> None \<Longrightarrow>
     original (set_attribute m a x w) m' a' = Some v"
  by (auto simp: original_def split: option.splits if_splits)

lemma patch_item_original: "original w m' a' = Some v \<Longrightarrow> original (patch_item m a x w) m' a' = Some v"
  by (cases "attribute w m a") (auto simp: patch_item_def original_saved intro!: original_set)

lemma remove_item_original: "original w m' a' = Some v \<Longrightarrow> original (remove_item m a w) m' a' = Some v"
  by (cases "attribute w m a") (auto simp: remove_item_def original_saved intro!: original_set)

definition originals_kept :: "'a world \<Rightarrow> 'a world \<Rightarrow> bool" where
  \<comment> \<open>what \<open>w0\<close> has is found\<close>
  "originals_kept w0 w \<longleftrightarrow> dom (wd_modules w) = dom (wd_modules w0)
     \<and> (\<forall>m a v. attribute w0 m a = Some v \<longrightarrow> original w m a = Some v)"

lemma patch_item_dom [simp]: "dom (wd_modules (patch_item m a v w)) = dom (wd_modules w)"
  by (auto simp: patch_item_def Let_def split: option.split)

lemma remove_item_dom [simp]: "dom (wd_modules (remove_item m a w)) = dom (wd_modules w)"
  by (auto simp: remove_item_def split: option.split)

lemma patch_item_kept: "originals_kept w0 w \<Longrightarrow> originals_kept w0 (patch_item m a v w)"
  by (auto simp: originals_kept_def intro: patch_item_original)

lemma remove_item_kept: "originals_kept w0 w \<Longrightarrow> originals_kept w0 (remove_item m a w)"
  by (auto simp: originals_kept_def intro: remove_item_original)

lemma reads_keep [keeps_rule]: "keeps P (import_module name)" "keeps P (getattrE m a)"
  by (auto simp: keeps_def import_module_def getattrE_def split: option.splits)

lemma patch_items_kept: "keeps (originals_kept w0) (patch_items m b is)"
  by (induction "is") (auto intro!: keeps_rule keeps_modE patch_item_kept)

lemma patch_module_kept: "keeps (originals_kept w0) (patch_module name is)"
  unfolding patch_module_def
  by (intro keeps_rule) (auto split: item.split option.split intro!: keeps_rule patch_items_kept)

datatype 'a patch_op = PatchItem bytes bytes "'a item" | RemoveItem bytes bytes | PatchModule bytes "bytes list option"

fun run_patch :: "'a patch_op \<Rightarrow> 'a world \<Rightarrow> 'a world" where
  \<comment> \<open>whatever the call raises\<close>
  "run_patch (PatchItem m a v) w = patch_item m a v w"
| "run_patch (RemoveItem m a) w = remove_item m a w"
| "run_patch (PatchModule name is) w = snd (patch_module name is w)"

lemma run_patch_kept: "originals_kept w0 w \<Longrightarrow> originals_kept w0 (run_patch p w)"
  by (cases p) (auto intro: patch_item_kept remove_item_kept keepsD[OF patch_module_kept])

lemma run_patches_kept: "originals_kept w0 w \<Longrightarrow> originals_kept w0 (fold run_patch ps w)"
  by (induction ps arbitrary: w) (auto intro: run_patch_kept)

lemma top_name: "CHR ''.'' \<notin> set m \<Longrightarrow> takeWhile (\<lambda>c. c \<noteq> CHR ''.'') m = m"
  by (simp add: takeWhile_eq_all_conv) blast

lemma get_items_kept:
  "CHR ''.'' \<notin> set m \<Longrightarrow> list_all2 (\<lambda>a v. original w m a = Some v) is vs \<Longrightarrow> d = (\<lambda>a. saved_item w m a) \<Longrightarrow> get_items m d is w = (Inr vs, w)"
proof (induction "is" arbitrary: vs)
  case (Cons i "is")
  then obtain v vs' where vs: "vs = v # vs'" by (cases vs) auto
  with Cons have IH: "get_items m d is w = (Inr vs', w)" and v: "original w m i = Some v" by simp_all
  note top = top_name[OF Cons.prems(1)]
  show ?case
  proof (cases "saved_item w m i")
    case None
    with v have "attribute w m i = Some v" by (simp add: original_def)
    with attribute_module[OF this] None IH vs Cons.prems(3) show ?thesis
      by (simp add: bindE_def import_module_def getattrE_def top)
  next
    case (Some x)
    with v IH vs Cons.prems(3) show ?thesis by (simp add: bindE_def original_def)
  qed
qed simp

lemma get_original_kept:
  assumes "originals_kept w0 w" and "list_all2 (\<lambda>a v. attribute w0 m a = Some v) is vs" and "CHR ''.'' \<notin> set m"
  shows "get_original m is w = (Inr vs, w)"
proof -
  have "(case wd_saved w m of None \<Rightarrow> Map.empty | Some d \<Rightarrow> d) = (\<lambda>a. saved_item w m a)"
    by (auto simp: saved_item_def fun_eq_iff split: option.split)
  moreover have "list_all2 (\<lambda>a v. original w m a = Some v) is vs"
    using assms(2) by (rule list_all2_mono) (use assms(1) in \<open>simp add: originals_kept_def\<close>)
  ultimately show ?thesis using get_items_kept[OF assms(3) _ refl] by (simp add: get_original_def)
qed

lemma patch_item_attribute:
  "wd_modules w m \<noteq> None \<Longrightarrow> attribute (patch_item m a v w) m' a' = (if m' = m \<and> a' = a then Some v else attribute w m' a')"
  by (auto simp: patch_item_def Let_def split: option.split)

lemma patch_items_effect:
  "m \<noteq> b \<Longrightarrow> wd_modules w m \<noteq> None \<Longrightarrow> \<forall>a\<in>set is. attribute w b a \<noteq> None \<Longrightarrow>
     \<exists>w'. patch_items m b (is @ rest) w = patch_items m b rest w'
       \<and> (\<forall>m' a. attribute w' m' a = (if m' = m \<and> a \<in> set is then attribute w b a else attribute w m' a))
       \<and> dom (wd_modules w') = dom (wd_modules w)"
proof (induction "is" arbitrary: w)
  case (Cons i "is")
  then obtain v where v: "attribute w b i = Some v" by auto
  let ?w = "patch_item m i v w"
  have w: "attribute ?w m' a = (if m' = m \<and> a = i then Some v else attribute w m' a)" for m' a
    using patch_item_attribute[of w m i v m' a] Cons.prems(2) by blast
  have "wd_modules ?w m \<noteq> None" using patch_item_dom[of m i v w] Cons.prems(2) by blast
  with Cons.IH[of ?w] Cons.prems(1,3) w obtain w' where
    w': "patch_items m b (is @ rest) ?w = patch_items m b rest w'"
    "\<forall>m' a. attribute w' m' a = (if m' = m \<and> a \<in> set is then attribute ?w b a else attribute ?w m' a)"
    "dom (wd_modules w') = dom (wd_modules ?w)" by auto
  have "patch_items m b ((i # is) @ rest) w = patch_items m b rest w'"
    using v w'(1) by (simp add: bindE_def getattrE_def)
  moreover have "attribute w' m' a = (if m' = m \<and> a \<in> set (i # is) then attribute w b a else attribute w m' a)" for m' a
    using w'(2) w v Cons.prems(1) by auto
  ultimately show ?case using w'(3) patch_item_dom[of m i v w] by blast
qed auto

end
