(* ===== verification/ImapStart.thy ===== *)
theory ImapStart
  imports SslFile "HOL-Library.List_Lexorder"
begin

text \<open>
  What imapclient does when it is imported, and its connection without TLS: version.py, imap4.py, and
  imaplib_ssl_fix.py, which replaces a line reader of imaplib in old versions of Python. The object that
  reader reads from is the connection of SslFile.
\<close>

section \<open>version.py\<close>

definition version_info :: "nat \<times> nat \<times> nat \<times> bytes" where
  "version_info = (1, 0, 0, ''final'')"

definition imapclient_version_string :: "nat \<times> nat \<times> nat \<times> bytes \<Rightarrow> bytes" where
  "imapclient_version_string vinfo =
     (case vinfo of (major, minor, micro, releaselevel) \<Rightarrow>
        let v = dec major @ ''.'' @ dec minor @ ''.'' @ dec micro in
        if releaselevel \<noteq> ''final'' then v @ ''-'' @ releaselevel else v)"

section \<open>imap4.py\<close>

record imap4_with_timeout =
  it_host :: bytes
  it_port :: int
  it_timeout :: "int option"

definition create_socket :: "(bytes \<times> int \<Rightarrow> int option \<Rightarrow> pyexc + conn) \<Rightarrow> imap4_with_timeout \<Rightarrow> pyexc + conn" where
  \<comment> \<open>\<open>create\<close>: \<open>socket.create_connection\<close>\<close>
  "create_socket create s = create (it_host s, it_port s) (it_timeout s)"

section \<open>imaplib_ssl_fix.py\<close>

definition is_affected_version :: "int list \<Rightarrow> bool" where
  \<comment> \<open>the numbers of \<open>sys.version_info\<close>; tuples are ordered as lists\<close>
  "is_affected_version sys_version =
     (let v = take 3 sys_version in if v < [2, 5, 0] then False else v < [2, 6, 5])"

function fixed_readline_loop :: "bytes \<Rightarrow> (conn, bytes) act" where
  "fixed_readline_loop line c =
     (case recv 1 c of
        (Inl e, d) \<Rightarrow> (Inl e, d)
      | (Inr char, d) \<Rightarrow>
          if char = [NL] \<or> char = [] then (Inr (line @ char), d) else fixed_readline_loop (line @ char) d)"
  by pat_completeness auto
termination
  by (relation "measure (\<lambda>(_, c). length (sk_stream c))")
    (auto dest!: recv_data(1)[OF sym] simp: neq_Nil_conv)

declare fixed_readline_loop.simps [simp del]

definition fixed_readline :: "(conn, bytes) act" where
  "fixed_readline = fixed_readline_loop []"

datatype readline_code = Imaplib | Fixed

definition patched :: "readline_code \<Rightarrow> bool" where
  \<comment> \<open>\<open>hasattr(ssl_class.readline, 'patched')\<close>\<close>
  "patched m = (m = Fixed)"

definition apply_patch :: "int list \<Rightarrow> readline_code \<Rightarrow> readline_code" where
  \<comment> \<open>the method \<open>readline\<close> of the class\<close>
  "apply_patch sys_version readline =
     (if is_affected_version sys_version \<and> \<not> patched readline then Fixed else readline)"

lemma fixed_readline_loop_spec:
  "no_failure c \<Longrightarrow> NL \<notin> set line \<Longrightarrow>
     \<exists>d. fixed_readline_loop line c = (Inr (first_line (line @ sk_stream c)), d)
       \<and> no_failure d \<and> first_line (line @ sk_stream c) @ sk_stream d = line @ sk_stream c"
proof (induction line c rule: fixed_readline_loop.induct)
  case (1 line c)
  obtain b d where r: "recv 1 c = (Inr b, d)" "no_failure d" using recv_returns[OF "1.prems"(1)] by blast
  note b = recv_data[OF r(1)]
  consider "b = []" | "b = [NL]" | x where "b = [x]" "x \<noteq> NL" using b(2) by (cases b) auto
  then show ?case
  proof cases
    assume "b = []"
    with b have "sk_stream c = []" "sk_stream d = []" by auto
    with r \<open>b = []\<close> "1.prems"(2) show ?thesis
      by (subst fixed_readline_loop.simps) (simp add: r[unfolded One_nat_def] first_line_no_nl)
  next
    assume "b = [NL]"
    then have "first_line (line @ sk_stream c) = line @ [NL]"
      using b(1) first_line_append_no_nl[OF "1.prems"(2), of "sk_stream c"] by (simp add: first_line_def[of "NL # _"])
    with r b(1) \<open>b = [NL]\<close> show ?thesis
      by (subst fixed_readline_loop.simps) (simp add: r[unfolded One_nat_def])
  next
    fix x assume x: "b = [x]" "x \<noteq> NL"
    then have "fixed_readline_loop line c = fixed_readline_loop (line @ [x]) d"
      by (subst fixed_readline_loop.simps) (simp add: r[unfolded One_nat_def])
    with "1.IH"[OF r(1)[symmetric] refl] x r(2) "1.prems"(2) b(1) show ?thesis by simp
  qed
qed

lemma fixed_readline_spec:
  "no_failure c \<Longrightarrow> \<exists>d. fixed_readline c = (Inr (first_line (sk_stream c)), d) \<and> no_failure d
     \<and> first_line (sk_stream c) @ sk_stream d = sk_stream c"
  using fixed_readline_loop_spec[of c "[]"] by (simp add: fixed_readline_def)

lemma apply_patch_once: "apply_patch v (apply_patch v m) = apply_patch v m"
  by (simp add: apply_patch_def patched_def)

end
