(* ===== verification/ImapShell.thy ===== *)
theory ImapShell
  imports ImapConfig
begin

text \<open>
  interact.py: the options of the interactive client, filled in from defaults and prompts or read from a
  configuration file, and the client made of them (ImapConfig). What \<open>optparse\<close> makes of the command
  line is an argument, \<open>getpass\<close> takes the answers of the user from a list, and the shells that may be
  installed are what calling them gives.
\<close>

section \<open>Options\<close>

datatype opt_val = OptNone | OptBool bool | OptInt int | OptStr bytes

record terminal =
  te_answers :: "bytes list"
  te_prompts :: "bytes list"
  te_printed :: "bytes list"

definition getpass :: "bytes \<Rightarrow> (terminal, bytes) act" where
  "getpass prompt t =
     (case te_answers t of
        [] \<Rightarrow> (Inl (RuntimeError ''EOFError''), t\<lparr>te_prompts := te_prompts t @ [prompt]\<rparr>)
      | a # as \<Rightarrow> (Inr a, t\<lparr>te_answers := as, te_prompts := te_prompts t @ [prompt]\<rparr>))"

definition default_option :: "cval \<Rightarrow> opt_val" where
  "default_option v = (case v of CNone \<Rightarrow> OptNone | CBool b \<Rightarrow> OptBool b)"

definition compulsory_opts :: "bytes list" where
  "compulsory_opts = [''host'', ''username'', ''password'']"

fun fill_options :: "(bytes \<times> cval) list \<Rightarrow> (bytes \<rightharpoonup> opt_val) \<Rightarrow> (terminal, bytes \<rightharpoonup> opt_val) act" where
  "fill_options [] opts = retE opts"
| "fill_options ((name, default_value) # ds) opts =
     (let v = (case opts name of None \<Rightarrow> default_option default_value | Some v \<Rightarrow> v) in
      bindE (if name \<in> set compulsory_opts \<and> v = OptNone
             then bindE (getpass (name @ '': '')) (\<lambda>a. retE (OptStr a)) else retE v) (\<lambda>v.
      fill_options ds (opts(name \<mapsto> v))))"

record shell_opts =
  so_host :: "bytes option"
  so_username :: "bytes option"
  so_password :: "bytes option"
  so_port :: "int option"
  so_ssl :: bool
  so_file :: "bytes option"

definition opt_str :: "bytes option \<Rightarrow> opt_val" where
  "opt_str b = (case b of None \<Rightarrow> OptNone | Some s \<Rightarrow> OptStr s)"

definition parsed_options :: "shell_opts \<Rightarrow> bytes \<rightharpoonup> opt_val" where
  \<comment> \<open>the attributes of what \<open>parse_args\<close> returns\<close>
  "parsed_options o1 = map_of
     [(''host'', opt_str (so_host o1)), (''username'', opt_str (so_username o1)), (''password'', opt_str (so_password o1)),
      (''port'', case so_port o1 of None \<Rightarrow> OptNone | Some n \<Rightarrow> OptInt n), (''ssl'', OptBool (so_ssl o1)),
      (''file'', opt_str (so_file o1))]"

section \<open>What the options say\<close>

definition as_str :: "(bytes \<rightharpoonup> opt_val) \<Rightarrow> bytes \<Rightarrow> bytes option" where
  "as_str opts n = (case opts n of Some (OptStr s) \<Rightarrow> Some s | _ \<Rightarrow> None)"

definition as_int :: "(bytes \<rightharpoonup> opt_val) \<Rightarrow> bytes \<Rightarrow> int option" where
  "as_int opts n = (case opts n of Some (OptInt i) \<Rightarrow> Some i | _ \<Rightarrow> None)"

definition as_bool :: "(bytes \<rightharpoonup> opt_val) \<Rightarrow> bytes \<Rightarrow> bool" where
  "as_bool opts n = (case opts n of Some (OptBool b) \<Rightarrow> b | _ \<Rightarrow> False)"

definition conf_of :: "(bytes \<rightharpoonup> opt_val) \<Rightarrow> conf" where
  \<comment> \<open>the attributes \<open>create_client_from_config\<close> reads\<close>
  "conf_of opts =
     \<lparr>cf_host = as_str opts ''host'', cf_port = as_int opts ''port'', cf_ssl = as_bool opts ''ssl'',
      cf_starttls = as_bool opts ''starttls'', cf_ssl_check_hostname = as_bool opts ''ssl_check_hostname'',
      cf_ssl_verify_cert = as_bool opts ''ssl_verify_cert'', cf_ssl_ca_file = as_str opts ''ssl_ca_file'',
      cf_timeout = as_int opts ''timeout'', cf_stream = as_bool opts ''stream'', cf_username = as_str opts ''username'',
      cf_password = as_str opts ''password'', cf_oauth = as_bool opts ''oauth'', cf_oauth_url = as_str opts ''oauth_url'',
      cf_oauth_token = as_str opts ''oauth_token'', cf_oauth_token_secret = as_str opts ''oauth_token_secret'',
      cf_oauth2 = as_bool opts ''oauth2'', cf_oauth2_client_id = as_str opts ''oauth2_client_id'',
      cf_oauth2_client_secret = as_str opts ''oauth2_client_secret'',
      cf_oauth2_refresh_token = as_str opts ''oauth2_refresh_token'', cf_expect_failure = as_str opts ''expect_failure''\<rparr>"

definition usage_error :: "bytes \<Rightarrow> pyexc" where
  \<comment> \<open>\<open>p.error\<close>, which exits\<close>
  "usage_error m = RuntimeError (''SystemExit: '' @ m)"

definition command_line :: "(bytes \<Rightarrow> pyexc + conf) \<Rightarrow> shell_opts \<Rightarrow> bytes list \<Rightarrow> (terminal, conf) act" where
  \<comment> \<open>\<open>parse_file\<close>: \<open>parse_config_file\<close> of a file name\<close>
  "command_line parse_file o1 args =
     (if args \<noteq> [] then raiseE (usage_error (''unexpected arguments '' @ py_join '' '' args))
      else if truthy_bytes (so_file o1) then
        (if truthy_bytes (so_host o1) \<or> truthy_bytes (so_username o1) \<or> truthy_bytes (so_password o1)
            \<or> so_port o1 \<notin> {None, Some 0} \<or> so_ssl o1
         then raiseE (usage_error ''If -f/--file is given no other options can be used'')
         else liftE (parse_file (the (so_file o1))))
      else bindE (fill_options get_config_defaults (parsed_options o1)) (\<lambda>opts. retE (conf_of opts)))"

section \<open>The shell\<close>

fun run_shells :: "(pyexc + unit) list \<Rightarrow> nat \<Rightarrow> pyexc + nat option" where
  \<comment> \<open>which of the shells ran, if any; one that cannot be imported is passed over\<close>
  "run_shells [] n = Inr None"
| "run_shells (Inl (ImportError m) # shells) n = run_shells shells (Suc n)"
| "run_shells (Inl e # shells) n = Inl e"
| "run_shells (Inr _ # shells) n = Inr (Some n)"

definition print :: "bytes \<Rightarrow> (terminal, unit) act" where
  "print line = modE (\<lambda>t. t\<lparr>te_printed := te_printed t @ [line]\<rparr>)"

definition interact_main :: "(bytes \<Rightarrow> pyexc + conf) \<Rightarrow> shell_opts \<Rightarrow> bytes list \<Rightarrow> ossl \<Rightarrow> surroundings \<Rightarrow>
    (client \<Rightarrow> (pyexc + unit) list) \<Rightarrow> (terminal, nat option) act" where
  \<comment> \<open>\<open>shells\<close>: what ipython_400, ipython_011, ipython_010 and builtin do with the client\<close>
  "interact_main parse_file o1 args ossl sr shells =
     bindE (command_line parse_file o1 args) (\<lambda>conf.
     bindE (print ''Connecting...'') (\<lambda>_.
     bindE (liftE (fst (create_client_from_config ossl sr conf Map.empty))) (\<lambda>client.
     bindE (print ''Connected.'') (\<lambda>_.
     liftE (run_shells (shells client) 0)))))"

section \<open>Lemmas\<close>

definition filled :: "bytes set \<Rightarrow> bytes \<Rightarrow> cval \<Rightarrow> opt_val option \<Rightarrow> opt_val option \<Rightarrow> bool" where
  \<comment> \<open>what an option is afterwards, one of the answers when it was asked for\<close>
  "filled answers n d old new =
     (let v = (case old of None \<Rightarrow> default_option d | Some v \<Rightarrow> v) in
      if n \<in> set compulsory_opts \<and> v = OptNone then \<exists>a\<in>answers. new = Some (OptStr a) else new = Some v)"

lemma filled_mono: "filled A n d old new \<Longrightarrow> A \<subseteq> B \<Longrightarrow> filled B n d old new"
  by (auto simp: filled_def Let_def split: if_splits)

lemma fill_options_step:
  assumes "fill_options ((name, d) # ds) opts t = (Inr opts', t')"
  shows "\<exists>v t1 ps. fill_options ds (opts(name \<mapsto> v)) t1 = (Inr opts', t') \<and> filled (set (te_answers t)) name d (opts name) (Some v)
    \<and> set (te_answers t1) \<subseteq> set (te_answers t) \<and> te_prompts t1 = te_prompts t @ map (\<lambda>n. n @ '': '') ps
    \<and> set ps \<subseteq> {name} \<inter> set compulsory_opts"
proof -
  let ?v = "case opts name of None \<Rightarrow> default_option d | Some v \<Rightarrow> v"
  show ?thesis
  proof (cases "name \<in> set compulsory_opts \<and> ?v = OptNone")
    case False
    with assms have "fill_options ds (opts(name \<mapsto> ?v)) t = (Inr opts', t')" by (simp add: Let_def)
    with False show ?thesis by (intro exI[of _ ?v] exI[of _ t] exI[of _ "[]"]) (auto simp: filled_def Let_def)
  next
    case True
    with assms obtain a as where "te_answers t = a # as"
      "fill_options ds (opts(name \<mapsto> OptStr a)) (t\<lparr>te_answers := as, te_prompts := te_prompts t @ [name @ '': '']\<rparr>) = (Inr opts', t')"
      by (auto simp: Let_def getpass_def outcome split: list.split_asm)
    with True show ?thesis
      by (intro exI[of _ "OptStr a"] exI[of _ "t\<lparr>te_answers := as, te_prompts := te_prompts t @ [name @ '': '']\<rparr>"] exI[of _ "[name]"])
        (auto simp: filled_def Let_def)
  qed
qed

lemma fill_options_result:
  "fill_options ds opts t = (Inr opts', t') \<Longrightarrow> distinct (map fst ds) \<Longrightarrow>
     (\<forall>n. case map_of ds n of None \<Rightarrow> opts' n = opts n | Some d \<Rightarrow> filled (set (te_answers t)) n d (opts n) (opts' n))
     \<and> (\<exists>ps. te_prompts t' = te_prompts t @ map (\<lambda>n. n @ '': '') ps \<and> set ps \<subseteq> fst ` set ds \<inter> set compulsory_opts)"
proof (induction ds arbitrary: opts t)
  case Nil
  then show ?case by (auto intro: exI[of _ "[]"])
next
  case (Cons nd ds)
  obtain name d where nd: "nd = (name, d)" by (cases nd) auto
  from fill_options_step[OF Cons.prems(1)[unfolded nd]] obtain v t1 ps where
    v: "fill_options ds (opts(name \<mapsto> v)) t1 = (Inr opts', t')" "filled (set (te_answers t)) name d (opts name) (Some v)"
    and t1: "set (te_answers t1) \<subseteq> set (te_answers t)" "te_prompts t1 = te_prompts t @ map (\<lambda>n. n @ '': '') ps"
    "set ps \<subseteq> {name} \<inter> set compulsory_opts" by blast
  from Cons.prems(2) have new: "map_of ds name = None" "distinct (map fst ds)" by (simp_all add: nd map_of_eq_None_iff)
  note IH = Cons.IH[OF v(1) new(2)]
  from IH obtain qs where qs: "te_prompts t' = te_prompts t1 @ map (\<lambda>n. n @ '': '') qs" "set qs \<subseteq> fst ` set ds \<inter> set compulsory_opts"
    by blast
  have "case map_of (nd # ds) n of None \<Rightarrow> opts' n = opts n | Some d \<Rightarrow> filled (set (te_answers t)) n d (opts n) (opts' n)" for n
    using IH[THEN conjunct1, rule_format, of n] new(1) v(2) filled_mono[OF _ t1(1)]
    by (cases "map_of ds n") (auto simp: nd)
  with qs t1(2,3) show ?case by (intro conjI allI exI[of _ "ps @ qs"]) (auto simp: nd)
qed

lemma shell_options:
  assumes "fill_options get_config_defaults (parsed_options o1) t = (Inr opts, t')"
  shows "opts ''host'' = Some (opt_str (so_host o1))" and "opts ''ssl'' = Some (OptBool (so_ssl o1))"
    and "opts ''port'' = Some (case so_port o1 of None \<Rightarrow> OptNone | Some n \<Rightarrow> OptInt n)" and "opts ''stream'' = Some (OptBool False)"
    and "\<exists>u\<in>(case so_username o1 of Some u \<Rightarrow> {u} | None \<Rightarrow> set (te_answers t)). opts ''username'' = Some (OptStr u)"
    and "\<exists>u\<in>(case so_password o1 of Some u \<Rightarrow> {u} | None \<Rightarrow> set (te_answers t)). opts ''password'' = Some (OptStr u)"
proof -
  have "distinct (map fst get_config_defaults)" by (simp add: get_config_defaults_def)
  note filled = fill_options_result[OF assms this, THEN conjunct1, rule_format]
  have default: "map_of get_config_defaults ''host'' = None" "map_of get_config_defaults ''port'' = None"
    "map_of get_config_defaults ''username'' = Some CNone" "map_of get_config_defaults ''password'' = Some CNone"
    "map_of get_config_defaults ''ssl'' = Some (CBool False)" "map_of get_config_defaults ''stream'' = Some (CBool False)"
    by (simp_all add: get_config_defaults_def)
  show "opts ''host'' = Some (opt_str (so_host o1))" "opts ''ssl'' = Some (OptBool (so_ssl o1))"
    "opts ''port'' = Some (case so_port o1 of None \<Rightarrow> OptNone | Some n \<Rightarrow> OptInt n)" "opts ''stream'' = Some (OptBool False)"
    using filled[of "''host''"] filled[of "''ssl''"] filled[of "''port''"] filled[of "''stream''"]
    by (simp_all add: default parsed_options_def filled_def compulsory_opts_def default_option_def)
  have asked: "\<exists>u\<in>(case given of Some u \<Rightarrow> {u} | None \<Rightarrow> set (te_answers t)). opts n = Some (OptStr u)"
    if "filled (set (te_answers t)) n CNone (Some (opt_str given)) (opts n)" "n \<in> set compulsory_opts" for n given
    using that by (cases given) (auto simp: filled_def opt_str_def)
  show "\<exists>u\<in>(case so_username o1 of Some u \<Rightarrow> {u} | None \<Rightarrow> set (te_answers t)). opts ''username'' = Some (OptStr u)"
    using asked[of "''username''" "so_username o1"] filled[of "''username''"] by (simp add: default parsed_options_def compulsory_opts_def)
  show "\<exists>u\<in>(case so_password o1 of Some u \<Rightarrow> {u} | None \<Rightarrow> set (te_answers t)). opts ''password'' = Some (OptStr u)"
    using asked[of "''password''" "so_password o1"] filled[of "''password''"] by (simp add: default parsed_options_def compulsory_opts_def)
qed

lemma shell_prompts:
  assumes "fill_options get_config_defaults opts0 t = (Inr opts, t')"
  shows "\<exists>ps. te_prompts t' = te_prompts t @ ps \<and> set ps \<subseteq> {''username: '', ''password: ''}"
proof -
  have "distinct (map fst get_config_defaults)" by (simp add: get_config_defaults_def)
  from fill_options_result[OF assms this] obtain ps where ps: "te_prompts t' = te_prompts t @ map (\<lambda>n. n @ '': '') ps"
    "set ps \<subseteq> fst ` set get_config_defaults \<inter> set compulsory_opts" by blast
  have "fst ` set get_config_defaults \<inter> set compulsory_opts \<subseteq> {''username'', ''password''}"
    by (auto simp: get_config_defaults_def compulsory_opts_def)
  with ps show ?thesis by (intro exI[of _ "map (\<lambda>n. n @ '': '') ps"]) auto
qed

end
