(* ===== verification/StartSpec.thy ===== *)
theory StartSpec
  imports TlsSpec SslAlt SslPatch ImapStart ImapShell
begin

text \<open>
  The properties of what imapclient puts in place before a session: replaced attributes of modules and
  their originals, the replaced line reader, the names of a certificate from its extensions, and the
  client of the interactive shell.
\<close>

section \<open>Replacing attributes\<close>

text \<open>
  C15: Whatever has been patched or removed, whether or not the calls raised: the original of every attribute
  a module at the top had at the start is still found, and setting the attribute to it restores it.
\<close>
theorem originals_found:
  assumes "wd_saved w0 = Map.empty" and "list_all2 (\<lambda>a v. attribute w0 m a = Some v) as vs"
    and "CHR ''.'' \<notin> set m"
  shows "get_original m as (fold run_patch ps w0) = (Inr vs, fold run_patch ps w0)
    \<and> list_all2 (\<lambda>a v. attribute (patch_item m a v (fold run_patch ps w0)) m a = Some v) as vs"
proof
  have start: "originals_kept w0 w0" using assms(1) by (simp add: originals_kept_def original_def saved_item_def)
  from get_original_kept[OF run_patches_kept[OF start] assms(2,3)]
  show "get_original m as (fold run_patch ps w0) = (Inr vs, fold run_patch ps w0)" .
  have same: "dom (wd_modules (fold run_patch ps w0)) = dom (wd_modules w0)"
    using run_patches_kept[OF start, of ps] by (simp add: originals_kept_def)
  have "attribute (patch_item m a v (fold run_patch ps w0)) m a = Some v" if "attribute w0 m a = Some v" for a v
  proof -
    have "wd_modules (fold run_patch ps w0) m \<noteq> None" using attribute_module[OF that] same by blast
    then show ?thesis by (simp add: patch_item_attribute)
  qed
  then show "list_all2 (\<lambda>a v. attribute (patch_item m a v (fold run_patch ps w0)) m a = Some v) as vs"
    using assms(2) by (auto intro: list_all2_mono)
qed

definition sample_world :: "(bytes \<rightharpoonup> int) option \<Rightarrow> nat world" where
  \<comment> \<open>the module ssl and the backport; the items of the backport are numbered 1\<close>
  "sample_world ossl =
     \<lparr>wd_modules = [''ssl'' \<mapsto> (\<lambda>a. if a = ''wrap_socket'' then Some (Item 0) else None),
        ''backports'' \<mapsto> [''ssl'' \<mapsto> IModule ''backports.ssl''], ''backports.ssl'' \<mapsto> [''core'' \<mapsto> IModule ''backports.ssl.core''],
        ''backports.ssl.core'' \<mapsto> (\<lambda>a. if a = ''__target__'' then Some (IStr ''ssl'')
           else if a = ''__implements__'' then Some (INames (implements ossl))
           else if a \<in> core_names ossl then Some (Item 1) else None)],
      wd_saved = Map.empty\<rparr>"

theorem originals_found_witness:
  "get_original ''ssl'' [''wrap_socket''] (fold run_patch
      [PatchItem ''ssl'' ''wrap_socket'' (Item 5), RemoveItem ''ssl'' ''wrap_socket'', PatchModule ''core'' None]
      (sample_world None))
   = (Inr [Item 0], fold run_patch
      [PatchItem ''ssl'' ''wrap_socket'' (Item 5), RemoveItem ''ssl'' ''wrap_socket'', PatchModule ''core'' None]
      (sample_world None))"
proof -
  have "wd_saved (sample_world None) = Map.empty"
    "list_all2 (\<lambda>a v. attribute (sample_world None) ''ssl'' a = Some v) [''wrap_socket''] [Item 0]"
    by (simp_all add: sample_world_def attribute_def)
  moreover have "CHR ''.'' \<notin> set ''ssl''" by simp
  ultimately show ?thesis using originals_found[of "sample_world None" "''ssl''" "[''wrap_socket'']" "[Item 0]"] by blast
qed

definition backport_ready :: "(bytes \<rightharpoonup> int) option \<Rightarrow> bytes \<Rightarrow> bytes \<Rightarrow> 'a world \<Rightarrow> bool" where
  \<comment> \<open>core.py is imported as module \<open>core\<close> of \<open>ssl\<close>, and the standard module is there\<close>
  "backport_ready ossl ssl core w \<longleftrightarrow>
     wd_modules w ''ssl'' \<noteq> None \<and> core \<noteq> ''ssl''
     \<and> attribute w ''backports'' ''ssl'' = Some (IModule ssl) \<and> attribute w ssl ''core'' = Some (IModule core)
     \<and> attribute w core ''__target__'' = Some (IStr ''ssl'')
     \<and> attribute w core ''__implements__'' = Some (INames (implements ossl))
     \<and> (\<forall>a\<in>core_names ossl. attribute w core a \<noteq> None) \<and> (\<forall>a\<in>set (implements ossl) - core_names ossl. attribute w core a = None)"

lemma patch_steps:
  "backport_ready ossl ssl core w \<Longrightarrow> patch w = patch_items ''ssl'' core (implements ossl) w"
proof -
  assume ready: "backport_ready ossl ssl core w"
  then have "wd_modules w ''backports'' \<noteq> None" unfolding backport_ready_def by (blast dest: attribute_module)
  with ready show ?thesis
    by (auto simp: patch_def patch_module_def backport_ready_def bindE_def import_module_def getattrE_def)
qed

text \<open>
  With pyOpenSSL, patching gives the module ssl the attributes of the backport that core.py declares and
  changes no other attribute of any module. Without it core.py still declares the four attributes it has
  deleted: patching raises when it comes to them and leaves three attributes replaced.
\<close>
theorem patch_replaces_declared:
  assumes "backport_ready ossl ssl core w"
  shows "let replaced = (if ossl = None then {''SSLError'', ''CertificateError'', ''match_hostname''} else set (implements ossl))
    in \<exists>w'. patch w = (if ossl = None then Inl (AttributeError ''SSLSocket'') else Inr (), w')
      \<and> (\<forall>m a. attribute w' m a = (if m = ''ssl'' \<and> a \<in> replaced then attribute w core a else attribute w m a))"
proof (cases ossl)
  case None
  let ?three = "[''SSLError'', ''CertificateError'', ''match_hostname'']"
  have names: "implements ossl = ?three @ [''SSLSocket'', ''SSLContext'', ''wrap_socket'', ''_fileobject'']"
    "core_names ossl = set ?three"
    by (auto simp: None implements_def core_names_def)
  with assms have "wd_modules w ''ssl'' \<noteq> None" "''ssl'' \<noteq> core" "\<forall>a\<in>set ?three. attribute w core a \<noteq> None"
    "attribute w core ''SSLSocket'' = None" by (auto simp: backport_ready_def)
  with patch_items_effect[of "''ssl''" core w ?three] obtain w' where
    w': "patch_items ''ssl'' core (implements ossl) w
        = patch_items ''ssl'' core [''SSLSocket'', ''SSLContext'', ''wrap_socket'', ''_fileobject''] w'"
    "\<forall>m a. attribute w' m a = (if m = ''ssl'' \<and> a \<in> set ?three then attribute w core a else attribute w m a)"
    unfolding names(1) by blast
  have "attribute w' core ''SSLSocket'' = None" using w'(2) \<open>''ssl'' \<noteq> core\<close> \<open>attribute w core ''SSLSocket'' = None\<close> by auto
  then have "patch w = (Inl (AttributeError ''SSLSocket''), w')"
    unfolding patch_steps[OF assms] w'(1) by (simp add: bindE_def getattrE_def)
  with w'(2) None show ?thesis by auto
next
  case (Some attrs)
  have "core_names ossl = set (implements ossl)" by (simp add: Some core_names_def)
  with assms have "wd_modules w ''ssl'' \<noteq> None" "''ssl'' \<noteq> core" "\<forall>a\<in>set (implements ossl). attribute w core a \<noteq> None"
    by (auto simp: backport_ready_def)
  from patch_items_effect[OF this(2,1,3), of "[]"] show ?thesis
    using Some by (auto simp: patch_steps[OF assms])
qed

theorem patch_replaces_declared_witness:
  "\<exists>w'. patch (sample_world None) = (Inl (AttributeError ''SSLSocket''), w')
     \<and> attribute w' ''ssl'' ''SSLError'' = Some (Item 1) \<and> attribute w' ''ssl'' ''wrap_socket'' = Some (Item 0)"
proof -
  have "backport_ready None ''backports.ssl'' ''backports.ssl.core'' (sample_world None)"
    by (auto simp: backport_ready_def sample_world_def attribute_def core_names_def implements_def)
  from patch_replaces_declared[OF this] show ?thesis
    by (auto simp: sample_world_def attribute_def core_names_def implements_def)
qed

section \<open>The replaced line reader\<close>



section \<open>The names of a certificate\<close>

text \<open>
  C19: From the extensions of the peer's certificate to the host: when wrapping a connected socket with the
  default context succeeds and the extensions give DNS names, one of the decoded \<open>subjectAltName\<close>
  extensions holds the name of the host, up to case, as a \<open>dNSName\<close>; names of other kinds and the subject
  do not count.
\<close>
theorem wrapped_host_in_extension:
  assumes "wrap_socket ossl p None host = (Inr s, shut)" and "pr_connected p = Inr True"
    and "certificate_of (Some decode) c exts = Inr (pr_x509 p)" and "x_alt_names (pr_x509 p) \<noteq> Some []"
  shows "\<exists>ext\<in>set exts. \<exists>ds ns v. ex_short_name ext = ''subjectAltName'' \<and> decode SubjectAltName (ex_data ext) = Inr ds
    \<and> Names ns \<in> set ds \<and> (''dNSName'', v) \<in> set ns \<and> py_lower v = py_lower host"
proof -
  obtain ctx where ctx: "create_default_context ossl None None None = Inr ctx" and s: "context_wrap_socket p ctx host = Inr s"
    using assms(1) by (auto simp: wrap_socket_def split: sum.splits pyexc.splits)
  have "sc_check_hostname ctx" using default_context_fields[OF ctx] by simp
  with s assms(2) have "match_hostname (Some (getpeercert (pr_x509 p))) host = Inr ()"
    by (auto simp: context_wrap_socket_def new_ssl_socket_def do_handshake_def Let_def outcome split: if_splits)
  from match_hostname_names[OF this] obtain v where v: "v \<in> set (certificate_names (pr_x509 p))" "py_lower v = py_lower host" by blast
  from assms(3) obtain names where names: "get_subject_alt_name decode exts = Inr names" "x_alt_names (pr_x509 p) = Some names"
    unfolding certificate_of_def by (auto simp: sbind_Inr_iff) (metis x509.select_convs(6) x509.surjective x509.update_convs(6))
  with assms(4) v(1) have "v \<in> set names" by (cases names) (auto simp: certificate_names_def)
  with extension_loop_names[of decode exts "[]" names v] names(1) v(2) show ?thesis
    by (auto simp: get_subject_alt_name_def)
qed

definition sample_decoder :: der_decoder where
  "sample_decoder t b = (if b = ''x'' then Inr [Names [(''rfc822Name'', ''a@b''), (''dNSName'', ''Mail.example.org'')], OtherValue] else Inl (ValueError b))"

theorem wrapped_host_in_extension_witness:
  "\<exists>ext\<in>{\<lparr>ex_short_name = ''keyUsage'', ex_data = ''y''\<rparr>, \<lparr>ex_short_name = ''subjectAltName'', ex_data = ''x''\<rparr>}.
     \<exists>ds ns v. ex_short_name ext = ''subjectAltName'' \<and> sample_decoder SubjectAltName (ex_data ext) = Inr ds
    \<and> Names ns \<in> set ds \<and> (''dNSName'', v) \<in> set ns \<and> py_lower v = py_lower ''mail.example.org''"
proof -
  let ?p = "sample_peer [''Mail.example.org'']"
  let ?exts = "[\<lparr>ex_short_name = ''keyUsage'', ex_data = ''y''\<rparr>, \<lparr>ex_short_name = ''subjectAltName'', ex_data = ''x''\<rparr>]"
  have "\<exists>s. wrap_socket sample_ossl ?p None ''mail.example.org'' = (Inr s, False)"
    by (simp add: wrap_socket_def create_default_context_def Let_def truthy_bytes_def sample_ossl_def sample_peer_def
        context_wrap_socket_def new_ssl_socket_def do_handshake_def match_hostname_def getpeercert_def dnsname_match_def py_lower_def
        lower_char_def CERT_REQUIRED_def CERT_NONE_def char_of_def bit_0)
  then obtain s where w: "wrap_socket sample_ossl ?p None ''mail.example.org'' = (Inr s, False)" by blast
  have "certificate_of (Some sample_decoder) (pr_x509 ?p) ?exts = Inr (pr_x509 ?p)"
    by (simp add: certificate_of_def get_subject_alt_name_def sample_decoder_def sample_peer_def)
  from wrapped_host_in_extension[OF w _ this] show ?thesis by (auto simp: sample_peer_def)
qed

section \<open>The interactive client\<close>

text \<open>
  The client of the interactive shell, when no configuration file is named: it is logged in, with the
  user name and the password of the command line or, where one is missing, an answer of the user; nothing
  else is asked for, so without a host it connects to one called None.
\<close>
theorem shell_client:
  assumes "fill_options get_config_defaults (parsed_options o1) t = (Inr opts, t')" and "so_file o1 = None"
    and "create_client_from_config ossl sr (conf_of opts) Map.empty = (Inr cl, down, cache)"
  shows "fst (command_line parse_file o1 [] t) = Inr (conf_of opts) \<and> im_state (cl_imap cl) = ''AUTH'' \<and> \<not> down
    \<and> cf_host (conf_of opts) = so_host o1 \<and> cf_port (conf_of opts) = so_port o1 \<and> cf_ssl (conf_of opts) = so_ssl o1
    \<and> (\<exists>u\<in>(case so_username o1 of Some u \<Rightarrow> {u} | None \<Rightarrow> set (te_answers t)). cf_username (conf_of opts) = Some u)
    \<and> (\<exists>p\<in>(case so_password o1 of Some p \<Rightarrow> {p} | None \<Rightarrow> set (te_answers t)). cf_password (conf_of opts) = Some p)
    \<and> (\<exists>ps. te_prompts t' = te_prompts t @ ps \<and> set ps \<subseteq> {''username: '', ''password: ''})"
proof -
  note options = shell_options[OF assms(1)] and prompts = shell_prompts[OF assms(1)]
  have "\<not> cf_stream (conf_of opts)"
    using options by (simp add: conf_of_def as_bool_def)
  with config_client_state[of "conf_of opts" ossl sr Map.empty] assms(3)
  have "im_state (cl_imap cl) = ''AUTH''" "\<not> down" by simp_all
  moreover have "fst (command_line parse_file o1 [] t) = Inr (conf_of opts)"
    using assms(1,2) by (simp add: command_line_def truthy_bytes_def bindE_def)
  moreover have "cf_host (conf_of opts) = so_host o1" "cf_port (conf_of opts) = so_port o1" "cf_ssl (conf_of opts) = so_ssl o1"
    using options by (simp_all add: conf_of_def as_str_def as_int_def as_bool_def opt_str_def split: option.split)
  moreover have "\<exists>u\<in>(case so_username o1 of Some u \<Rightarrow> {u} | None \<Rightarrow> set (te_answers t)). cf_username (conf_of opts) = Some u"
    "\<exists>p\<in>(case so_password o1 of Some p \<Rightarrow> {p} | None \<Rightarrow> set (te_answers t)). cf_password (conf_of opts) = Some p"
    using options by (auto simp: conf_of_def as_str_def)
  ultimately show ?thesis using prompts by blast
qed

definition sample_opts :: shell_opts where
  "sample_opts = \<lparr>so_host = Some ''h'', so_username = None, so_password = Some ''p'', so_port = None, so_ssl = False, so_file = None\<rparr>"

theorem shell_client_witness:
  "\<exists>conf cl t'. command_line (\<lambda>_. Inr sample_conf) sample_opts [] \<lparr>te_answers = [''u''], te_prompts = [], te_printed = []\<rparr> = (Inr conf, t')
     \<and> cf_host conf = Some ''h'' \<and> cf_username conf = Some ''u''
     \<and> fst (create_client_from_config sample_ossl sample_surroundings conf Map.empty) = Inr cl \<and> im_state (cl_imap cl) = ''AUTH''"
proof -
  let ?t = "\<lparr>te_answers = [''u''], te_prompts = [], te_printed = []\<rparr>"
  have "\<exists>opts t'. fill_options get_config_defaults (parsed_options sample_opts) ?t = (Inr opts, t') \<and> conf_of opts = sample_conf"
    by (simp add: get_config_defaults_def parsed_options_def sample_opts_def compulsory_opts_def default_option_def getpass_def
      opt_str_def bindE_def Let_def conf_of_def as_str_def as_int_def as_bool_def sample_conf_def)
  then obtain opts t' where f: "fill_options get_config_defaults (parsed_options sample_opts) ?t = (Inr opts, t')"
    and c: "conf_of opts = sample_conf" by blast
  obtain cl cache where m: "create_client_from_config sample_ossl sample_surroundings (conf_of opts) Map.empty = (Inr cl, False, cache)"
    unfolding c using sample_client_made by blast
  have o1: "so_file sample_opts = None" by (simp add: sample_opts_def)
  from shell_client[OF f o1 m, of "\<lambda>_. Inr sample_conf"] f m show ?thesis
    by (intro exI[of _ "conf_of opts"] exI[of _ cl] exI[of _ t'])
      (simp add: sample_opts_def command_line_def truthy_bytes_def bindE_def)
qed

end
