(* ===== verification/MsgFile.thy ===== *)
theory MsgFile
  imports ImapCmd OleFile
begin

text \<open>
  msg_parser.py: Outlook message files. A \<open>Message\<close> is an OLE file with four attributes that are set the
  first time they are asked for; a property that raises leaves the object as it is at that point. The
  parser of mail headers and the date functions of the standard library are parameters. Text is a
  \<open>pystr\<close>: the streams of the file hold byte strings or UTF-16.
\<close>

section \<open>Streams and strings\<close>

type_synonym headers = "bytes \<Rightarrow> pystr option"

record attachment =
  at_longFilename :: "pystr option"
  at_shortFilename :: "pystr option"
  at_data :: "bytes option"

record message =
  ms_ole :: ole
  ms_header :: "headers option option"
  ms_sender :: "pystr option option"
  ms_to :: "pystr option option"
  ms_cc :: "pystr option option"
  ms_attachments :: "attachment list option"
    \<comment> \<open>\<open>None\<close> while the attribute does not exist\<close>

fun utf16le_strict :: "bytes \<Rightarrow> pyexc + nat list" where
  \<comment> \<open>\<open>unicode(string, 'utf_16_le')\<close>, code points\<close>
  "utf16le_strict [] = Inr []"
| "utf16le_strict [a] = Inl (UnicodeError ''truncated data'')"
| "utf16le_strict (a # b # rest) =
     (let u = i8 a + 256 * i8 b in
      if u < 0xD800 \<or> 0xDFFF < u then sbind (utf16le_strict rest) (\<lambda>us. Inr (u # us))
      else (case rest of
        c # d # rest' \<Rightarrow>
          (let v = i8 c + 256 * i8 d in
           if u \<le> 0xDBFF \<and> 0xDC00 \<le> v \<and> v \<le> 0xDFFF
           then sbind (utf16le_strict rest') (\<lambda>us. Inr ((0x10000 + (u - 0xD800) * 0x400 + (v - 0xDC00)) # us))
           else Inl (UnicodeError ''illegal UTF-16 surrogate''))
      | _ \<Rightarrow> Inl (UnicodeError ''unexpected end of data'')))"

definition windowsUnicode :: "bytes option \<Rightarrow> pyexc + pystr option" where
  "windowsUnicode string = (case string of
     None \<Rightarrow> Inr None | Some b \<Rightarrow> sbind (utf16le_strict b) (\<lambda>u. Inr (Some (Uni u))))"

definition oleE :: "(ole, 'a) act \<Rightarrow> (message, 'a) act" where
  "oleE m ms = (case m (ms_ole ms) of (r, s) \<Rightarrow> (r, ms\<lparr>ms_ole := s\<rparr>))"

definition getStream :: "path \<Rightarrow> (message, bytes option) act" where
  "getStream filename = withE (\<lambda>ms.
     if ole_exists (ms_ole ms) filename
     then bindE (oleE (openstream filename)) (\<lambda>stream. retE (Some (contents stream)))
     else retE None)"

definition prefer_string :: "bool \<Rightarrow> pystr option \<Rightarrow> pystr option \<Rightarrow> pystr option" where
  "prefer_string prefer_unicode asciiVersion unicodeVersion =
     (case asciiVersion of
        None \<Rightarrow> unicodeVersion
      | Some a \<Rightarrow> (case unicodeVersion of
          None \<Rightarrow> asciiVersion
        | Some u \<Rightarrow> if prefer_unicode then unicodeVersion else asciiVersion))"

definition getStringStream :: "bytes \<Rightarrow> (message, pystr option) act" where
  \<comment> \<open>with \<open>prefer='unicode'\<close>; a list of names has been joined with slashes\<close>
  "getStringStream filename =
     bindE (getStream (PStr (filename @ ''001E''))) (\<lambda>asciiVersion.
     bindE (bindE (getStream (PStr (filename @ ''001F''))) (\<lambda>b. liftE (windowsUnicode b))) (\<lambda>unicodeVersion.
     retE (prefer_string True (map_option Str asciiVersion) unicodeVersion)))"

section \<open>Attachments\<close>

definition new_attachment :: "bytes \<Rightarrow> (message, attachment) act" where
  "new_attachment dir =
     bindE (getStringStream (py_join ''/'' [dir, ''__substg1.0_3707''])) (\<lambda>l.
     bindE (getStringStream (py_join ''/'' [dir, ''__substg1.0_3704''])) (\<lambda>s.
     bindE (getStream (PList [dir, ''__substg1.0_37010102''])) (\<lambda>d.
     retE \<lparr>at_longFilename = l, at_shortFilename = s, at_data = d\<rparr>)))"

definition attachment_save :: "bytes \<Rightarrow> attachment \<Rightarrow> pystr" where
  \<comment> \<open>\<open>chosen\<close>: the five characters \<open>random.choice\<close> picks\<close>
  "attachment_save chosen a =
     (case at_longFilename a of
        Some n \<Rightarrow> n
      | None \<Rightarrow> (case at_shortFilename a of
          Some n \<Rightarrow> n
        | None \<Rightarrow> Str (''UnknownFilename '' @ chosen @ ''.bin'')))"

fun attachment_dirs :: "bytes list list \<Rightarrow> bytes list \<Rightarrow> pyexc + bytes list" where
  "attachment_dirs [] dirs = Inr dirs"
| "attachment_dirs ([] # paths) dirs = Inl (IndexError ''list index out of range'')"
| "attachment_dirs ((d # ds) # paths) dirs =
     attachment_dirs paths (if starts_with ''__attach'' d \<and> d \<notin> set dirs then dirs @ [d] else dirs)"

fun append_attachments :: "bytes list \<Rightarrow> (message, attachment list) act" where
  \<comment> \<open>\<open>self._attachments\<close> exists, and grows, while the loop runs\<close>
  "append_attachments [] = withE (\<lambda>ms. retE (case ms_attachments ms of None \<Rightarrow> [] | Some as \<Rightarrow> as))"
| "append_attachments (d # dirs) =
     bindE (new_attachment d) (\<lambda>a.
     bindE (modE (\<lambda>ms. ms\<lparr>ms_attachments := Some ((case ms_attachments ms of None \<Rightarrow> [] | Some as \<Rightarrow> as) @ [a])\<rparr>)) (\<lambda>_.
     append_attachments dirs))"

definition attachments :: "nat \<Rightarrow> (message, attachment list) act" where
  \<comment> \<open>\<open>fuel\<close> is the recursion limit, for \<open>listdir\<close>\<close>
  "attachments fuel = withE (\<lambda>ms.
     case ms_attachments ms of
       Some as \<Rightarrow> retE as
     | None \<Rightarrow>
         bindE (oleE (listdir fuel True False)) (\<lambda>paths.
         bindE (liftE (attachment_dirs paths [])) (\<lambda>dirs.
         bindE (modE (\<lambda>ms. ms\<lparr>ms_attachments := Some []\<rparr>)) (\<lambda>_. append_attachments dirs))))"

section \<open>Properties of a message\<close>

definition msg_subject :: "(message, pystr option) act" where
  "msg_subject = getStringStream ''__substg1.0_0037''"

definition msg_body :: "(message, pystr option) act" where
  "msg_body = getStringStream ''__substg1.0_1000''"

definition msg_header :: "(pystr \<Rightarrow> headers) \<Rightarrow> (message, headers option) act" where
  "msg_header parsestr = withE (\<lambda>ms.
     case ms_header ms of
       Some h \<Rightarrow> retE h
     | None \<Rightarrow>
         bindE (getStringStream ''__substg1.0_007D'') (\<lambda>headerText.
         let h = map_option parsestr headerText in
         bindE (modE (\<lambda>ms. ms\<lparr>ms_header := Some h\<rparr>)) (\<lambda>_. retE h)))"

definition msg_date :: "(pystr \<Rightarrow> headers) \<Rightarrow> (message, pystr option) act" where
  "msg_date parsestr =
     bindE (msg_header parsestr) (\<lambda>h. retE (case h of None \<Rightarrow> None | Some hs \<Rightarrow> hs ''date''))"

definition msg_parsedDate :: "(pystr \<Rightarrow> headers) \<Rightarrow> (pystr option \<Rightarrow> int list option) \<Rightarrow> (message, int list option) act" where
  "msg_parsedDate parsestr parsedate = bindE (msg_date parsestr) (\<lambda>date. retE (parsedate date))"

definition header_field :: "(pystr \<Rightarrow> headers) \<Rightarrow> bytes \<Rightarrow> (message, pystr option) act" where
  \<comment> \<open>the part \<open>sender\<close>, \<open>to\<close> and \<open>cc\<close> start with\<close>
  "header_field parsestr name =
     bindE (msg_header parsestr) (\<lambda>h. retE (case h of None \<Rightarrow> None | Some hs \<Rightarrow> hs name))"

definition add_text :: "pystr \<Rightarrow> pystr \<Rightarrow> pyexc + pystr" where
  \<comment> \<open>\<open>a + b\<close>: a byte string is decoded when the other operand is text\<close>
  "add_text a b = (case (a, b) of
     (Str x, Str y) \<Rightarrow> Inr (Str (x @ y))
   | _ \<Rightarrow> sbind (to_unicode a) (\<lambda>u. sbind (to_unicode b) (\<lambda>v. Inr (Uni (u @ v)))))"

definition name_and_email :: "pystr option \<Rightarrow> pystr option \<Rightarrow> pyexc + pystr option" where
  "name_and_email name email = (case name of
     None \<Rightarrow> Inr email
   | Some t \<Rightarrow> (case email of
       None \<Rightarrow> Inr (Some t)
     | Some e \<Rightarrow> sbind (add_text t (Str '' <'')) (\<lambda>r. sbind (add_text r e) (\<lambda>r.
         sbind (add_text r (Str ''>'')) (\<lambda>r. Inr (Some r))))))"

definition msg_sender :: "(pystr \<Rightarrow> headers) \<Rightarrow> (message, pystr option) act" where
  "msg_sender parsestr = withE (\<lambda>ms.
     case ms_sender ms of
       Some r \<Rightarrow> retE r
     | None \<Rightarrow>
         bindE (header_field parsestr ''from'') (\<lambda>headerResult.
         if headerResult \<noteq> None then
           bindE (modE (\<lambda>ms. ms\<lparr>ms_sender := Some headerResult\<rparr>)) (\<lambda>_. retE headerResult)
         else
           bindE (getStringStream ''__substg1.0_0C1A'') (\<lambda>name.
           bindE (getStringStream ''__substg1.0_0C1F'') (\<lambda>email.
           bindE (liftE (name_and_email name email)) (\<lambda>result.
           bindE (modE (\<lambda>ms. ms\<lparr>ms_sender := Some result\<rparr>)) (\<lambda>_. retE result))))))"

definition msg_to :: "(pystr \<Rightarrow> headers) \<Rightarrow> (message, pystr option) act" where
  "msg_to parsestr = withE (\<lambda>ms.
     case ms_to ms of
       Some r \<Rightarrow> retE r
     | None \<Rightarrow>
         bindE (header_field parsestr ''to'') (\<lambda>headerResult.
         bindE (if headerResult \<noteq> None then retE headerResult else getStringStream ''__substg1.0_0E04'') (\<lambda>r.
         bindE (modE (\<lambda>ms. ms\<lparr>ms_to := Some r\<rparr>)) (\<lambda>_. retE r))))"

definition msg_cc :: "(pystr \<Rightarrow> headers) \<Rightarrow> (message, pystr option) act" where
  "msg_cc parsestr = withE (\<lambda>ms.
     case ms_cc ms of
       Some r \<Rightarrow> retE r
     | None \<Rightarrow>
         bindE (header_field parsestr ''cc'') (\<lambda>headerResult.
         bindE (if headerResult \<noteq> None then retE headerResult else getStringStream ''__substg1.0_0E03'') (\<lambda>r.
         bindE (modE (\<lambda>ms. ms\<lparr>ms_cc := Some r\<rparr>)) (\<lambda>_. retE r))))"

section \<open>save\<close>

function strip_tags :: "nat list \<Rightarrow> nat list" where
  \<comment> \<open>\<open>remove_tags\<close> on text\<close>
  "strip_tags [] = []"
| "strip_tags (c # cs) =
     (if c = 0x3C \<and> 0x3E \<in> set cs \<and> takeWhile (\<lambda>x. x \<noteq> 0x3E) cs \<noteq> []
      then 0x20 # strip_tags (tl (dropWhile (\<lambda>x. x \<noteq> 0x3E) cs))
      else c # strip_tags cs)"
  by pat_completeness auto
termination
proof (relation "measure length")
  show "(tl (dropWhile (\<lambda>x. x \<noteq> 0x3E) cs), c # cs) \<in> measure length" for c and cs :: "nat list"
    using length_dropWhile_le[of "\<lambda>x. x \<noteq> 0x3E" cs] by simp
qed auto

fun strip_crlf :: "nat list \<Rightarrow> nat list" where
  "strip_crlf (x # y # cs) =
     (if x = 0x0D \<and> y = 0x0A then 0x20 # strip_crlf cs else x # strip_crlf (y # cs))"
| "strip_crlf s = s"

definition strip_eol :: "nat list \<Rightarrow> nat list" where
  \<comment> \<open>\<open>remove_eol\<close> on text\<close>
  "strip_eol s = map (\<lambda>c. if c \<in> {0x0D, 0x09, 0x0A} then 0x20 else c) (strip_crlf s)"

definition xstr :: "pystr option \<Rightarrow> pyexc + bytes" where
  \<comment> \<open>\<open>'' if s is None else str(s)\<close>\<close>
  "xstr s = (case s of None \<Rightarrow> Inr [] | Some t \<Rightarrow> to_bytes t)"

definition get_timestamp :: "(bytes \<Rightarrow> 'd option) \<Rightarrow> ('d \<Rightarrow> pyexc + int) \<Rightarrow> bytes \<Rightarrow> pyexc + int" where
  \<comment> \<open>\<open>mktime_tz(parsedate_tz(string_date))\<close>; indexing \<open>None\<close> fails\<close>
  "get_timestamp parsedate_tz mktime_tz string_date =
     (case parsedate_tz string_date of
        None \<Rightarrow> Inl (TypeError ''NoneType object has no attribute __getitem__'') | Some tt \<Rightarrow> mktime_tz tt)"

definition body_text :: "pystr option \<Rightarrow> pystr list \<Rightarrow> pyexc + nat list" where
  \<comment> \<open>\<open>remove_eol(remove_tags(decode_utf7(self.body)) + " " + " ".join(attachmentNames))\<close>\<close>
  "body_text body names =
     (case body of
        None \<Rightarrow> Inl (TypeError ''expected string or buffer'')
      | Some b \<Rightarrow>
          sbind (case b of Str s \<Rightarrow> imap_decode s | Uni u \<Rightarrow> Inr u) (\<lambda>u.
          sbind (sequence (map to_unicode names)) (\<lambda>ns.
          Inr (strip_eol (strip_tags u @ [0x20] @ py_join [0x20] ns)))))"

definition dir_subject :: "pystr option \<Rightarrow> pystr" where
  "dir_subject subject =
     (let forbidden = [CHR 0x5C, CHR ''/'', CHR '':'', CHR ''*'', CHR ''?'', CHR 0x22, CHR ''<'', CHR ''>'', CHR ''|''] in
      case subject of
        None \<Rightarrow> Str ''[No subject]''
      | Some (Str s) \<Rightarrow> Str (filter (\<lambda>c. c \<notin> set forbidden) s)
      | Some (Uni u) \<Rightarrow> Uni (filter (\<lambda>c. c \<notin> of_char ` set forbidden) u))"

definition dir_name :: "int list option \<Rightarrow> pystr \<Rightarrow> pyexc + pystr" where
  \<comment> \<open>from the fields of the date, the first five being year, month, day, hour and minute, none of them negative\<close>
  "dir_name d subject =
     sbind (case d of
         None \<Rightarrow> Inr ''UnknownDate''
       | Some (y # mo # da # h # mi # _) \<Rightarrow>
           Inr (two_digits y @ ''-'' @ two_digits mo @ ''-'' @ two_digits da @ ''_'' @ two_digits h @ two_digits mi)
       | Some _ \<Rightarrow> Inl (IndexError ''tuple index out of range'')) (\<lambda>date.
     add_text (Str (date @ '' '')) subject)"

record saved =
  sv_from_author :: bytes
  sv_from_mail :: bytes
  sv_to_author :: bytes
  sv_to_mail :: bytes
  sv_subject :: bytes
  sv_date :: int
  sv_body :: "nat list"

record 'd mail_lib =
  parsestr :: "pystr \<Rightarrow> headers"
  lib_parsedate :: "pystr option \<Rightarrow> int list option"
  lib_parsedate_tz :: "bytes \<Rightarrow> 'd option"
  lib_mktime_tz :: "'d \<Rightarrow> pyexc + int"

definition file_dir_name :: "bytes \<Rightarrow> pystr" where
  \<comment> \<open>\<open>filename.split('/').pop().split('.')[0]\<close>\<close>
  "file_dir_name filename = Str (hd (py_split (CHR ''.'') (last (py_split (CHR ''/'') filename))))"

definition save_dir :: "'d mail_lib \<Rightarrow> bytes option \<Rightarrow> (message, pystr) act" where
  \<comment> \<open>the name of the directory; \<open>addNumToDir\<close> creates nothing and returns it\<close>
  "save_dir lib use_file_name =
     (case use_file_name of
        Some filename \<Rightarrow> retE (file_dir_name filename)
      | None \<Rightarrow>
          bindE (msg_parsedDate (parsestr lib) (lib_parsedate lib)) (\<lambda>d.
          bindE msg_subject (\<lambda>subject.
          liftE (dir_name d (dir_subject subject)))))"

definition msg_save :: "'d mail_lib \<Rightarrow> bytes option \<Rightarrow> nat \<Rightarrow> (nat \<Rightarrow> bytes) \<Rightarrow> (message, saved) act" where
  \<comment> \<open>\<open>save\<close> up to the final \<open>json.dumps\<close>. \<open>use_file_name\<close>: the global \<open>filename\<close> when the script was given
    \<open>--use-file-name\<close>; \<open>chosen i\<close>: what \<open>random\<close> picks for the \<open>i\<close>-th attachment\<close>
  "msg_save lib use_file_name fuel chosen =
     bindE (save_dir lib use_file_name) (\<lambda>dirName.
     bindE (attachments fuel) (\<lambda>as.
     let attachmentNames = map (\<lambda>i. attachment_save (chosen i) (as ! i)) [0..<length as] in
     bindE (msg_sender (parsestr lib)) (\<lambda>sender.
     bindE (liftE (xstr sender)) (\<lambda>from.
     let (from_author, from_mail) = format_mail from in
     bindE (msg_cc (parsestr lib)) (\<lambda>cc.
     bindE (liftE (sbind (xstr cc) (\<lambda>c. Inr (py_strip c)))) (\<lambda>cc.
     bindE (msg_to (parsestr lib)) (\<lambda>to.
     bindE (liftE (xstr to)) (\<lambda>to.
     let (to_author, to_mail) = format_mail (if length cc = 0 then to else to @ '', '' @ cc) in
     bindE (bindE msg_subject (\<lambda>s. liftE (xstr s))) (\<lambda>subject.
     bindE (msg_date (parsestr lib)) (\<lambda>date.
     bindE (liftE (sbind (xstr date) (get_timestamp (lib_parsedate_tz lib) (lib_mktime_tz lib)))) (\<lambda>t.
     bindE msg_body (\<lambda>body.
     bindE (liftE (body_text body attachmentNames)) (\<lambda>b.
     retE \<lparr>sv_from_author = from_author, sv_from_mail = from_mail, sv_to_author = to_author,
       sv_to_mail = to_mail, sv_subject = subject, sv_date = t, sv_body = b\<rparr>)))))))))))))"

section \<open>saveRaw\<close>

definition properties :: "(bytes \<times> bytes) list" where
  "properties =
    [(''001A'', ''Message class''),
     (''0037'', ''Subject''),
     (''003D'', ''Subject prefix''),
     (''0040'', ''Received by name''),
     (''0042'', ''Sent repr name''),
     (''0044'', ''Rcvd repr name''),
     (''004D'', ''Org author name''),
     (''0050'', ''Reply rcipnt names''),
     (''005A'', ''Org sender name''),
     (''0064'', ''Sent repr adrtype''),
     (''0065'', ''Sent repr email''),
     (''0070'', ''Topic''),
     (''0075'', ''Rcvd by adrtype''),
     (''0076'', ''Rcvd by email''),
     (''0077'', ''Repr adrtype''),
     (''0078'', ''Repr email''),
     (''007d'', ''Message header''),
     (''0C1A'', ''Sender name''),
     (''0C1E'', ''Sender adr type''),
     (''0C1F'', ''Sender email''),
     (''0E02'', ''Display BCC''),
     (''0E03'', ''Display CC''),
     (''0E04'', ''Display To''),
     (''0E1D'', ''Subject (normalized)''),
     (''0E28'', ''Recvd account1 (uncertain)''),
     (''0E29'', ''Recvd account2 (uncertain)''),
     (''1000'', ''Message body''),
     (''1008'', ''RTF sync body tag''),
     (''1035'', ''Message ID (uncertain)''),
     (''1046'', ''Sender email (uncertain)''),
     (''3001'', ''Display name''),
     (''3002'', ''Address type''),
     (''3003'', ''Email address''),
     (''39FE'', ''7-bit email (uncertain)''),
     (''39FF'', ''7-bit display name''),
     (''3701'', ''Attachment data''),
     (''3703'', ''Attachment extension''),
     (''3704'', ''Attachment short filename''),
     (''3707'', ''Attachment long filename''),
     (''370E'', ''Attachment mime tag''),
     (''3712'', ''Attachment ID (uncertain)''),
     (''3A00'', ''Account''),
     (''3A02'', ''Callback phone no''),
     (''3A05'', ''Generation''),
     (''3A06'', ''Given name''),
     (''3A08'', ''Business phone''),
     (''3A09'', ''Home phone''),
     (''3A0A'', ''Initials''),
     (''3A0B'', ''Keyword''),
     (''3A0C'', ''Language''),
     (''3A0D'', ''Location''),
     (''3A11'', ''Surname''),
     (''3A15'', ''Postal address''),
     (''3A16'', ''Company name''),
     (''3A17'', ''Title''),
     (''3A18'', ''Department''),
     (''3A19'', ''Office location''),
     (''3A1A'', ''Primary phone''),
     (''3A1B'', ''Business phone 2''),
     (''3A1C'', ''Mobile phone''),
     (''3A1D'', ''Radio phone no''),
     (''3A1E'', ''Car phone no''),
     (''3A1F'', ''Other phone''),
     (''3A20'', ''Transmit dispname''),
     (''3A21'', ''Pager''),
     (''3A22'', ''User certificate''),
     (''3A23'', ''Primary Fax''),
     (''3A24'', ''Business Fax''),
     (''3A25'', ''Home Fax''),
     (''3A26'', ''Country''),
     (''3A27'', ''Locality''),
     (''3A28'', ''State/Province''),
     (''3A29'', ''Street address''),
     (''3A2A'', ''Postal Code''),
     (''3A2B'', ''Post Office Box''),
     (''3A2C'', ''Telex''),
     (''3A2D'', ''ISDN''),
     (''3A2E'', ''Assistant phone''),
     (''3A2F'', ''Home phone 2''),
     (''3A30'', ''Assistant''),
     (''3A44'', ''Middle name''),
     (''3A45'', ''Dispname prefix''),
     (''3A46'', ''Profession''),
     (''3A48'', ''Spouse name''),
     (''3A4B'', ''TTYTTD radio phone''),
     (''3A4C'', ''FTP site''),
     (''3A4E'', ''Manager name''),
     (''3A4F'', ''Nickname''),
     (''3A51'', ''Business homepage''),
     (''3A57'', ''Company main phone''),
     (''3A58'', ''Childrens names''),
     (''3A59'', ''Home City''),
     (''3A5A'', ''Home Country''),
     (''3A5B'', ''Home Postal Code''),
     (''3A5C'', ''Home State/Provnce''),
     (''3A5D'', ''Home Street''),
     (''3A5F'', ''Other adr City''),
     (''3A60'', ''Other adr Country''),
     (''3A61'', ''Other adr PostCode''),
     (''3A62'', ''Other adr Province''),
     (''3A63'', ''Other adr Street''),
     (''3A64'', ''Other adr PO box''),
     (''3FF7'', ''Server (uncertain)''),
     (''3FF8'', ''Creator1 (uncertain)''),
     (''3FFA'', ''Creator2 (uncertain)''),
     (''3FFC'', ''To email (uncertain)''),
     (''403D'', ''To adrtype (uncertain)''),
     (''403E'', ''To email (uncertain)''),
     (''5FF6'', ''To (uncertain)'')]"

definition last_seg :: "bytes list \<Rightarrow> bytes" where
  "last_seg ns = (if ns = [] then [] else last ns)"

definition raw_dir :: "bytes list \<Rightarrow> bytes" where
  \<comment> \<open>the directory for a stream: its path, with the name of its property; \<open>dir_[-1][-8:-4]\<close>\<close>
  "raw_dir path =
     (let n = last_seg path; tail = drop (length n - 8) n; code = take (length tail - min 4 (length tail)) tail in
      py_join ''/'' path @ (case map_of properties code of None \<Rightarrow> [] | Some p \<Rightarrow> '' - '' @ p))"

definition raw_file :: "bytes list \<Rightarrow> bytes" where
  "raw_file path = (if ends_with ''001E'' (last_seg path) then ''contents.txt'' else ''contents'')"

type_synonym raw_state = "message \<times> bytes set \<times> (bytes \<times> bytes \<times> bytes) list"
  \<comment> \<open>with the message, the directories below \<open>raw\<close>, and the files written: directory, name, contents\<close>

definition parents :: "bytes \<Rightarrow> bytes set" where
  "parents d = {take i d | i. i < length d \<and> d ! i = CHR ''/''}"

definition makedirs :: "bytes \<Rightarrow> (raw_state, unit) act" where
  \<comment> \<open>\<open>os.makedirs\<close>: the missing parents, then the directory, which must not be there\<close>
  "makedirs d =
     bindE (getE (\<lambda>(ms, dirs, written). d \<in> dirs)) (\<lambda>there.
     bindE (whenE there (raiseE (OSError ''File exists''))) (\<lambda>_.
     modE (\<lambda>(ms, dirs, written). (ms, insert d (parents d \<union> dirs), written))))"

definition raw_entry :: "bytes list \<Rightarrow> (raw_state, unit) act" where
  "raw_entry path =
     bindE (whenE (path = []) (raiseE (IndexError ''list index out of range''))) (\<lambda>_.
     bindE (makedirs (raw_dir path)) (\<lambda>_.
     bindE (on_object (getStream (PList path))) (\<lambda>d.
     case d of
       None \<Rightarrow> raiseE (TypeError ''must be string or buffer, not None'')
     | Some b \<Rightarrow> modE (\<lambda>(ms, dirs, written). (ms, dirs, written @ [(raw_dir path, raw_file path, b)])))))"

fun raw_entries :: "bytes list list \<Rightarrow> (raw_state, unit) act" where
  "raw_entries [] = retE ()"
| "raw_entries (path # paths) = bindE (raw_entry path) (\<lambda>_. raw_entries paths)"

definition saveRaw :: "nat \<Rightarrow> bool \<Rightarrow> (raw_state, unit) act" where
  \<comment> \<open>\<open>there\<close>: the folder \<open>raw\<close> is there already. The names are taken to be plain file names\<close>
  "saveRaw fuel there =
     bindE (whenE there (raiseE (OSError ''File exists''))) (\<lambda>_.
     bindE (on_object (oleE (listdir fuel True False))) raw_entries)"

section \<open>What is remembered, and what comes out\<close>

lemma oleE_fields: "oleE m ms = (r, ms') \<Longrightarrow>
    ms_header ms' = ms_header ms \<and> ms_sender ms' = ms_sender ms \<and> ms_to ms' = ms_to ms \<and> ms_cc ms' = ms_cc ms"
  by (auto simp: oleE_def split: prod.splits)

definition keeps_header :: "headers option option \<Rightarrow> message \<Rightarrow> bool" where
  "keeps_header h ms \<longleftrightarrow> ms_header ms = h"

lemma getStringStream_header: "keeps (keeps_header h) (getStringStream f)"
proof -
  have ole: "keeps (keeps_header h) (oleE m)" for m :: "(ole, 'b) act"
    by (simp add: keeps_def keeps_header_def oleE_def split: prod.splits)
  have "keeps (keeps_header h) (getStream p)" for p
    unfolding getStream_def by (auto intro!: keeps_basic keeps_bindE keeps_withE ole)
  then show ?thesis unfolding getStringStream_def by (auto intro!: keeps_basic keeps_bindE)
qed

lemma msg_header_known: "msg_header p ms = (Inr h, ms') \<Longrightarrow> ms_header ms' = Some h"
  by (auto simp: msg_header_def Let_def outcome split: option.splits)

lemma msg_sender_known: "msg_sender p ms = (Inr r, ms') \<Longrightarrow> ms_sender ms' = Some r"
  by (auto simp: msg_sender_def outcome split: option.splits if_splits)

lemma msg_sender_again: "ms_sender ms = Some r \<Longrightarrow> msg_sender p ms = (Inr r, ms)"
  by (simp add: msg_sender_def)

lemma attachment_dirs_spec:
  "attachment_dirs paths dirs = Inr ds \<Longrightarrow> distinct dirs \<Longrightarrow>
     distinct ds \<and> set ds = set dirs \<union> {d \<in> hd ` set paths. starts_with ''__attach'' d}"
proof (induction paths dirs rule: attachment_dirs.induct)
  case (3 d ds' paths dirs)
  then show ?case by (cases "starts_with ''__attach'' d \<and> d \<notin> set dirs") auto
qed simp_all

text \<open>On byte strings read as text the two functions are those of MailText.\<close>

lemma of_char_eq: "(of_char c :: nat) = of_char d \<longleftrightarrow> c = d"
  by (rule inj_eq[OF inj_of_char])

lemmas char_codes = of_char_eq[of _ "CHR 0x0D", simplified] of_char_eq[of _ "CHR 0x0A", simplified]
  of_char_eq[of _ "CHR 0x09", simplified] of_char_eq[of _ "CHR ''<''", simplified] of_char_eq[of _ "CHR ''>''", simplified]

lemma strip_crlf_char: "strip_crlf (map of_char s) = map of_char (replace_pair (CHR 0x0D) (CHR 0x0A) (CHR '' '') s)"
proof (induction s rule: induct_list012)
  case (3 x y cs)
  then show ?case by (simp add: char_codes)
qed simp_all

lemma strip_eol_char: "strip_eol (map of_char s) = map of_char (remove_eol s)"
proof -
  have rc: "replace_char a b t = map (\<lambda>c. if c = a then b else c) t" for a b t
    by (induction t) auto
  show ?thesis
    by (simp add: strip_eol_def strip_crlf_char remove_eol_def Let_def rc char_codes comp_def)
qed

lemma strip_tags_char: "strip_tags (map of_char s) = map of_char (remove_tags s)"
proof (induction s rule: remove_tags.induct)
  case 1
  then show ?case by simp
next
  case (2 c cs)
  have gt: "(\<lambda>x. x \<noteq> (62 :: nat)) \<circ> of_char = (\<lambda>x. x \<noteq> CHR ''>'')" by (auto simp: char_codes)
  have "(0x3E :: nat) \<in> set (map of_char cs) \<longleftrightarrow> CHR ''>'' \<in> set cs" by (auto simp: char_codes image_iff eq_commute[of 62])
  moreover have "takeWhile (\<lambda>x. x \<noteq> (0x3E :: nat)) (map of_char cs) = map of_char (takeWhile (\<lambda>x. x \<noteq> CHR ''>'') cs)"
    "dropWhile (\<lambda>x. x \<noteq> (0x3E :: nat)) (map of_char cs) = map of_char (dropWhile (\<lambda>x. x \<noteq> CHR ''>'') cs)"
    by (simp_all add: takeWhile_map dropWhile_map gt)
  ultimately show ?case using 2 by (simp add: char_codes map_tl)
qed

lemma strip_eol_clean: "set (strip_eol s) \<inter> {0x0D, 0x09, 0x0A} = {}"
  by (auto simp: strip_eol_def)

lemma body_text_clean: "body_text body names = Inr t \<Longrightarrow> set t \<inter> {0x0D, 0x09, 0x0A} = {}"
  using strip_eol_clean by (auto simp: body_text_def outcome split: option.splits)

lemma decode_loop_plain:
  "CHR ''&'' \<notin> set s \<Longrightarrow> decode_loop [] (s @ r) = sbind (decode_loop [] r) (\<lambda>us. Inr (map of_char s @ us))"
proof (induction s)
  case Nil
  then show ?case by (cases "decode_loop [] r") simp_all
next
  case (Cons c s)
  then have "c \<noteq> CHR ''&''" by auto
  with Cons show ?case by (cases "decode_loop [] r") simp_all
qed

lemma decode_loop_open:
  "CHR ''-'' \<notin> set t \<Longrightarrow> buf \<noteq> [] \<Longrightarrow> decode_loop buf t = modified_deutf7 (tl (buf @ t))"
  by (induction t arbitrary: buf) auto

lemma imap_decode_ampersand:
  assumes "CHR ''&'' \<notin> set s" and "CHR ''-'' \<notin> set t"
  shows "imap_decode (s @ CHR ''&'' # t) = sbind (modified_deutf7 t) (\<lambda>us. Inr (map of_char s @ us))"
  using assms by (simp add: imap_decode_def decode_loop_plain decode_loop_open)

end
