(* ===== verification/OleDump.thy ===== *)
theory OleDump
  imports OleFile OleProps PyText
begin

text \<open>
  What olefile.py prints: the dumps of the directory, the metadata and the FAT, and the script at the end of
  the file. Standard output is the text printed so far; a method that raises leaves what it has printed.
  How a date is written is a parameter, and the debugging messages of the option \<open>-d\<close> are left out.
\<close>

section \<open>Text\<close>

fun hex_of :: "nat \<Rightarrow> bytes" where
  \<comment> \<open>\<open>%X\<close>\<close>
  "hex_of n = (if n < 16 then [hex_digit n] else hex_of (n div 16) @ [hex_digit (n mod 16)])"

declare hex_of.simps [simp del]

definition printE :: "bytes \<Rightarrow> (bytes, unit) act" where
  "printE t = modE (\<lambda>out. out @ t)"

definition hex8 :: "nat \<Rightarrow> bytes" where
  \<comment> \<open>\<open>%8X\<close>\<close>
  "hex8 n = (let h = hex_of n in replicate (8 - length h) (CHR '' '') @ h)"

record dates =
  da_str :: "nat \<Rightarrow> bytes"
  da_repr :: "nat \<Rightarrow> bytes"

definition repr_value :: "dates \<Rightarrow> propval \<Rightarrow> bytes" where
  "repr_value da v =
     (case v of PNone \<Rightarrow> ''None'' | PInt n \<Rightarrow> dec_int n | PBytes b \<Rightarrow> py_repr b
      | PBool b \<Rightarrow> (if b then ''True'' else ''False'') | PTime t \<Rightarrow> da_repr da t)"

definition str_value :: "dates \<Rightarrow> propval \<Rightarrow> bytes" where
  "str_value da v = (case v of PBytes b \<Rightarrow> b | PTime t \<Rightarrow> da_str da t | _ \<Rightarrow> repr_value da v)"

section \<open>Entries of the directory\<close>

definition dirent_eq :: "dirent \<Rightarrow> dirent \<Rightarrow> bool" where
  \<comment> \<open>\<open>__eq__\<close>\<close>
  "dirent_eq a b \<longleftrightarrow> de_name a = de_name b"

definition dirent_lt :: "dirent \<Rightarrow> dirent \<Rightarrow> bool" where
  "dirent_lt a b \<longleftrightarrow> de_name a < de_name b"

definition dirent_ne :: "dirent \<Rightarrow> dirent \<Rightarrow> bool" where
  "dirent_ne a b \<longleftrightarrow> \<not> dirent_eq a b"

definition dirent_le :: "dirent \<Rightarrow> dirent \<Rightarrow> bool" where
  "dirent_le a b \<longleftrightarrow> dirent_eq a b \<or> dirent_lt a b"

definition TYPES :: "bytes list" where
  "TYPES = [''(invalid)'', ''(storage)'', ''(stream)'', ''(lockbytes)'', ''(property)'', ''(root)'']"

definition entry_text :: "nat \<Rightarrow> dirent \<Rightarrow> bytes" where
  \<comment> \<open>what is printed of the entry itself, its type being one of those named\<close>
  "entry_text tab d =
     replicate tab (CHR '' '') @ py_repr (de_name d) @ '' '' @ TYPES ! de_entry_type d @ '' ''
     @ (if de_entry_type d \<in> {STGTY_STREAM, STGTY_ROOT} then dec (de_size d) @ '' bytes '' else [])
     @ NEWLINE
     @ (if de_entry_type d \<in> {STGTY_STORAGE, STGTY_ROOT} \<and> de_clsid d \<noteq> []
        then replicate tab (CHR '' '') @ [CHR 0x7B] @ de_clsid d @ [CHR 0x7D] @ NEWLINE else [])"

fun dump_entry :: "nat \<Rightarrow> ole \<Rightarrow> nat \<Rightarrow> nat \<Rightarrow> (bytes, unit) act"
and dump_kids :: "nat \<Rightarrow> ole \<Rightarrow> nat \<Rightarrow> nat list \<Rightarrow> (bytes, unit) act" where
  \<comment> \<open>\<open>_OleDirectoryEntry.dump\<close>; the first argument is the recursion limit\<close>
  "dump_entry 0 s tab sid = raiseE (RuntimeError ''maximum recursion depth exceeded'')"
| "dump_entry (Suc fuel) s tab sid =
     (case entry_of s sid of
        None \<Rightarrow> raiseE (AttributeError ''NoneType'')
      | Some d \<Rightarrow>
          if length TYPES \<le> de_entry_type d then raiseE (IndexError ''list index out of range'')
          else bindE (printE (entry_text tab d)) (\<lambda>_. dump_kids fuel s (tab + 2) (de_kids d)))"
| "dump_kids fuel s tab [] = retE ()"
| "dump_kids fuel s tab (k # ks) = bindE (dump_entry fuel s tab k) (\<lambda>_. dump_kids fuel s tab ks)"

definition dumpdirectory :: "nat \<Rightarrow> ole \<Rightarrow> (bytes, unit) act" where
  "dumpdirectory fuel s = dump_entry fuel s 0 0"

section \<open>Tables\<close>

definition VPL :: nat where "VPL = 8"

definition table_head :: bytes where
  "table_head = ''index '' @ concat (map (\<lambda>i. hex8 i @ '' '') [0..<VPL]) @ NEWLINE"

definition table_lines :: "(nat \<Rightarrow> bytes) \<Rightarrow> nat \<Rightarrow> nat \<Rightarrow> bytes" where
  \<comment> \<open>\<open>cell\<close>: what is printed at an index; the lines of a table of \<open>n\<close> cells\<close>
  "table_lines cell n firstindex =
     concat (map (\<lambda>l. let index = l * VPL in
         hex8 (firstindex + index) @ '': '' @ concat (map (\<lambda>i. cell i @ '' '') [index..<min (index + VPL) n]) @ NEWLINE)
       [0..<(n + VPL - 1) div VPL])"

definition fat_cell :: "nat list \<Rightarrow> nat \<Rightarrow> bytes" where
  "fat_cell fat i =
     (let sect = fat ! i in
      case map_of [(FREESECT, ''..free..''), (ENDOFCHAIN, ''[ END. ]''), (FATSECT, ''FATSECT ''), (DIFSECT, ''DIFSECT '')] sect of
        Some name \<Rightarrow> name
      | None \<Rightarrow> if sect = i + 1 then ''    --->'' else hex8 sect)"

definition dumpfat :: "bool \<Rightarrow> nat list \<Rightarrow> nat \<Rightarrow> bytes" where
  \<comment> \<open>\<open>debug_mode\<close>: the global \<open>DEBUG_MODE\<close>\<close>
  "dumpfat debug_mode fat firstindex =
     (if debug_mode then table_head @ table_lines (fat_cell fat) (length fat) firstindex else [])"

definition dumpsect :: "bool \<Rightarrow> bytes \<Rightarrow> nat \<Rightarrow> pyexc + bytes" where
  "dumpsect debug_mode sector firstindex =
     (if \<not> debug_mode then Inr []
      else sbind (sect2array sector) (\<lambda>tab.
        Inr (table_head @ table_lines (\<lambda>i. hex8 (tab ! i)) (length tab) firstindex)))"

section \<open>Metadata\<close>

definition dump_attribs :: "dates \<Rightarrow> string list \<Rightarrow> metadata \<Rightarrow> bytes" where
  "dump_attribs da attribs m = concat (map (\<lambda>a. ''- '' @ a @ '': '' @ repr_value da (m a) @ NEWLINE) attribs)"

definition metadata_dump :: "dates \<Rightarrow> metadata \<Rightarrow> bytes" where
  "metadata_dump da m =
     ''Properties from SummaryInformation stream:'' @ NEWLINE @ dump_attribs da SUMMARY_ATTRIBS m
     @ ''Properties from DocumentSummaryInformation stream:'' @ NEWLINE @ dump_attribs da DOCSUM_ATTRIBS m"

section \<open>The script\<close>

record console =
  co_ole :: ole
  co_out :: bytes

definition out :: "bytes \<Rightarrow> (console, unit) act" where
  \<comment> \<open>\<open>print\<close> of a line\<close>
  "out t = modE (\<lambda>c. c\<lparr>co_out := co_out c @ t @ NEWLINE\<rparr>)"

definition on_ole :: "(ole, 'a) act \<Rightarrow> (console, 'a) act" where
  "on_ole m c = (case m (co_ole c) of (r, s) \<Rightarrow> (r, c\<lparr>co_ole := s\<rparr>))"

definition on_out :: "(bytes, unit) act \<Rightarrow> (console, unit) act" where
  "on_out m c = (case m (co_out c) of (r, t) \<Rightarrow> (r, c\<lparr>co_out := t\<rparr>))"

definition binary_bytes :: "nat set" where
  "binary_bytes = {1..7} \<union> {11, 12} \<union> {14..31}"

definition shown_value :: "dates \<Rightarrow> propval \<Rightarrow> bytes" where
  \<comment> \<open>byte strings are cut to 50 bytes and hidden when they look binary\<close>
  "shown_value da v =
     (case v of
        PBytes b \<Rightarrow> let b = take 50 b in if \<exists>c\<in>set b. i8 c \<in> binary_bytes then ''(binary data)'' else b
      | _ \<Rightarrow> str_value da v)"

definition show_properties :: "dates \<Rightarrow> bytes list \<Rightarrow> (console, unit) act" where
  "show_properties da streamname =
     (if last streamname = [] then raiseE (IndexError ''string index out of range'')
      else if hd (last streamname) \<noteq> CHR 0x05 then retE ()
      else bindE (out (repr_list streamname @ '' : properties'')) (\<lambda>_.
           bindE (on_ole (getproperties (PList streamname) True [])) (\<lambda>props.
           each (\<lambda>k. out (''    '' @ '' '' @ dec k @ '' '' @ shown_value da (props_get props k)))
             (sorted_list_of_set (dom props)))))"

definition check_stream :: "bytes list \<Rightarrow> (console, unit) act" where
  "check_stream streamname =
     bindE (on_out (printE (''- '' @ py_repr (py_join ''/'' streamname) @ '' - ''))) (\<lambda>_.
     withE (\<lambda>c. let st_type = get_type (co_ole c) (PList streamname) in
       if st_type = STGTY_STREAM then
         bindE (liftE (get_size (co_ole c) (PList streamname))) (\<lambda>n.
         bindE (out (''size '' @ dec n)) (\<lambda>_.
         bindE (on_ole (openstream (PList streamname))) (\<lambda>_. retE ())))
       else out (''NOT a stream : type='' @ dec st_type)))"

definition time_text :: "dates \<Rightarrow> nat option \<Rightarrow> bytes" where
  "time_text da t = (case t of None \<Rightarrow> ''None'' | Some t \<Rightarrow> da_str da t)"

definition show_times :: "dates \<Rightarrow> dirent option \<Rightarrow> (console, unit) act" where
  "show_times da entry =
     (case entry of
        None \<Rightarrow> retE ()
      | Some d \<Rightarrow>
          bindE (liftE (dirent_getmtime d)) (\<lambda>m.
          bindE (liftE (dirent_getctime d)) (\<lambda>c.
          out (''- '' @ de_name d @ '': mtime='' @ time_text da m @ '' ctime='' @ time_text da c))))"

definition exc_text :: "pyexc \<Rightarrow> bytes" where
  \<comment> \<open>the class of an issue and its message; issues are recorded as \<open>IOError\<close> or what a property set raised\<close>
  "exc_text e =
     (case e of
        IOError m \<Rightarrow> ''IOError: '' @ m | IndexError m \<Rightarrow> ''IndexError: '' @ m | TypeError m \<Rightarrow> ''TypeError: '' @ m
      | UnboundLocalError m \<Rightarrow> ''UnboundLocalError: '' @ m | _ \<Rightarrow> ''Exception: '')"

definition show_word :: "(console, unit) act" where
  "show_word = withE (\<lambda>c.
     if \<not> ole_exists (co_ole c) (PStr ''worddocument'') then retE ()
     else bindE (out ''This is a Word document.'') (\<lambda>_.
          bindE (out (''type of stream 'WordDocument': '' @ dec (get_type (co_ole c) (PStr ''worddocument'')))) (\<lambda>_.
          bindE (liftE (get_size (co_ole c) (PStr ''worddocument''))) (\<lambda>n.
          bindE (out (''size : '' @ dec n)) (\<lambda>_.
          if ole_exists (co_ole c) (PStr ''macros/vba'') then out ''This document may contain VBA macros.'' else retE ())))))"

definition show_file :: "nat \<Rightarrow> dates \<Rightarrow> bool \<Rightarrow> bytes \<Rightarrow> (console, unit) act" where
  \<comment> \<open>the body of the loop over the files, once the file is open; the first argument is the recursion limit\<close>
  "show_file limit da check_streams filename =
     bindE (out (replicate 68 (CHR ''-''))) (\<lambda>_.
     bindE (out filename) (\<lambda>_.
     bindE (out (replicate 68 (CHR ''-''))) (\<lambda>_.
     bindE (withE (\<lambda>c. on_out (dumpdirectory limit (co_ole c)))) (\<lambda>_.
     bindE (on_ole (listdir limit True False)) (\<lambda>names.
     bindE (each (show_properties da) names) (\<lambda>_.
     bindE (if check_streams then
              bindE (out (NEWLINE @ ''Checking streams...'')) (\<lambda>_.
              bindE (on_ole (listdir limit True False)) (\<lambda>names.
              bindE (each check_stream names) (\<lambda>_. out [])))
            else retE ()) (\<lambda>_.
     bindE (out ''Modification/Creation times of all directory entries:'') (\<lambda>_.
     bindE (withE (\<lambda>c. each (show_times da) (direntries (co_ole c)))) (\<lambda>_.
     bindE (out []) (\<lambda>_.
     bindE (on_ole get_metadata) (\<lambda>meta.
     bindE (on_out (printE (metadata_dump da meta))) (\<lambda>_.
     bindE (out []) (\<lambda>_.
     bindE (withE (\<lambda>c. liftE (get_rootentry_name (co_ole c)))) (\<lambda>root.
     bindE (out (''Root entry name: '' @ [CHR 0x22] @ root @ [CHR 0x22])) (\<lambda>_.
     bindE show_word (\<lambda>_.
     bindE (out (NEWLINE @ ''Non-fatal issues raised during parsing:'')) (\<lambda>_.
     withE (\<lambda>c. if parsing_issues (co_ole c) = [] then out ''None''
       else each (\<lambda>e. out (''- '' @ exc_text e)) (parsing_issues (co_ole c))))))))))))))))))))"

fun main_loop :: "(bytes \<Rightarrow> bytes option) \<Rightarrow> nat \<Rightarrow> dates \<Rightarrow> bytes list \<Rightarrow> bool \<Rightarrow> (bytes, unit) act" where
  \<comment> \<open>over the arguments; the state is what has been printed\<close>
  "main_loop fs limit da [] check_streams = retE ()"
| "main_loop fs limit da (filename # args) check_streams =
     (if filename = ''-d'' then main_loop fs limit da args check_streams
      else if filename = ''-c'' then main_loop fs limit da args True
      else bindE (liftE (OleFileIO_init fs limit (Some (ByteStr filename)) DEFECT_FATAL False)) (\<lambda>s.
           bindE (\<lambda>t. case show_file limit da check_streams filename \<lparr>co_ole = s, co_out = t\<rparr> of (r, c) \<Rightarrow> (r, co_out c)) (\<lambda>_.
           main_loop fs limit da args check_streams)))"

definition olefile_main :: "(bytes \<Rightarrow> bytes option) \<Rightarrow> nat \<Rightarrow> dates \<Rightarrow> bytes \<Rightarrow> bytes list \<Rightarrow> (bytes, unit) act" where
  \<comment> \<open>\<open>usage\<close>: the text printed without arguments\<close>
  "olefile_main fs limit da usage args =
     (if args = [] then bindE (printE usage) (\<lambda>_. raiseE (RuntimeError ''SystemExit'')) else main_loop fs limit da args False)"

section \<open>Lemmas\<close>

lemma dirent_order:
  "dirent_le a b \<or> dirent_le b a" "dirent_le a b \<Longrightarrow> dirent_le b c \<Longrightarrow> dirent_le a c"
  "dirent_le a b \<and> dirent_le b a \<longleftrightarrow> dirent_eq a b" "dirent_lt a b \<longleftrightarrow> dirent_le a b \<and> dirent_ne a b"
  by (auto simp: dirent_le_def dirent_lt_def dirent_eq_def dirent_ne_def)

end
