(* ===== verification/MsgTool.thy ===== *)
theory MsgTool
  imports MsgFile OleDump EmlFile Rtf
begin

text \<open>
  The scripts around the three mail parsers: the command lines of msg_parser.py, eml_parser.py and
  rtf2txt.py, and the two methods of \<open>Message\<close> that only print. What a script prints is a list of lines.
  Reading files, \<open>glob\<close>, \<open>json.dumps\<close> and the encoding of standard output are parameters.
\<close>

section \<open>Printing\<close>

definition hex_digits :: "nat \<Rightarrow> nat \<Rightarrow> bytes" where
  "hex_digits n v = map (\<lambda>i. hex_lower (v div 16 ^ (n - 1 - i) mod 16)) [0..<n]"

definition repr_point :: "nat \<Rightarrow> nat \<Rightarrow> bytes" where
  \<comment> \<open>a code point of \<open>repr\<close> of text, \<open>q\<close> being the quotation mark\<close>
  "repr_point q u =
     (if u < 128 then repr_char (char_of q) (char_of u)
      else if u < 256 then [CHR 0x5C, CHR ''x''] @ hex_digits 2 u
      else if u < 65536 then [CHR 0x5C, CHR ''u''] @ hex_digits 4 u
      else [CHR 0x5C, CHR ''U''] @ hex_digits 8 u)"

definition repr_string :: "pystr option \<Rightarrow> bytes" where
  "repr_string s =
     (case s of
        None \<Rightarrow> ''None''
      | Some (Str b) \<Rightarrow> py_repr b
      | Some (Uni u) \<Rightarrow>
          (let q = (if 0x27 \<in> set u \<and> 0x22 \<notin> set u then 0x22 else 0x27) in
           ''u'' @ [char_of q] @ concat (map (repr_point q) u) @ [char_of q]))"

type_synonym 'c printing = "'c \<times> bytes list"

definition say :: "bytes \<Rightarrow> ('c printing, unit) act" where
  "say t = modE (\<lambda>(c, ls). (c, ls @ [t]))"

definition pair_line :: "bytes \<Rightarrow> pystr option \<Rightarrow> bytes" where
  \<comment> \<open>\<open>print('Subject:', x)\<close> is a statement that prints a pair\<close>
  "pair_line label v = ''('' @ py_repr label @ '', '' @ repr_string v @ '')''"

definition msg_dump :: "(pystr \<Rightarrow> headers) \<Rightarrow> (pystr option \<Rightarrow> pyexc + bytes) \<Rightarrow> (message printing, unit) act" where
  \<comment> \<open>\<open>shown\<close>: what printing a string writes\<close>
  "msg_dump p shown =
     bindE (say ''Message'') (\<lambda>_.
     bindE (on_object msg_subject) (\<lambda>subject.
     bindE (say (pair_line ''Subject:'' subject)) (\<lambda>_.
     bindE (on_object (msg_date p)) (\<lambda>date.
     bindE (say (pair_line ''Date:'' date)) (\<lambda>_.
     bindE (say ''Body:'') (\<lambda>_.
     bindE (on_object msg_body) (\<lambda>body.
     bindE (liftE (shown body)) say)))))))"

fun debug_dirs :: "bytes list list \<Rightarrow> (message printing, unit) act" where
  \<comment> \<open>the loop variable is \<open>dir_\<close>, but the body uses the built-in \<open>dir\<close>: \<open>exists\<close> catches that it is no
    path, so that \<open>_getStream\<close> returns \<open>None\<close>\<close>
  "debug_dirs [] = retE ()"
| "debug_dirs (dir # dirs) =
     bindE (if ends_with ''001E'' (last_seg dir) then
              bindE (say ''Directory: <built-in function dir>'')
                (\<lambda>_. raiseE (TypeError ''cannot concatenate 'str' and 'NoneType' objects''))
            else retE ()) (\<lambda>_. debug_dirs dirs)"

definition msg_debug :: "nat \<Rightarrow> (message printing, unit) act" where
  "msg_debug fuel = bindE (on_object (oleE (listdir fuel True False))) debug_dirs"

section \<open>msg_parser.py\<close>

definition Message_init :: "(bytes \<Rightarrow> bytes option) \<Rightarrow> nat \<Rightarrow> bytes \<Rightarrow> pyexc + message" where
  "Message_init fs limit filename =
     sbind (OleFileIO_init fs limit (Some (ByteStr filename)) DEFECT_FATAL False) (\<lambda>s.
     Inr \<lparr>ms_ole = s, ms_header = None, ms_sender = None, ms_to = None, ms_cc = None, ms_attachments = None\<rparr>)"

record 'd msg_env =
  me_fs :: "bytes \<Rightarrow> bytes option"
  me_limit :: nat
  me_lib :: "'d mail_lib"
  me_chosen :: "bytes \<Rightarrow> nat \<Rightarrow> bytes"
  me_dumps :: "saved \<Rightarrow> pyexc + bytes"
  me_glob :: "bytes \<Rightarrow> bytes list"
  me_format_exc :: "pyexc \<Rightarrow> bytes"

definition message_line :: "'d msg_env \<Rightarrow> bool \<Rightarrow> bytes \<Rightarrow> message \<Rightarrow> bytes" where
  \<comment> \<open>what is printed for a message that has been opened: its JSON, or the error\<close>
  "message_line env use_file_name filename ms =
     (case sbind (fst (msg_save (me_lib env) (if use_file_name then Some filename else None) (me_limit env)
          (me_chosen env filename) ms)) (me_dumps env) of
        Inr j \<Rightarrow> j
      | Inl e \<Rightarrow> ''Error with file '' @ [CHR 0x27] @ filename @ [CHR 0x27] @ '': '' @ me_format_exc env e)"

fun msg_files :: "'d msg_env \<Rightarrow> bool \<Rightarrow> bytes list \<Rightarrow> (bytes list, unit) act" where
  "msg_files env use_file_name [] = retE ()"
| "msg_files env use_file_name (filename # names) =
     bindE (liftE (Message_init (me_fs env) (me_limit env) filename)) (\<lambda>ms.
     bindE (modE (\<lambda>ls. ls @ [message_line env use_file_name filename ms])) (\<lambda>_.
     msg_files env use_file_name names))"

fun msg_args :: "'d msg_env \<Rightarrow> bool \<Rightarrow> bytes list \<Rightarrow> (bytes list, unit) act" where
  "msg_args env use_file_name [] = retE ()"
| "msg_args env use_file_name (raw # args) =
     (let use_file_name = (use_file_name \<or> raw = ''--use-file-name'') in
      bindE (msg_files env use_file_name (me_glob env raw)) (\<lambda>_. msg_args env use_file_name args))"

definition msg_main :: "'d msg_env \<Rightarrow> bytes list \<Rightarrow> bytes list \<Rightarrow> (bytes list, unit) act" where
  \<comment> \<open>\<open>usage\<close>: the lines of the help\<close>
  "msg_main env usage args =
     (if args = [] then bindE (modE (\<lambda>ls. ls @ usage)) (\<lambda>_. raiseE (RuntimeError ''SystemExit''))
      else msg_args env False args)"

section \<open>eml_parser.py and rtf2txt.py\<close>

definition open_read :: "(bytes \<Rightarrow> bytes option) \<Rightarrow> bytes \<Rightarrow> pyexc + bytes" where
  "open_read fs name = (case fs name of None \<Rightarrow> Inl (IOError ''No such file or directory'') | Some b \<Rightarrow> Inr b)"

definition eml_main :: "(bytes \<Rightarrow> bytes option) \<Rightarrow> (bytes \<Rightarrow> bytes \<Rightarrow> pyexc + eml_msg) \<Rightarrow> (eml_msg \<Rightarrow> pyexc + bytes) \<Rightarrow>
    bytes list \<Rightarrow> pyexc + bytes" where
  \<comment> \<open>\<open>extract\<close>: \<open>eml_extract\<close> with the library; what is printed\<close>
  "eml_main fs extract dumps args =
     (case args of
        [] \<Rightarrow> Inl (IndexError ''list index out of range'')
      | name # _ \<Rightarrow> sbind (open_read fs name) (\<lambda>f. sbind (extract f name) dumps))"

definition print_piece :: "(nat list \<Rightarrow> pyexc + bytes) \<Rightarrow> piece \<Rightarrow> pyexc + bytes" where
  "print_piece encode p = (case p of PB b \<Rightarrow> Inr b | PU u \<Rightarrow> encode u)"

definition rtf_main :: "(bytes \<Rightarrow> bytes option) \<Rightarrow> nat \<Rightarrow> (nat list \<Rightarrow> pyexc + bytes) \<Rightarrow> bytes \<Rightarrow> pyexc + bytes" where
  \<comment> \<open>\<open>input\<close>: the value of \<open>--input\<close>; \<open>encode\<close>: the encoding of standard output\<close>
  "rtf_main fs maxunicode encode input =
     sbind (open_read fs input) (\<lambda>d. sbind (striprtf maxunicode d) (print_piece encode))"

section \<open>One line for each file\<close>

lemma msg_files_append:
  "msg_files env u (as @ bs) = bindE (msg_files env u as) (\<lambda>_. msg_files env u bs)"
  by (induction as) simp_all

definition opened :: "'d msg_env \<Rightarrow> bytes \<Rightarrow> pyexc + message" where
  "opened env filename = Message_init (me_fs env) (me_limit env) filename"

definition file_line :: "'d msg_env \<Rightarrow> bool \<Rightarrow> bytes \<Rightarrow> bytes" where
  "file_line env use_file_name f = message_line env use_file_name f (projr (opened env f))"

lemma msg_files_result:
  "msg_files env u names ls =
     (case dropWhile (\<lambda>f. \<not> isl (opened env f)) names of [] \<Rightarrow> Inr () | f # _ \<Rightarrow> Inl (projl (opened env f)),
      ls @ map (file_line env u) (takeWhile (\<lambda>f. \<not> isl (opened env f)) names))"
proof (induction names arbitrary: ls)
  case (Cons f names)
  then show ?case by (cases "opened env f") (simp_all add: opened_def file_line_def bindE_def modE_def)
qed simp

lemma msg_args_plain:
  "''--use-file-name'' \<notin> set args \<Longrightarrow>
     msg_args env u args = msg_files env u (concat (map (me_glob env) args))"
proof (induction args)
  case (Cons a args)
  then have "(u \<or> a = ''--use-file-name'') = u" "''--use-file-name'' \<notin> set args" by auto
  with Cons.IH show ?case by (simp add: msg_files_append Let_def)
qed simp

end
