(* ===== verification/SnapCheck.thy ===== *)
theory SnapCheck
  imports ImapParse
begin

text \<open>
  check_snapreplica.py: whether the storage has snapshots or snapshot schedules, as an exit code. What
  the commands print is the parameter \<open>run\<close>, the parser of JSON the parameter \<open>loads\<close>. A query that
  meets data of another shape raises, and the model says where.
\<close>

section \<open>JSON values\<close>

datatype json = JNull | JBool bool | JInt int | JStr bytes | JList "json list" | JObj "(bytes \<times> json) list"

definition check_json_key :: "json \<Rightarrow> bytes \<Rightarrow> pyexc + bool" where
  "check_json_key data key =
     (case data of
        JNull \<Rightarrow> Inr False
      | JObj kvs \<Rightarrow> Inr (key \<in> fst ` set kvs)
      | JList vs \<Rightarrow> Inr (JStr key \<in> set vs)
      | JStr s \<Rightarrow> Inr (list_ex (\<lambda>i. starts_with key (drop i s)) [0..<Suc (length s)])
      | _ \<Rightarrow> Inl (TypeError ''argument is not iterable''))"

definition json_item :: "json \<Rightarrow> bytes \<Rightarrow> pyexc + json" where
  "json_item data key =
     (case data of
        JObj kvs \<Rightarrow> (case map_of kvs key of None \<Rightarrow> Inl (KeyError key) | Some v \<Rightarrow> Inr v)
      | _ \<Rightarrow> Inl (TypeError ''indices must be integers''))"

definition json_int :: "json \<Rightarrow> pyexc + int" where
  \<comment> \<open>\<open>int(v)\<close>\<close>
  "json_int v =
     (case v of
        JInt n \<Rightarrow> Inr n
      | JBool b \<Rightarrow> Inr (if b then 1 else 0)
      | JStr s \<Rightarrow> int_of_bytes s
      | _ \<Rightarrow> Inl (TypeError ''int() argument must be a string or a number''))"

definition json_false :: "json \<Rightarrow> bool" where
  \<comment> \<open>\<open>v == False\<close>\<close>
  "json_false v \<longleftrightarrow> v \<in> {JBool False, JInt 0}"

definition is_list :: "json \<Rightarrow> bool" where
  "is_list v \<longleftrightarrow> (case v of JList _ \<Rightarrow> True | _ \<Rightarrow> False)"

definition list_items :: "json \<Rightarrow> json list" where
  "list_items v = (case v of JList vs \<Rightarrow> vs | _ \<Rightarrow> [])"

section \<open>Shares\<close>

fun share_has_snapshot :: "(bytes list \<Rightarrow> bytes) \<Rightarrow> bytes list \<Rightarrow> pyexc + bool" where
  "share_has_snapshot run [] = Inr False"
| "share_has_snapshot run (share # shares) =
     sbind (int_of_bytes (py_strip (run [''synosharesnapshot'', ''snapcount'', ''get'', share]))) (\<lambda>snap_count.
     if snap_count > 0 then Inr True else share_has_snapshot run shares)"

fun share_has_schedule :: "(bytes list \<Rightarrow> bytes) \<Rightarrow> bytes list \<Rightarrow> bool" where
  "share_has_schedule run [] = False"
| "share_has_schedule run (share # shares) =
     (let sched_id = length (py_strip (run [''synosharesnapshot'', ''sched'', ''get_task_id'', share])) in
      if sched_id > 0 then True else share_has_schedule run shares)"

section \<open>LUNs\<close>

definition send_webapi :: "(bytes list \<Rightarrow> bytes) \<Rightarrow> (bytes \<Rightarrow> pyexc + json) \<Rightarrow> bytes \<Rightarrow> bytes \<Rightarrow> bytes \<Rightarrow> bytes list \<Rightarrow>
    pyexc + bool \<times> json" where
  "send_webapi run loads api meth ver params =
     sbind (loads (run ([''synowebapi'', ''--exec'', ''api='' @ api, ''method='' @ meth, ''version='' @ ver] @ params))) (\<lambda>resp.
     sbind (check_json_key resp ''success'') (\<lambda>has.
     if \<not> has then Inr (False, JNull)
     else sbind (json_item resp ''success'') (\<lambda>success.
       if json_false success then sbind (json_item resp ''error'') (\<lambda>e. Inr (False, e))
       else sbind (check_json_key resp ''data'') (\<lambda>d.
         if d then sbind (json_item resp ''data'') (\<lambda>v. Inr (True, v)) else Inr (True, JNull)))))"

definition list_luns :: "(bytes list \<Rightarrow> bytes) \<Rightarrow> (bytes \<Rightarrow> pyexc + json) \<Rightarrow> pyexc + bool \<times> json list" where
  "list_luns run loads =
     sbind (send_webapi run loads ''SYNO.Core.ISCSI.LUN'' ''list'' ''1'' []) (\<lambda>(ret, data).
     if \<not> ret then Inr (False, [])
     else sbind (check_json_key data ''luns'') (\<lambda>has.
       if \<not> has then Inr (False, [])
       else sbind (json_item data ''luns'') (\<lambda>luns.
         if \<not> is_list luns then Inr (False, []) else Inr (True, list_items luns))))"

fun any_sched :: "json list \<Rightarrow> pyexc + bool" where
  \<comment> \<open>the inner loop of \<open>lun_has_schedule\<close>\<close>
  "any_sched [] = Inr False"
| "any_sched (sched # scheds) =
     sbind (sbind (check_json_key sched ''general'') (\<lambda>g.
       if \<not> g then Inr False
       else sbind (json_item sched ''general'') (\<lambda>general.
         sbind (check_json_key general ''tid'') (\<lambda>t.
         if \<not> t then Inr False
         else sbind (json_item general ''tid'') (\<lambda>tid. sbind (json_int tid) (\<lambda>n. Inr (n > 0))))))) (\<lambda>found.
     if found then Inr True else any_sched scheds)"

definition dec_lid :: "int \<Rightarrow> bytes" where
  "dec_lid n = (if n < 0 then ''-'' else []) @ dec (nat \<bar>n\<bar>)"

fun any_lun :: "(bytes list \<Rightarrow> bytes) \<Rightarrow> (bytes \<Rightarrow> pyexc + json) \<Rightarrow> json list \<Rightarrow> pyexc + bool" where
  "any_lun run loads [] = Inr False"
| "any_lun run loads (lun # luns) =
     sbind (check_json_key lun ''lun_id'') (\<lambda>has.
     if \<not> has then any_lun run loads luns
     else sbind (sbind (json_item lun ''lun_id'') json_int) (\<lambda>lid.
       sbind (send_webapi run loads ''SYNO.Core.Storage.iSCSILUN'' ''load_sched_snapshot'' ''1'' [''lid='' @ dec_lid lid]) (\<lambda>(ret, data).
       if \<not> ret \<or> \<not> is_list data then any_lun run loads luns
       else sbind (any_sched (list_items data)) (\<lambda>found.
         if found then Inr True else any_lun run loads luns))))"

definition lun_has_schedule :: "(bytes list \<Rightarrow> bytes) \<Rightarrow> (bytes \<Rightarrow> pyexc + json) \<Rightarrow> pyexc + bool" where
  "lun_has_schedule run loads =
     sbind (list_luns run loads) (\<lambda>(list_lun_ret, luns).
     if \<not> list_lun_ret then Inr False else any_lun run loads luns)"

definition lun_has_snapshot :: "(bytes list \<Rightarrow> bytes) \<Rightarrow> (bytes \<Rightarrow> pyexc + json) \<Rightarrow> pyexc + bool" where
  "lun_has_snapshot run loads =
     sbind (send_webapi run loads ''SYNO.Core.ISCSI.LUN'' ''list_snapshot'' ''1'' []) (\<lambda>(ret, data).
     if \<not> ret then Inr False
     else sbind (check_json_key data ''count'') (\<lambda>has.
       if \<not> has then Inr False
       else sbind (sbind (json_item data ''count'') json_int) (\<lambda>snap_count. Inr (snap_count > 0))))"

section \<open>The exit code\<close>

definition enum_shares :: "(bytes list \<Rightarrow> bytes) \<Rightarrow> bytes list" where
  "enum_shares run =
     filter (\<lambda>x. length x > 0) (drop 2 (py_split (CHR 0x0A) (run [''synoshare'', ''--enum'', ''LOCAL''])))"

definition orE :: "pyexc + bool \<Rightarrow> pyexc + bool \<Rightarrow> pyexc + bool" where
  "orE a b = sbind a (\<lambda>x. if x then Inr True else b)"

definition snapreplica_main :: "(bytes list \<Rightarrow> bytes) \<Rightarrow> (bytes \<Rightarrow> pyexc + json) \<Rightarrow> pyexc + int" where
  "snapreplica_main run loads =
     (let shares = enum_shares run in
      sbind (orE (lun_has_snapshot run loads) (orE (lun_has_schedule run loads)
        (orE (share_has_snapshot run shares) (Inr (share_has_schedule run shares))))) (\<lambda>found.
      Inr (if found then 0 else -1)))"

section \<open>What the code says\<close>

definition snap_count_of :: "(bytes list \<Rightarrow> bytes) \<Rightarrow> bytes \<Rightarrow> pyexc + int" where
  "snap_count_of run share = int_of_bytes (py_strip (run [''synosharesnapshot'', ''snapcount'', ''get'', share]))"

lemma share_has_snapshot_counts:
  "\<forall>s\<in>set shares. \<exists>n. snap_count_of run s = Inr n \<Longrightarrow>
     share_has_snapshot run shares = Inr (\<exists>s\<in>set shares. \<exists>n>0. snap_count_of run s = Inr n)"
  by (induction shares) (auto simp: snap_count_of_def)

lemma share_has_schedule_iff:
  "share_has_schedule run shares \<longleftrightarrow>
     (\<exists>s\<in>set shares. py_strip (run [''synosharesnapshot'', ''sched'', ''get_task_id'', s]) \<noteq> [])"
  by (induction shares) auto

lemma snapreplica_main_zero:
  "snapreplica_main run loads = Inr 0 \<longleftrightarrow>
     lun_has_snapshot run loads = Inr True
     \<or> lun_has_snapshot run loads = Inr False \<and>
       (lun_has_schedule run loads = Inr True
        \<or> lun_has_schedule run loads = Inr False \<and>
          (share_has_snapshot run (enum_shares run) = Inr True
           \<or> share_has_snapshot run (enum_shares run) = Inr False \<and> share_has_schedule run (enum_shares run)))"
  by (auto simp: snapreplica_main_def Let_def orE_def outcome split: if_splits)

end
