(* ===== verification/OleReads.thy ===== *)
theory OleReads
  imports OleFile OleProps
begin

text \<open>
  What the methods of \<open>OleFileIO\<close> that only read leave behind: they load the ministream and its table when
  they first need them, and record defects. The locale states what it takes that nothing else is ever
  noticed; the methods satisfy it.
\<close>

section \<open>Calls that read\<close>

definition reads :: "('s \<Rightarrow> 's) \<Rightarrow> ('s \<Rightarrow> bool) \<Rightarrow> ('s, 'a) act \<Rightarrow> bool" where
  \<comment> \<open>from an \<open>ok\<close> object to an \<open>ok\<close> object with the same \<open>base\<close>; the result is the one the base gives\<close>
  "reads base ok m \<longleftrightarrow> (\<forall>s. ok s \<longrightarrow> ok (snd (m s)) \<and> base (snd (m s)) = base s \<and> fst (m s) = fst (m (base s)))"

locale reading =
  fixes base :: "'s \<Rightarrow> 's" and ok :: "'s \<Rightarrow> bool"
  assumes base_ok: "ok (base s)" and base_base: "base (base s) = base s"
begin

lemma basic: "reads base ok (retE x)" "reads base ok (raiseE e)" "reads base ok (liftE r)"
  by (simp_all add: reads_def)

lemma bind:
  assumes "reads base ok m" and "\<And>x. reads base ok (f x)"
  shows "reads base ok (bindE m f)"
  unfolding reads_def
proof (intro allI impI)
  fix s assume s: "ok s"
  obtain r t u where m: "m s = (r, t)" "m (base s) = (r, u)" "ok t" "ok u" "base t = base s" "base u = base s"
    using assms(1) s base_ok[of s] base_base[of s] unfolding reads_def by (metis prod.collapse)
  show "ok (snd (bindE m f s)) \<and> base (snd (bindE m f s)) = base s \<and> fst (bindE m f s) = fst (bindE m f (base s))"
  proof (cases r)
    case (Inl e)
    with m show ?thesis by (simp add: bindE_def)
  next
    case (Inr x)
    have "ok (snd (f x t)) \<and> base (snd (f x t)) = base t \<and> fst (f x t) = fst (f x (base t))" "fst (f x u) = fst (f x (base u))"
      using assms(2)[of x] m(3,4) unfolding reads_def by blast+
    with m Inr show ?thesis by (simp add: bindE_def)
  qed
qed

lemma guard: "reads base ok m \<Longrightarrow> reads base ok (whenE b m)"
  by (cases b) (simp_all add: basic)

lemma inspect: "(\<And>s. ok s \<Longrightarrow> f s = f (base s)) \<Longrightarrow> (\<And>s. reads base ok (f s)) \<Longrightarrow> reads base ok (withE f)"
  unfolding reads_def by simp

lemmas rules = basic bind guard inspect

lemma keeps_base: "reads base ok m \<Longrightarrow> keeps (\<lambda>s. ok s \<and> base s = b) m"
  by (simp add: keeps_def reads_def)

lemma same_answer: "reads base ok m \<Longrightarrow> ok s \<Longrightarrow> ok t \<Longrightarrow> base t = base s \<Longrightarrow> fst (m t) = fst (m s)"
  by (simp add: reads_def)

end

section \<open>The file\<close>

definition fresh :: "ole \<Rightarrow> ole" where
  \<comment> \<open>the file before anything has been read\<close>
  "fresh s = s\<lparr>ministream := map_option (\<lambda>_. None) (ministream s), ole_minifat := [], parsing_issues := []\<rparr>"

lemma fresh_simps [simp]:
  "raise_defects_level (fresh s) = raise_defects_level s" "ole_fp (fresh s) = ole_fp s" "sectorsize (fresh s) = sectorsize s"
  "minisectorsize (fresh s) = minisectorsize s" "minisectorcutoff (fresh s) = minisectorcutoff s" "ole_fat (fresh s) = ole_fat s"
  "csectMiniFat (fresh s) = csectMiniFat s" "minifatsect (fresh s) = minifatsect s" "direntries (fresh s) = direntries s"
  "ministream (fresh s) = map_option (\<lambda>_. None) (ministream s)" "fresh (fresh s) = fresh s"
  "root_entry (fresh s) = root_entry s" "entry_of (fresh s) = entry_of s"
  "fresh (s\<lparr>parsing_issues := is\<rparr>) = fresh s" "fresh (s\<lparr>ole_minifat := mf\<rparr>) = fresh s"
  by (simp_all add: fresh_def root_entry_def entry_of_def fun_eq_iff option.map_comp comp_def)

definition ministream_data :: "ole \<Rightarrow> pyexc + nat list \<times> ole_strm" where
  \<comment> \<open>the table and the ministream that loading finds\<close>
  "ministream_data s =
     sbind (root_entry s) (\<lambda>root.
     let n = (de_size root + (minisectorsize s - 1)) div minisectorsize s in
     sbind (if csectMiniFat s * sectorsize s < n * 4 \<and> raise_defects_level s \<le> DEFECT_INCORRECT
            then Inl (IOError ''OLE MiniStream is larger than MiniFAT'') else Inr ()) (\<lambda>_.
     sbind (ole_stream (ole_fp s) (minifatsect s) (csectMiniFat s * sectorsize s) (sectorsize s) (sectorsize s) (ole_fat s)) (\<lambda>st.
     sbind (sect2array (contents st)) (\<lambda>minifat.
     sbind (ole_stream (ole_fp s) (de_isectStart root) (de_size root) (sectorsize s) (sectorsize s) (ole_fat s)) (\<lambda>ms.
     Inr (take n minifat, ms))))))"

lemma ministream_data_fresh [simp]: "ministream_data (fresh s) = ministream_data s"
  by (simp add: ministream_data_def)

definition cached :: "ole \<Rightarrow> bool" where
  \<comment> \<open>a ministream that has been loaded is the one loading gives\<close>
  "cached s \<longleftrightarrow> (\<forall>ms. ministream s = Some (Some ms) \<longrightarrow> ministream_data s = Inr (ole_minifat s, ms))"

lemma ministream_data_updates [simp]:
  "ministream_data (s\<lparr>parsing_issues := i\<rparr>) = ministream_data s" "ministream_data (s\<lparr>ole_minifat := mf\<rparr>) = ministream_data s"
  "ministream_data (s\<lparr>ministream := m\<rparr>) = ministream_data s"
  by (simp_all add: ministream_data_def root_entry_def)

interpretation ole_file: reading fresh cached
  by unfold_locales (auto simp: cached_def)

lemma reads_raise_defect: "reads fresh cached (raise_defect lvl e)"
  by (auto simp: reads_def raise_defect_def cached_def)

lemma reads_get_entry: "reads fresh cached (get_entry i)"
  by (simp add: reads_def get_entry_def split: option.split)

lemma reads_open_fat: "reads fresh cached (open_fat start sz)"
  unfolding open_fat_def by (rule ole_file.inspect) (simp_all add: ole_file.basic)

lemma load_ministream_result:
  "\<exists>is mf. load_ministream s =
     (case ministream_data s of
        Inl e \<Rightarrow> (Inl e, s\<lparr>parsing_issues := is, ole_minifat := mf\<rparr>)
      | Inr (minifat, ms) \<Rightarrow> (Inr (), s\<lparr>parsing_issues := is, ole_minifat := minifat, ministream := Some (Some ms)\<rparr>))"
proof (cases "root_entry s")
  case (Inl e)
  then show ?thesis
    by (intro exI[of _ "parsing_issues s"] exI[of _ "ole_minifat s"]) (simp add: load_ministream_def loadminifat_def ministream_data_def bindE_def)
next
  case (Inr root)
  let ?n = "(de_size root + (minisectorsize s - 1)) div minisectorsize s"
  let ?table = "ole_stream (ole_fp s) (minifatsect s) (csectMiniFat s * sectorsize s) (sectorsize s) (sectorsize s) (ole_fat s)"
  let ?defect = "whenE (csectMiniFat s * sectorsize s < ?n * 4) (raise_defect DEFECT_INCORRECT (IOError ''OLE MiniStream is larger than MiniFAT''))"
  show ?thesis
  proof (cases "csectMiniFat s * sectorsize s < ?n * 4 \<and> raise_defects_level s \<le> DEFECT_INCORRECT")
    case True
    with Inr show ?thesis
      by (intro exI[of _ "parsing_issues s"] exI[of _ "ole_minifat s"])
        (simp add: load_ministream_def loadminifat_def ministream_data_def bindE_def raise_defect_def Let_def)
  next
    case False
    obtain "is" where d: "?defect s = (Inr (), s\<lparr>parsing_issues := is\<rparr>)"
    proof (cases "csectMiniFat s * sectorsize s < ?n * 4")
      case True
      with False that show ?thesis by (simp add: raise_defect_def)
    next
      case False
      with that[of "parsing_issues s"] show ?thesis by simp
    qed
    have root: "root_entry (s\<lparr>parsing_issues := i, ole_minifat := mf\<rparr>) = Inr root" "root_entry (s\<lparr>parsing_issues := i\<rparr>) = Inr root" for i mf
      using Inr by (simp_all add: root_entry_def)
    show ?thesis
    proof (cases "sbind ?table (\<lambda>st. sect2array (contents st))")
      case (Inl e)
      then show ?thesis using Inr False d
        by (intro exI[of _ "is"] exI[of _ "ole_minifat s"])
          (auto simp: load_ministream_def loadminifat_def open_fat_def ministream_data_def bindE_def Let_def sbind_Inl_iff split: sum.splits)
    next
      case (Inr minifat)
      then show ?thesis using \<open>root_entry s = Inr root\<close> False d root
        by (intro exI[of _ "is"] exI[of _ "take ?n minifat"])
          (auto simp: load_ministream_def loadminifat_def open_fat_def ministream_data_def bindE_def Let_def sbind_Inr_iff split: sum.splits)
    qed
  qed
qed

lemma reads_ole_open: "reads fresh cached (ole_open start sz force_FAT)"
  unfolding reads_def
proof (intro allI impI)
  fix s assume s: "cached s"
  let ?m = "ole_open start sz force_FAT"
  show "cached (snd (?m s)) \<and> fresh (snd (?m s)) = fresh s \<and> fst (?m s) = fst (?m (fresh s))"
  proof (cases "sz < minisectorcutoff s \<and> \<not> force_FAT")
    case False
    with s reads_open_fat[of start sz] show ?thesis by (auto simp: ole_open_def reads_def)
  next
    case True
    obtain i mf where loaded: "load_ministream (fresh s) = (case ministream_data s of
        Inl e \<Rightarrow> (Inl e, (fresh s)\<lparr>parsing_issues := i, ole_minifat := mf\<rparr>)
      | Inr (minifat, ms) \<Rightarrow> (Inr (), (fresh s)\<lparr>parsing_issues := i, ole_minifat := minifat, ministream := Some (Some ms)\<rparr>))"
      using load_ministream_result[of "fresh s"] by auto
    consider "ministream s = None" | "ministream s = Some None" | ms where "ministream s = Some (Some ms)" by (cases "ministream s") auto
    then show ?thesis
    proof cases
      case 1
      with s True show ?thesis by (simp add: ole_open_def bindE_def)
    next
      case 2
      obtain i' mf' where "load_ministream s = (case ministream_data s of
          Inl e \<Rightarrow> (Inl e, s\<lparr>parsing_issues := i', ole_minifat := mf'\<rparr>)
        | Inr (minifat, ms) \<Rightarrow> (Inr (), s\<lparr>parsing_issues := i', ole_minifat := minifat, ministream := Some (Some ms)\<rparr>))"
        using load_ministream_result[of s] by blast
      with 2 True loaded show ?thesis
        by (cases "ministream_data s") (auto simp: ole_open_def bindE_def cached_def fresh_def)
    next
      case (3 ms)
      with s True loaded show ?thesis by (simp add: ole_open_def bindE_def cached_def)
    qed
  qed
qed

lemma find_fresh [simp]: "ole_find (fresh s) = ole_find s" "entry_at (fresh s) = entry_at s"
  "ole_exists (fresh s) = ole_exists s"
proof -
  have names: "name_of (fresh s) = name_of s" "kids_of (fresh s) = kids_of s"
    by (simp_all add: name_of_def kids_of_def fun_eq_iff)
  have "find_walk (fresh s) n ns = find_walk s n ns" for n ns
    by (induction ns arbitrary: n) (auto simp: names split: option.split)
  then show f: "ole_find (fresh s) = ole_find s" by (simp add: ole_find_def fun_eq_iff)
  then show "entry_at (fresh s) = entry_at s" "ole_exists (fresh s) = ole_exists s"
    by (simp_all add: entry_at_def ole_exists_def fun_eq_iff)
qed

lemma reads_openstream: "reads fresh cached (openstream p)"
  unfolding openstream_def by (auto intro!: ole_file.rules reads_ole_open)

lemma reads_list:
  "reads fresh cached (list_node fuel files prefix node streams storages)"
  "reads fresh cached (list_kids fuel files prefix ks streams storages)"
proof (induction fuel files prefix node streams storages and fuel files prefix ks streams storages rule: list_node_list_kids.induct)
  case (2 fuel files prefix node streams storages)
  then show ?case by (auto intro!: ole_file.rules reads_get_entry)
next
  case (4 fuel files prefix k ks streams storages)
  then show ?case by (auto intro!: ole_file.rules reads_get_entry reads_raise_defect)
qed (simp_all add: reads_def)

lemma reads_listdir: "reads fresh cached (listdir fuel streams storages)"
  unfolding listdir_def by (rule reads_list)

lemma reads_getproperties: "reads fresh cached (getproperties p convert_time no_conversion)"
  unfolding getproperties_def by (auto intro!: ole_file.rules reads_openstream)

lemma reads_get_metadata: "reads fresh cached get_metadata"
  unfolding get_metadata_def parse_properties_def Let_def by (auto intro!: ole_file.rules reads_getproperties)

lemma opened_cached: "OleFileIO_init fs fuel f lvl w = Inr s \<Longrightarrow> cached s"
  by (auto simp: OleFileIO_init_def ole_open_file_def new_ole_def cached_def bindE_def modE_def
      split: option.splits if_splits prod.splits sum.splits)

end
