(* ===== verification/ToolSpec.thy ===== *)
theory ToolSpec
  imports MsgTool SnapCheck OleSample OleReads
begin

text \<open>
  The properties of the scripts built on the parsers: Outlook messages over a sequence of calls, what of
  them can be saved, and the exit code of the check for snapshots.
\<close>

section \<open>Messages\<close>

inductive message_step :: "message \<Rightarrow> message \<Rightarrow> bool" where
  \<comment> \<open>one access to a property or one method of \<open>Message\<close>, whether it returns or raises\<close>
  "message_step ms (snd (msg_header p ms))"
| "message_step ms (snd (msg_date p ms))"
| "message_step ms (snd (msg_parsedDate p parsedate ms))"
| "message_step ms (snd (msg_subject ms))"
| "message_step ms (snd (msg_body ms))"
| "message_step ms (snd (msg_sender p ms))"
| "message_step ms (snd (msg_to p ms))"
| "message_step ms (snd (msg_cc p ms))"
| "message_step ms (snd (attachments fuel ms))"
| "message_step ms (snd (msg_save (lib :: int mail_lib) use fuel chosen ms))"
| "message_step ms (fst (snd (saveRaw fuel there (ms, dirs, written))))"

text \<open>
  What a property of a message has to satisfy to be kept by every call: reading from the file keeps it, and so
  do the calls that remember something.
\<close>

locale message_fields =
  fixes I :: "message \<Rightarrow> bool"
  assumes openstream_keeps: "keeps I (oleE (openstream p))"
    and listdir_keeps: "keeps I (oleE (listdir fuel streams storages))"
begin

lemma streams_keep: "keeps I (getStream p)" "keeps I (getStringStream f)"
proof -
  show stream: "keeps I (getStream p)" for p
    unfolding getStream_def by (auto intro!: keeps_basic keeps_bindE keeps_withE openstream_keeps)
  show "keeps I (getStringStream f)"
    unfolding getStringStream_def by (auto intro!: keeps_basic keeps_bindE stream)
qed

lemmas calls = keeps_basic keeps_bindE keeps_withE keeps_whenE openstream_keeps listdir_keeps streams_keep

end

locale message_invariant = message_fields +
  assumes msg_header: "\<And>p. keeps I (msg_header p)"
    and msg_sender: "\<And>p. keeps I (msg_sender p)"
    and msg_to: "\<And>p. keeps I (msg_to p)"
    and msg_cc: "\<And>p. keeps I (msg_cc p)"
    and grow: "\<And>f. keeps I (modE (\<lambda>ms. ms\<lparr>ms_attachments := f ms\<rparr>))"
begin

lemma date_keeps: "keeps I (msg_date p)"
  unfolding msg_date_def by (auto intro!: calls msg_header)

lemma parsed_date_keeps: "keeps I (msg_parsedDate p parsedate)"
  unfolding msg_parsedDate_def by (auto intro!: calls date_keeps)

lemma text_keeps: "keeps I msg_subject" "keeps I msg_body"
  unfolding msg_subject_def msg_body_def by (rule streams_keep)+

lemma append_attachments_keeps: "keeps I (append_attachments dirs)"
proof (induction dirs)
  case Nil
  show ?case by (simp add: keeps_def)
next
  case (Cons d dirs)
  then show ?case unfolding append_attachments.simps new_attachment_def by (auto intro!: calls grow)
qed

lemma attachments_keeps: "keeps I (attachments fuel)"
  unfolding attachments_def by (auto intro!: calls grow append_attachments_keeps split: option.splits)

lemma save_dir_keeps: "keeps I (save_dir lib use)"
  unfolding save_dir_def by (auto intro!: calls parsed_date_keeps text_keeps split: option.splits)

lemma save_keeps: "keeps I (msg_save lib use fuel chosen)"
  unfolding msg_save_def
  by (auto intro!: calls save_dir_keeps date_keeps text_keeps attachments_keeps msg_sender msg_cc msg_to simp: Let_def split: prod.splits)

lemma raw_entry_keeps: "keeps (\<lambda>st. I (fst st)) (raw_entry path)"
  unfolding raw_entry_def makedirs_def
  by (auto intro!: keeps_basic keeps_bindE keeps_withE keeps_whenE keeps_modE on_object_keeps streams_keep
      split: option.splits simp: case_prod_beta)

lemma saveRaw_keeps: "keeps (\<lambda>st. I (fst st)) (saveRaw fuel there)"
proof -
  have "keeps (\<lambda>st. I (fst st)) (raw_entries paths)" for paths
    by (induction paths) (auto intro!: keeps_basic keeps_bindE raw_entry_keeps)
  then show ?thesis
    unfolding saveRaw_def by (auto intro!: keeps_basic keeps_bindE keeps_whenE on_object_keeps listdir_keeps)
qed

lemma step_keeps: "message_step ms ms' \<Longrightarrow> I ms \<Longrightarrow> I ms'"
  by (induction rule: message_step.induct)
    (auto intro: keepsD[OF msg_header] keepsD[OF date_keeps] keepsD[OF parsed_date_keeps] keepsD[OF text_keeps(1)] keepsD[OF text_keeps(2)]
      keepsD[OF msg_sender] keepsD[OF msg_to] keepsD[OF msg_cc] keepsD[OF attachments_keeps] keepsD[OF save_keeps]
      keepsD[OF saveRaw_keeps, simplified])

lemma steps_keep: "message_step\<^sup>*\<^sup>* ms ms' \<Longrightarrow> I ms \<Longrightarrow> I ms'"
  by (induction rule: rtranclp_induct) (auto intro: step_keeps)

end

lemma oleE_keeps: "(\<And>ms f. I ms \<Longrightarrow> I (ms\<lparr>ms_ole := f\<rparr>)) \<Longrightarrow> keeps I (oleE m)"
  by (simp add: keeps_def oleE_def split: prod.splits)

interpretation known_header_fields: message_fields "\<lambda>ms. ms_header ms = Some h"
  by unfold_locales (auto intro: oleE_keeps)

interpretation known_sender_fields: message_fields "\<lambda>ms. ms_sender ms = Some r"
  by unfold_locales (auto intro: oleE_keeps)

lemma header_text_keeps:
  assumes "\<And>f. keeps I (getStringStream f)" and "\<And>ms h. I ms \<Longrightarrow> I (ms\<lparr>ms_header := h\<rparr>)"
  shows "keeps I (msg_header p)" and "keeps I (header_field p name)"
proof -
  show "keeps I (msg_header p)" for p
    unfolding msg_header_def using assms by (auto intro!: keeps_basic keeps_bindE keeps_withE keeps_modE simp: Let_def split: option.splits)
  then show "keeps I (header_field p name)"
    unfolding header_field_def by (auto intro!: keeps_basic keeps_bindE)
qed

interpretation known_sender: message_invariant "\<lambda>ms. ms_sender ms = Some r"
proof unfold_locales
  let ?I = "\<lambda>ms. ms_sender ms = Some r"
  note header = header_text_keeps[of ?I, OF known_sender_fields.streams_keep(2)]
  show "keeps ?I (msg_header p)" for p by (rule header) simp
  show "keeps ?I (msg_sender p)" for p by (simp add: keeps_def msg_sender_def)
  have "keeps ?I (header_field p name)" for p name by (rule header) simp
  then show "keeps ?I (msg_to p)" "keeps ?I (msg_cc p)" for p
    unfolding msg_to_def msg_cc_def by (auto intro!: known_sender_fields.calls keeps_modE split: option.splits)
  show "keeps ?I (modE (\<lambda>ms. ms\<lparr>ms_attachments := f ms\<rparr>))" for f by (simp add: keeps_def)
qed

interpretation known_header: message_invariant "\<lambda>ms. ms_header ms = Some h"
proof unfold_locales
  let ?I = "\<lambda>ms. ms_header ms = Some h"
  show header: "keeps ?I (msg_header p)" for p by (simp add: keeps_def msg_header_def)
  have "keeps ?I (header_field p name)" for p name
    unfolding header_field_def by (auto intro!: keeps_basic keeps_bindE header)
  then show "keeps ?I (msg_sender p)" "keeps ?I (msg_to p)" "keeps ?I (msg_cc p)" for p
    unfolding msg_sender_def msg_to_def msg_cc_def
    by (auto intro!: known_header_fields.calls keeps_modE split: option.splits)
  show "keeps ?I (modE (\<lambda>ms. ms\<lparr>ms_attachments := f ms\<rparr>))" for f by (simp add: keeps_def)
qed

text \<open>The file of a message, read like any other: what has been remembered does not count.\<close>

definition bare :: "message \<Rightarrow> message" where
  "bare ms = \<lparr>ms_ole = fresh (ms_ole ms), ms_header = None, ms_sender = None, ms_to = None, ms_cc = None, ms_attachments = None\<rparr>"

lemma bare_simps [simp]:
  "bare (ms\<lparr>ms_header := h\<rparr>) = bare ms" "bare (ms\<lparr>ms_sender := r\<rparr>) = bare ms" "bare (ms\<lparr>ms_to := t\<rparr>) = bare ms"
  "bare (ms\<lparr>ms_cc := c\<rparr>) = bare ms" "bare (ms\<lparr>ms_attachments := as\<rparr>) = bare ms"
  by (simp_all add: bare_def)

interpretation message: reading bare "\<lambda>ms. cached (ms_ole ms)"
  by unfold_locales (simp_all add: bare_def ole_file.base_ok)

lemma reads_oleE: "reads fresh cached m \<Longrightarrow> reads bare (\<lambda>ms. cached (ms_ole ms)) (oleE m)"
  by (simp add: reads_def oleE_def bare_def case_prod_beta)

lemma reads_message:
  "reads bare (\<lambda>ms. cached (ms_ole ms)) (getStream p)" "reads bare (\<lambda>ms. cached (ms_ole ms)) (getStringStream f)"
  "reads bare (\<lambda>ms. cached (ms_ole ms)) (new_attachment d)"
proof -
  have exists: "ole_exists (ms_ole (bare ms)) p = ole_exists (ms_ole ms) p" for ms p by (simp add: bare_def)
  show stream: "reads bare (\<lambda>ms. cached (ms_ole ms)) (getStream p)" for p
    unfolding getStream_def by (auto intro!: message.rules reads_oleE reads_openstream simp: exists)
  show string: "reads bare (\<lambda>ms. cached (ms_ole ms)) (getStringStream f)" for f
    unfolding getStringStream_def by (auto intro!: message.rules stream)
  show "reads bare (\<lambda>ms. cached (ms_ole ms)) (new_attachment d)"
    unfolding new_attachment_def by (auto intro!: message.rules stream string)
qed

interpretation same_file_fields: message_fields "\<lambda>ms. cached (ms_ole ms) \<and> bare ms = b"
  by unfold_locales (auto intro!: message.keeps_base reads_oleE reads_openstream reads_listdir)

interpretation same_file: message_invariant "\<lambda>ms. cached (ms_ole ms) \<and> bare ms = b"
proof unfold_locales
  let ?I = "\<lambda>ms. cached (ms_ole ms) \<and> bare ms = b"
  note header = header_text_keeps[of ?I, OF same_file_fields.streams_keep(2)]
  show head: "keeps ?I (msg_header p)" for p by (rule header) simp
  have "keeps ?I (header_field p name)" for p name by (rule header) simp
  then show "keeps ?I (msg_sender p)" "keeps ?I (msg_to p)" "keeps ?I (msg_cc p)" for p
    unfolding msg_sender_def msg_to_def msg_cc_def
    by (auto intro!: same_file_fields.calls keeps_modE split: option.splits)
  show "keeps ?I (modE (\<lambda>ms. ms\<lparr>ms_attachments := f ms\<rparr>))" for f by (simp add: keeps_def)
qed



text \<open>
  The sender of a message, once it has been delivered, stays: after any further calls it is
  delivered again, and nothing is read for it.
\<close>
theorem sender_remembered:
  assumes "msg_sender p ms = (Inr r, ms1)" and "message_step\<^sup>*\<^sup>* ms1 ms2"
  shows "msg_sender q ms2 = (Inr r, ms2)"
  using known_sender.steps_keep[OF assms(2), of r] msg_sender_known[OF assms(1)] by (simp add: msg_sender_again)

definition sample_message :: "headers option \<Rightarrow> message" where
  "sample_message h = \<lparr>ms_ole = new_ole DEFECT_FATAL, ms_header = Some h, ms_sender = None, ms_to = None, ms_cc = None,
     ms_attachments = None\<rparr>"

theorem sender_remembered_witness:
  "let ms = snd (msg_sender (\<lambda>_ _. None) (sample_message (Some [''from'' \<mapsto> Str ''A <a@b>''])));
       ms2 = snd (msg_subject (snd (msg_cc (\<lambda>_ _. None) ms)))
   in msg_sender (\<lambda>_ _. None) ms2 = (Inr (Some (Str ''A <a@b>'')), ms2)"
proof -
  let ?ms = "sample_message (Some [''from'' \<mapsto> Str ''A <a@b>''])" and ?p = "\<lambda>_ _. None"
  have asked: "msg_sender ?p ?ms = (Inr (Some (Str ''A <a@b>'')), snd (msg_sender ?p ?ms))"
    by (simp add: msg_sender_def header_field_def msg_header_def bindE_def sample_message_def)
  have "message_step\<^sup>*\<^sup>* (snd (msg_sender ?p ?ms)) (snd (msg_subject (snd (msg_cc ?p (snd (msg_sender ?p ?ms))))))"
    by (rule rtranclp.rtrancl_into_rtrancl[OF r_into_rtranclp]) (rule message_step.intros)+
  from sender_remembered[OF asked this] show ?thesis by (simp add: Let_def)
qed

definition fails :: "('s \<Rightarrow> bool) \<Rightarrow> ('s, 'a) act \<Rightarrow> bool" where
  "fails I m \<longleftrightarrow> (\<forall>s. I s \<longrightarrow> (\<exists>e. fst (m s) = Inl e))"

lemma fails_bindE: "keeps I m \<Longrightarrow> (\<And>x. fails I (f x)) \<Longrightarrow> fails I (bindE m f)"
  unfolding fails_def keeps_def bindE_def by (auto split: prod.splits sum.splits)

lemma fails_undated:
  assumes "case h of None \<Rightarrow> True | Some hs \<Rightarrow> hs ''date'' = None" and "lib_parsedate_tz lib [] = None"
  shows "fails (\<lambda>ms. ms_header ms = Some h)
    (bindE (msg_date p) (\<lambda>date. bindE (liftE (sbind (xstr date) (get_timestamp (lib_parsedate_tz lib) (lib_mktime_tz lib)))) f))"
  using assms by (auto simp: fails_def msg_date_def msg_header_def bindE_def xstr_def get_timestamp_def split: option.splits)

text \<open>
  A message whose header gives no date is never saved: \<open>save\<close> asks the date functions for the time of an
  empty string, for which they have none, and raises.
\<close>
theorem save_needs_date:
  assumes "ms_header ms = Some h" and "case h of None \<Rightarrow> True | Some hs \<Rightarrow> hs ''date'' = None"
    and "lib_parsedate_tz lib [] = None"
  shows "\<exists>e. fst (msg_save lib use fuel chosen ms) = Inl e"
proof -
  let ?I = "\<lambda>ms. ms_header ms = Some h"
  note keeps = keeps_basic known_header.save_dir_keeps known_header.date_keeps known_header.text_keeps known_header.attachments_keeps
    known_header.msg_sender known_header.msg_cc known_header.msg_to keeps_bindE
  have "fails ?I (msg_save lib use fuel chosen)"
    unfolding msg_save_def Let_def split_def
    by (intro fails_bindE fails_undated[OF assms(2,3)] keeps)
  with assms(1) show ?thesis by (simp add: fails_def)
qed

theorem save_needs_date_witness:
  "\<exists>e. fst (msg_save \<lparr>parsestr = (\<lambda>_ _. None), lib_parsedate = (\<lambda>_. None),
      lib_parsedate_tz = (\<lambda>s. if s = [] then None else Some s), lib_mktime_tz = (\<lambda>_. Inr 0)\<rparr>
    None 100 (\<lambda>_. ''abcde'') (sample_message (Some [''from'' \<mapsto> Str ''A <a@b>'']))) = Inl e"
  by (rule save_needs_date[where h = "Some [''from'' \<mapsto> Str ''A <a@b>'']"]) (simp_all add: sample_message_def)

section \<open>The script\<close>


definition sample_env :: "int msg_env" where
  "sample_env = \<lparr>me_fs = (\<lambda>_. None), me_limit = 100,
     me_lib = \<lparr>parsestr = (\<lambda>_ _. None), lib_parsedate = (\<lambda>_. None), lib_parsedate_tz = (\<lambda>_. None), lib_mktime_tz = (\<lambda>_. Inr 0)\<rparr>,
     me_chosen = (\<lambda>_ _. ''abcde''), me_dumps = (\<lambda>_. Inr ''{}''), me_glob = (\<lambda>a. [a]), me_format_exc = (\<lambda>_. ''Traceback'')\<rparr>"


section \<open>The check for snapshots\<close>


definition sample_run :: "bytes list \<Rightarrow> bytes" where
  "sample_run cmd =
     (if take 1 cmd = [''synoshare''] then ''Share Enum Arguments: [0x1] LOCAL '' @ [CHR 0x0A] @ ''1 Listed:'' @ [CHR 0x0A] @ ''photo'' @ [CHR 0x0A]
      else if take 2 cmd = [''synosharesnapshot'', ''snapcount''] then ''3'' @ [CHR 0x0A] else [])"


end
