(* ===== verification/SixMoves.thy ===== *)
theory SixMoves
  imports PyText
begin

text \<open>
  six.py, the part by which the client names modules and attributes that Python 2 and 3 have in different
  places: \<open>six.moves\<close>. A move is a descriptor in the class of a lazy module; reading it imports the
  module behind it, puts the result into the lazy module and removes the descriptor from the class. The
  modules \<open>six.moves.X\<close> are found by an importer, which the end of six.py adds to \<open>sys.meta_path\<close>.

  The interpreter is the record \<open>py\<close>, with its version and platform and the modules the other importers
  find, under their full names and with their attributes: loading one of these may load others, which is
  not followed, and attributes the import system itself sets on a module are left out. A lazy module is
  named by its key, \<open>''moves''\<close> for six.moves itself. Importing and reading attributes call each other; the
  depth of calls is limited by the number given to \<open>import_name\<close> and \<open>get_attribute\<close>. The importer's
  \<open>is_package\<close>, which later versions of Python ask before they load, is modelled as a function of its own.
\<close>

section \<open>Values and the state\<close>

datatype 'v pyval =
    PObj 'v
  | PModule bytes
  | PLazy bytes
  | PImporter
  | PNil

record 'v py =
  version_info :: "nat \<times> nat"
  platform :: bytes
  std_modules :: "bytes \<rightharpoonup> bytes \<rightharpoonup> 'v pyval"

definition PY2 :: "'v py \<Rightarrow> bool" where
  "PY2 p \<longleftrightarrow> fst (version_info p) = 2"

definition PY3 :: "'v py \<Rightarrow> bool" where
  "PY3 p \<longleftrightarrow> fst (version_info p) = 3"

definition version_at_least :: "nat \<times> nat \<Rightarrow> 'v py \<Rightarrow> bool" where
  \<comment> \<open>\<open>sys.version_info[0:2] >= v\<close>\<close>
  "version_at_least v p \<longleftrightarrow> fst v < fst (version_info p)
     \<or> fst v = fst (version_info p) \<and> snd v \<le> snd (version_info p)"

definition PY34 :: "'v py \<Rightarrow> bool" where
  "PY34 p \<longleftrightarrow> version_at_least (3, 4) p"

definition MAXSIZE :: "'v py \<Rightarrow> int \<Rightarrow> bool \<Rightarrow> int" where
  \<comment> \<open>\<open>sys.maxsize\<close>, and whether a length of \<open>1 << 31\<close> overflows, are the interpreter's\<close>
  "MAXSIZE p maxsize overflows =
     (if PY3 p then maxsize
      else if take 4 (platform p) = ''java'' then 2 ^ 31 - 1
      else if overflows then 2 ^ 31 - 1 else 2 ^ 63 - 1)"

text \<open>
  A descriptor after its constructor: its name, the module behind it, and for a \<open>MovedAttribute\<close> the
  attribute of that module.
\<close>

record moved =
  mv_name :: bytes
  mv_mod :: bytes
  mv_attr :: "bytes option"

definition MovedModule :: "'v py \<Rightarrow> bytes \<Rightarrow> bytes \<Rightarrow> bytes option \<Rightarrow> moved" where
  "MovedModule p name old new =
     \<lparr>mv_name = name,
      mv_mod = (if PY3 p then (case new of None \<Rightarrow> name | Some n \<Rightarrow> n) else old),
      mv_attr = None\<rparr>"

definition MovedAttribute ::
  "'v py \<Rightarrow> bytes \<Rightarrow> bytes \<Rightarrow> bytes option \<Rightarrow> bytes option \<Rightarrow> bytes option \<Rightarrow> moved" where
  "MovedAttribute p name old_mod new_mod old_attr new_attr =
     (if PY3 p then
        \<lparr>mv_name = name,
         mv_mod = (case new_mod of None \<Rightarrow> name | Some m \<Rightarrow> m),
         mv_attr = Some (case new_attr of
             None \<Rightarrow> (case old_attr of None \<Rightarrow> name | Some a \<Rightarrow> a)
           | Some a \<Rightarrow> a)\<rparr>
      else
        \<lparr>mv_name = name, mv_mod = old_mod,
         mv_attr = Some (case old_attr of None \<Rightarrow> name | Some a \<Rightarrow> a)\<rparr>)"

text \<open>
  What the importer knows under a full name: a \<open>MovedModule\<close> with the attributes \<open>__getattr__\<close> has stored
  in it, or a module of six.
\<close>

datatype 'v known = KMoved moved "bytes \<rightharpoonup> 'v pyval" | KModule bytes

datatype 'v class_item = Descr moved | Plain "'v pyval"

datatype finder = SixImporter bytes | OtherFinder nat

record 'v six =
  sys_modules :: "bytes \<rightharpoonup> 'v pyval"
  meta_path :: "finder list"
  known_modules :: "bytes \<rightharpoonup> 'v known"
  class_dict :: "bytes \<Rightarrow> bytes \<rightharpoonup> 'v class_item"
  inst_dict :: "bytes \<Rightarrow> bytes \<rightharpoonup> 'v pyval"
  moved_attributes :: "bytes \<Rightarrow> moved list"

definition six_name :: bytes where
  \<comment> \<open>\<open>__name__\<close> of six.py\<close>
  "six_name = ''six''"

definition six_full :: "bytes \<Rightarrow> bytes" where
  "six_full name = six_name @ ''.'' @ name"

text \<open>Storing in the dictionaries of the lazy modules and their classes.\<close>

definition set_instance :: "bytes \<Rightarrow> bytes \<Rightarrow> 'v pyval \<Rightarrow> ('v six, unit) act" where
  "set_instance c a v = modE (\<lambda>s. s\<lparr>inst_dict := (inst_dict s)(c := (inst_dict s c)(a \<mapsto> v))\<rparr>)"

definition set_class :: "bytes \<Rightarrow> bytes \<Rightarrow> 'v class_item option \<Rightarrow> ('v six, unit) act" where
  "set_class c a i = modE (\<lambda>s. s\<lparr>class_dict := (class_dict s)(c := (class_dict s c)(a := i))\<rparr>)"

definition set_module :: "bytes \<Rightarrow> 'v pyval \<Rightarrow> ('v six, unit) act" where
  "set_module name v = modE (\<lambda>s. s\<lparr>sys_modules := (sys_modules s)(name \<mapsto> v)\<rparr>)"

section \<open>The importer\<close>

definition add_module :: "'v known \<Rightarrow> bytes list \<Rightarrow> ('v six, unit) act" where
  \<comment> \<open>\<open>_add_module\<close>\<close>
  "add_module m fullnames = modE (\<lambda>s. s\<lparr>known_modules :=
     fold (\<lambda>f k. k(six_full f \<mapsto> m)) fullnames (known_modules s)\<rparr>)"

definition get_six_module :: "bytes \<Rightarrow> ('v six, 'v known) act" where
  \<comment> \<open>\<open>_get_module\<close>\<close>
  "get_six_module fullname = withE (\<lambda>s. case known_modules s (six_full fullname) of
     None \<Rightarrow> raiseE (KeyError (six_full fullname)) | Some m \<Rightarrow> retE m)"

definition find_module :: "'v six \<Rightarrow> bytes \<Rightarrow> bool" where
  \<comment> \<open>whether the importer returns itself\<close>
  "find_module s fullname \<longleftrightarrow> known_modules s fullname \<noteq> None"

definition get_known :: "bytes \<Rightarrow> ('v six, 'v known) act" where
  \<comment> \<open>\<open>__get_module\<close>\<close>
  "get_known fullname = withE (\<lambda>s. case known_modules s fullname of
     None \<Rightarrow> raiseE (ImportError (''This loader does not know module '' @ fullname)) | Some m \<Rightarrow> retE m)"

definition get_code :: "bytes \<Rightarrow> ('v six, unit) act" where
  "get_code fullname = bindE (get_known fullname) (\<lambda>_. retE ())"

definition resolve_module :: "(bytes \<Rightarrow> ('v six, 'v pyval) act) \<Rightarrow> bytes \<Rightarrow> ('v six, 'v pyval) act" where
  \<comment> \<open>\<open>_import_module\<close>: the import itself and the look into \<open>sys.modules\<close>\<close>
  "resolve_module imp name = bindE (imp name) (\<lambda>_. withE (\<lambda>s.
     case sys_modules s name of None \<Rightarrow> raiseE (KeyError name) | Some m \<Rightarrow> retE m))"

definition load_module :: "(bytes \<Rightarrow> ('v six, 'v pyval) act) \<Rightarrow> bytes \<Rightarrow> ('v six, 'v pyval) act" where
  "load_module imp fullname = withE (\<lambda>s. case sys_modules s fullname of
     Some m \<Rightarrow> retE m
   | None \<Rightarrow>
       bindE (get_known fullname) (\<lambda>k.
       bindE (case k of
           KMoved mv _ \<Rightarrow> resolve_module imp (mv_mod mv)
         | KModule c \<Rightarrow> bindE (set_instance c ''__loader__'' PImporter) (\<lambda>_. retE (PLazy c))) (\<lambda>m.
       bindE (set_module fullname m) (\<lambda>_. retE m))))"

section \<open>Descriptors\<close>

definition moved_resolve ::
  "(bytes \<Rightarrow> ('v six, 'v pyval) act) \<Rightarrow> ('v pyval \<Rightarrow> bytes \<Rightarrow> ('v six, 'v pyval) act) \<Rightarrow> moved
     \<Rightarrow> ('v six, 'v pyval) act" where
  \<comment> \<open>\<open>_resolve\<close> of both kinds of move\<close>
  "moved_resolve imp get mv = bindE (resolve_module imp (mv_mod mv)) (\<lambda>m.
     case mv_attr mv of None \<Rightarrow> retE m | Some a \<Rightarrow> get m a)"

definition descr_get ::
  "(bytes \<Rightarrow> ('v six, 'v pyval) act) \<Rightarrow> ('v pyval \<Rightarrow> bytes \<Rightarrow> ('v six, 'v pyval) act) \<Rightarrow> moved
     \<Rightarrow> bytes \<Rightarrow> ('v six, 'v pyval) act" where
  \<comment> \<open>\<open>_LazyDescr.__get__\<close> on the lazy module \<open>c\<close>\<close>
  "descr_get imp get mv c =
     bindE (moved_resolve imp get mv) (\<lambda>result.
     bindE (set_instance c (mv_name mv) result) (\<lambda>_.
     bindE (set_class c (mv_name mv) None) (\<lambda>_. retE result)))"

definition lazy_get ::
  "(bytes \<Rightarrow> ('v six, 'v pyval) act) \<Rightarrow> ('v pyval \<Rightarrow> bytes \<Rightarrow> ('v six, 'v pyval) act) \<Rightarrow> bytes
     \<Rightarrow> bytes \<Rightarrow> ('v six, 'v pyval) act" where
  \<comment> \<open>an attribute of a lazy module: its own dictionary comes before a descriptor without \<open>__set__\<close>\<close>
  "lazy_get imp get c a = withE (\<lambda>s. case inst_dict s c a of
     Some v \<Rightarrow> retE v
   | None \<Rightarrow> (case class_dict s c a of
         None \<Rightarrow> raiseE (AttributeError a)
       | Some (Plain v) \<Rightarrow> retE v
       | Some (Descr mv) \<Rightarrow> descr_get imp get mv c))"

definition attribute_step ::
  "'v py \<Rightarrow> (bytes \<Rightarrow> ('v six, 'v pyval) act) \<Rightarrow> ('v pyval \<Rightarrow> bytes \<Rightarrow> ('v six, 'v pyval) act)
     \<Rightarrow> 'v pyval \<Rightarrow> bytes \<Rightarrow> ('v six, 'v pyval) act" where
  \<comment> \<open>\<open>getattr(v, a)\<close>; six.py makes itself a package\<close>
  "attribute_step p imp get v a = (case v of
     PLazy c \<Rightarrow> lazy_get imp get c a
   | PModule m \<Rightarrow>
       if m = six_name \<and> a = ''__path__'' then retE PNil
       else (case std_modules p m of
           None \<Rightarrow> raiseE (AttributeError a)
         | Some d \<Rightarrow> (case d a of None \<Rightarrow> raiseE (AttributeError a) | Some x \<Rightarrow> retE x))
   | _ \<Rightarrow> raiseE (AttributeError a))"

section \<open>Importing\<close>

text \<open>
  Python 2 asks the importers of \<open>sys.meta_path\<close> before it searches paths; in Python 3 searching is itself
  on \<open>sys.meta_path\<close>, before the importer six.py has appended.
\<close>

definition find_and_load ::
  "'v py \<Rightarrow> (bytes \<Rightarrow> ('v six, 'v pyval) act) \<Rightarrow> bytes \<Rightarrow> ('v six, 'v pyval) act" where
  "find_and_load p imp fullname = withE (\<lambda>s.
     if SixImporter six_name \<in> set (meta_path s) \<and> find_module s fullname
          \<and> (PY3 p \<longrightarrow> std_modules p fullname = None)
     then load_module imp fullname
     else (case std_modules p fullname of
         None \<Rightarrow> raiseE (ImportError (''No module named '' @ fullname))
       | Some _ \<Rightarrow> bindE (set_module fullname (PModule fullname)) (\<lambda>_. retE (PModule fullname))))"

definition parent_has_path ::
  "('v pyval \<Rightarrow> bytes \<Rightarrow> ('v six, 'v pyval) act) \<Rightarrow> bytes \<Rightarrow> 'v pyval option \<Rightarrow> ('v six, unit) act" where
  "parent_has_path get fullname parent = (case parent of
     None \<Rightarrow> retE ()
   | Some m \<Rightarrow> (\<lambda>s. case get m ''__path__'' s of
         (Inl (AttributeError _), t) \<Rightarrow> (Inl (ImportError (''No module named '' @ fullname)), t)
       | (Inl e, t) \<Rightarrow> (Inl e, t)
       | (Inr _, t) \<Rightarrow> (Inr (), t)))"

definition set_child :: "'v pyval option \<Rightarrow> bytes \<Rightarrow> 'v pyval \<Rightarrow> ('v six, unit) act" where
  \<comment> \<open>a loaded submodule becomes an attribute of its package\<close>
  "set_child parent w m = (case parent of Some (PLazy c) \<Rightarrow> set_instance c w m | _ \<Rightarrow> retE ())"

definition dotted :: "bytes list \<Rightarrow> bytes" where
  "dotted ws = py_join ''.'' (rev ws)"

fun import_steps ::
  "'v py \<Rightarrow> (bytes \<Rightarrow> ('v six, 'v pyval) act) \<Rightarrow> ('v pyval \<Rightarrow> bytes \<Rightarrow> ('v six, 'v pyval) act)
     \<Rightarrow> bytes list \<Rightarrow> ('v six, 'v pyval option) act" where
  \<comment> \<open>the parts of the name from the last to the first; Python 3 looks for the whole name first\<close>
  "import_steps p imp get [] = retE None"
| "import_steps p imp get (w # ws) = withE (\<lambda>s.
     if PY3 p \<and> sys_modules s (dotted (w # ws)) \<noteq> None then retE (sys_modules s (dotted (w # ws)))
     else
       bindE (import_steps p imp get ws) (\<lambda>parent. withE (\<lambda>s.
       case sys_modules s (dotted (w # ws)) of
         Some m \<Rightarrow> retE (Some m)
       | None \<Rightarrow>
           bindE (parent_has_path get (dotted (w # ws)) parent) (\<lambda>_.
           bindE (find_and_load p imp (dotted (w # ws))) (\<lambda>m.
           bindE (set_child parent w m) (\<lambda>_. retE (Some m)))))))"

definition import_step ::
  "'v py \<Rightarrow> (bytes \<Rightarrow> ('v six, 'v pyval) act) \<Rightarrow> ('v pyval \<Rightarrow> bytes \<Rightarrow> ('v six, 'v pyval) act)
     \<Rightarrow> bytes \<Rightarrow> ('v six, 'v pyval) act" where
  "import_step p imp get name =
     bindE (import_steps p imp get (rev (py_split (CHR ''.'') name))) (\<lambda>m.
     case m of None \<Rightarrow> raiseE (ValueError ''Empty module name'') | Some x \<Rightarrow> retE x)"

definition recursion_error :: pyexc where
  "recursion_error = RuntimeError ''maximum recursion depth exceeded''"

primrec import_machine ::
  "'v py \<Rightarrow> nat \<Rightarrow> (bytes \<Rightarrow> ('v six, 'v pyval) act) \<times> ('v pyval \<Rightarrow> bytes \<Rightarrow> ('v six, 'v pyval) act)" where
  "import_machine p 0 = (\<lambda>_. raiseE recursion_error, \<lambda>_ _. raiseE recursion_error)"
| "import_machine p (Suc n) = (case import_machine p n of (imp, get) \<Rightarrow>
     (import_step p imp get, attribute_step p imp get))"

definition import_name :: "'v py \<Rightarrow> nat \<Rightarrow> bytes \<Rightarrow> ('v six, 'v pyval) act" where
  \<comment> \<open>\<open>_import_module\<close>, also what an import statement does\<close>
  "import_name p n = resolve_module (fst (import_machine p n))"

definition get_attribute :: "'v py \<Rightarrow> nat \<Rightarrow> 'v pyval \<Rightarrow> bytes \<Rightarrow> ('v six, 'v pyval) act" where
  "get_attribute p n = snd (import_machine p n)"

definition moved_getattr ::
  "'v py \<Rightarrow> nat \<Rightarrow> bytes \<Rightarrow> moved \<Rightarrow> (bytes \<rightharpoonup> 'v pyval) \<Rightarrow> bytes \<Rightarrow> ('v six, 'v pyval) act" where
  \<comment> \<open>an attribute of the \<open>MovedModule\<close> known as \<open>fullname\<close>: one it has stored, or \<open>__getattr__\<close>\<close>
  "moved_getattr p n fullname mv d attr = (case d attr of
     Some v \<Rightarrow> retE v
   | None \<Rightarrow>
       bindE (import_name p n (mv_mod mv)) (\<lambda>m.
       bindE (get_attribute p n m attr) (\<lambda>v.
       bindE (modE (\<lambda>s. s\<lparr>known_modules := (known_modules s)(fullname \<mapsto> KMoved mv (d(attr \<mapsto> v)))\<rparr>)) (\<lambda>_.
       retE v))))"

definition hasattr :: "'v py \<Rightarrow> ('v six, 'v pyval) act \<Rightarrow> ('v six, bool) act" where
  \<comment> \<open>Python 2 takes every exception for a missing attribute\<close>
  "hasattr p m s = (case m s of
     (Inr _, t) \<Rightarrow> (Inr True, t)
   | (Inl (AttributeError _), t) \<Rightarrow> (Inr False, t)
   | (Inl e, t) \<Rightarrow> (if PY3 p then (Inl e, t) else (Inr False, t)))"

definition is_package :: "'v py \<Rightarrow> nat \<Rightarrow> bytes \<Rightarrow> ('v six, bool) act" where
  "is_package p n fullname = bindE (get_known fullname) (\<lambda>k. hasattr p (case k of
     KMoved mv d \<Rightarrow> moved_getattr p n fullname mv d ''__path__''
   | KModule c \<Rightarrow> get_attribute p n (PLazy c) ''__path__''))"

section \<open>The tables of moves\<close>

definition moves_table :: "'v py \<Rightarrow> moved list" where
  "moves_table p = [
     MovedAttribute p ''cStringIO'' ''cStringIO'' (Some ''io'') (Some ''StringIO'') None,
     MovedAttribute p ''filter'' ''itertools'' (Some ''builtins'') (Some ''ifilter'') (Some ''filter''),
     MovedAttribute p ''filterfalse'' ''itertools'' (Some ''itertools'') (Some ''ifilterfalse'') (Some ''filterfalse''),
     MovedAttribute p ''input'' ''__builtin__'' (Some ''builtins'') (Some ''raw_input'') (Some ''input''),
     MovedAttribute p ''intern'' ''__builtin__'' (Some ''sys'') None None,
     MovedAttribute p ''map'' ''itertools'' (Some ''builtins'') (Some ''imap'') (Some ''map''),
     MovedAttribute p ''getcwd'' ''os'' (Some ''os'') (Some ''getcwdu'') (Some ''getcwd''),
     MovedAttribute p ''getcwdb'' ''os'' (Some ''os'') (Some ''getcwd'') (Some ''getcwdb''),
     MovedAttribute p ''range'' ''__builtin__'' (Some ''builtins'') (Some ''xrange'') (Some ''range''),
     MovedAttribute p ''reload_module'' ''__builtin__'' (Some (if PY34 p then ''importlib'' else ''imp'')) (Some ''reload'') None,
     MovedAttribute p ''reduce'' ''__builtin__'' (Some ''functools'') None None,
     MovedAttribute p ''shlex_quote'' ''pipes'' (Some ''shlex'') (Some ''quote'') None,
     MovedAttribute p ''StringIO'' ''StringIO'' (Some ''io'') None None,
     MovedAttribute p ''UserDict'' ''UserDict'' (Some ''collections'') None None,
     MovedAttribute p ''UserList'' ''UserList'' (Some ''collections'') None None,
     MovedAttribute p ''UserString'' ''UserString'' (Some ''collections'') None None,
     MovedAttribute p ''xrange'' ''__builtin__'' (Some ''builtins'') (Some ''xrange'') (Some ''range''),
     MovedAttribute p ''zip'' ''itertools'' (Some ''builtins'') (Some ''izip'') (Some ''zip''),
     MovedAttribute p ''zip_longest'' ''itertools'' (Some ''itertools'') (Some ''izip_longest'') (Some ''zip_longest''),
     MovedModule p ''builtins'' ''__builtin__'' None,
     MovedModule p ''configparser'' ''ConfigParser'' None,
     MovedModule p ''copyreg'' ''copy_reg'' None,
     MovedModule p ''dbm_gnu'' ''gdbm'' (Some ''dbm.gnu''),
     MovedModule p ''_dummy_thread'' ''dummy_thread'' (Some ''_dummy_thread''),
     MovedModule p ''http_cookiejar'' ''cookielib'' (Some ''http.cookiejar''),
     MovedModule p ''http_cookies'' ''Cookie'' (Some ''http.cookies''),
     MovedModule p ''html_entities'' ''htmlentitydefs'' (Some ''html.entities''),
     MovedModule p ''html_parser'' ''HTMLParser'' (Some ''html.parser''),
     MovedModule p ''http_client'' ''httplib'' (Some ''http.client''),
     MovedModule p ''email_mime_multipart'' ''email.MIMEMultipart'' (Some ''email.mime.multipart''),
     MovedModule p ''email_mime_nonmultipart'' ''email.MIMENonMultipart'' (Some ''email.mime.nonmultipart''),
     MovedModule p ''email_mime_text'' ''email.MIMEText'' (Some ''email.mime.text''),
     MovedModule p ''email_mime_base'' ''email.MIMEBase'' (Some ''email.mime.base''),
     MovedModule p ''BaseHTTPServer'' ''BaseHTTPServer'' (Some ''http.server''),
     MovedModule p ''CGIHTTPServer'' ''CGIHTTPServer'' (Some ''http.server''),
     MovedModule p ''SimpleHTTPServer'' ''SimpleHTTPServer'' (Some ''http.server''),
     MovedModule p ''cPickle'' ''cPickle'' (Some ''pickle''),
     MovedModule p ''queue'' ''Queue'' None,
     MovedModule p ''reprlib'' ''repr'' None,
     MovedModule p ''socketserver'' ''SocketServer'' None,
     MovedModule p ''_thread'' ''thread'' (Some ''_thread''),
     MovedModule p ''tkinter'' ''Tkinter'' None,
     MovedModule p ''tkinter_dialog'' ''Dialog'' (Some ''tkinter.dialog''),
     MovedModule p ''tkinter_filedialog'' ''FileDialog'' (Some ''tkinter.filedialog''),
     MovedModule p ''tkinter_scrolledtext'' ''ScrolledText'' (Some ''tkinter.scrolledtext''),
     MovedModule p ''tkinter_simpledialog'' ''SimpleDialog'' (Some ''tkinter.simpledialog''),
     MovedModule p ''tkinter_tix'' ''Tix'' (Some ''tkinter.tix''),
     MovedModule p ''tkinter_ttk'' ''ttk'' (Some ''tkinter.ttk''),
     MovedModule p ''tkinter_constants'' ''Tkconstants'' (Some ''tkinter.constants''),
     MovedModule p ''tkinter_dnd'' ''Tkdnd'' (Some ''tkinter.dnd''),
     MovedModule p ''tkinter_colorchooser'' ''tkColorChooser'' (Some ''tkinter.colorchooser''),
     MovedModule p ''tkinter_commondialog'' ''tkCommonDialog'' (Some ''tkinter.commondialog''),
     MovedModule p ''tkinter_tkfiledialog'' ''tkFileDialog'' (Some ''tkinter.filedialog''),
     MovedModule p ''tkinter_font'' ''tkFont'' (Some ''tkinter.font''),
     MovedModule p ''tkinter_messagebox'' ''tkMessageBox'' (Some ''tkinter.messagebox''),
     MovedModule p ''tkinter_tksimpledialog'' ''tkSimpleDialog'' (Some ''tkinter.simpledialog''),
     MovedModule p ''urllib_parse'' (six_full ''moves.urllib_parse'') (Some ''urllib.parse''),
     MovedModule p ''urllib_error'' (six_full ''moves.urllib_error'') (Some ''urllib.error''),
     MovedModule p ''urllib'' (six_full ''moves.urllib'') (Some (six_full ''moves.urllib'')),
     MovedModule p ''urllib_robotparser'' ''robotparser'' (Some ''urllib.robotparser''),
     MovedModule p ''xmlrpc_client'' ''xmlrpclib'' (Some ''xmlrpc.client''),
     MovedModule p ''xmlrpc_server'' ''SimpleXMLRPCServer'' (Some ''xmlrpc.server'')]
     @ (if platform p = ''win32'' then [MovedModule p ''winreg'' ''_winreg'' None] else [])"

definition urllib_parse_table :: "'v py \<Rightarrow> moved list" where
  "urllib_parse_table p = [
     MovedAttribute p ''ParseResult'' ''urlparse'' (Some ''urllib.parse'') None None,
     MovedAttribute p ''SplitResult'' ''urlparse'' (Some ''urllib.parse'') None None,
     MovedAttribute p ''parse_qs'' ''urlparse'' (Some ''urllib.parse'') None None,
     MovedAttribute p ''parse_qsl'' ''urlparse'' (Some ''urllib.parse'') None None,
     MovedAttribute p ''urldefrag'' ''urlparse'' (Some ''urllib.parse'') None None,
     MovedAttribute p ''urljoin'' ''urlparse'' (Some ''urllib.parse'') None None,
     MovedAttribute p ''urlparse'' ''urlparse'' (Some ''urllib.parse'') None None,
     MovedAttribute p ''urlsplit'' ''urlparse'' (Some ''urllib.parse'') None None,
     MovedAttribute p ''urlunparse'' ''urlparse'' (Some ''urllib.parse'') None None,
     MovedAttribute p ''urlunsplit'' ''urlparse'' (Some ''urllib.parse'') None None,
     MovedAttribute p ''quote'' ''urllib'' (Some ''urllib.parse'') None None,
     MovedAttribute p ''quote_plus'' ''urllib'' (Some ''urllib.parse'') None None,
     MovedAttribute p ''unquote'' ''urllib'' (Some ''urllib.parse'') None None,
     MovedAttribute p ''unquote_plus'' ''urllib'' (Some ''urllib.parse'') None None,
     MovedAttribute p ''urlencode'' ''urllib'' (Some ''urllib.parse'') None None,
     MovedAttribute p ''splitquery'' ''urllib'' (Some ''urllib.parse'') None None,
     MovedAttribute p ''splittag'' ''urllib'' (Some ''urllib.parse'') None None,
     MovedAttribute p ''splituser'' ''urllib'' (Some ''urllib.parse'') None None,
     MovedAttribute p ''uses_fragment'' ''urlparse'' (Some ''urllib.parse'') None None,
     MovedAttribute p ''uses_netloc'' ''urlparse'' (Some ''urllib.parse'') None None,
     MovedAttribute p ''uses_params'' ''urlparse'' (Some ''urllib.parse'') None None,
     MovedAttribute p ''uses_query'' ''urlparse'' (Some ''urllib.parse'') None None,
     MovedAttribute p ''uses_relative'' ''urlparse'' (Some ''urllib.parse'') None None]"

definition urllib_error_table :: "'v py \<Rightarrow> moved list" where
  "urllib_error_table p = [
     MovedAttribute p ''URLError'' ''urllib2'' (Some ''urllib.error'') None None,
     MovedAttribute p ''HTTPError'' ''urllib2'' (Some ''urllib.error'') None None,
     MovedAttribute p ''ContentTooShortError'' ''urllib'' (Some ''urllib.error'') None None]"

definition urllib_request_table :: "'v py \<Rightarrow> moved list" where
  "urllib_request_table p = [
     MovedAttribute p ''urlopen'' ''urllib2'' (Some ''urllib.request'') None None,
     MovedAttribute p ''install_opener'' ''urllib2'' (Some ''urllib.request'') None None,
     MovedAttribute p ''build_opener'' ''urllib2'' (Some ''urllib.request'') None None,
     MovedAttribute p ''pathname2url'' ''urllib'' (Some ''urllib.request'') None None,
     MovedAttribute p ''url2pathname'' ''urllib'' (Some ''urllib.request'') None None,
     MovedAttribute p ''getproxies'' ''urllib'' (Some ''urllib.request'') None None,
     MovedAttribute p ''Request'' ''urllib2'' (Some ''urllib.request'') None None,
     MovedAttribute p ''OpenerDirector'' ''urllib2'' (Some ''urllib.request'') None None,
     MovedAttribute p ''HTTPDefaultErrorHandler'' ''urllib2'' (Some ''urllib.request'') None None,
     MovedAttribute p ''HTTPRedirectHandler'' ''urllib2'' (Some ''urllib.request'') None None,
     MovedAttribute p ''HTTPCookieProcessor'' ''urllib2'' (Some ''urllib.request'') None None,
     MovedAttribute p ''ProxyHandler'' ''urllib2'' (Some ''urllib.request'') None None,
     MovedAttribute p ''BaseHandler'' ''urllib2'' (Some ''urllib.request'') None None,
     MovedAttribute p ''HTTPPasswordMgr'' ''urllib2'' (Some ''urllib.request'') None None,
     MovedAttribute p ''HTTPPasswordMgrWithDefaultRealm'' ''urllib2'' (Some ''urllib.request'') None None,
     MovedAttribute p ''AbstractBasicAuthHandler'' ''urllib2'' (Some ''urllib.request'') None None,
     MovedAttribute p ''HTTPBasicAuthHandler'' ''urllib2'' (Some ''urllib.request'') None None,
     MovedAttribute p ''ProxyBasicAuthHandler'' ''urllib2'' (Some ''urllib.request'') None None,
     MovedAttribute p ''AbstractDigestAuthHandler'' ''urllib2'' (Some ''urllib.request'') None None,
     MovedAttribute p ''HTTPDigestAuthHandler'' ''urllib2'' (Some ''urllib.request'') None None,
     MovedAttribute p ''ProxyDigestAuthHandler'' ''urllib2'' (Some ''urllib.request'') None None,
     MovedAttribute p ''HTTPHandler'' ''urllib2'' (Some ''urllib.request'') None None,
     MovedAttribute p ''HTTPSHandler'' ''urllib2'' (Some ''urllib.request'') None None,
     MovedAttribute p ''FileHandler'' ''urllib2'' (Some ''urllib.request'') None None,
     MovedAttribute p ''FTPHandler'' ''urllib2'' (Some ''urllib.request'') None None,
     MovedAttribute p ''CacheFTPHandler'' ''urllib2'' (Some ''urllib.request'') None None,
     MovedAttribute p ''UnknownHandler'' ''urllib2'' (Some ''urllib.request'') None None,
     MovedAttribute p ''HTTPErrorProcessor'' ''urllib2'' (Some ''urllib.request'') None None,
     MovedAttribute p ''urlretrieve'' ''urllib'' (Some ''urllib.request'') None None,
     MovedAttribute p ''urlcleanup'' ''urllib'' (Some ''urllib.request'') None None,
     MovedAttribute p ''URLopener'' ''urllib'' (Some ''urllib.request'') None None,
     MovedAttribute p ''FancyURLopener'' ''urllib'' (Some ''urllib.request'') None None,
     MovedAttribute p ''proxy_bypass'' ''urllib'' (Some ''urllib.request'') None None]"

definition urllib_response_table :: "'v py \<Rightarrow> moved list" where
  "urllib_response_table p = [
     MovedAttribute p ''addbase'' ''urllib'' (Some ''urllib.response'') None None,
     MovedAttribute p ''addclosehook'' ''urllib'' (Some ''urllib.response'') None None,
     MovedAttribute p ''addinfo'' ''urllib'' (Some ''urllib.response'') None None,
     MovedAttribute p ''addinfourl'' ''urllib'' (Some ''urllib.response'') None None]"

definition urllib_robotparser_table :: "'v py \<Rightarrow> moved list" where
  "urllib_robotparser_table p = [
     MovedAttribute p ''RobotFileParser'' ''robotparser'' (Some ''urllib.robotparser'') None None]"

section \<open>Building the modules\<close>

definition set_moved_attributes :: "bytes \<Rightarrow> moved list \<Rightarrow> ('v six, unit) act" where
  "set_moved_attributes c ms = modE (\<lambda>s. s\<lparr>moved_attributes := (moved_attributes s)(c := ms)\<rparr>)"

definition LazyModule_dir :: "'v six \<Rightarrow> bytes \<Rightarrow> bytes list" where
  \<comment> \<open>\<open>_LazyModule.__dir__\<close>\<close>
  "LazyModule_dir s c = [''__doc__'', ''__name__''] @ map mv_name (moved_attributes s c)"

definition build_moves :: "'v py \<Rightarrow> ('v six, unit) act" where
  \<comment> \<open>the class \<open>_MovedItems\<close> and its instance\<close>
  "build_moves p =
     bindE (set_class ''moves'' ''__path__'' (Some (Plain PNil))) (\<lambda>_.
     bindE (each (\<lambda>attr.
         bindE (set_class ''moves'' (mv_name attr) (Some (Descr attr))) (\<lambda>_.
         whenE (mv_attr attr = None) (add_module (KMoved attr Map.empty) [''moves.'' @ mv_name attr])))
       (moves_table p)) (\<lambda>_.
     bindE (set_moved_attributes ''moves'' (moves_table p)) (\<lambda>_.
     add_module (KModule ''moves'') [''moves''])))"

definition build_lazy :: "bytes \<Rightarrow> moved list \<Rightarrow> bytes list \<Rightarrow> ('v six, unit) act" where
  \<comment> \<open>the same for one of the five modules below \<open>urllib\<close>\<close>
  "build_lazy c table fullnames =
     bindE (each (\<lambda>attr. set_class c (mv_name attr) (Some (Descr attr))) table) (\<lambda>_.
     bindE (set_moved_attributes c table) (\<lambda>_.
     add_module (KModule c) fullnames))"

definition build_urllib_parse :: "'v py \<Rightarrow> ('v six, unit) act" where
  "build_urllib_parse p = build_lazy ''moves.urllib_parse'' (urllib_parse_table p)
     [''moves.urllib_parse'', ''moves.urllib.parse'']"

definition build_urllib_error :: "'v py \<Rightarrow> ('v six, unit) act" where
  "build_urllib_error p = build_lazy ''moves.urllib_error'' (urllib_error_table p)
     [''moves.urllib_error'', ''moves.urllib.error'']"

definition build_urllib_request :: "'v py \<Rightarrow> ('v six, unit) act" where
  "build_urllib_request p = build_lazy ''moves.urllib_request'' (urllib_request_table p)
     [''moves.urllib_request'', ''moves.urllib.request'']"

definition build_urllib_response :: "'v py \<Rightarrow> ('v six, unit) act" where
  "build_urllib_response p = build_lazy ''moves.urllib_response'' (urllib_response_table p)
     [''moves.urllib_response'', ''moves.urllib.response'']"

definition build_urllib_robotparser :: "'v py \<Rightarrow> ('v six, unit) act" where
  "build_urllib_robotparser p = build_lazy ''moves.urllib_robotparser'' (urllib_robotparser_table p)
     [''moves.urllib_robotparser'', ''moves.urllib.robotparser'']"

definition known_value :: "'v known \<Rightarrow> 'v pyval option" where
  \<comment> \<open>the module of six a name is known for\<close>
  "known_value k = (case k of KModule c \<Rightarrow> Some (PLazy c) | KMoved _ _ \<Rightarrow> None)"

definition urllib_dir :: "bytes list" where
  "urllib_dir = [''parse'', ''error'', ''request'', ''response'', ''robotparser'']"

definition build_urllib :: "('v six, unit) act" where
  \<comment> \<open>\<open>Module_six_moves_urllib\<close>, whose class has the five modules as attributes\<close>
  "build_urllib =
     bindE (set_class ''moves.urllib'' ''__path__'' (Some (Plain PNil))) (\<lambda>_.
     bindE (each (\<lambda>name.
         bindE (get_six_module (''moves.urllib_'' @ name)) (\<lambda>k.
         set_class ''moves.urllib'' name (map_option Plain (known_value k)))) urllib_dir) (\<lambda>_.
     add_module (KModule ''moves.urllib'') [''moves.urllib'']))"

section \<open>Adding and removing moves\<close>

definition add_move :: "moved \<Rightarrow> ('v six, unit) act" where
  "add_move mv = set_class ''moves'' (mv_name mv) (Some (Descr mv))"

definition remove_move :: "bytes \<Rightarrow> ('v six, unit) act" where
  "remove_move name = withE (\<lambda>s.
     if class_dict s ''moves'' name \<noteq> None then set_class ''moves'' name None
     else if inst_dict s ''moves'' name \<noteq> None then
       modE (\<lambda>s. s\<lparr>inst_dict := (inst_dict s)(''moves'' := (inst_dict s ''moves'')(name := None))\<rparr>)
     else raiseE (AttributeError (''no such move, '' @ py_repr name)))"

section \<open>Loading six\<close>

fun remove_first :: "('a \<Rightarrow> bool) \<Rightarrow> 'a list \<Rightarrow> 'a list" where
  "remove_first P [] = []"
| "remove_first P (x # xs) = (if P x then xs else x # remove_first P xs)"

definition install_importer :: "('v six, unit) act" where
  \<comment> \<open>the end of six.py: the first importer of another copy of six goes, the new one is appended\<close>
  "install_importer = modE (\<lambda>s. s\<lparr>meta_path :=
     remove_first (\<lambda>f. f = SixImporter six_name) (meta_path s) @ [SixImporter six_name]\<rparr>)"

definition before_six :: "finder list \<Rightarrow> (bytes \<rightharpoonup> 'v pyval) \<Rightarrow> 'v six" where
  "before_six path modules = \<lparr>sys_modules = modules(six_name \<mapsto> PModule six_name), meta_path = path,
     known_modules = Map.empty, class_dict = (\<lambda>_. Map.empty), inst_dict = (\<lambda>_. Map.empty),
     moved_attributes = (\<lambda>_. [])\<rparr>"

definition build_six :: "'v py \<Rightarrow> ('v six, unit) act" where
  "build_six p =
     bindE (build_moves p) (\<lambda>_.
     bindE (build_urllib_parse p) (\<lambda>_.
     bindE (build_urllib_error p) (\<lambda>_.
     bindE (build_urllib_request p) (\<lambda>_.
     bindE (build_urllib_response p) (\<lambda>_.
     bindE (build_urllib_robotparser p) (\<lambda>_.
     build_urllib))))))"

definition load_six :: "'v py \<Rightarrow> nat \<Rightarrow> ('v six, unit) act" where
  \<comment> \<open>the module body; \<open>exec_\<close> and \<open>print_\<close> are looked up in \<open>moves.builtins\<close> before the importer is installed\<close>
  "load_six p n =
     bindE (build_six p) (\<lambda>_.
     bindE (get_attribute p n (PLazy ''moves'') ''builtins'') (\<lambda>b.
     bindE (if PY3 p then bindE (get_attribute p n b ''exec'') (\<lambda>_. retE ()) else retE ()) (\<lambda>_.
     install_importer)))"

end
