(* ===== verification/SixLazy.thy ===== *)
theory SixLazy
  imports SixMoves
begin

text \<open>
  What importing and reading through \<open>six.moves\<close> delivers. An import is specified without a state, by the
  modules present at the start and those the other importers find; the table \<open>sys.modules\<close> and the
  attributes stored in the lazy modules are caches of it. The locale \<open>import_cache\<close> has what one level of
  loading has to promise for this, and it is interpreted twice: for modules outside six and for all.
\<close>

section \<open>The specification\<close>

definition parts :: "bytes \<Rightarrow> bytes list" where
  "parts n = rev (py_split (CHR ''.'') n)"

definition is_six :: "bytes \<Rightarrow> bool" where
  "is_six n \<longleftrightarrow> hd (py_split (CHR ''.'') n) = six_name"

definition has_path :: "'v py \<Rightarrow> 'v pyval \<Rightarrow> bool" where
  "has_path p v = (case v of
     PModule m \<Rightarrow> m = six_name \<or> (case std_modules p m of None \<Rightarrow> False | Some d \<Rightarrow> d ''__path__'' \<noteq> None)
   | PLazy c \<Rightarrow> c = ''moves'' \<or> c = ''moves.urllib''
   | _ \<Rightarrow> False)"

definition no_module :: "bytes \<Rightarrow> pyexc" where
  "no_module n = ImportError (''No module named '' @ n)"

fun pure_chain :: "'v py \<Rightarrow> (bytes \<rightharpoonup> 'v pyval) \<Rightarrow> (bytes \<Rightarrow> pyexc + 'v pyval) \<Rightarrow> bytes list
    \<Rightarrow> pyexc + 'v pyval option" where
  "pure_chain p B L [] = Inr None"
| "pure_chain p B L (w # ws) =
     (if PY3 p \<and> B (dotted (w # ws)) \<noteq> None then Inr (B (dotted (w # ws)))
      else sbind (pure_chain p B L ws) (\<lambda>parent. case B (dotted (w # ws)) of
          Some m \<Rightarrow> Inr (Some m)
        | None \<Rightarrow>
            if case parent of None \<Rightarrow> True | Some m \<Rightarrow> has_path p m
            then map_sum id Some (L (dotted (w # ws)))
            else Inl (no_module (dotted (w # ws)))))"

definition pure_import :: "'v py \<Rightarrow> (bytes \<rightharpoonup> 'v pyval) \<Rightarrow> (bytes \<Rightarrow> pyexc + 'v pyval) \<Rightarrow> bytes
    \<Rightarrow> pyexc + 'v pyval" where
  "pure_import p B L n = map_sum id the (pure_chain p B L (parts n))"

definition std_find :: "'v py \<Rightarrow> bytes \<Rightarrow> pyexc + 'v pyval" where
  "std_find p n = (case std_modules p n of None \<Rightarrow> Inl (no_module n) | Some _ \<Rightarrow> Inr (PModule n))"

definition six_find :: "'v py \<Rightarrow> (bytes \<rightharpoonup> 'v pyval) \<Rightarrow> (bytes \<rightharpoonup> 'v known) \<Rightarrow> bytes \<Rightarrow> pyexc + 'v pyval" where
  "six_find p B K n = (case K n of
     None \<Rightarrow> std_find p n
   | Some (KModule c) \<Rightarrow> Inr (PLazy c)
   | Some (KMoved mv _) \<Rightarrow> pure_import p B (std_find p) (mv_mod mv))"

definition module_attribute :: "'v py \<Rightarrow> 'v pyval \<Rightarrow> bytes \<Rightarrow> pyexc + 'v pyval" where
  "module_attribute p v a = (case v of
     PModule m \<Rightarrow>
       if m = six_name \<and> a = ''__path__'' then Inr PNil
       else (case std_modules p m of
           None \<Rightarrow> Inl (AttributeError a)
         | Some d \<Rightarrow> (case d a of None \<Rightarrow> Inl (AttributeError a) | Some x \<Rightarrow> Inr x))
   | _ \<Rightarrow> Inl (AttributeError a))"

definition moved_value :: "'v py \<Rightarrow> (bytes \<rightharpoonup> 'v pyval) \<Rightarrow> (bytes \<rightharpoonup> 'v known) \<Rightarrow> moved \<Rightarrow> pyexc + 'v pyval" where
  \<comment> \<open>what a move stands for\<close>
  "moved_value p B K mv = sbind (pure_import p B (six_find p B K) (mv_mod mv)) (\<lambda>m.
     case mv_attr mv of None \<Rightarrow> Inr m | Some a \<Rightarrow> module_attribute p m a)"

section \<open>Names\<close>

lemma dotted_parts [simp]: "dotted (parts n) = n"
  by (simp add: dotted_def parts_def py_join_split)

lemma parts_ne [simp]: "parts n \<noteq> []"
  by (simp add: parts_def)

lemma parts_dot: "w \<in> set (parts n) \<Longrightarrow> CHR ''.'' \<notin> set w"
  by (auto simp: parts_def dest: set_py_split)

lemma parts_dotted: "ws \<noteq> [] \<Longrightarrow> (\<And>w. w \<in> set ws \<Longrightarrow> CHR ''.'' \<notin> set w) \<Longrightarrow> parts (dotted ws) = ws"
  unfolding parts_def dotted_def by (subst py_split_join) auto

lemma is_six_parts: "is_six n \<longleftrightarrow> last (parts n) = six_name"
  by (simp add: is_six_def parts_def last_rev)

lemma is_six_dotted:
  "(\<And>v. v \<in> set (w # ws) \<Longrightarrow> CHR ''.'' \<notin> set v) \<Longrightarrow> is_six (dotted (w # ws)) \<longleftrightarrow> last (w # ws) = six_name"
  unfolding is_six_parts by (subst parts_dotted) auto

lemma dotted_Cons: "ws \<noteq> [] \<Longrightarrow> dotted (w # ws) = dotted ws @ ''.'' @ w"
proof -
  have "xs \<noteq> [] \<Longrightarrow> py_join ''.'' (xs @ [w]) = py_join ''.'' xs @ ''.'' @ w" for xs
    by (induction xs rule: list_nonempty_induct) (simp_all add: py_join_Cons)
  then show "ws \<noteq> [] \<Longrightarrow> dotted (w # ws) = dotted ws @ ''.'' @ w" by (simp add: dotted_def)
qed

section \<open>One level of loading\<close>

text \<open>
  \<open>L\<close> is what loading a module gives, \<open>I\<close> what is known of the state. A name in \<open>sys.modules\<close> was there at
  the start or is the result of importing it; loading keeps this.
\<close>

locale import_cache =
  fixes p :: "'v py" and B :: "bytes \<rightharpoonup> 'v pyval" and L :: "bytes \<Rightarrow> pyexc + 'v pyval"
    and imp :: "bytes \<Rightarrow> ('v six, 'v pyval) act" and get :: "'v pyval \<Rightarrow> bytes \<Rightarrow> ('v six, 'v pyval) act"
    and I :: "'v six \<Rightarrow> bool" and good :: "bytes list \<Rightarrow> bool"
  assumes base: "I s \<Longrightarrow> B n = Some v \<Longrightarrow> sys_modules s n = Some v"
    and hit: "I s \<Longrightarrow> good (w # ws) \<Longrightarrow> sys_modules s (dotted (w # ws)) = Some v \<Longrightarrow> B (dotted (w # ws)) = Some v
        \<or> pure_chain p B L (w # ws) = Inr (Some v)"
    and tail: "good (w # ws) \<Longrightarrow> good ws"
    and path: "I s \<Longrightarrow> good ws \<Longrightarrow> pure_chain p B L ws = Inr m \<Longrightarrow> parent_has_path get n m s
        = (if case m of None \<Rightarrow> True | Some m \<Rightarrow> has_path p m then Inr () else Inl (no_module n), s)"
    and load: "I s \<Longrightarrow> good (w # ws) \<Longrightarrow> sys_modules s (dotted (w # ws)) = None
        \<Longrightarrow> pure_chain p B L ws = Inr m \<Longrightarrow> (case m of None \<Rightarrow> True | Some m \<Rightarrow> has_path p m)
        \<Longrightarrow> \<exists>t. find_and_load p imp (dotted (w # ws)) s = (L (dotted (w # ws)), t)
            \<and> (case L (dotted (w # ws)) of Inl e \<Rightarrow> I t
               | Inr v \<Rightarrow> \<exists>u. set_child m w v t = (Inr (), u) \<and> I u \<and> sys_modules u (dotted (w # ws)) = Some v)"
begin

lemma steps:
  assumes "I s" and "good ws"
  shows "\<exists>t. import_steps p imp get ws s = (pure_chain p B L ws, t) \<and> I t
     \<and> (\<forall>v. pure_chain p B L ws = Inr (Some v) \<longrightarrow> sys_modules t (dotted ws) = Some v)"
  using assms
proof (induction ws arbitrary: s)
  case Nil
  then show ?case by simp
next
  case (Cons w ws)
  let ?n = "dotted (w # ws)"
  show ?case
  proof (cases "PY3 p \<and> sys_modules s ?n \<noteq> None")
    case True
    then obtain v where v: "sys_modules s ?n = Some v" by blast
    from hit[OF Cons.prems this] True have "pure_chain p B L (w # ws) = Inr (Some v)" by auto
    then show ?thesis using True v Cons.prems by simp
  next
    case False
    then have nB: "\<not> (PY3 p \<and> B ?n \<noteq> None)" using base[OF Cons.prems(1), of ?n] by (cases "B ?n") auto
    from Cons.IH[OF Cons.prems(1) tail[OF Cons.prems(2)]] obtain t where
      t: "import_steps p imp get ws s = (pure_chain p B L ws, t)" "I t" by blast
    show ?thesis
    proof (cases "pure_chain p B L ws")
      case (Inl e)
      then show ?thesis using False nB t by (simp add: bindE_def)
    next
      case (Inr m)
      have one: "import_steps p imp get (w # ws) s = (case sys_modules t ?n of
           Some v \<Rightarrow> (Inr (Some v), t)
         | None \<Rightarrow> bindE (parent_has_path get ?n m) (\<lambda>_. bindE (find_and_load p imp ?n)
             (\<lambda>v. bindE (set_child m w v) (\<lambda>_. retE (Some v)))) t)"
        using False t Inr by (cases "PY3 p") (simp_all add: bindE_def split: option.split)
      show ?thesis
      proof (cases "sys_modules t ?n")
        case (Some v)
        from hit[OF t(2) Cons.prems(2) Some] have "pure_chain p B L (w # ws) = Inr (Some v)"
        proof
          assume "B ?n = Some v"
          then show ?thesis using nB Inr by simp
        qed
        then show ?thesis using one Some t(2) by simp
      next
        case None
        then have B: "B ?n = None" using base[OF t(2), of ?n] by (cases "B ?n") auto
        note ph = path[OF t(2) tail[OF Cons.prems(2)] Inr, of ?n]
        show ?thesis
        proof (cases "case m of None \<Rightarrow> True | Some m \<Rightarrow> has_path p m")
          case False
          then show ?thesis using one None ph nB B Inr t(2) by (simp add: bindE_def)
        next
          case True
          from load[OF t(2) Cons.prems(2) None Inr True] obtain u where
            u: "find_and_load p imp ?n t = (L ?n, u)" and
            u': "case L ?n of Inl e \<Rightarrow> I u
               | Inr v \<Rightarrow> \<exists>x. set_child m w v u = (Inr (), x) \<and> I x \<and> sys_modules x ?n = Some v" by blast
          have pc: "pure_chain p B L (w # ws) = map_sum id Some (L ?n)" using nB B Inr True by simp
          show ?thesis
            using u u' one None ph True unfolding pc by (cases "L ?n") (auto simp: bindE_def)
        qed
      qed
    qed
  qed
qed

lemma resolve:
  assumes "I s" and "good (parts n)"
  shows "\<exists>t. resolve_module (import_step p imp get) n s = (pure_import p B L n, t) \<and> I t"
proof -
  obtain w ws where ws: "parts n = w # ws" by (cases "parts n") auto
  from steps[OF assms] obtain t where t: "import_steps p imp get (parts n) s = (pure_chain p B L (parts n), t)" "I t"
    "\<forall>v. pure_chain p B L (parts n) = Inr (Some v) \<longrightarrow> sys_modules t n = Some v" by auto
  have some: "pure_chain p B L (parts n) = Inr m \<Longrightarrow> m \<noteq> None" for m
    unfolding ws by (cases "B (dotted (w # ws))"; cases "L (dotted (w # ws))") (auto simp: sbind_Inr_iff split: if_splits dest: sym)
  show ?thesis
    using t some by (cases "pure_chain p B L (parts n)")
      (auto simp: resolve_module_def import_step_def pure_import_def bindE_def simp flip: parts_def)
qed

end

section \<open>What is built\<close>

definition lazy_table :: "'v py \<Rightarrow> bytes \<Rightarrow> moved list" where
  \<comment> \<open>the moves of a lazy module\<close>
  "lazy_table p c =
     (if c = ''moves'' then moves_table p
      else if c = ''moves.urllib_parse'' then urllib_parse_table p
      else if c = ''moves.urllib_error'' then urllib_error_table p
      else if c = ''moves.urllib_request'' then urllib_request_table p
      else if c = ''moves.urllib_response'' then urllib_response_table p
      else if c = ''moves.urllib_robotparser'' then urllib_robotparser_table p
      else [])"

definition lazy_modules :: "bytes list" where
  "lazy_modules = ''moves'' # ''moves.urllib'' # map (\<lambda>n. ''moves.urllib_'' @ n) urllib_dir"

lemma move_fields [simp]:
  "mv_name (MovedModule p a o1 n1) = a" "mv_name (MovedAttribute p a o1 n1 x y) = a"
  "mv_attr (MovedModule p a o1 n1) = None" "mv_attr (MovedAttribute p a o1 n1 x y) \<noteq> None"
  "mv_mod (MovedModule p a o1 n1) = (if PY3 p then (case n1 of None \<Rightarrow> a | Some n \<Rightarrow> n) else o1)"
  "mv_mod (MovedAttribute p a o1 n1 x y) = (if PY3 p then (case n1 of None \<Rightarrow> a | Some n \<Rightarrow> n) else o1)"
  by (simp_all add: MovedModule_def MovedAttribute_def)

lemma dict_effects:
  "set_class c a i s = (Inr (), s\<lparr>class_dict := (class_dict s)(c := (class_dict s c)(a := i))\<rparr>)"
  "set_instance c a v s = (Inr (), s\<lparr>inst_dict := (inst_dict s)(c := (inst_dict s c)(a \<mapsto> v))\<rparr>)"
  "set_module n v s = (Inr (), s\<lparr>sys_modules := (sys_modules s)(n \<mapsto> v)\<rparr>)"
  "set_moved_attributes c ms s = (Inr (), s\<lparr>moved_attributes := (moved_attributes s)(c := ms)\<rparr>)"
  "add_module k fs s = (Inr (), s\<lparr>known_modules := fold (\<lambda>f K. K(six_full f \<mapsto> k)) fs (known_modules s)\<rparr>)"
  by (simp_all add: set_class_def set_instance_def set_module_def set_moved_attributes_def add_module_def)

lemma each_set_class:
  "each (\<lambda>m. set_class c (mv_name m) (Some (Descr m))) ms s
     = (Inr (), s\<lparr>class_dict := (class_dict s)(c := class_dict s c
         ++ map_of (rev (map (\<lambda>m. (mv_name m, Descr m)) ms)))\<rparr>)"
  by (induction ms arbitrary: s) (simp_all add: set_class_def map_add_def fun_eq_iff split: option.split)

lemma each_moves:
  "each (\<lambda>m. bindE (set_class ''moves'' (mv_name m) (Some (Descr m))) (\<lambda>_.
       whenE (mv_attr m = None) (add_module (KMoved m Map.empty) [''moves.'' @ mv_name m]))) ms s
     = (Inr (), s\<lparr>class_dict := (class_dict s)(''moves'' := class_dict s ''moves''
           ++ map_of (rev (map (\<lambda>m. (mv_name m, Descr m)) ms))),
         known_modules := known_modules s ++ map_of (rev (map (\<lambda>m. (six_full (''moves.'' @ mv_name m), KMoved m Map.empty))
           (filter (\<lambda>m. mv_attr m = None) ms)))\<rparr>)"
  by (induction ms arbitrary: s)
    (simp_all add: set_class_def add_module_def whenE_def map_add_def fun_eq_iff split: option.split)

definition six_class :: "'v py \<Rightarrow> bytes \<Rightarrow> bytes \<rightharpoonup> 'v class_item" where
  "six_class p c =
     (if c = ''moves.urllib''
      then [''__path__'' \<mapsto> Plain PNil, ''parse'' \<mapsto> Plain (PLazy ''moves.urllib_parse''),
            ''error'' \<mapsto> Plain (PLazy ''moves.urllib_error''), ''request'' \<mapsto> Plain (PLazy ''moves.urllib_request''),
            ''response'' \<mapsto> Plain (PLazy ''moves.urllib_response''),
            ''robotparser'' \<mapsto> Plain (PLazy ''moves.urllib_robotparser'')]
      else (if c = ''moves'' then [''__path__'' \<mapsto> Plain PNil] else Map.empty)
        ++ map_of (rev (map (\<lambda>m. (mv_name m, Descr m)) (lazy_table p c))))"

definition six_moved :: "'v py \<Rightarrow> bytes \<rightharpoonup> 'v known" where
  "six_moved p = map_of (rev (map (\<lambda>m. (six_full (''moves.'' @ mv_name m), KMoved m Map.empty))
       (filter (\<lambda>m. mv_attr m = None) (moves_table p))))"

definition six_known :: "'v py \<Rightarrow> bytes \<rightharpoonup> 'v known" where
  "six_known p = (six_moved p)
     (six_full ''moves'' \<mapsto> KModule ''moves'',
      six_full ''moves.urllib_parse'' \<mapsto> KModule ''moves.urllib_parse'',
      six_full ''moves.urllib.parse'' \<mapsto> KModule ''moves.urllib_parse'',
      six_full ''moves.urllib_error'' \<mapsto> KModule ''moves.urllib_error'',
      six_full ''moves.urllib.error'' \<mapsto> KModule ''moves.urllib_error'',
      six_full ''moves.urllib_request'' \<mapsto> KModule ''moves.urllib_request'',
      six_full ''moves.urllib.request'' \<mapsto> KModule ''moves.urllib_request'',
      six_full ''moves.urllib_response'' \<mapsto> KModule ''moves.urllib_response'',
      six_full ''moves.urllib.response'' \<mapsto> KModule ''moves.urllib_response'',
      six_full ''moves.urllib_robotparser'' \<mapsto> KModule ''moves.urllib_robotparser'',
      six_full ''moves.urllib.robotparser'' \<mapsto> KModule ''moves.urllib_robotparser'',
      six_full ''moves.urllib'' \<mapsto> KModule ''moves.urllib'')"

lemma six_full_eq [simp]: "six_full a = six_full b \<longleftrightarrow> a = b"
  by (simp add: six_full_def)

lemma build_lazy_effect:
  assumes "class_dict s c = Map.empty" and "c \<notin> {''moves'', ''moves.urllib''}" and "table = lazy_table p c"
  shows "build_lazy c table names s = (Inr (), s\<lparr>class_dict := (class_dict s)(c := six_class p c),
     moved_attributes := (moved_attributes s)(c := lazy_table p c),
     known_modules := fold (\<lambda>f k. k(six_full f \<mapsto> KModule c)) names (known_modules s)\<rparr>)"
  using assms by (simp add: build_lazy_def bindE_def each_set_class dict_effects six_class_def)

lemma build_moves_effect:
  "build_moves p (before_six path B) = (Inr (), (before_six path B)\<lparr>
     class_dict := (\<lambda>_. Map.empty)(''moves'' := six_class p ''moves''),
     moved_attributes := (\<lambda>_. [])(''moves'' := moves_table p),
     known_modules := (six_moved p)(six_full ''moves'' \<mapsto> KModule ''moves'')\<rparr>)"
  by (simp add: build_moves_def bindE_def dict_effects each_moves before_six_def six_class_def lazy_table_def six_moved_def
      del: append.simps)

lemma class_updates:
  "(\<lambda>_. Map.empty)(''moves'' := six_class p ''moves'', ''moves.urllib_parse'' := six_class p ''moves.urllib_parse'',
     ''moves.urllib_error'' := six_class p ''moves.urllib_error'', ''moves.urllib_request'' := six_class p ''moves.urllib_request'',
     ''moves.urllib_response'' := six_class p ''moves.urllib_response'',
     ''moves.urllib_robotparser'' := six_class p ''moves.urllib_robotparser'', ''moves.urllib'' := six_class p ''moves.urllib'')
   = six_class p"
  by (auto simp: fun_eq_iff six_class_def lazy_table_def)

lemma table_updates:
  "(\<lambda>_. [])(''moves'' := moves_table p, ''moves.urllib_parse'' := lazy_table p ''moves.urllib_parse'',
     ''moves.urllib_error'' := lazy_table p ''moves.urllib_error'', ''moves.urllib_request'' := lazy_table p ''moves.urllib_request'',
     ''moves.urllib_response'' := lazy_table p ''moves.urllib_response'',
     ''moves.urllib_robotparser'' := lazy_table p ''moves.urllib_robotparser'') = lazy_table p"
  by (auto simp: fun_eq_iff lazy_table_def)

lemma build_urllib_effect:
  assumes "list_all (\<lambda>n. known_modules s (six_full (''moves.urllib_'' @ n)) = Some (KModule (''moves.urllib_'' @ n))) urllib_dir"
    and "class_dict s ''moves.urllib'' = Map.empty"
  shows "build_urllib s = (Inr (), s\<lparr>class_dict := (class_dict s)(''moves.urllib'' := six_class p ''moves.urllib''),
     known_modules := (known_modules s)(six_full ''moves.urllib'' \<mapsto> KModule ''moves.urllib'')\<rparr>)"
  using assms by (simp add: build_urllib_def bindE_def dict_effects urllib_dir_def get_six_module_def known_value_def six_class_def)

lemma lazy_table_urllib:
  "lazy_table p ''moves.urllib_parse'' = urllib_parse_table p"
  "lazy_table p ''moves.urllib_error'' = urllib_error_table p"
  "lazy_table p ''moves.urllib_request'' = urllib_request_table p"
  "lazy_table p ''moves.urllib_response'' = urllib_response_table p"
  "lazy_table p ''moves.urllib_robotparser'' = urllib_robotparser_table p"
  by (simp_all add: lazy_table_def)

lemma build_six_effect:
  "build_six p (before_six path B) = (Inr (), (before_six path B)\<lparr>
     known_modules := six_known p, class_dict := six_class p, moved_attributes := lazy_table p\<rparr>)"
  unfolding build_six_def build_urllib_parse_def build_urllib_error_def build_urllib_request_def
    build_urllib_response_def build_urllib_robotparser_def lazy_table_urllib[symmetric]
  by (simp add: bindE_def build_moves_effect[unfolded before_six_def] build_lazy_effect
      build_urllib_effect[where p = p] urllib_dir_def before_six_def six_known_def class_updates table_updates)

section \<open>Looking up in what is built\<close>

lemma distinct_moves: "distinct (map mv_name (moves_table p))"
  by (simp add: moves_table_def)

lemma distinct_tables: "distinct (map mv_name (lazy_table p c))"
  by (simp add: lazy_table_def distinct_moves urllib_parse_table_def urllib_error_table_def urllib_request_table_def
      urllib_response_table_def urllib_robotparser_table_def)

text \<open>
  The modules behind moves are outside six, apart from three below \<open>urllib\<close>, of which Python 2 has all and
  Python 3 the first. Nothing is called by the names with underscores that importing uses.
\<close>

definition move_ok :: "'v py \<Rightarrow> bytes \<Rightarrow> moved \<Rightarrow> bool" where
  "move_ok p c mv \<longleftrightarrow> mv_name mv \<noteq> ''__path__'' \<and> mv_name mv \<noteq> ''__loader__'' \<and> CHR ''.'' \<notin> set (mv_name mv)
     \<and> (is_six (mv_mod mv) \<longrightarrow> c = ''moves'' \<and> mv_attr mv = None \<and> mv_mod mv = six_full (''moves.'' @ mv_name mv)
         \<and> mv_name mv \<in> {''urllib'', ''urllib_parse'', ''urllib_error''})"

lemma moves_ok: "list_all (move_ok p ''moves'') (moves_table p)"
  by (simp add: moves_table_def move_ok_def is_six_def six_name_def six_full_def)

lemma tables_ok: "mv \<in> set (lazy_table p c) \<Longrightarrow> move_ok p c mv"
proof -
  have "list_all (move_ok p c) (lazy_table p c)"
    using moves_ok[of p]
    by (simp add: lazy_table_def urllib_parse_table_def urllib_error_table_def urllib_request_table_def
      urllib_response_table_def urllib_robotparser_table_def move_ok_def is_six_def six_name_def)
  then show "mv \<in> set (lazy_table p c) \<Longrightarrow> move_ok p c mv" by (simp add: list_all_iff)
qed

lemma class_descr:
  fixes p :: "'v py"
  assumes "mv \<in> set (lazy_table p c)"
  shows "six_class p c (mv_name mv) = Some (Descr mv)"
proof -
  let ?ms = "rev (map (\<lambda>m. (mv_name m, Descr m :: 'v class_item)) (lazy_table p c))"
  have "distinct (map fst ?ms)" using distinct_tables[of p c] by (auto simp: distinct_map inj_on_def)
  then have "map_of ?ms (mv_name mv) = Some (Descr mv)" using assms by (subst map_of_eq_Some_iff) auto
  moreover have "c \<noteq> ''moves.urllib''" using assms by (auto simp: lazy_table_def)
  ultimately show ?thesis by (simp add: six_class_def map_add_def)
qed

lemma class_descr_iff: "six_class p c a = Some (Descr mv) \<longleftrightarrow> mv \<in> set (lazy_table p c) \<and> mv_name mv = a"
proof
  assume "six_class p c a = Some (Descr mv)"
  then show "mv \<in> set (lazy_table p c) \<and> mv_name mv = a"
    by (auto simp: six_class_def lazy_table_def map_add_Some_iff dest!: map_of_SomeD split: if_splits)
qed (auto simp: class_descr)

lemma class_plain:
  assumes "six_class p c a = Some (Plain v)"
  shows "a = ''__path__'' \<and> v = PNil \<and> c \<in> {''moves'', ''moves.urllib''} \<or> c = ''moves.urllib''"
  using assms by (auto simp: six_class_def map_add_Some_iff dest!: map_of_SomeD split: if_splits)

lemma class_path:
  fixes p :: "'v py"
  shows "six_class p c ''__path__'' = (if c = ''moves'' \<or> c = ''moves.urllib'' then Some (Plain PNil) else None)"
proof -
  have "''__path__'' \<notin> mv_name ` set (lazy_table p c)" for c using tables_ok[of _ p c] by (force simp: move_ok_def)
  then have "map_of (rev (map (\<lambda>m. (mv_name m, Descr m :: 'v class_item)) (lazy_table p c))) ''__path__'' = None" for c
    unfolding map_of_eq_None_iff by (simp add: image_image)
  then show ?thesis by (simp add: six_class_def map_add_def)
qed

lemma known_moved:
  assumes "six_known p n = Some (KMoved mv d)"
  shows "mv \<in> set (moves_table p)" "mv_attr mv = None" "n = six_full (''moves.'' @ mv_name mv)" "\<not> is_six (mv_mod mv)"
proof -
  have 1: "six_moved p n = Some (KMoved mv d)"
    and 2: "n \<notin> {six_full ''moves.urllib'', six_full ''moves.urllib_parse'', six_full ''moves.urllib_error''}"
    using assms by (auto simp: six_known_def split: if_splits)
  from 1 show 3: "mv \<in> set (moves_table p)" "mv_attr mv = None" "n = six_full (''moves.'' @ mv_name mv)"
    by (auto simp: six_moved_def dest!: map_of_SomeD)
  with 2 tables_ok[of mv p "''moves''"] show "\<not> is_six (mv_mod mv)"
    by (auto simp: move_ok_def lazy_table_def)
qed

lemma known_module:
  assumes "six_known p n = Some (KModule c)" and "c = ''moves'' \<or> c = ''moves.urllib''"
  shows "n = six_full c"
  using assms by (auto simp: six_known_def six_moved_def dest!: map_of_SomeD split: if_splits)

lemma six_full_is_six [simp]: "is_six (six_full n)"
  by (simp add: is_six_def six_full_def six_name_def py_split_append_sep[of "CHR ''.''" "''six''", simplified])

lemma known_is_six: "six_known p n = Some k \<Longrightarrow> is_six n"
  by (auto simp: six_known_def six_moved_def dest!: map_of_SomeD split: if_splits)

end
