(* ===== verification/SixCache.thy ===== *)
theory SixCache
  imports SixLazy
begin

text \<open>
  The invariant of the lazy modules: \<open>sys.modules\<close> holds what was there and what importing gives, and the
  dictionaries of the lazy modules what their moves stand for. Every import and every read keeps it and
  delivers what the specification in SixLazy says.
\<close>

section \<open>The invariant\<close>

definition clean :: "'v py \<Rightarrow> (bytes \<rightharpoonup> 'v pyval) \<Rightarrow> bool" where
  \<comment> \<open>nothing else is called \<open>six\<close>, and no module present at the start is a lazy one\<close>
  "clean p B \<longleftrightarrow> (\<forall>n. is_six n \<longrightarrow> std_modules p n = None)
     \<and> (\<forall>n. is_six n \<longrightarrow> B n = (if n = six_name then Some (PModule six_name) else None))
     \<and> (\<forall>n c. B n \<noteq> Some (PLazy c))"

abbreviation six_chain :: "'v py \<Rightarrow> (bytes \<rightharpoonup> 'v pyval) \<Rightarrow> bytes list \<Rightarrow> pyexc + 'v pyval option" where
  "six_chain p B \<equiv> pure_chain p B (six_find p B (six_known p))"

abbreviation six_import :: "'v py \<Rightarrow> (bytes \<rightharpoonup> 'v pyval) \<Rightarrow> bytes \<Rightarrow> pyexc + 'v pyval" where
  "six_import p B \<equiv> pure_import p B (six_find p B (six_known p))"

abbreviation std_chain :: "'v py \<Rightarrow> (bytes \<rightharpoonup> 'v pyval) \<Rightarrow> bytes list \<Rightarrow> pyexc + 'v pyval option" where
  "std_chain p B \<equiv> pure_chain p B (std_find p)"

definition stored :: "'v py \<Rightarrow> (bytes \<rightharpoonup> 'v pyval) \<Rightarrow> bytes \<Rightarrow> bytes \<Rightarrow> 'v pyval \<Rightarrow> bool" where
  \<comment> \<open>a value a lazy module may hold: that of a move, or a submodule\<close>
  "stored p B c a v \<longleftrightarrow>
     (\<exists>mv\<in>set (lazy_table p c). mv_name mv = a \<and> moved_value p B (six_known p) mv = Inr v)
     \<or> (c = ''moves'' \<or> c = ''moves.urllib'') \<and> six_import p B (six_full (c @ ''.'' @ a)) = Inr v"

definition sound :: "'v py \<Rightarrow> (bytes \<rightharpoonup> 'v pyval) \<Rightarrow> finder list \<Rightarrow> 'v six \<Rightarrow> bool" where
  "sound p B M s \<longleftrightarrow> clean p B \<and> meta_path s = M \<and> known_modules s = six_known p
     \<and> (\<forall>n v. B n = Some v \<longrightarrow> sys_modules s n = Some v)
     \<and> (\<forall>n v. sys_modules s n = Some v \<longrightarrow> B n = Some v \<or> six_import p B n = Inr v)
     \<and> (\<forall>c a. class_dict s c a = six_class p c a
          \<or> class_dict s c a = None \<and> inst_dict s c a \<noteq> None \<and> (\<exists>mv\<in>set (lazy_table p c). mv_name mv = a))
     \<and> (\<forall>c a v. inst_dict s c a = Some v \<longrightarrow> a = ''__loader__'' \<or> stored p B c a v)"

section \<open>Names outside six and names of six\<close>

definition no_dots :: "bytes list \<Rightarrow> bool" where
  "no_dots ws \<longleftrightarrow> (\<forall>w\<in>set ws. CHR ''.'' \<notin> set w)"

definition outside :: "bytes list \<Rightarrow> bool" where
  "outside ws \<longleftrightarrow> no_dots ws \<and> (ws \<noteq> [] \<longrightarrow> last ws \<noteq> six_name)"

lemma no_dots_simps [simp]: "no_dots []" "no_dots (w # ws) \<longleftrightarrow> CHR ''.'' \<notin> set w \<and> no_dots ws" "no_dots (parts n)"
  by (auto simp: no_dots_def dest: parts_dot)

lemma outside_simps [simp]: "outside []" "outside (w # ws) \<Longrightarrow> outside ws"
  by (auto simp: outside_def split: if_splits)

lemma outside_parts: "\<not> is_six n \<Longrightarrow> outside (parts n)"
  by (simp add: outside_def is_six_parts)

lemma parts_Cons: "no_dots (w # ws) \<Longrightarrow> parts (dotted (w # ws)) = w # ws"
  by (rule parts_dotted) (auto simp: no_dots_def)

lemma outside_dotted: "outside (w # ws) \<Longrightarrow> \<not> is_six (dotted (w # ws))"
  unfolding is_six_parts by (subst parts_Cons) (auto simp: outside_def)

lemma outside_known: "outside (w # ws) \<Longrightarrow> six_known p (dotted (w # ws)) = None"
  using outside_dotted known_is_six[of p "dotted (w # ws)"] by (cases "six_known p (dotted (w # ws))") auto

lemma outside_chain: "outside ws \<Longrightarrow> six_chain p B ws = std_chain p B ws"
proof (induction ws)
  case (Cons w ws)
  have "six_find p B (six_known p) (dotted (w # ws)) = std_find p (dotted (w # ws))"
    by (simp add: six_find_def outside_known[OF Cons.prems])
  then show ?case using Cons.IH outside_simps(2)[OF Cons.prems] by (cases "B (dotted (w # ws))") (simp_all cong: if_cong)
qed simp

lemma outside_import: "\<not> is_six n \<Longrightarrow> six_import p B n = pure_import p B (std_find p) n"
  by (simp add: pure_import_def outside_chain outside_parts)

lemma chain_import: "no_dots (w # ws) \<Longrightarrow> pure_chain p B L (w # ws) = Inr (Some v) \<Longrightarrow> pure_import p B L (dotted (w # ws)) = Inr v"
  unfolding pure_import_def by (subst parts_Cons) (simp_all del: pure_chain.simps)

lemma import_chain:
  assumes "pure_import p B L n = Inr v"
  shows "pure_chain p B L (parts n) = Inr (Some v)"
proof -
  obtain w ws where ws: "parts n = w # ws" by (cases "parts n") auto
  have "pure_chain p B L (w # ws) \<noteq> Inr None"
    by (cases "B (dotted (w # ws))"; cases "L (dotted (w # ws))") (auto simp: sbind_Inr_iff split: if_splits dest: sym)
  then show ?thesis
    using assms unfolding pure_import_def ws by (cases "pure_chain p B L (w # ws)") (auto simp del: pure_chain.simps)
qed

lemma std_not_lazy: "clean p B \<Longrightarrow> std_chain p B ws \<noteq> Inr (Some (PLazy c))"
  by (cases ws) (auto simp: clean_def sbind_Inr_iff std_find_def split: if_splits option.splits dest!: sym[of "Some _"])

lemma import_not_lazy: "clean p B \<Longrightarrow> \<not> is_six n \<Longrightarrow> six_import p B n \<noteq> Inr (PLazy c)"
  using import_chain[of p B "std_find p" n "PLazy c"] std_not_lazy[of p B "parts n" c] by (auto simp: outside_import)

lemma import_unknown:
  assumes "clean p B" and "is_six n" and "n \<noteq> six_name" and "six_known p n = None"
  shows "six_import p B n \<noteq> Inr v"
proof
  assume v: "six_import p B n = Inr v"
  obtain w ws where ws: "parts n = w # ws" by (cases "parts n") auto
  then have n: "dotted (w # ws) = n" by (metis dotted_parts)
  have "B n = None" "std_modules p n = None" using assms(1-3) by (auto simp: clean_def)
  with import_chain[OF v] show False
    by (auto simp: ws n six_find_def assms(4) std_find_def sbind_Inr_iff split: if_splits)
qed

lemma six_chain_lazy:
  assumes cl: "clean p B" and v: "six_chain p B (w # ws) = Inr (Some (PLazy c))"
  shows "\<exists>n. dotted (w # ws) = n \<and> six_known p n = Some (KModule c)"
proof -
  let ?n = "dotted (w # ws)"
  have B: "B ?n \<noteq> Some (PLazy c)" using cl by (simp add: clean_def)
  show ?thesis
  proof (cases "six_known p ?n")
    case None
    then show ?thesis using v B by (auto simp: six_find_def std_find_def sbind_Inr_iff split: if_splits option.splits)
  next
    case (Some k)
    then show ?thesis
    proof (cases k)
      case (KMoved mv d)
      have "pure_import p B (std_find p) (mv_mod mv) \<noteq> Inr (PLazy c)"
        using import_chain std_not_lazy[OF cl] by blast
      then show ?thesis using v B Some KMoved
        by (cases "pure_import p B (std_find p) (mv_mod mv)") (auto simp: six_find_def sbind_Inr_iff split: if_splits option.splits)
    next
      case (KModule c')
      then show ?thesis using v B Some by (auto simp: six_find_def sbind_Inr_iff split: if_splits option.splits)
    qed
  qed
qed

lemma six_full_name [simp]: "six_full n \<noteq> six_name" "six_name \<noteq> six_full n"
  by (simp_all add: six_full_def)

section \<open>What keeps the invariant\<close>

lemma sound_clean: "sound p B M s \<Longrightarrow> clean p B"
  by (simp add: sound_def)

lemma sound_known: "sound p B M s \<Longrightarrow> known_modules s = six_known p"
  by (simp add: sound_def)

lemma sound_base: "sound p B M s \<Longrightarrow> B n = Some v \<Longrightarrow> sys_modules s n = Some v"
  by (simp add: sound_def)

lemma sound_hit: "sound p B M s \<Longrightarrow> sys_modules s n = Some v \<Longrightarrow> B n = Some v \<or> six_import p B n = Inr v"
  by (simp add: sound_def)

lemma sound_class: "sound p B M s \<Longrightarrow> class_dict s c a = six_class p c a
    \<or> class_dict s c a = None \<and> inst_dict s c a \<noteq> None \<and> (\<exists>mv\<in>set (lazy_table p c). mv_name mv = a)"
  unfolding sound_def by blast

lemma sound_inst: "sound p B M s \<Longrightarrow> inst_dict s c a = Some v \<Longrightarrow> a = ''__loader__'' \<or> stored p B c a v"
  unfolding sound_def by blast

lemma sound_module:
  assumes "sound p B M s" and "B n = None" and "six_import p B n = Inr v"
  shows "sound p B M (s\<lparr>sys_modules := (sys_modules s)(n \<mapsto> v)\<rparr>)"
  using assms unfolding sound_def by auto

lemma sound_instance:
  assumes "sound p B M s" and "a = ''__loader__'' \<or> stored p B c a v"
  shows "sound p B M (s\<lparr>inst_dict := (inst_dict s)(c := (inst_dict s c)(a \<mapsto> v))\<rparr>)"
  using assms unfolding sound_def by auto

lemma sound_resolved:
  assumes "sound p B M s" and "mv \<in> set (lazy_table p c)" and "moved_value p B (six_known p) mv = Inr v"
  shows "sound p B M (s\<lparr>inst_dict := (inst_dict s)(c := (inst_dict s c)(mv_name mv \<mapsto> v)),
     class_dict := (class_dict s)(c := (class_dict s c)(mv_name mv := None))\<rparr>)"
  using assms unfolding sound_def stored_def by auto

text \<open>The path of a package is never replaced.\<close>

lemma known_dots:
  assumes "six_known p (six_full (c @ ''.'' @ a)) = Some (KMoved mv d)"
  shows "mv \<in> set (moves_table p)" "c = ''moves''" "mv_name mv = a" "mv_attr mv = None" "\<not> is_six (mv_mod mv)"
proof -
  note k = known_moved[OF assms]
  show "mv \<in> set (moves_table p)" "mv_attr mv = None" "\<not> is_six (mv_mod mv)" by (fact k)+
  have "CHR ''.'' \<notin> set (mv_name mv)" using tables_ok[of mv p "''moves''"] k(1) by (simp add: lazy_table_def move_ok_def)
  then have "py_split (CHR ''.'') (''moves.'' @ mv_name mv) = [''moves'', mv_name mv]"
    using py_split_append_sep[of "CHR ''.''" "''moves''" "mv_name mv"] by (simp add: py_split_no_sep)
  moreover have "py_split (CHR ''.'') (c @ ''.'' @ a) = py_split (CHR ''.'') c @ py_split (CHR ''.'') a"
  proof (induction c)
    case (Cons x c)
    obtain w ws where "py_split (CHR ''.'') c = w # ws" using py_split_ne by (meson neq_Nil_conv)
    with Cons show ?case by simp
  qed simp
  moreover have "c @ ''.'' @ a = ''moves.'' @ mv_name mv" using k(3) by simp
  ultimately have e: "py_split (CHR ''.'') c @ py_split (CHR ''.'') a = [''moves'', mv_name mv]" by simp
  then have "py_split (CHR ''.'') c = [''moves'']" "py_split (CHR ''.'') a = [mv_name mv]"
    by (auto simp: append_eq_Cons_conv)
  then show "c = ''moves''" "mv_name mv = a"
    using py_join_split[of "CHR ''.''" c] py_join_split[of "CHR ''.''" a] by simp_all
qed

lemma stored_path: "clean p B \<Longrightarrow> \<not> stored p B c ''__path__'' v"
proof
  assume cl: "clean p B" and "stored p B c ''__path__'' v"
  then have c: "c = ''moves'' \<or> c = ''moves.urllib''" and i: "six_import p B (six_full (c @ ''.__path__'')) = Inr v"
    using tables_ok[of _ p c] by (auto simp: stored_def move_ok_def)
  have "six_known p (six_full (c @ ''.__path__'')) \<noteq> Some (KMoved mv d)" for mv d
    using known_dots(1,3)[of p c "''__path__''" mv d] tables_ok[of mv p "''moves''"] by (auto simp: lazy_table_def move_ok_def)
  moreover have "six_known p (six_full (c @ ''.__path__'')) \<noteq> Some (KModule k)" for k
    using c by (auto simp: six_known_def six_moved_def dest!: map_of_SomeD)
  ultimately have "six_known p (six_full (c @ ''.__path__'')) = None" by (metis known.exhaust option.exhaust)
  from import_unknown[OF cl six_full_is_six _ this] i show False by auto
qed

lemma lazy_path:
  assumes "sound p B M s"
  shows "lazy_get imp get c ''__path__'' s
    = (if c = ''moves'' \<or> c = ''moves.urllib'' then Inr PNil else Inl (AttributeError ''__path__''), s)"
proof -
  have "inst_dict s c ''__path__'' = None"
    using sound_inst[OF assms, of c "''__path__''"] stored_path[OF sound_clean[OF assms]] by (cases "inst_dict s c ''__path__''") auto
  moreover from this have "class_dict s c ''__path__'' = six_class p c ''__path__''"
    using sound_class[OF assms, of c "''__path__''"] by auto
  ultimately show ?thesis by (simp add: lazy_get_def class_path)
qed

lemma path_of_parent:
  assumes "sound p B M s"
  shows "parent_has_path (attribute_step p imp get) n m s
    = (if case m of None \<Rightarrow> True | Some m \<Rightarrow> has_path p m then Inr () else Inl (no_module n), s)"
proof (cases m)
  case (Some v)
  then show ?thesis
    by (cases v) (auto simp: parent_has_path_def attribute_step_def has_path_def lazy_path[OF assms] no_module_def
        split: option.split)
qed (simp add: parent_has_path_def)

section \<open>Loading modules outside six\<close>

text \<open>Of the functions of the level below only reading attributes matters here.\<close>

definition same_six :: "'v six \<Rightarrow> 'v six \<Rightarrow> bool" where
  \<comment> \<open>nothing of six has been touched\<close>
  "same_six s t \<longleftrightarrow> inst_dict t = inst_dict s \<and> (\<forall>n. is_six n \<longrightarrow> sys_modules t n = sys_modules s n)"

lemma same_six_refl [simp]: "same_six s s"
  by (simp add: same_six_def)

lemma same_six_trans: "same_six r s \<Longrightarrow> same_six s t \<Longrightarrow> same_six r t"
  by (simp add: same_six_def)

lemma load_outside:
  assumes co: "sound p B M s" and out: "outside (w # ws)"
    and new: "sys_modules s (dotted (w # ws)) = None" and m: "std_chain p B ws = Inr m"
    and pth: "case m of None \<Rightarrow> True | Some m \<Rightarrow> has_path p m"
  shows "\<exists>t. find_and_load p imp (dotted (w # ws)) s = (std_find p (dotted (w # ws)), t)
     \<and> (case std_find p (dotted (w # ws)) of Inl e \<Rightarrow> sound p B M t \<and> same_six s t
        | Inr v \<Rightarrow> \<exists>u. set_child m w v t = (Inr (), u) \<and> (sound p B M u \<and> same_six s u)
            \<and> sys_modules u (dotted (w # ws)) = Some v)"
proof -
  let ?n = "dotted (w # ws)"
  have nf: "\<not> find_module s ?n" using sound_known[OF co] by (simp add: find_module_def outside_known[OF out])
  have B: "B ?n = None" using sound_base[OF co, of ?n] new by (cases "B ?n") auto
  show ?thesis
  proof (cases "std_modules p ?n")
    case None
    then show ?thesis using nf co by (simp add: find_and_load_def std_find_def no_module_def)
  next
    case (Some d)
    have "std_chain p B (w # ws) = Inr (Some (PModule ?n))" using B m pth Some by (simp add: std_find_def)
    with out have "six_import p B ?n = Inr (PModule ?n)"
      by (intro chain_import) (simp_all add: outside_def flip: outside_chain del: pure_chain.simps)
    from sound_module[OF co B this] show ?thesis
      using nf Some outside_dotted[OF out] std_not_lazy[OF sound_clean[OF co], of ws] m
      by (auto simp: find_and_load_def std_find_def dict_effects bindE_def set_child_def same_six_def split: option.split pyval.split)
  qed
qed

interpretation outside_six: import_cache p B "std_find p" imp "attribute_step p imp0 get0"
    "\<lambda>s. sound p B M s \<and> same_six r s" outside
  for p :: "'v py" and B imp imp0 get0 M r
proof
  fix s w ws m v
  assume s: "sound p B M s \<and> same_six r s"
  show "B (dotted (w # ws)) = Some v \<or> std_chain p B (w # ws) = Inr (Some v)"
    if "outside (w # ws)" "sys_modules s (dotted (w # ws)) = Some v"
  proof -
    have "no_dots (w # ws)" using that(1) by (simp add: outside_def)
    then show ?thesis
      using sound_hit[OF conjunct1[OF s] that(2)] outside_chain[OF that(1), of p B]
        import_chain[of p B "six_find p B (six_known p)" "dotted (w # ws)" v]
      by (auto simp del: pure_chain.simps simp: parts_Cons)
  qed
  assume "outside (w # ws)" "sys_modules s (dotted (w # ws)) = None" "std_chain p B ws = Inr m"
    "case m of None \<Rightarrow> True | Some m \<Rightarrow> has_path p m"
  from load_outside[OF conjunct1[OF s] this, of imp]
  obtain t where t: "find_and_load p imp (dotted (w # ws)) s = (std_find p (dotted (w # ws)), t)"
    "case std_find p (dotted (w # ws)) of Inl e \<Rightarrow> sound p B M t \<and> same_six s t
      | Inr v \<Rightarrow> \<exists>u. set_child m w v t = (Inr (), u) \<and> (sound p B M u \<and> same_six s u)
          \<and> sys_modules u (dotted (w # ws)) = Some v" by blast
  then show "\<exists>t. find_and_load p imp (dotted (w # ws)) s = (std_find p (dotted (w # ws)), t)
     \<and> (case std_find p (dotted (w # ws)) of Inl e \<Rightarrow> sound p B M t \<and> same_six r t
        | Inr v \<Rightarrow> \<exists>u. set_child m w v t = (Inr (), u) \<and> (sound p B M u \<and> same_six r u)
            \<and> sys_modules u (dotted (w # ws)) = Some v)" using same_six_trans[OF conjunct2[OF s]]
    by (cases "std_find p (dotted (w # ws))") auto
qed (auto simp: sound_base path_of_parent)

lemma resolve_outside:
  assumes "sound p B M s" and "\<not> is_six n"
  shows "\<exists>t. resolve_module (import_step p imp (attribute_step p imp0 get0)) n s = (six_import p B n, t)
     \<and> sound p B M t \<and> same_six s t"
  using outside_six.resolve[OF conjI[OF assms(1) same_six_refl] outside_parts[OF assms(2)]] outside_import[OF assms(2), of p B] by simp

section \<open>Loading any module\<close>

lemma child_kept:
  assumes so: "sound p B M u" and nd: "no_dots (w # ws)" and m: "six_chain p B ws = Inr m"
    and pth: "case m of None \<Rightarrow> True | Some m \<Rightarrow> has_path p m" and v: "six_import p B (dotted (w # ws)) = Inr v"
  shows "\<exists>x. set_child m w v u = (Inr (), x) \<and> sound p B M x \<and> sys_modules x = sys_modules u"
proof (cases "\<exists>c. m = Some (PLazy c)")
  case True
  then obtain c where c: "m = Some (PLazy c)" by blast
  then have pc: "c = ''moves'' \<or> c = ''moves.urllib''" using pth by (simp add: has_path_def)
  obtain y ys where ws: "ws = y # ys" using m c by (cases ws) auto
  from six_chain_lazy[OF sound_clean[OF so] m[unfolded c ws]] pc have "dotted ws = six_full c"
    using known_module[of p "dotted ws" c] ws by auto
  then have "dotted (w # ws) = six_full (c @ ''.'' @ w)" using ws dotted_Cons[of ws w] by (simp add: six_full_def)
  then have "stored p B c w v" using v pc by (simp add: stored_def)
  from sound_instance[OF so, of w c v] this c show ?thesis by (auto simp: set_child_def dict_effects)
qed (use so in \<open>auto simp: set_child_def split: option.split pyval.split\<close>)

lemma load_any:
  assumes so: "sound p B M s" and M: "SixImporter six_name \<in> set M" and nd: "no_dots (w # ws)"
    and new: "sys_modules s (dotted (w # ws)) = None" and m: "six_chain p B ws = Inr m"
    and pth: "case m of None \<Rightarrow> True | Some m \<Rightarrow> has_path p m"
  defines "n \<equiv> dotted (w # ws)"
  shows "\<exists>t. find_and_load p (import_step p imp1 (attribute_step p imp0 get0)) n s = (six_find p B (six_known p) n, t)
     \<and> (case six_find p B (six_known p) n of Inl e \<Rightarrow> sound p B M t
        | Inr v \<Rightarrow> \<exists>u. set_child m w v t = (Inr (), u) \<and> sound p B M u \<and> sys_modules u n = Some v)"
proof -
  let ?imp = "import_step p imp1 (attribute_step p imp0 get0)"
  note cl = sound_clean[OF so] and kn = sound_known[OF so]
  have B: "B n = None" using sound_base[OF so, of n] new by (cases "B n") (auto simp: n_def)
  have imp: "six_import p B n = Inr v" if "six_find p B (six_known p) n = Inr v" for v
    unfolding n_def using nd B m pth that by (intro chain_import) (simp_all add: n_def)
  have kept: "\<exists>x. set_child m w v (u\<lparr>sys_modules := (sys_modules u)(n \<mapsto> v)\<rparr>) = (Inr (), x) \<and> sound p B M x \<and> sys_modules x n = Some v"
    if "sound p B M u" "six_find p B (six_known p) n = Inr v" for u v
    using child_kept[OF sound_module[OF that(1) B imp[OF that(2)]] nd m pth imp[OF that(2), unfolded n_def]] by auto
  show ?thesis
  proof (cases "six_known p n")
    case None
    show ?thesis
    proof (cases "is_six n")
      case True
      then have "std_modules p n = None" using cl by (simp add: clean_def)
      then show ?thesis using None kn so by (simp add: six_find_def find_and_load_def find_module_def std_find_def no_module_def)
    next
      case False
      then have out: "outside (w # ws)" using outside_parts[of n] nd by (simp add: n_def parts_Cons)
      have "std_chain p B ws = Inr m" using m outside_chain[OF outside_simps(2)[OF out], of p B] by simp
      note loaded = load_outside[OF so out new this pth, of ?imp, folded n_def]
      have "six_find p B (six_known p) n = std_find p n" using None by (simp add: six_find_def)
      then show ?thesis using loaded by (cases "std_find p n") auto
    qed
  next
    case (Some k)
    then have "std_modules p n = None" using cl known_is_six[OF Some] by (simp add: clean_def)
    then have fl: "find_and_load p ?imp n s = load_module ?imp n s"
      using Some kn M so by (simp add: find_and_load_def find_module_def sound_def)
    show ?thesis
    proof (cases k)
      case (KModule c)
      have "sound p B M (s\<lparr>inst_dict := (inst_dict s)(c := (inst_dict s c)(''__loader__'' \<mapsto> PImporter))\<rparr>)"
        using sound_instance[OF so] by blast
      from kept[OF this, of "PLazy c"] show ?thesis
        using Some KModule new kn unfolding fl
        by (simp add: load_module_def get_known_def dict_effects bindE_def six_find_def n_def)
    next
      case (KMoved mv d)
      from known_moved[OF Some[unfolded KMoved]] have out: "\<not> is_six (mv_mod mv)" by simp
      from resolve_outside[OF so this] obtain t where
        t: "resolve_module ?imp (mv_mod mv) s = (pure_import p B (std_find p) (mv_mod mv), t)" "sound p B M t"
        unfolding outside_import[OF out, of p B] by blast
      from kept[OF t(2)] show ?thesis
        using Some KMoved new kn t unfolding fl
        by (cases "pure_import p B (std_find p) (mv_mod mv)")
          (simp_all add: load_module_def get_known_def dict_effects bindE_def six_find_def n_def)
    qed
  qed
qed

interpretation all_six: import_cache p B "six_find p B (six_known p)" "import_step p imp1 (attribute_step p imp0 get0)"
    "attribute_step p imp2 get2" "\<lambda>s. sound p B M s \<and> SixImporter six_name \<in> set M" no_dots
  for p :: "'v py" and B imp1 imp0 get0 imp2 get2 M
proof
  fix s w ws m v
  assume s: "sound p B M s \<and> SixImporter six_name \<in> set M"
  show "B (dotted (w # ws)) = Some v \<or> six_chain p B (w # ws) = Inr (Some v)"
    if "no_dots (w # ws)" "sys_modules s (dotted (w # ws)) = Some v"
    using sound_hit[of p B M s "dotted (w # ws)" v] s that
      import_chain[of p B "six_find p B (six_known p)" "dotted (w # ws)" v]
    by (auto simp del: pure_chain.simps simp: parts_Cons)
  let ?n = "dotted (w # ws)"
  assume l: "no_dots (w # ws)" "sys_modules s ?n = None" "six_chain p B ws = Inr m" "case m of None \<Rightarrow> True | Some m \<Rightarrow> has_path p m"
  obtain t where t: "find_and_load p (import_step p imp1 (attribute_step p imp0 get0)) ?n s = (six_find p B (six_known p) ?n, t)"
    "case six_find p B (six_known p) ?n of Inl e \<Rightarrow> sound p B M t
      | Inr v \<Rightarrow> \<exists>u. set_child m w v t = (Inr (), u) \<and> sound p B M u \<and> sys_modules u ?n = Some v"
    using load_any[OF conjunct1[OF s] conjunct2[OF s] l] by blast
  then show "\<exists>t. find_and_load p (import_step p imp1 (attribute_step p imp0 get0)) ?n s = (six_find p B (six_known p) ?n, t)
     \<and> (case six_find p B (six_known p) ?n of Inl e \<Rightarrow> sound p B M t \<and> SixImporter six_name \<in> set M
        | Inr v \<Rightarrow> \<exists>u. set_child m w v t = (Inr (), u) \<and> (sound p B M u \<and> SixImporter six_name \<in> set M) \<and> sys_modules u ?n = Some v)"
    using s by (cases "six_find p B (six_known p) ?n") auto
qed (auto simp: sound_base path_of_parent)

lemma resolve_any:
  assumes "sound p B M s" and "SixImporter six_name \<in> set M"
  shows "\<exists>t. resolve_module (import_step p (import_step p imp1 (attribute_step p imp0 get0)) (attribute_step p imp2 get2)) n s
      = (six_import p B n, t) \<and> sound p B M t"
  using all_six.resolve[where p = p and B = B and M = M and s = s and n = n] assms by auto

section \<open>Reading an attribute\<close>

lemma attribute_of_module: "(\<And>c. m \<noteq> PLazy c) \<Longrightarrow> attribute_step p imp get m a s = (module_attribute p m a, s)"
  by (cases m) (auto simp: attribute_step_def module_attribute_def split: option.split)

lemma moved_outside:
  assumes "mv \<in> set (lazy_table p c)" and "mv_attr mv \<noteq> None"
  shows "\<not> is_six (mv_mod mv)"
  using tables_ok[OF assms(1)] assms(2) by (auto simp: move_ok_def)

text \<open>
  A move outside six needs only the level below, and no importer: that is how six.py reads
  \<open>builtins\<close> while it is loaded.
\<close>

lemma moved_resolve_value:
  assumes mv: "mv \<in> set (lazy_table p c)" and cl: "clean p B"
    and r: "resolve_module imp (mv_mod mv) s = (six_import p B (mv_mod mv), t)"
  shows "moved_resolve imp (attribute_step p imp0 get0) mv s = (moved_value p B (six_known p) mv, t)"
proof (cases "six_import p B (mv_mod mv)")
  case (Inr m)
  show ?thesis
  proof (cases "mv_attr mv")
    case (Some a)
    then have "\<not> is_six (mv_mod mv)" using moved_outside[OF mv] by simp
    then have "m \<noteq> PLazy c" for c using Inr import_not_lazy[OF cl, of "mv_mod mv" c] by auto
    then show ?thesis using Some Inr r by (simp add: moved_resolve_def bindE_def moved_value_def attribute_of_module)
  qed (use Inr r in \<open>simp add: moved_resolve_def bindE_def moved_value_def\<close>)
qed (use r in \<open>simp add: moved_resolve_def bindE_def moved_value_def\<close>)

lemma descr_get_value:
  assumes mv: "mv \<in> set (lazy_table p c)"
    and r: "resolve_module imp (mv_mod mv) s = (six_import p B (mv_mod mv), t)" "sound p B M t"
  shows "\<exists>u. descr_get imp (attribute_step p imp0 get0) mv c s = (moved_value p B (six_known p) mv, u) \<and> sound p B M u"
proof -
  note v = moved_resolve_value[OF mv sound_clean[OF r(2)] r(1), of imp0 get0]
  show ?thesis
    using v r(2) sound_resolved[OF r(2) mv]
    by (cases "moved_value p B (six_known p) mv") (simp_all add: descr_get_def bindE_def dict_effects)
qed

definition shadowed :: "bytes \<Rightarrow> moved \<Rightarrow> bool" where
  \<comment> \<open>the moves that a submodule of six.moves has the name of\<close>
  "shadowed c mv \<longleftrightarrow> c = ''moves'' \<and> mv_name mv \<in> {''urllib_parse'', ''urllib_error'', ''urllib_robotparser''}"

lemma import_found:
  assumes "six_import p B n = Inr v" and "B n = None"
  shows "six_find p B (six_known p) n = Inr v"
proof -
  obtain w ws where ws: "parts n = w # ws" by (cases "parts n") auto
  then have n: "dotted (w # ws) = n" by (metis dotted_parts)
  from import_chain[OF assms(1)] assms(2) show ?thesis
    by (auto simp: ws n sbind_Inr_iff split: if_splits) (cases "six_find p B (six_known p) n"; simp)+
qed

lemma moves_urllib: "list_all (\<lambda>mv. (mv_name mv = ''urllib'' \<longrightarrow> mv_mod mv = six_full ''moves.urllib'')
    \<and> mv_name mv \<noteq> ''urllib_request'' \<and> mv_name mv \<noteq> ''urllib_response'') (moves_table p)"
  by (simp add: moves_table_def)

lemma stored_value:
  assumes cl: "clean p B" and mv: "mv \<in> set (lazy_table p c)" "\<not> shadowed c mv" and st: "stored p B c (mv_name mv) v"
  shows "moved_value p B (six_known p) mv = Inr v"
proof (cases "\<exists>mv'\<in>set (lazy_table p c). mv_name mv' = mv_name mv \<and> moved_value p B (six_known p) mv' = Inr v")
  case True
  then show ?thesis using mv distinct_tables[of p c] by (auto simp: distinct_map inj_on_def)
next
  case False
  let ?n = "six_full (c @ ''.'' @ mv_name mv)"
  from False st have c: "c = ''moves''" and i: "six_import p B ?n = Inr v"
    using mv by (auto simp: stored_def lazy_table_def)
  have "B ?n = None" using cl by (simp add: clean_def)
  from import_found[OF i this] have f: "six_find p B (six_known p) ?n = Inr v" .
  show ?thesis
  proof (cases "six_known p ?n")
    case None
    then show ?thesis using import_unknown[OF cl, of ?n] i by simp
  next
    case (Some k)
    show ?thesis
    proof (cases k)
      case (KMoved mv' d)
      from known_dots[OF Some[unfolded KMoved]] mv(1) c have "mv' = mv" "mv_attr mv = None" "\<not> is_six (mv_mod mv)"
        using distinct_moves[of p] by (auto simp: lazy_table_def distinct_map inj_on_def)
      then show ?thesis using f Some KMoved by (simp add: six_find_def moved_value_def outside_import)
    next
      case (KModule k')
      have nd: "CHR ''.'' \<notin> set (mv_name mv)" and t: "mv \<in> set (moves_table p)" using tables_ok[OF mv(1)] mv(1) c
        by (simp_all add: move_ok_def lazy_table_def)
      have "mv_name mv = ''urllib''"
        using Some[unfolded KModule c] nd t moves_urllib[of p] mv(2) c
        by (auto simp: six_known_def six_moved_def list_all_iff shadowed_def dest!: map_of_SomeD split: if_splits)
      then have "mv_mod mv = ?n" "is_six (mv_mod mv)" using t moves_urllib[of p] c by (auto simp: list_all_iff)
      then show ?thesis using i tables_ok[OF mv(1)] by (auto simp: moved_value_def move_ok_def)
    qed
  qed
qed

section \<open>Imports and reads of a program\<close>

lemma lazy_get_value:
  assumes so: "sound p B M s"
    and r: "\<And>mv. mv \<in> set (lazy_table p c) \<Longrightarrow> mv_name mv = a \<Longrightarrow>
      \<exists>t. resolve_module imp (mv_mod mv) s = (six_import p B (mv_mod mv), t) \<and> sound p B M t"
  shows "\<exists>v t. lazy_get imp (attribute_step p imp0 get0) c a s = (v, t) \<and> sound p B M t
     \<and> (\<forall>mv\<in>set (lazy_table p c). mv_name mv = a \<and> (\<not> shadowed c mv \<or> inst_dict s c a = None)
          \<longrightarrow> v = moved_value p B (six_known p) mv)"
proof (cases "inst_dict s c a")
  case (Some v)
  have "moved_value p B (six_known p) mv = Inr v"
    if "mv \<in> set (lazy_table p c)" "mv_name mv = a" "\<not> shadowed c mv" for mv
    using sound_inst[OF so Some] tables_ok[OF that(1)] stored_value[OF sound_clean[OF so] that(1,3), of v] that(2)
    by (auto simp: move_ok_def)
  then show ?thesis using Some so by (auto simp: lazy_get_def)
next
  case None
  then have cd: "class_dict s c a = six_class p c a" using sound_class[OF so, of c a] by auto
  show ?thesis
  proof (cases "\<exists>mv. six_class p c a = Some (Descr mv)")
    case True
    then obtain mv where mv: "six_class p c a = Some (Descr mv)" by blast
    then have m: "mv \<in> set (lazy_table p c)" "mv_name mv = a" using class_descr_iff[of p c a mv] by blast+
    have u: "mv' = mv" if "mv' \<in> set (lazy_table p c)" "mv_name mv' = a" for mv'
      using class_descr[OF that(1)] mv that(2) by simp
    from r[OF m] obtain t where "resolve_module imp (mv_mod mv) s = (six_import p B (mv_mod mv), t)" "sound p B M t" by blast
    from descr_get_value[OF m(1) this, of imp0 get0] show ?thesis
      using None cd mv u by (auto simp: lazy_get_def)
  next
    case False
    then have "mv_name mv \<noteq> a" if "mv \<in> set (lazy_table p c)" for mv using class_descr[OF that] by auto
    then show ?thesis using None cd False so
      by (cases "six_class p c a") (auto simp: lazy_get_def split: class_item.splits)
  qed
qed

text \<open>The depth of calls an import or a read needs.\<close>

lemma machine_Suc:
  "fst (import_machine p (Suc n)) = import_step p (fst (import_machine p n)) (snd (import_machine p n))"
  "snd (import_machine p (Suc n)) = attribute_step p (fst (import_machine p n)) (snd (import_machine p n))"
  by (simp_all add: split_beta)

lemma depth_4: "4 \<le> n \<Longrightarrow> \<exists>k. n = Suc (Suc (Suc (Suc k)))"
  by (rule exI[of _ "n - 4"]) simp

lemma import_value:
  assumes "sound p B M s" and "SixImporter six_name \<in> set M" and n: "3 \<le> n"
  shows "\<exists>t. import_name p n name s = (six_import p B name, t) \<and> sound p B M t"
proof -
  have "n = Suc (Suc (Suc (n - 3)))" using n by simp
  then obtain k where "n = Suc (Suc (Suc k))" ..
  then show ?thesis using resolve_any[OF assms(1,2)] by (simp add: import_name_def machine_Suc del: import_machine.simps)
qed

lemma read_value:
  assumes so: "sound p B M s" and M: "SixImporter six_name \<in> set M" and n: "4 \<le> n"
  shows "\<exists>v t. get_attribute p n (PLazy c) a s = (v, t) \<and> sound p B M t
     \<and> (\<forall>mv\<in>set (lazy_table p c). mv_name mv = a \<and> (\<not> shadowed c mv \<or> inst_dict s c a = None)
          \<longrightarrow> v = moved_value p B (six_known p) mv)"
proof -
  obtain k where k: "n = Suc (Suc (Suc (Suc k)))" using depth_4[OF n] by blast
  show ?thesis
    unfolding k get_attribute_def machine_Suc attribute_step_def[of _ _ _ "PLazy c"] pyval.case
    by (rule lazy_get_value[OF so]) (use resolve_any[OF so M] in blast)
qed

text \<open>Loading six reads \<open>builtins\<close> before the importer is there.\<close>

lemma load_builtins:
  fixes p :: "'v py" and path :: "finder list" and modules B :: "bytes \<rightharpoonup> 'v pyval" and s :: "'v six" and v :: "pyexc + 'v pyval"
  assumes n: "4 \<le> n" and cl: "clean p (modules(six_name \<mapsto> PModule six_name))"
  defines "B \<equiv> modules(six_name \<mapsto> PModule six_name)"
    and "s \<equiv> (before_six path modules)\<lparr>known_modules := six_known p, class_dict := six_class p, moved_attributes := lazy_table p\<rparr>"
    and "v \<equiv> moved_value p B (six_known p) (MovedModule p ''builtins'' ''__builtin__'' None)"
  shows "\<exists>t. get_attribute p n (PLazy ''moves'') ''builtins'' s = (v, t) \<and> sound p B path t
     \<and> (\<forall>a. a \<noteq> ''builtins'' \<longrightarrow> inst_dict t ''moves'' a = None) \<and> (\<forall>n. is_six n \<longrightarrow> sys_modules t n = B n)
     \<and> (\<forall>b. v = Inr b \<longrightarrow> get_attribute p n b ''exec'' t = (module_attribute p b ''exec'', t))"
proof -
  let ?mv = "MovedModule p ''builtins'' ''__builtin__'' None"
  have so: "sound p B path s" using cl by (auto simp: sound_def before_six_def B_def s_def)
  have mv: "?mv \<in> set (lazy_table p ''moves'')" by (simp add: lazy_table_def moves_table_def)
  have bi: "\<not> is_six (mv_mod ?mv)" by (simp add: is_six_def six_name_def)
  have kept: "\<forall>n. is_six n \<longrightarrow> sys_modules s n = B n" by (simp add: s_def before_six_def B_def)
  have empty: "inst_dict s ''moves'' a = None" "class_dict s ''moves'' = six_class p ''moves''" for a
    by (simp_all add: s_def before_six_def)
  obtain k where k: "n = Suc (Suc (Suc (Suc k)))" using depth_4[OF n] by blast
  let ?m = "import_machine p (Suc (Suc (Suc k)))"
  from resolve_outside[OF so bi] obtain t where
    t: "resolve_module (fst ?m) (mv_mod ?mv) s = (six_import p B (mv_mod ?mv), t)" "sound p B path t" "same_six s t"
    unfolding machine_Suc by blast
  have get: "snd ?m = attribute_step p (fst (import_machine p (Suc (Suc k)))) (snd (import_machine p (Suc (Suc k))))"
    by (rule machine_Suc)
  note v = moved_resolve_value[OF mv sound_clean[OF t(2)] t(1), folded v_def]
  have g: "get_attribute p n (PLazy ''moves'') ''builtins'' s = descr_get (fst ?m) (snd ?m) ?mv ''moves'' s"
    using class_descr[OF mv] empty by (simp add: k get_attribute_def machine_Suc attribute_step_def lazy_get_def del: import_machine.simps)
  show ?thesis
  proof (cases v)
    case (Inl e)
    then show ?thesis using v t(2,3) empty kept unfolding g get by (simp add: descr_get_def bindE_def same_six_def)
  next
    case (Inr b)
    have "b \<noteq> PLazy c" for c
      using Inr import_not_lazy[OF sound_clean[OF so] bi, of c] by (auto simp: moved_value_def sbind_Inr_iff v_def)
    then have "get_attribute p n b ''exec'' u = (module_attribute p b ''exec'', u)" for u
      unfolding k get_attribute_def machine_Suc by (simp add: attribute_of_module)
    then show ?thesis using Inr v t(3) empty kept sound_resolved[OF t(2) mv, of b] unfolding g get
      by (simp add: descr_get_def bindE_def dict_effects v_def same_six_def)
  qed
qed

lemma load_sound:
  assumes l: "load_six p n (before_six path modules) = (Inr (), s)" and n: "4 \<le> n"
    and cl: "clean p (modules(six_name \<mapsto> PModule six_name))"
  shows "\<exists>M. sound p (modules(six_name \<mapsto> PModule six_name)) M s \<and> SixImporter six_name \<in> set M
     \<and> (\<forall>a. a \<noteq> ''builtins'' \<longrightarrow> inst_dict s ''moves'' a = None)
     \<and> (\<forall>n. is_six n \<longrightarrow> sys_modules s n = (if n = six_name then Some (PModule six_name) else None))"
proof -
  from load_builtins[OF n cl, of path] obtain t v where
    t: "get_attribute p n (PLazy ''moves'') ''builtins'' ((before_six path modules)\<lparr>known_modules := six_known p,
      class_dict := six_class p, moved_attributes := lazy_table p\<rparr>) = (v, t)"
    "sound p (modules(six_name \<mapsto> PModule six_name)) path t" "\<forall>a. a \<noteq> ''builtins'' \<longrightarrow> inst_dict t ''moves'' a = None"
    "\<forall>n. is_six n \<longrightarrow> sys_modules t n = (modules(six_name \<mapsto> PModule six_name)) n"
    and a: "\<forall>b. v = Inr b \<longrightarrow> get_attribute p n b ''exec'' t = (module_attribute p b ''exec'', t)"
    by (elim exE conjE) (rule that)
  have "s = t\<lparr>meta_path := remove_first (\<lambda>f. f = SixImporter six_name) (meta_path t) @ [SixImporter six_name]\<rparr>"
    using l t(1) a by (auto simp: load_six_def build_six_effect bindE_Inr_iff install_importer_def split: if_splits)
  then show ?thesis using t(2-4) cl by (auto simp: sound_def clean_def)
qed

lemma load_succeeds:
  fixes p :: "'v py"
  assumes n: "4 \<le> n" and cl: "clean p (modules(six_name \<mapsto> PModule six_name))"
    and b: "moved_value p (modules(six_name \<mapsto> PModule six_name)) (six_known p) (MovedModule p ''builtins'' ''__builtin__'' None) = Inr b"
    and e: "PY3 p \<Longrightarrow> \<exists>x. module_attribute p b ''exec'' = Inr x"
  shows "\<exists>s. load_six p n (before_six path modules) = (Inr (), s)"
proof -
  from load_builtins[OF n cl, of path, unfolded b] obtain t where
    t: "get_attribute p n (PLazy ''moves'') ''builtins'' ((before_six path modules)\<lparr>known_modules := six_known p,
      class_dict := six_class p, moved_attributes := lazy_table p\<rparr>) = (Inr b, t)"
    "get_attribute p n b ''exec'' t = (module_attribute p b ''exec'', t)"
    by blast
  then show ?thesis using e by (auto simp: load_six_def build_six_effect bindE_def install_importer_def)
qed

end
