(* ===== verification/SixCompat.thy ===== *)
theory SixCompat
  imports SixMoves ImapCmd
begin

text \<open>
  six.py, the rest: what differs between Python 2 and 3 and is given one name. Methods, dictionaries,
  literals and bytes, executing code and raising, the print function for interpreters without one, and the
  helpers for classes. A native string is \<open>Str\<close> in Python 2 and \<open>Uni\<close> in Python 3. The lemmas show that what
  six.py makes of a value it also takes apart, in both versions, what \<open>print_\<close> writes, and when a class
  cannot be made again with a metaclass.
\<close>

section \<open>Methods\<close>

datatype ('f, 'o, 'c) callable = Function 'f | Method 'f "'o option" "'c option"

definition method_attributes :: "'v py \<Rightarrow> bytes list" where
  \<comment> \<open>\<open>_meth_func\<close> and the five names after it\<close>
  "method_attributes p =
     (if PY3 p then [''__func__'', ''__self__'', ''__closure__'', ''__code__'', ''__defaults__'', ''__globals__'']
      else [''im_func'', ''im_self'', ''func_closure'', ''func_code'', ''func_defaults'', ''func_globals''])"

definition method_function :: "'v py \<Rightarrow> ('f, 'o, 'c) callable \<Rightarrow> pyexc + 'f" where
  \<comment> \<open>\<open>get_method_function\<close>\<close>
  "method_function p m = (case m of
     Method f _ _ \<Rightarrow> Inr f | Function _ \<Rightarrow> Inl (AttributeError (method_attributes p ! 0)))"

definition method_self :: "'v py \<Rightarrow> ('f, 'o, 'c) callable \<Rightarrow> pyexc + 'o option" where
  \<comment> \<open>\<open>get_method_self\<close>\<close>
  "method_self p m = (case m of
     Method _ s _ \<Rightarrow> Inr s | Function _ \<Rightarrow> Inl (AttributeError (method_attributes p ! 1)))"

definition get_unbound_function :: "'v py \<Rightarrow> ('f, 'o, 'c) callable \<Rightarrow> pyexc + ('f, 'o, 'c) callable" where
  "get_unbound_function p unbound =
     (if PY3 p then Inr unbound
      else (case unbound of
          Method f _ _ \<Rightarrow> Inr (Function f) | Function _ \<Rightarrow> Inl (AttributeError ''im_func'')))"

definition create_bound_method :: "'v py \<Rightarrow> ('o \<Rightarrow> 'c) \<Rightarrow> 'f \<Rightarrow> 'o \<Rightarrow> ('f, 'o, 'c) callable" where
  "create_bound_method p class_of func obj =
     (if PY3 p then Method func (Some obj) None else Method func (Some obj) (Some (class_of obj)))"

definition create_unbound_method :: "'v py \<Rightarrow> 'f \<Rightarrow> 'c \<Rightarrow> ('f, 'o, 'c) callable" where
  "create_unbound_method p func cls = (if PY3 p then Function func else Method func None (Some cls))"

definition callable_by_class :: "bytes set list \<Rightarrow> bool" where
  \<comment> \<open>\<open>callable\<close> where it is missing: the names each class of \<open>__mro__\<close> defines\<close>
  "callable_by_class mro \<longleftrightarrow> list_ex (\<lambda>names. ''__call__'' \<in> names) mro"

section \<open>Dictionaries and tests\<close>

definition dict_iterator :: "'v py \<Rightarrow> bytes \<Rightarrow> bytes" where
  \<comment> \<open>the method behind \<open>iterkeys\<close>, \<open>itervalues\<close>, \<open>iteritems\<close> and \<open>iterlists\<close>\<close>
  "dict_iterator p what = (if PY3 p then what else ''iter'' @ what)"

definition dict_view :: "'v py \<Rightarrow> bytes \<Rightarrow> bytes" where
  \<comment> \<open>the method behind \<open>viewkeys\<close>, \<open>viewvalues\<close> and \<open>viewitems\<close>\<close>
  "dict_view p what = (if PY3 p then what else ''view'' @ what)"

definition assert_methods :: "'v py \<Rightarrow> bytes list" where
  \<comment> \<open>the methods of a test case behind \<open>assertCountEqual\<close>, \<open>assertRaisesRegex\<close> and \<open>assertRegex\<close>\<close>
  "assert_methods p =
     (if PY3 p then ''assertCountEqual'' #
        (if snd (version_info p) \<le> 1 then [''assertRaisesRegexp'', ''assertRegexpMatches'']
         else [''assertRaisesRegex'', ''assertRegex''])
      else [''assertItemsEqual'', ''assertRaisesRegexp'', ''assertRegexpMatches''])"

section \<open>Literals and bytes\<close>

definition six_b :: "'v py \<Rightarrow> pystr \<Rightarrow> pyexc + pystr" where
  \<comment> \<open>\<open>b\<close>: a byte literal\<close>
  "six_b p s =
     (if PY3 p then (case s of
          Uni u \<Rightarrow> if list_all (\<lambda>c. c < 256) u then Inr (Str (map char_of u))
            else Inl (UnicodeError ''ordinal not in range(256)'')
        | Str _ \<Rightarrow> Inl (AttributeError ''encode''))
      else Inr s)"

fun double_pairs :: "bytes \<Rightarrow> bytes" where
  \<comment> \<open>replacing two backslashes by four\<close>
  "double_pairs (x # y # cs) =
     (if x = BACKSLASH \<and> y = BACKSLASH then [BACKSLASH, BACKSLASH, BACKSLASH, BACKSLASH] @ double_pairs cs
      else x # double_pairs (y # cs))"
| "double_pairs s = s"

definition six_u :: "'v py \<Rightarrow> (bytes \<Rightarrow> pyexc + nat list) \<Rightarrow> pystr \<Rightarrow> pyexc + pystr" where
  \<comment> \<open>\<open>u\<close>: a text literal; \<open>unicode_escape\<close> is the decoder of that name\<close>
  "six_u p unicode_escape s =
     (if PY3 p then Inr s
      else (case s of
          Str x \<Rightarrow> sbind (unicode_escape (double_pairs x)) (\<lambda>u. Inr (Uni u))
        | Uni _ \<Rightarrow> Inl (TypeError ''decoding Unicode is not supported'')))"

definition int2byte :: "'v py \<Rightarrow> int \<Rightarrow> pyexc + bytes" where
  "int2byte p i =
     (if 0 \<le> i \<and> i < 256 then Inr [char_of (nat i)]
      else if PY3 p then Inl (StructError ''ubyte format requires 0 <= number <= 255'')
      else Inl (ValueError ''chr() arg not in range(256)''))"

definition byte2int :: "bytes \<Rightarrow> pyexc + nat" where
  "byte2int bs = (case bs of [] \<Rightarrow> Inl (IndexError ''index out of range'') | c # _ \<Rightarrow> Inr (of_char c))"

definition indexbytes :: "bytes \<Rightarrow> int \<Rightarrow> pyexc + nat" where
  "indexbytes buf i = sbind (py_index buf i) (\<lambda>c. Inr (of_char c))"

definition iterbytes :: "bytes \<Rightarrow> nat list" where
  "iterbytes bs = map of_char bs"

section \<open>Executing and raising\<close>

definition exec_namespaces :: "'n option \<Rightarrow> 'n option \<Rightarrow> 'n \<times> 'n \<Rightarrow> 'n \<times> 'n" where
  \<comment> \<open>\<open>exec_\<close>: the two namespaces code is run in, with those of the caller's frame\<close>
  "exec_namespaces globs locs frame = (case globs of
     None \<Rightarrow> (fst frame, case locs of None \<Rightarrow> snd frame | Some l \<Rightarrow> l)
   | Some g \<Rightarrow> (g, case locs of None \<Rightarrow> g | Some l \<Rightarrow> l))"

record ('e, 't) raised =
  rs_value :: 'e
  rs_traceback :: "'t option"
  rs_cause :: "'e option"

definition reraise :: "'v py \<Rightarrow> ('e, 't) raised \<Rightarrow> ('e, 't) raised option \<Rightarrow> 't option \<Rightarrow> ('e, 't) raised" where
  \<comment> \<open>\<open>tp()\<close> is given by \<open>made\<close>; in both versions \<open>raise tp\<close> makes it for a missing value\<close>
  "reraise p made value tb =
     (let v = (case value of None \<Rightarrow> made | Some v \<Rightarrow> v) in
      if PY3 p then (if rs_traceback v \<noteq> tb then v\<lparr>rs_traceback := tb\<rparr> else v)
      else v\<lparr>rs_traceback := tb\<rparr>)"

definition raise_from :: "'v py \<Rightarrow> ('e, 't) raised \<Rightarrow> 'e option \<Rightarrow> ('e, 't) raised" where
  "raise_from p value from_value =
     (if version_info p = (3, 2) then
        (case from_value of None \<Rightarrow> value | Some f \<Rightarrow> value\<lparr>rs_cause := Some f\<rparr>)
      else if version_at_least (3, 3) p then value\<lparr>rs_cause := from_value\<rparr>
      else value)"

section \<open>The print function\<close>

text \<open>
  What has been done to a file, its type \<open>file\<close> and its encoding. An argument that is no string has the
  text \<open>str\<close> gives for it.
\<close>

datatype file_event = Wrote pystr | Flushed

record pyfile =
  fi_file :: bool
  fi_encoding :: "bytes option"
  fi_errors :: "bytes option"
  fi_events :: "file_event list"

datatype print_arg = Text pystr | Shown bytes

datatype keyword = KwNone | KwText pystr | KwOther

record print_kwargs =
  pk_sep :: "keyword option"
  pk_end :: "keyword option"
  pk_flush :: "bool option"
  pk_others :: "bytes list"

type_synonym strict_codecs = "bytes \<Rightarrow> bytes \<Rightarrow> nat list \<Rightarrow> pyexc + bytes"

definition encoded :: "strict_codecs \<Rightarrow> pyfile \<Rightarrow> pystr \<Rightarrow> pyexc + pystr" where
  \<comment> \<open>what \<open>write\<close> makes of a string\<close>
  "encoded codecs fp data = (case data of
     Str b \<Rightarrow> Inr (Str b)
   | Uni u \<Rightarrow> (case fi_encoding fp of
         Some enc \<Rightarrow> if fi_file fp
           then sbind (codecs enc (case fi_errors fp of None \<Rightarrow> ''strict'' | Some e \<Rightarrow> e) u) (\<lambda>b. Inr (Str b))
           else Inr (Uni u)
       | None \<Rightarrow> Inr (Uni u)))"

definition print_text :: "print_arg \<Rightarrow> pystr" where
  "print_text a = (case a of Text s \<Rightarrow> s | Shown b \<Rightarrow> Str b)"

definition print_write :: "strict_codecs \<Rightarrow> print_arg \<Rightarrow> (pyfile, unit) act" where
  "print_write codecs data = withE (\<lambda>fp.
     bindE (liftE (encoded codecs fp (print_text data))) (\<lambda>d.
     modE (\<lambda>fp. fp\<lparr>fi_events := fi_events fp @ [Wrote d]\<rparr>)))"

fun print_loop :: "strict_codecs \<Rightarrow> pystr \<Rightarrow> bool \<Rightarrow> print_arg list \<Rightarrow> (pyfile, unit) act" where
  \<comment> \<open>the flag says whether it is the first argument\<close>
  "print_loop codecs sep first [] = retE ()"
| "print_loop codecs sep first (arg # args) =
     bindE (whenE (\<not> first) (print_write codecs (Text sep))) (\<lambda>_.
     bindE (print_write codecs arg) (\<lambda>_. print_loop codecs sep False args))"

definition is_unicode :: "pystr \<Rightarrow> bool" where
  "is_unicode s = (case s of Uni _ \<Rightarrow> True | Str _ \<Rightarrow> False)"

definition keyword_text :: "bytes \<Rightarrow> keyword option \<Rightarrow> pyexc + pystr option" where
  "keyword_text name k = (case k of
     None \<Rightarrow> Inr None
   | Some KwNone \<Rightarrow> Inr None
   | Some (KwText s) \<Rightarrow> Inr (Some s)
   | Some KwOther \<Rightarrow> Inl (TypeError (name @ '' must be None or a string'')))"

definition print_separators :: "pystr option \<Rightarrow> pystr option \<Rightarrow> print_arg list \<Rightarrow> pystr \<times> pystr" where
  \<comment> \<open>\<open>sep\<close> and \<open>end\<close>, which are unicode where something else is\<close>
  "print_separators sep ending args =
     (let want_unicode = (\<exists>s\<in>set (map print_text (filter (\<lambda>a. case a of Text _ \<Rightarrow> True | Shown _ \<Rightarrow> False) args)). is_unicode s)
            \<or> (case sep of None \<Rightarrow> False | Some s \<Rightarrow> is_unicode s) \<or> (case ending of None \<Rightarrow> False | Some s \<Rightarrow> is_unicode s);
          newline = (if want_unicode then Uni [10] else Str [CHR 0x0A]);
          space = (if want_unicode then Uni [32] else Str '' '')
      in (case sep of None \<Rightarrow> space | Some s \<Rightarrow> s, case ending of None \<Rightarrow> newline | Some e \<Rightarrow> e))"

definition print_own :: "strict_codecs \<Rightarrow> print_kwargs \<Rightarrow> print_arg list \<Rightarrow> (pyfile, unit) act" where
  \<comment> \<open>\<open>print_\<close> of an interpreter without the function, for a file that is not None\<close>
  "print_own codecs kw args =
     bindE (liftE (keyword_text ''sep'' (pk_sep kw))) (\<lambda>sep.
     bindE (liftE (keyword_text ''end'' (pk_end kw))) (\<lambda>ending.
     bindE (whenE (pk_others kw \<noteq> [] \<or> pk_flush kw \<noteq> None)
       (raiseE (TypeError ''invalid keyword arguments to print()''))) (\<lambda>_.
     case print_separators sep ending args of (sep, ending) \<Rightarrow>
     bindE (print_loop codecs sep True args) (\<lambda>_.
     print_write codecs (Text ending)))))"

definition print_wrapped ::
  "'v py \<Rightarrow> (print_kwargs \<Rightarrow> print_arg list \<Rightarrow> (pyfile option, unit) act)
     \<Rightarrow> print_kwargs \<Rightarrow> print_arg list \<Rightarrow> (pyfile option, unit) act" where
  \<comment> \<open>before 3.3 the function, of the interpreter or the one above, is wrapped for \<open>flush\<close>; the state is the
      file, None where \<open>file\<close> is None\<close>
  "print_wrapped p print kw args =
     (if version_at_least (3, 3) p then print kw args
      else bindE (print (kw\<lparr>pk_flush := None\<rparr>) args) (\<lambda>_.
        whenE (pk_flush kw = Some True)
          (modE (map_option (\<lambda>fp. fp\<lparr>fi_events := fi_events fp @ [Flushed]\<rparr>)))))"

definition print_old :: "strict_codecs \<Rightarrow> print_kwargs \<Rightarrow> print_arg list \<Rightarrow> (pyfile option, unit) act" where
  \<comment> \<open>the function above for any file: nothing is looked at when it is None\<close>
  "print_old codecs kw args f = (case f of
     None \<Rightarrow> (Inr (), None)
   | Some fp \<Rightarrow> (case print_own codecs kw args fp of (r, fp') \<Rightarrow> (r, Some fp')))"

section \<open>Classes\<close>

datatype 'v class_value = Slots "bytes list" | SlotName bytes | Value 'v

record ('v, 'c) pyclass =
  cl_name :: bytes
  cl_bases :: "'c list"
  cl_dict :: "bytes \<rightharpoonup> 'v class_value"

definition slot_names :: "(bytes \<rightharpoonup> 'v class_value) \<Rightarrow> bytes list" where
  \<comment> \<open>\<open>__slots__\<close>, a name or a list of names\<close>
  "slot_names d = (case d ''__slots__'' of Some (Slots ns) \<Rightarrow> ns | Some (SlotName n) \<Rightarrow> [n] | _ \<Rightarrow> [])"

fun pop_slots :: "bytes list \<Rightarrow> (bytes \<rightharpoonup> 'v class_value) \<Rightarrow> pyexc + (bytes \<rightharpoonup> 'v class_value)" where
  "pop_slots [] d = Inr d"
| "pop_slots (n # ns) d = (if d n = None then Inl (KeyError n) else pop_slots ns (d(n := None)))"

definition add_metaclass ::
  "(bytes \<Rightarrow> 'c list \<Rightarrow> (bytes \<rightharpoonup> 'v class_value) \<Rightarrow> pyexc + 'r) \<Rightarrow> ('v, 'c) pyclass \<Rightarrow> pyexc + 'r" where
  \<comment> \<open>the decorator; the metaclass is a function that makes a class\<close>
  "add_metaclass metaclass cls =
     sbind (pop_slots (slot_names (cl_dict cls)) (cl_dict cls)) (\<lambda>orig_vars.
     metaclass (cl_name cls) (cl_bases cls) (orig_vars(''__dict__'' := None, ''__weakref__'' := None)))"

definition with_metaclass ::
  "(bytes \<Rightarrow> 'c list \<Rightarrow> (bytes \<rightharpoonup> 'v class_value) \<Rightarrow> pyexc + 'r) \<Rightarrow> 'c list
     \<Rightarrow> bytes \<Rightarrow> 'c list \<Rightarrow> (bytes \<rightharpoonup> 'v class_value) \<Rightarrow> pyexc + 'r" where
  \<comment> \<open>\<open>__new__\<close> of the temporary metaclass: what a class statement below the temporary class makes\<close>
  "with_metaclass meta bases name this_bases d = meta name bases d"

text \<open>
  The methods \<open>__str__\<close> and \<open>__unicode__\<close> of a class: one the class has, or the one that encodes what
  \<open>__unicode__\<close> returns.
\<close>

datatype 'm text_method = Own 'm | EncodeUnicode

definition python_2_unicode_compatible ::
  "'v py \<Rightarrow> bytes \<Rightarrow> (bytes \<rightharpoonup> 'm text_method) \<Rightarrow> pyexc + (bytes \<rightharpoonup> 'm text_method)" where
  "python_2_unicode_compatible p name klass =
     (if PY2 p then (case klass ''__str__'' of
          None \<Rightarrow> Inl (ValueError (''@python_2_unicode_compatible cannot be applied to '' @ name
            @ '' because it doesn't define __str__().''))
        | Some m \<Rightarrow> Inr (klass(''__unicode__'' \<mapsto> m, ''__str__'' \<mapsto> EncodeUnicode)))
      else Inr klass)"

fun call_text :: "(nat list \<Rightarrow> bytes) \<Rightarrow> ('m \<Rightarrow> pyexc + pystr) \<Rightarrow> (bytes \<rightharpoonup> 'm text_method) \<Rightarrow> nat \<Rightarrow> bytes
    \<Rightarrow> pyexc + pystr" where
  \<comment> \<open>calling a method of an instance, \<open>utf8\<close> the codec, down to a depth of calls; a byte string is decoded
      through ASCII before it is encoded\<close>
  "call_text utf8 run klass 0 name = Inl recursion_error"
| "call_text utf8 run klass (Suc n) name = (case klass name of
     None \<Rightarrow> Inl (AttributeError name)
   | Some (Own m) \<Rightarrow> run m
   | Some EncodeUnicode \<Rightarrow> sbind (call_text utf8 run klass n ''__unicode__'') (\<lambda>s.
       sbind (to_unicode s) (\<lambda>u. Inr (Str (utf8 u)))))"

section \<open>What is made is taken apart\<close>

lemma unbound_round_trip: "get_unbound_function p (create_unbound_method p f c) = Inr (Function f)"
  by (simp add: get_unbound_function_def create_unbound_method_def)

lemma bound_round_trip:
  "method_function p (create_bound_method p class_of f obj) = Inr f"
  "method_self p (create_bound_method p class_of f obj) = Inr (Some obj)"
  by (simp_all add: create_bound_method_def method_function_def method_self_def)

lemma byte_round_trip: "0 \<le> i \<Longrightarrow> i < 256 \<Longrightarrow> sbind (int2byte p i) byte2int = Inr (nat i)"
  by (simp add: int2byte_def byte2int_def)

lemma int2byte_Inr: "int2byte p i = Inr b \<longleftrightarrow> (\<exists>c. b = [c] \<and> i = int (of_char c))"
proof
  assume "int2byte p i = Inr b"
  then have "0 \<le> i" "i < 256" "b = [char_of (nat i)]" by (auto simp: int2byte_def split: if_splits)
  then show "\<exists>c. b = [c] \<and> i = int (of_char c)" by (intro exI[of _ "char_of (nat i)"]) simp
next
  assume "\<exists>c. b = [c] \<and> i = int (of_char c)"
  then obtain c where "b = [c]" "i = int (of_char c)" by blast
  moreover have "(of_char c :: nat) < 256" by (metis char_of_char of_char_mod_256 mod_less_divisor zero_less_numeral)
  ultimately show "int2byte p i = Inr b" by (simp add: int2byte_def)
qed

lemma indexbytes_nth: "i < length b \<Longrightarrow> indexbytes b (int i) = Inr (iterbytes b ! i)"
  by (simp add: indexbytes_def py_index_nat iterbytes_def)

text \<open>The literals of Python 2 sources that have no backslash pass \<open>u\<close> unchanged.\<close>

lemma double_pairs_plain: "BACKSLASH \<notin> set s \<Longrightarrow> double_pairs s = s"
  by (induction s rule: double_pairs.induct) auto

lemma raise_keeps_value:
  "rs_traceback (reraise p made value tb) = tb"
  "rs_value (reraise p made (Some v) tb) = rs_value v"
  "rs_cause (reraise p made (Some v) tb) = rs_cause v"
  by (simp_all add: reraise_def Let_def)

section \<open>What \<open>print_\<close> writes\<close>

definition print_chunks :: "pystr \<Rightarrow> pystr \<Rightarrow> print_arg list \<Rightarrow> pystr list" where
  \<comment> \<open>the texts of the arguments with the separator in between, and the end\<close>
  "print_chunks sep ending args = tl (concat (map (\<lambda>a. [sep, print_text a]) args)) @ [ending]"

fun put_chunks :: "strict_codecs \<Rightarrow> pystr list \<Rightarrow> (pyfile, unit) act" where
  "put_chunks codecs [] = retE ()"
| "put_chunks codecs (c # cs) = bindE (print_write codecs (Text c)) (\<lambda>_. put_chunks codecs cs)"

lemma put_chunks_append: "put_chunks codecs (cs @ ds) = bindE (put_chunks codecs cs) (\<lambda>_. put_chunks codecs ds)"
proof (induction cs)
  case Nil
  then show ?case by (simp add: fun_eq_iff)
qed simp

lemma print_write_text [simp]: "print_write codecs (Text (print_text a)) = print_write codecs a"
  by (simp add: print_write_def print_text_def split: print_arg.split)

lemma print_loop_chunks:
  "print_loop codecs sep False args = put_chunks codecs (concat (map (\<lambda>a. [sep, print_text a]) args))"
  by (induction args) simp_all

lemma print_loop_first: "print_loop codecs sep True args = put_chunks codecs (tl (concat (map (\<lambda>a. [sep, print_text a]) args)))"
  by (cases args) (simp_all add: print_loop_chunks fun_eq_iff)

lemma encoded_events [simp]: "encoded codecs (fp\<lparr>fi_events := es\<rparr>) = encoded codecs fp"
  by (simp add: encoded_def fun_eq_iff split: pystr.split option.split)

lemma put_chunks_result:
  "put_chunks codecs cs fp = (r, fp') \<Longrightarrow> \<exists>ds. fp' = fp\<lparr>fi_events := fi_events fp @ map Wrote ds\<rparr>
     \<and> map (encoded codecs fp) (take (length ds) cs) = map Inr ds
     \<and> (case r of Inr _ \<Rightarrow> length ds = length cs
        | Inl e \<Rightarrow> length ds < length cs \<and> encoded codecs fp (cs ! length ds) = Inl e)"
proof (induction cs arbitrary: fp)
  case Nil
  then show ?case by (intro exI[of _ "[]"]) auto
next
  case (Cons c cs)
  show ?case
  proof (cases "encoded codecs fp c")
    case (Inl e)
    then show ?thesis using Cons.prems by (intro exI[of _ "[]"]) (auto simp: print_write_def print_text_def bindE_def)
  next
    case (Inr d)
    let ?fp = "fp\<lparr>fi_events := fi_events fp @ [Wrote d]\<rparr>"
    have "put_chunks codecs cs ?fp = (r, fp')" using Cons.prems Inr by (simp add: print_write_def print_text_def bindE_def)
    from Cons.IH[OF this] obtain ds where "fp' = fp\<lparr>fi_events := fi_events fp @ map Wrote (d # ds)\<rparr>"
      "map (encoded codecs fp) (take (length ds) cs) = map Inr ds"
      "case r of Inr _ \<Rightarrow> length ds = length cs | Inl e \<Rightarrow> length ds < length cs \<and> encoded codecs fp (cs ! length ds) = Inl e"
      by (cases r) auto
    then show ?thesis using Inr by (intro exI[of _ "d # ds"]) (auto split: sum.splits)
  qed
qed

section \<open>Making a class again\<close>

lemma pop_slots_Inr: "pop_slots ns d = Inr d' \<longleftrightarrow> distinct ns \<and> set ns \<subseteq> dom d \<and> d' = d |` (- set ns)"
proof (induction ns arbitrary: d)
  case (Cons n ns)
  have r: "d(n := None) |` (- set ns) = d |` (- set (n # ns))" by (auto simp: restrict_map_def fun_eq_iff)
  have "pop_slots (n # ns) d = Inr d' \<longleftrightarrow> n \<in> dom d \<and> pop_slots ns (d(n := None)) = Inr d'" by auto
  also have "\<dots> \<longleftrightarrow> distinct (n # ns) \<and> set (n # ns) \<subseteq> dom d \<and> d' = d |` (- set (n # ns))"
    unfolding Cons.IH r by auto
  finally show ?case .
qed (auto simp: restrict_map_def)

lemma pop_slots_Inl: "pop_slots ns d = Inl e \<Longrightarrow> \<exists>n\<in>set ns. e = KeyError n"
  by (induction ns arbitrary: d) (auto split: if_splits)

lemma decorated_twice:
  assumes "PY2 p" and "python_2_unicode_compatible p name klass = Inr k" and "python_2_unicode_compatible p name k = Inr k'"
  shows "call_text utf8 run k' n ''__str__'' = Inl recursion_error"
proof -
  have "k' ''__unicode__'' = Some EncodeUnicode" "k' ''__str__'' = Some EncodeUnicode"
    using assms by (auto simp: python_2_unicode_compatible_def split: option.splits)
  moreover from this have "call_text utf8 run k' n ''__unicode__'' = Inl recursion_error" for n by (induction n) simp_all
  ultimately show ?thesis by (cases n) simp_all
qed

end
