(* ===== verification/SixSpec.thy ===== *)
theory SixSpec
  imports SixCache SixCompat
begin

text \<open>
  The properties of six.py: what the moves are read as, that importing through them ends, and where
  the order of imports and reads, or removing a move, does not do what it means to; what \<open>print_\<close> has
  written when it ends or raises, and which classes can be made again with a metaclass.
\<close>

section \<open>A program that uses six\<close>

datatype six_op = ReadMove bytes bytes | ImportName bytes | AddMove moved | RemoveMove bytes

fun six_step :: "'v py \<Rightarrow> nat \<Rightarrow> six_op \<Rightarrow> ('v six, unit) act" where
  "six_step p n (ReadMove c a) = bindE (get_attribute p n (PLazy c) a) (\<lambda>_. retE ())"
| "six_step p n (ImportName name) = bindE (import_name p n name) (\<lambda>_. retE ())"
| "six_step p n (AddMove mv) = add_move mv"
| "six_step p n (RemoveMove name) = remove_move name"

fun six_run :: "'v py \<Rightarrow> nat \<Rightarrow> six_op list \<Rightarrow> 'v six \<Rightarrow> 'v six" where
  \<comment> \<open>the program goes on after an exception\<close>
  "six_run p n [] s = s"
| "six_run p n (op # ops) s = six_run p n ops (snd (six_step p n op s))"

definition only_uses :: "six_op \<Rightarrow> bool" where
  "only_uses op = (case op of ReadMove _ _ \<Rightarrow> True | ImportName _ \<Rightarrow> True | _ \<Rightarrow> False)"

lemma run_sound:
  assumes "sound p B M s" and "SixImporter six_name \<in> set M" and "4 \<le> n" and "list_all only_uses ops"
  shows "sound p B M (six_run p n ops s)"
  using assms
proof (induction ops arbitrary: s)
  case (Cons op ops)
  have "sound p B M (snd (six_step p n op s))"
  proof (cases op)
    case (ReadMove c a)
    from read_value[OF Cons.prems(1-3), of c a] obtain v t where
      "get_attribute p n (PLazy c) a s = (v, t)" "sound p B M t" by blast
    then show ?thesis using ReadMove by (cases v) (simp_all add: bindE_def)
  next
    case (ImportName name)
    from import_value[OF Cons.prems(1,2), of n name] Cons.prems(3) obtain t where
      "import_name p n name s = (six_import p B name, t)" "sound p B M t" by auto
    then show ?thesis using ImportName by (cases "six_import p B name") (simp_all add: bindE_def)
  qed (use Cons.prems(4) in \<open>simp_all add: only_uses_def\<close>)
  then show ?case using Cons by simp
qed simp

section \<open>Reading moves\<close>

text \<open>
  C20: Whatever a program has imported and read through six.moves before, a move of one of the tables is
  read as what the table says: the module, or the attribute of the module, that is imported under the
  name for this version of Python, or the exception this import raises. Excepted are the three names a
  submodule of six.moves has too.
\<close>
theorem moves_read_as_declared:
  assumes "load_six p n (before_six path modules) = (Inr (), s)" and "4 \<le> n"
    and "clean p (modules(six_name \<mapsto> PModule six_name))"
    and "list_all only_uses ops" and "mv \<in> set (lazy_table p c)" and "\<not> shadowed c mv"
  shows "fst (get_attribute p n (PLazy c) (mv_name mv) (six_run p n ops s))
    = moved_value p (modules(six_name \<mapsto> PModule six_name)) (six_known p) mv"
proof -
  from load_sound[OF assms(1-3)] obtain M where M: "SixImporter six_name \<in> set M"
    and so: "sound p (modules(six_name \<mapsto> PModule six_name)) M s" by blast
  from read_value[OF run_sound[OF so M assms(2,4)] M assms(2), of c "mv_name mv"] assms(5,6) show ?thesis
    by auto
qed

definition sample_py :: "nat \<times> nat \<Rightarrow> nat py" where
  "sample_py v = \<lparr>version_info = v, platform = ''linux'', std_modules =
     [''builtins'' \<mapsto> [''exec'' \<mapsto> PObj 0, ''range'' \<mapsto> PObj 1],
      ''__builtin__'' \<mapsto> [''xrange'' \<mapsto> PObj 2],
      ''urllib'' \<mapsto> [''__path__'' \<mapsto> PNil, ''quote'' \<mapsto> PObj 3],
      ''urllib.parse'' \<mapsto> [''quote'' \<mapsto> PObj 4]]\<rparr>"

lemma sample_clean: "clean (sample_py v) (Map.empty(six_name \<mapsto> PModule six_name))"
  by (auto simp: clean_def sample_py_def is_six_def six_name_def)

lemma sample_top_level:
  assumes "CHR ''.'' \<notin> set (mv_mod mv)" and "mv_mod mv \<noteq> six_name"
  shows "moved_value (sample_py v) (Map.empty(six_name \<mapsto> PModule six_name)) (six_known (sample_py v)) mv
    = sbind (std_find (sample_py v) (mv_mod mv)) (\<lambda>m. case mv_attr mv of None \<Rightarrow> Inr m | Some a \<Rightarrow> module_attribute (sample_py v) m a)"
proof -
  have "\<not> is_six (mv_mod mv)" using assms by (simp add: is_six_def py_split_no_sep)
  moreover have "map_sum id the (map_sum id Some x) = x" for x :: "pyexc + nat pyval" by (cases x) simp_all
  then have "pure_import (sample_py v) (Map.empty(six_name \<mapsto> PModule six_name)) (std_find (sample_py v)) (mv_mod mv)
      = std_find (sample_py v) (mv_mod mv)"
    using assms by (simp add: pure_import_def parts_def py_split_no_sep dotted_def)
  ultimately show ?thesis by (simp add: moved_value_def outside_import)
qed

lemma sample_builtins:
  "moved_value (sample_py v) (Map.empty(six_name \<mapsto> PModule six_name)) (six_known (sample_py v))
     (MovedModule (sample_py v) ''builtins'' ''__builtin__'' None)
   = Inr (PModule (if fst v = 3 then ''builtins'' else ''__builtin__''))"
  by (subst sample_top_level) (simp_all add: six_name_def std_find_def sample_py_def PY3_def)

lemma sample_loads: "\<exists>s. load_six (sample_py v) 4 (before_six path Map.empty) = (Inr (), s)"
  by (rule load_succeeds[OF _ sample_clean sample_builtins]) (simp_all add: module_attribute_def sample_py_def PY3_def six_name_def)

theorem moves_read_as_declared_witness:
  "\<exists>s. load_six (sample_py (2, 7)) 4 (before_six [] Map.empty) = (Inr (), s)
     \<and> fst (get_attribute (sample_py (2, 7)) 4 (PLazy ''moves'') ''range''
         (six_run (sample_py (2, 7)) 4 [ImportName ''six.moves.urllib.parse'', ReadMove ''moves'' ''input''] s)) = Inr (PObj 2)"
proof -
  let ?p = "sample_py (2, 7)"
  let ?mv = "MovedAttribute ?p ''range'' ''__builtin__'' (Some ''builtins'') (Some ''xrange'') (Some ''range'')"
  obtain s where s: "load_six ?p 4 (before_six [] Map.empty) = (Inr (), s)" using sample_loads by blast
  have "?mv \<in> set (lazy_table ?p ''moves'')" by (simp add: lazy_table_def moves_table_def)
  from moves_read_as_declared[OF s _ sample_clean _ this, of "[ImportName ''six.moves.urllib.parse'', ReadMove ''moves'' ''input'']"]
  have "fst (get_attribute ?p 4 (PLazy ''moves'') ''range''
      (six_run ?p 4 [ImportName ''six.moves.urllib.parse'', ReadMove ''moves'' ''input''] s))
    = moved_value ?p (Map.empty(six_name \<mapsto> PModule six_name)) (six_known ?p) ?mv"
    by (simp add: only_uses_def shadowed_def)
  also have "\<dots> = Inr (PObj 2)"
    by (subst sample_top_level) (simp_all add: six_name_def std_find_def sample_py_def PY3_def module_attribute_def MovedAttribute_def)
  finally show ?thesis using s by blast
qed

text \<open>
  C21: Importing ends: whatever has been imported and read, four nested calls are enough for any name, and
  the outcome is a module or an ImportError.
\<close>
theorem import_ends:
  assumes "load_six p n (before_six path modules) = (Inr (), s)" and "4 \<le> n"
    and "clean p (modules(six_name \<mapsto> PModule six_name))" and "list_all only_uses ops"
  shows "(\<exists>m. fst (import_name p n name (six_run p n ops s)) = Inr m)
    \<or> (\<exists>e. fst (import_name p n name (six_run p n ops s)) = Inl (ImportError e))"
proof -
  let ?B = "modules(six_name \<mapsto> PModule six_name)"
  have std: "pure_chain p ?B (std_find p) ws = Inl e \<Longrightarrow> \<exists>x. e = ImportError x" for ws e
    by (induction ws) (auto simp: sbind_Inl_iff std_find_def no_module_def split: if_splits option.splits)
  have "six_find p ?B (six_known p) m = Inl e \<Longrightarrow> \<exists>x. e = ImportError x" for m e
    using std by (auto simp: six_find_def std_find_def no_module_def pure_import_def map_sum_def split: option.splits known.splits sum.splits)
  then have "six_chain p ?B ws = Inl e \<Longrightarrow> \<exists>x. e = ImportError x" for ws e
    by (induction ws) (auto simp: sbind_Inl_iff no_module_def map_sum_def split: if_splits option.splits sum.splits)
  then have i: "six_import p ?B name = Inl e \<Longrightarrow> \<exists>x. e = ImportError x" for e
    by (auto simp: pure_import_def map_sum_def split: sum.splits)
  from load_sound[OF assms(1-3)] obtain M where M: "SixImporter six_name \<in> set M" and so: "sound p ?B M s" by blast
  from import_value[OF run_sound[OF so M assms(2,4)] M, of n name] assms(2) i show ?thesis
    by (cases "six_import p ?B name") auto
qed

theorem import_ends_witness:
  "\<exists>s. load_six (sample_py (3, 5)) 4 (before_six [] Map.empty) = (Inr (), s)
     \<and> (\<forall>name. (\<exists>m. fst (import_name (sample_py (3, 5)) 4 name (six_run (sample_py (3, 5)) 4 [ReadMove ''moves'' ''urllib''] s)) = Inr m)
       \<or> (\<exists>e. fst (import_name (sample_py (3, 5)) 4 name (six_run (sample_py (3, 5)) 4 [ReadMove ''moves'' ''urllib''] s)) = Inl (ImportError e)))"
proof -
  obtain s where s: "load_six (sample_py (3, 5)) 4 (before_six [] Map.empty) = (Inr (), s)" using sample_loads by blast
  from import_ends[OF s _ sample_clean, of "[ReadMove ''moves'' ''urllib'']"] s show ?thesis
    by (auto simp: only_uses_def)
qed

section \<open>Order of imports and reads\<close>

lemma import_urllib_parse:
  assumes so: "sound p B M s" and M: "SixImporter six_name \<in> set M" and n: "4 \<le> n"
    and names: "\<forall>n. is_six n \<longrightarrow> sys_modules s n = (if n = six_name then Some (PModule six_name) else None)"
  shows "inst_dict (snd (import_name p n ''six.moves.urllib_parse'' s)) ''moves'' ''urllib_parse'' = Some (PLazy ''moves.urllib_parse'')"
proof -
  obtain k where k: "n = Suc (Suc (Suc (Suc k)))" using depth_4[OF n] by blast
  let ?imp = "fst (import_machine p (Suc (Suc (Suc k))))" and ?m = "import_machine p (Suc (Suc k))"
  let ?get = "attribute_step p (fst ?m) (snd ?m)"
  have dots: "dotted [six_name] = six_name" "dotted [''moves'', six_name] = six_full ''moves''"
    "dotted [''urllib_parse'', ''moves'', six_name] = six_full ''moves.urllib_parse''"
    "parts (six_full ''moves.urllib_parse'') = [''urllib_parse'', ''moves'', six_name]"
    by (simp_all add: dotted_def six_full_def six_name_def parts_def)
  have six: "is_six six_name" by (simp add: is_six_def six_name_def)
  note none = sound_known[OF so] sound_clean[OF so, unfolded clean_def]
  have known: "six_known p (six_full ''moves'') = Some (KModule ''moves'')"
    "six_known p (six_full ''moves.urllib_parse'') = Some (KModule ''moves.urllib_parse'')" by (simp_all add: six_known_def)
  let ?s = "s\<lparr>inst_dict := (inst_dict s)(''moves'' := (inst_dict s ''moves'')(''__loader__'' \<mapsto> PImporter)),
    sys_modules := (sys_modules s)(six_full ''moves'' \<mapsto> PLazy ''moves'')\<rparr>"
  have 1: "import_steps p ?imp ?get [six_name] s = (Inr (Some (PModule six_name)), s)"
    using names six by (simp add: dots)
  have 2: "import_steps p ?imp ?get [''moves'', six_name] s = (Inr (Some (PLazy ''moves'')), ?s)"
    using names none M so known
    by (simp add: import_steps.simps(2)[of _ _ _ "''moves''"] dots 1 bindE_def parent_has_path_def attribute_step_def
        find_and_load_def find_module_def load_module_def get_known_def dict_effects set_child_def sound_def
        del: import_steps.simps import_machine.simps)
  have "no_dots [''moves'', six_name]" by (simp add: six_name_def)
  from all_six.steps[OF conjI[OF so M] this, of "fst ?m" "fst (import_machine p (Suc k))" "snd (import_machine p (Suc k))"
      "fst ?m" "snd ?m", folded machine_Suc] have so': "sound p B M ?s"
    using 2 by (auto simp: machine_Suc simp del: import_machine.simps import_steps.simps)
  have 3: "\<exists>t. import_steps p ?imp ?get [''urllib_parse'', ''moves'', six_name] s = (Inr (Some (PLazy ''moves.urllib_parse'')), t)
      \<and> inst_dict t ''moves'' ''urllib_parse'' = Some (PLazy ''moves.urllib_parse'')
      \<and> sys_modules t (six_full ''moves.urllib_parse'') = Some (PLazy ''moves.urllib_parse'')"
    using names none M so known lazy_path[OF so']
    by (simp add: import_steps.simps(2)[of _ _ _ "''urllib_parse''"] dots 2 bindE_def parent_has_path_def attribute_step_def
        find_and_load_def find_module_def load_module_def get_known_def dict_effects set_child_def sound_def
        del: import_steps.simps import_machine.simps)
  have "parts ''six.moves.urllib_parse'' = [''urllib_parse'', ''moves'', six_name]" "''six.moves.urllib_parse'' = six_full ''moves.urllib_parse''"
    by (simp_all add: parts_def six_full_def six_name_def)
  with 3 show ?thesis
    by (auto simp: import_name_def k machine_Suc resolve_module_def import_step_def bindE_def simp flip: parts_def
        simp del: import_machine.simps import_steps.simps)
qed

text \<open>
  What the three names mean depends on the order. In Python 3, \<open>six.moves.urllib_parse\<close> read as an
  attribute is the module \<open>urllib.parse\<close>; after the module of that name has been imported it is the lazy
  module of six, which has the attributes of the table alone.
\<close>
theorem urllib_parse_depends_on_order:
  assumes "load_six p n (before_six path modules) = (Inr (), s)" and "4 \<le> n" and "PY3 p"
    and "clean p (modules(six_name \<mapsto> PModule six_name))"
  shows "fst (get_attribute p n (PLazy ''moves'') ''urllib_parse'' s)
      = six_import p (modules(six_name \<mapsto> PModule six_name)) ''urllib.parse''
    \<and> six_import p (modules(six_name \<mapsto> PModule six_name)) ''urllib.parse'' \<noteq> Inr (PLazy ''moves.urllib_parse'')
    \<and> fst (get_attribute p n (PLazy ''moves'') ''urllib_parse''
        (six_run p n [ImportName ''six.moves.urllib_parse''] s)) = Inr (PLazy ''moves.urllib_parse'')"
proof -
  let ?B = "modules(six_name \<mapsto> PModule six_name)"
  let ?mv = "MovedModule p ''urllib_parse'' (six_full ''moves.urllib_parse'') (Some ''urllib.parse'')"
  from load_sound[OF assms(1,2,4)] obtain M where M: "SixImporter six_name \<in> set M" and so: "sound p ?B M s"
    and fresh: "inst_dict s ''moves'' ''urllib_parse'' = None"
    and names: "\<forall>n. is_six n \<longrightarrow> sys_modules s n = (if n = six_name then Some (PModule six_name) else None)" by auto
  have mv: "?mv \<in> set (lazy_table p ''moves'')" "mv_mod ?mv = ''urllib.parse''"
    using assms(3) by (simp_all add: lazy_table_def moves_table_def)
  from read_value[OF so M assms(2), of "''moves''" "''urllib_parse''"] mv(1) fresh
  have 1: "fst (get_attribute p n (PLazy ''moves'') ''urllib_parse'' s) = moved_value p ?B (six_known p) ?mv" by force
  have 2: "six_import p ?B ''urllib.parse'' \<noteq> Inr (PLazy c)" for c
    by (rule import_not_lazy[OF assms(4)]) (simp add: is_six_def six_name_def)
  have "inst_dict (six_run p n [ImportName ''six.moves.urllib_parse''] s) ''moves'' ''urllib_parse''
      = Some (PLazy ''moves.urllib_parse'')"
    using import_urllib_parse[OF so M assms(2) names]
    by (cases "import_name p n ''six.moves.urllib_parse'' s"; cases "fst (import_name p n ''six.moves.urllib_parse'' s)")
      (simp_all add: bindE_def)
  then have 3: "fst (get_attribute p n (PLazy ''moves'') ''urllib_parse'' (six_run p n [ImportName ''six.moves.urllib_parse''] s))
      = Inr (PLazy ''moves.urllib_parse'')"
    using depth_4[OF assms(2)] by (auto simp: get_attribute_def machine_Suc attribute_step_def lazy_get_def simp del: import_machine.simps six_run.simps)
  show ?thesis using 1 2 3 mv(2) by (simp add: moved_value_def del: six_run.simps) (cases "six_import p ?B ''urllib.parse''"; simp)
qed

theorem urllib_parse_depends_on_order_witness:
  "\<exists>s. load_six (sample_py (3, 5)) 4 (before_six [] Map.empty) = (Inr (), s)
     \<and> fst (get_attribute (sample_py (3, 5)) 4 (PLazy ''moves'') ''urllib_parse'' s) = Inr (PModule ''urllib.parse'')
     \<and> fst (get_attribute (sample_py (3, 5)) 4 (PLazy ''moves'') ''urllib_parse''
         (six_run (sample_py (3, 5)) 4 [ImportName ''six.moves.urllib_parse''] s)) = Inr (PLazy ''moves.urllib_parse'')"
proof -
  obtain s where s: "load_six (sample_py (3, 5)) 4 (before_six [] Map.empty) = (Inr (), s)" using sample_loads by blast
  have out: "\<not> is_six ''urllib.parse''" by (simp add: is_six_def six_name_def)
  have
    "six_import (sample_py (3, 5)) (Map.empty(six_name \<mapsto> PModule six_name)) ''urllib.parse'' = Inr (PModule ''urllib.parse'')"
    unfolding outside_import[OF out]
    by (simp add: pure_import_def parts_def dotted_def std_find_def has_path_def six_name_def sample_py_def PY3_def)
  with urllib_parse_depends_on_order[OF s _ _ sample_clean] s show ?thesis
    by (auto simp: PY3_def sample_py_def simp del: six_run.simps)
qed

section \<open>Adding and removing moves\<close>

text \<open>
  A move that has been read stays: one added in its place is not looked at, and when that one is
  removed, the value read before is still there, although \<open>remove_move\<close> has reported no error.
\<close>
theorem read_move_stays:
  assumes "class_dict s0 ''moves'' (mv_name mv) = Some (Descr mv0)" and "mv_name mv0 = mv_name mv"
    and "get_attribute p n (PLazy ''moves'') (mv_name mv) s0 = (Inr v, s)"
  shows "fst (get_attribute p n (PLazy ''moves'') (mv_name mv) (snd (add_move mv s))) = Inr v
    \<and> (\<exists>t. remove_move (mv_name mv) (snd (add_move mv s)) = (Inr (), t)
        \<and> fst (get_attribute p n (PLazy ''moves'') (mv_name mv) t) = Inr v)"
proof -
  obtain k where k: "n = Suc k" using assms(3) by (cases n) (simp_all add: get_attribute_def)
  have i: "inst_dict s ''moves'' (mv_name mv) = Some v"
    using assms by (auto simp: k get_attribute_def machine_Suc attribute_step_def lazy_get_def descr_get_def dict_effects
        bindE_Inr_iff simp del: import_machine.simps split: option.splits)
  show ?thesis
    using i by (simp add: k get_attribute_def machine_Suc attribute_step_def lazy_get_def add_move_def remove_move_def
        dict_effects del: import_machine.simps)
qed

definition sample_read :: "nat six" where
  \<comment> \<open>a state with one move, not yet read\<close>
  "sample_read = (before_six [] (Map.empty(''itertools'' \<mapsto> PModule ''itertools'')))
     \<lparr>class_dict := (\<lambda>_. Map.empty)(''moves'' := [''zip'' \<mapsto> Descr \<lparr>mv_name = ''zip'', mv_mod = ''itertools'', mv_attr = None\<rparr>])\<rparr>"

theorem read_move_stays_witness:
  "\<exists>s t. get_attribute (sample_py (2, 7)) 3 (PLazy ''moves'') ''zip'' sample_read = (Inr (PModule ''itertools''), s)
     \<and> remove_move ''zip'' (snd (add_move \<lparr>mv_name = ''zip'', mv_mod = ''other'', mv_attr = None\<rparr> s)) = (Inr (), t)
     \<and> fst (get_attribute (sample_py (2, 7)) 3 (PLazy ''moves'') ''zip'' t) = Inr (PModule ''itertools'')"
proof -
  have "\<exists>s. get_attribute (sample_py (2, 7)) 3 (PLazy ''moves'') ''zip'' sample_read = (Inr (PModule ''itertools''), s)"
    by (simp add: get_attribute_def attribute_step_def lazy_get_def sample_read_def before_six_def descr_get_def moved_resolve_def
        resolve_module_def import_step_def bindE_def dict_effects sample_py_def PY3_def dotted_def six_name_def numeral_3_eq_3)
  then obtain s where s: "get_attribute (sample_py (2, 7)) 3 (PLazy ''moves'') ''zip'' sample_read = (Inr (PModule ''itertools''), s)" ..
  let ?mv = "\<lparr>mv_name = ''zip'', mv_mod = ''other'', mv_attr = None\<rparr>"
  from read_move_stays[of sample_read ?mv "\<lparr>mv_name = ''zip'', mv_mod = ''itertools'', mv_attr = None\<rparr>" "sample_py (2, 7)" 3] s
  show ?thesis by (auto simp: sample_read_def)
qed

text \<open>
  What is read after a move has been removed: nothing, unless the class still had a move of that name
  and a value had been stored before.
\<close>
theorem removed_move_read:
  assumes "remove_move name s = (Inr (), t)"
  shows "fst (get_attribute p (Suc n) (PLazy ''moves'') name t)
    = (case inst_dict s ''moves'' name of
         None \<Rightarrow> Inl (AttributeError name)
       | Some v \<Rightarrow> if class_dict s ''moves'' name = None then Inl (AttributeError name) else Inr v)"
  using assms by (auto simp: get_attribute_def machine_Suc attribute_step_def lazy_get_def remove_move_def
      dict_effects simp del: import_machine.simps split: if_splits option.splits)

theorem removed_move_read_witness:
  "\<exists>t. remove_move ''zip'' sample_read = (Inr (), t)
     \<and> fst (get_attribute (sample_py (2, 7)) 1 (PLazy ''moves'') ''zip'' t) = Inl (AttributeError ''zip'')"
proof -
  have "\<exists>t. remove_move ''zip'' sample_read = (Inr (), t)" by (simp add: remove_move_def sample_read_def dict_effects)
  then obtain t where t: "remove_move ''zip'' sample_read = (Inr (), t)" ..
  from removed_move_read[OF t, of "sample_py (2, 7)" 0] t show ?thesis by (simp add: sample_read_def before_six_def)
qed

text \<open>
  However often six is loaded and whatever other importers come in between, its importer is on
  \<open>sys.meta_path\<close> once, at the end after loading.
\<close>
theorem importer_once:
  assumes "count_list (meta_path s) (SixImporter six_name) \<le> 1" and "install_importer s = (Inr (), t)"
  shows "count_list (meta_path t) (SixImporter six_name) = 1 \<and> last (meta_path t) = SixImporter six_name
    \<and> filter (\<lambda>f. f \<noteq> SixImporter six_name) (meta_path t) = filter (\<lambda>f. f \<noteq> SixImporter six_name) (meta_path s)"
proof -
  have "count_list xs x \<le> 1 \<Longrightarrow> count_list (remove_first (\<lambda>f. f = x) xs) x = 0" for xs and x :: finder
    by (induction xs) (auto split: if_splits)
  moreover have "filter (\<lambda>f. f \<noteq> x) (remove_first (\<lambda>f. f = x) xs) = filter (\<lambda>f. f \<noteq> x) xs" for xs and x :: finder
    by (induction xs) auto
  ultimately show ?thesis using assms by (auto simp: install_importer_def)
qed

theorem importer_once_witness:
  "\<exists>t. install_importer (before_six [OtherFinder 0, SixImporter six_name, OtherFinder 1] Map.empty :: nat six) = (Inr (), t)
     \<and> count_list (meta_path t) (SixImporter six_name) = 1"
proof -
  let ?s = "before_six [OtherFinder 0, SixImporter six_name, OtherFinder 1] Map.empty :: nat six"
  obtain t where t: "install_importer ?s = (Inr (), t)" by (simp add: install_importer_def)
  have "count_list (meta_path ?s) (SixImporter six_name) \<le> 1" by (simp add: before_six_def)
  from importer_once[OF this t] t show ?thesis by blast
qed

section \<open>Printing and classes\<close>

text \<open>
  \<open>print_\<close> of an old interpreter writes the texts of its arguments with the separator in between and the
  end, each as one piece; when a piece cannot be encoded, the pieces before it have been written.
\<close>
theorem print_writes_chunks:
  assumes "keyword_text ''sep'' (pk_sep kw) = Inr s" and "keyword_text ''end'' (pk_end kw) = Inr e"
    and "pk_others kw = []" and "pk_flush kw = None" and "print_separators s e args = (sep, ending)"
    and "print_own codecs kw args fp = (r, fp')"
  shows "\<exists>ds. fp' = fp\<lparr>fi_events := fi_events fp @ map Wrote ds\<rparr>
     \<and> map (encoded codecs fp) (take (length ds) (print_chunks sep ending args)) = map Inr ds
     \<and> (case r of Inr _ \<Rightarrow> length ds = length (print_chunks sep ending args)
        | Inl x \<Rightarrow> length ds < length (print_chunks sep ending args)
            \<and> encoded codecs fp (print_chunks sep ending args ! length ds) = Inl x)"
proof -
  have final: "put_chunks codecs [ending] = print_write codecs (Text ending)"
    by (auto simp: fun_eq_iff print_write_def bindE_def split: sum.split)
  have "print_own codecs kw args fp = put_chunks codecs (print_chunks sep ending args) fp"
    using assms(1-5) by (simp add: print_own_def print_chunks_def put_chunks_append print_loop_first final del: put_chunks.simps)
  with assms(6) show ?thesis by (intro put_chunks_result) simp
qed

text \<open>
  A class can be made again with a metaclass exactly if each of its slots is named once and is an
  attribute of the class; the new class has the attributes without the slots. A slot whose name begins
  with two underscores is an attribute under another name, so \<open>add_metaclass\<close> fails for it.
\<close>
theorem add_metaclass_exact:
  "if distinct (slot_names (cl_dict cls)) \<and> set (slot_names (cl_dict cls)) \<subseteq> dom (cl_dict cls)
   then add_metaclass meta cls = meta (cl_name cls) (cl_bases cls)
     (\<lambda>n. if n \<in> set (slot_names (cl_dict cls)) \<or> n = ''__dict__'' \<or> n = ''__weakref__'' then None else cl_dict cls n)
   else (\<exists>n\<in>set (slot_names (cl_dict cls)). add_metaclass meta cls = Inl (KeyError n))"
proof (cases "pop_slots (slot_names (cl_dict cls)) (cl_dict cls)")
  case (Inl e)
  then have "\<not> (distinct (slot_names (cl_dict cls)) \<and> set (slot_names (cl_dict cls)) \<subseteq> dom (cl_dict cls))"
    using pop_slots_Inr[of "slot_names (cl_dict cls)" "cl_dict cls"] by auto
  then show ?thesis using pop_slots_Inl[OF Inl] Inl by (auto simp: add_metaclass_def)
next
  case (Inr d)
  have "(cl_dict cls |` (- set (slot_names (cl_dict cls))))(''__dict__'' := None, ''__weakref__'' := None)
    = (\<lambda>n. if n \<in> set (slot_names (cl_dict cls)) \<or> n = ''__dict__'' \<or> n = ''__weakref__'' then None else cl_dict cls n)"
    by (auto simp: fun_eq_iff restrict_map_def)
  with Inr pop_slots_Inr[of "slot_names (cl_dict cls)" "cl_dict cls" d] show ?thesis by (simp add: add_metaclass_def)
qed

text \<open>
  In Python 2 the method \<open>__str__\<close> of a decorated class returns what the class's own returned, as UTF-8;
  a class decorated twice has no \<open>__str__\<close> that returns.
\<close>
theorem unicode_compatible:
  assumes "PY2 p" and "python_2_unicode_compatible p name klass = Inr k" and "klass ''__str__'' = Some (Own m)"
  shows "call_text utf8 run k (Suc (Suc n)) ''__str__'' = sbind (run m) (\<lambda>s. sbind (to_unicode s) (\<lambda>u. Inr (Str (utf8 u))))
    \<and> (\<forall>k'. python_2_unicode_compatible p name k = Inr k' \<longrightarrow> call_text utf8 run k' depth ''__str__'' = Inl recursion_error)"
  using assms decorated_twice[OF assms(1,2)] by (auto simp: python_2_unicode_compatible_def)

end
