(* ===== verification/LiveBase.thy ===== *)
theory LiveBase
  imports ImapConfig PyText
begin

text \<open>
  livetest.py, the script that runs the client against a mail server: the fixture \<open>_TestBase\<close>, which makes
  a client from the configuration and clears the test folders before and after each test, and the command
  line. The state of a test is the client of its class, the name of the base folder with the delimiter of
  the namespace, the clients that are logged out at the end of the test, and the cache of OAuth tokens. An
  assertion that fails raises \<open>AssertionError\<close>, a skipped test \<open>SkipTest\<close>. What holds of
  the fixture is proved in LiveSpec.
\<close>

section \<open>The state of a test\<close>

record test_env =
  tv_env :: env
  tv_ossl :: ossl
  tv_sr :: surroundings
  tv_conf :: conf

record live =
  lv_client :: client
  lv_base_folder :: "nat list"
  lv_delimiter :: ns_text
  lv_others :: "client list"
  lv_tokens :: "oauth_key \<Rightarrow> bytes option"

definition onc :: "(client, 'a) act \<Rightarrow> (live, 'a) act" where
  \<comment> \<open>a call on \<open>self.client\<close>\<close>
  "onc m lv = (case m (lv_client lv) of (r, c) \<Rightarrow> (r, lv\<lparr>lv_client := c\<rparr>))"

definition doE :: "(live, 'a) act \<Rightarrow> (live, unit) act" where
  \<comment> \<open>a call whose result is not used\<close>
  "doE m = bindE m (\<lambda>_. retE ())"

definition assertE :: "bool \<Rightarrow> (live, unit) act" where
  "assertE b = whenE (\<not> b) (raiseE (AssertionError ''''))"

definition catchE :: "(pyexc \<Rightarrow> bool) \<Rightarrow> (pyexc \<Rightarrow> ('s, 'a) act) \<Rightarrow> ('s, 'a) act \<Rightarrow> ('s, 'a) act" where
  "catchE P h m s = (case m s of (Inl e, t) \<Rightarrow> if P e then h e t else (Inl e, t) | (Inr x, t) \<Rightarrow> (Inr x, t))"

definition is_imap_error :: "pyexc \<Rightarrow> bool" where
  \<comment> \<open>\<open>IMAPClient.Error\<close>, of which the other two are subclasses\<close>
  "is_imap_error e = (case e of ImapError _ \<Rightarrow> True | ImapAbort _ \<Rightarrow> True | ImapReadOnly _ \<Rightarrow> True | _ \<Rightarrow> False)"

definition skipTest :: "bytes \<Rightarrow> pyexc" where
  "skipTest reason = RuntimeError (''SkipTest: '' @ reason)"

definition set_encode :: "bool \<Rightarrow> (live, unit) act" where
  "set_encode b = modE (\<lambda>lv. lv\<lparr>lv_client := (lv_client lv)\<lparr>cl_folder_encode := b\<rparr>\<rparr>)"

section \<open>The class and its helpers\<close>

definition setUpClass :: "test_env \<Rightarrow> ns_text \<times> ns_text \<Rightarrow> bool \<Rightarrow> (oauth_key \<Rightarrow> bytes option) \<Rightarrow> pyexc + live" where
  "setUpClass te nsp use_uid tokens =
     (case create_client_from_config (tv_ossl te) (tv_sr te) (tv_conf te) tokens of
        (Inl e, _, _) \<Rightarrow> Inl e
      | (Inr cl, _, tokens) \<Rightarrow>
          sbind (case fst nsp of
             NsText u \<Rightarrow> Inr u
           | NsRaw (IBytes b) \<Rightarrow> decode_ascii b
           | NsRaw _ \<Rightarrow> Inl (TypeError ''unsupported operand type(s) for +'')) (\<lambda>prefix.
          Inr \<lparr>lv_client = cl\<lparr>cl_use_uid := use_uid\<rparr>, lv_base_folder = prefix @ map of_char ''__imapclient'',
            lv_delimiter = snd nsp, lv_others = [], lv_tokens = tokens\<rparr>))"

definition skip_unless_capable :: "bytes \<Rightarrow> bytes option \<Rightarrow> (live, unit) act" where
  "skip_unless_capable capability name =
     bindE (onc (has_capability (ascii capability))) (\<lambda>has.
     whenE (\<not> has) (raiseE (skipTest (''Server doesn't support '' @ (case name of Some (c # cs) \<Rightarrow> c # cs | _ \<Rightarrow> capability)))))"

definition name_text :: "ns_text \<Rightarrow> pyexc + pystr" where
  \<comment> \<open>a folder name; what is no string has no \<open>startswith\<close>\<close>
  "name_text v = (case v of
     NsText u \<Rightarrow> Inr (Uni u) | NsRaw (IBytes b) \<Rightarrow> Inr (Str b) | NsRaw _ \<Rightarrow> Inl (AttributeError ''startswith''))"

definition is_special :: "pystr \<Rightarrow> bool" where
  "is_special s = (case s of Uni u \<Rightarrow> take 1 u = [0x5B] | Str b \<Rightarrow> take 1 b = ''['')"

definition just_folder_names :: "(imapval \<times> imapval \<times> ns_text) list \<Rightarrow> pyexc + pystr list" where
  "just_folder_names dat =
     sbind (sequence (map (\<lambda>(_, _, n). name_text n) dat)) (\<lambda>names. Inr (filter (\<lambda>s. \<not> is_special s) names))"

definition all_test_folder_names :: "env \<Rightarrow> (live, pystr list) act" where
  "all_test_folder_names env = withE (\<lambda>lv.
     bindE (onc (list_folders env (Uni (lv_base_folder lv)) (ascii ''*''))) (\<lambda>dat. liftE (just_folder_names dat)))"

definition all_sub_test_folder_names :: "env \<Rightarrow> (live, pystr list) act" where
  "all_sub_test_folder_names env = withE (\<lambda>lv.
     bindE (onc (list_sub_folders env (Uni (lv_base_folder lv)) (ascii ''*''))) (\<lambda>dat. liftE (just_folder_names dat)))"

definition imap_host :: "live \<Rightarrow> bytes option" where
  \<comment> \<open>\<open>self.client._imap.host\<close>; an \<open>IMAP4_stream\<close> sets it to None\<close>
  "imap_host lv = (if cl_stream (lv_client lv) then None else Some (cl_host (lv_client lv)))"

definition is_gmail :: "live \<Rightarrow> bool" where
  "is_gmail lv \<longleftrightarrow> imap_host lv = Some ''imap.gmail.com''"

definition is_fastmail :: "live \<Rightarrow> bool" where
  "is_fastmail lv \<longleftrightarrow> imap_host lv = Some ''mail.messagingengine.com''"

definition is_exchange :: "(live, bool) act" where
  "is_exchange =
     bindE (onc (has_capability (ascii ''IMAP4''))) (\<lambda>a.
     if \<not> a then retE False
     else bindE (onc (has_capability (ascii ''AUTH=NTLM''))) (\<lambda>b.
       if \<not> b then retE False else onc (has_capability (ascii ''AUTH=GSSAPI''))))"

section \<open>Clearing the test folders\<close>

function py_count :: "'a list \<Rightarrow> 'a list \<Rightarrow> nat" where
  \<comment> \<open>\<open>s.count(sub)\<close>\<close>
  "py_count sub s =
     (if sub = [] then length s + 1
      else (case s of
          [] \<Rightarrow> 0
        | c # cs \<Rightarrow>
            if take (length sub) s = sub then Suc (py_count sub (drop (length sub) s)) else py_count sub cs))"
  by pat_completeness auto
termination
  by (relation "measure (\<lambda>(_, s). length s)") auto

declare py_count.simps [simp del]

definition delimiter_bytes :: "live \<Rightarrow> pyexc + bytes" where
  \<comment> \<open>\<open>self.folder_delimiter.encode('ascii')\<close>\<close>
  "delimiter_bytes lv = (case lv_delimiter lv of NsText u \<Rightarrow> encode_ascii u | NsRaw _ \<Rightarrow> Inl (AttributeError ''encode''))"

definition depth_below :: "bytes \<Rightarrow> pystr \<Rightarrow> nat" where
  "depth_below d folder = (case folder of Str b \<Rightarrow> py_count d b | Uni u \<Rightarrow> py_count (map of_char d) u)"

definition get_folder_depth :: "live \<Rightarrow> pystr \<Rightarrow> pyexc + nat" where
  "get_folder_depth lv folder = sbind (delimiter_bytes lv) (\<lambda>d. Inr (depth_below d folder))"

definition deletion_order :: "live \<Rightarrow> pystr list \<Rightarrow> pyexc + pystr list" where
  \<comment> \<open>\<open>sorted(names, key=self.get_folder_depth, reverse=True)\<close>, which is stable\<close>
  "deletion_order lv names =
     sbind (sequence (map (get_folder_depth lv) names)) (\<lambda>depths.
     Inr (map snd (sort_key (\<lambda>p. - int (fst p)) (zip depths names))))"

definition delete_test_folder :: "pystr \<Rightarrow> (live, unit) act" where
  "delete_test_folder folder =
     catchE is_imap_error (\<lambda>e. withE (\<lambda>lv. if is_fastmail lv then retE () else raiseE e)) (doE (onc (delete_folder folder)))"

definition clear_test_folders :: "env \<Rightarrow> (live, unit) act" where
  "clear_test_folders env =
     bindE (catchE is_imap_error (\<lambda>_. retE ()) (doE (onc close_folder))) (\<lambda>_.
     bindE (set_encode False) (\<lambda>_.
     bindE (all_test_folder_names env) (\<lambda>names. withE (\<lambda>lv.
     bindE (liftE (deletion_order lv names)) (\<lambda>folder_names.
     bindE (each delete_test_folder folder_names) (\<lambda>_. set_encode True))))))"

definition unsub_all_test_folders :: "env \<Rightarrow> (live, unit) act" where
  "unsub_all_test_folders env =
     bindE (all_sub_test_folder_names env) (each (\<lambda>folder. doE (onc (unsubscribe_folder folder))))"

definition clear_folder :: "env \<Rightarrow> pystr \<Rightarrow> (live, unit) act" where
  "clear_folder env folder =
     bindE (onc (select_folder folder False)) (\<lambda>_.
     bindE (onc (search env (Whole (ascii ''ALL'')) None)) (\<lambda>ids.
     bindE (onc (delete_messages env (Ids (map IdInt (si_ids ids))))) (\<lambda>_. doE (onc (expunge env)))))"

definition add_prefix_to_folder :: "live \<Rightarrow> pystr \<Rightarrow> pyexc + pystr" where
  "add_prefix_to_folder lv folder = (case folder of
     Str b \<Rightarrow> sbind (encode_ascii (lv_base_folder lv)) (\<lambda>base. sbind (delimiter_bytes lv) (\<lambda>d. Inr (Str (base @ d @ b))))
   | Uni u \<Rightarrow> (case lv_delimiter lv of
         NsText d \<Rightarrow> Inr (Uni (lv_base_folder lv @ d @ u))
       | NsRaw _ \<Rightarrow> Inl (TypeError ''coercing to Unicode: need string or buffer'')))"

definition add_prefix_to_folders :: "live \<Rightarrow> pystr list \<Rightarrow> pyexc + pystr list" where
  "add_prefix_to_folders lv folders = sequence (map (add_prefix_to_folder lv) folders)"

definition append_msg :: "env \<Rightarrow> pystr \<Rightarrow> pystr option \<Rightarrow> (live, unit) act" where
  "append_msg env msg folder = withE (\<lambda>lv.
     let folder = (case folder of Some f \<Rightarrow> if f \<in> {Str [], Uni []} then Uni (lv_base_folder lv) else f
                   | None \<Rightarrow> Uni (lv_base_folder lv)) in
     bindE (onc (append_message env folder msg (Many []) None)) (\<lambda>_. withE (\<lambda>lv.
     whenE (is_gmail lv) (doE (onc (noop env))))))"

section \<open>Before and after each test\<close>

definition setUp :: "env \<Rightarrow> (live, unit) act" where
  "setUp env =
     bindE (clear_test_folders env) (\<lambda>_.
     bindE (unsub_all_test_folders env) (\<lambda>_. withE (\<lambda>lv.
     bindE (onc (create_folder (Uni (lv_base_folder lv)))) (\<lambda>_.
     doE (onc (select_folder (Uni (lv_base_folder lv)) False))))))"

definition tearDown :: "env \<Rightarrow> (live, unit) act" where
  "tearDown env = bindE (clear_test_folders env) (\<lambda>_. unsub_all_test_folders env)"

definition tearDownClass :: "(live, unit) act" where
  "tearDownClass = doE (onc logout)"

definition quiet_logout :: "(client, unit) act" where
  "quiet_logout = catchE is_imap_error (\<lambda>_. retE ()) (bindE logout (\<lambda>_. retE ()))"

section \<open>The command line\<close>

record run_state =
  rn_argv :: "bytes list"
  rn_stderr :: bytes
  rn_tokens :: "oauth_key \<Rightarrow> bytes option"

definition system_exit :: pyexc where "system_exit = RuntimeError ''SystemExit: 1''"

definition argv_error :: "bytes \<Rightarrow> (run_state, 'a) act" where
  "argv_error msg = bindE (modE (\<lambda>s. s\<lparr>rn_stderr := rn_stderr s @ msg @ NEWLINE @ NEWLINE @ ''usage: '' @ hd (rn_argv s)
     @ '' <livetest.ini> [ optional unittest arguments ]'' @ NEWLINE\<rparr>)) (\<lambda>_. raiseE system_exit)"

definition parse_argv :: "(bytes \<Rightarrow> (pyexc + conf \<times> (bytes \<times> conf) list) option) \<Rightarrow> (run_state, conf \<times> (bytes \<times> conf) list) act" where
  \<comment> \<open>\<open>files\<close>: what \<open>parse_config_file\<close> gives for a path, None where there is no file\<close>
  "parse_argv files = withE (\<lambda>s. case tl (rn_argv s) of
     [] \<Rightarrow> argv_error ''Please specify a host configuration file. See livetest-sample.ini for an example.''
   | ini_path # args \<Rightarrow>
       bindE (modE (\<lambda>s. s\<lparr>rn_argv := hd (rn_argv s) # args\<rparr>)) (\<lambda>_.
       case files ini_path of
         None \<Rightarrow> argv_error (py_repr ini_path @ '' is not a livetest INI file'')
       | Some host_config \<Rightarrow> liftE host_config))"

definition probe_host :: "env \<Rightarrow> ossl \<Rightarrow> surroundings \<Rightarrow> conf \<Rightarrow> (run_state, ns_text \<times> ns_text) act" where
  "probe_host env ossl sr config = withE (\<lambda>s.
     case create_client_from_config ossl sr config (rn_tokens s) of
       (Inl e, _, tokens) \<Rightarrow> bindE (modE (\<lambda>s. s\<lparr>rn_tokens := tokens\<rparr>)) (\<lambda>_. raiseE e)
     | (Inr client, _, tokens) \<Rightarrow> bindE (modE (\<lambda>s. s\<lparr>rn_tokens := tokens\<rparr>)) (\<lambda>_.
         case namespace env client of
           (Inl e, _) \<Rightarrow> raiseE e
         | (Inr ns, client) \<Rightarrow> (case logout client of
               (Inl e, _) \<Rightarrow> raiseE e
             | (Inr _, _) \<Rightarrow> (case ns_personal ns of
                   Some (p # _) \<Rightarrow> retE p
                 | _ \<Rightarrow> raiseE (RuntimeError ''Can't run tests: IMAP account has no personal namespace'')))))"

datatype test_class = TestGeneral | LiveTest bool

definition livetest_main ::
  "(bytes \<Rightarrow> (pyexc + conf \<times> (bytes \<times> conf) list) option) \<Rightarrow> env \<Rightarrow> ossl \<Rightarrow> surroundings
     \<Rightarrow> (run_state, (conf \<times> (bytes \<times> conf) list) \<times> (ns_text \<times> ns_text) \<times> (bytes \<times> test_class) list) act" where
  \<comment> \<open>what \<open>unittest.main\<close> is given: the configuration with the namespace, and the classes of the module\<close>
  "livetest_main files env ossl sr =
     bindE (parse_argv files) (\<lambda>host_config.
     bindE (probe_host env ossl sr (fst host_config)) (\<lambda>nsp.
     retE (host_config, nsp,
       [(''TestGeneral'', TestGeneral), (''TestWithUIDs'', LiveTest True), (''TestWithoutUIDs'', LiveTest False)])))"

end
