(* ===== verification/LiveGeneral.thy ===== *)
theory LiveGeneral
  imports LiveBase
begin

text \<open>
  livetest.py: the tests of \<open>TestGeneral\<close>, which need no message numbers, as calls on the client model of the
  fixture. What an assertion compares is written out with the equality of Python: a byte string of ASCII
  equals the text, a text is in a list if one of its items equals it. Assertions about the type of a value
  hold by the type of the model and are left out. A second client, made by some tests, is
  logged out after the test.
\<close>

section \<open>Messages\<close>

definition mail_lines :: "bytes list \<Rightarrow> bytes" where
  "mail_lines ls = concat (map (\<lambda>l. l @ CRLF) ls)"

definition SIMPLE_MESSAGE :: bytes where
  "SIMPLE_MESSAGE = mail_lines [''Subject: something'', [], ''Foo'']"

definition MULTIPART_MESSAGE :: bytes where
  "MULTIPART_MESSAGE = mail_lines [
     ''From: Bob Smith <bob@smith.com>'',
     ''To: Some One <some@one.com>, foo@foo.com'',
     ''Date: Tue, 16 Mar 2010 16:45:32 +0000'',
     ''MIME-Version: 1.0'',
     ''Subject: A multipart message'',
     ''Content-Type: multipart/mixed; boundary='' @ [DOUBLE_QUOTE] @ ''===============1534046211=='' @ [DOUBLE_QUOTE],
     [],
     ''--===============1534046211=='',
     ''Content-Type: text/html; charset='' @ [DOUBLE_QUOTE] @ ''us-ascii'' @ [DOUBLE_QUOTE],
     ''Content-Transfer-Encoding: quoted-printable'',
     [],
     ''<html><body>'',
     ''Here is the first part.'',
     ''</body></html>'',
     [],
     ''--===============1534046211=='',
     ''Content-Type: text/plain; charset='' @ [DOUBLE_QUOTE] @ ''us-ascii'' @ [DOUBLE_QUOTE],
     ''Content-Transfer-Encoding: 7bit'',
     [],
     ''Here is the second part.'',
     [],
     ''--===============1534046211==--'']"

definition SMILE :: "nat list" where "SMILE = [0x263A]"

definition MICRO :: "nat list" where "MICRO = [0xB5]"

definition SMILE_MESSAGE :: bytes where
  "SMILE_MESSAGE = mail_lines [
     ''Subject: stuff'',
     ''Content-Type: text/plain; charset='' @ [DOUBLE_QUOTE] @ ''UTF-8'' @ [DOUBLE_QUOTE],
     [],
     [CHR 0xE2, CHR 0x98, CHR 0xBA]]"

section \<open>What assertions compare\<close>

definition py_in :: "pystr \<Rightarrow> pystr list \<Rightarrow> bool" where
  "py_in s ss \<longleftrightarrow> list_ex (py_eq s) ss"

definition text_units :: "pystr \<Rightarrow> nat list" where
  "text_units s = (case s of Uni u \<Rightarrow> u | Str b \<Rightarrow> map of_char b)"

fun remove_name :: "pystr \<Rightarrow> pystr list \<Rightarrow> pyexc + pystr list" where
  \<comment> \<open>\<open>list.remove\<close>\<close>
  "remove_name s [] = Inl (ValueError ''list.remove(x): x not in list'')"
| "remove_name s (t # ts) = (if py_eq t s then Inr ts else sbind (remove_name s ts) (\<lambda>ts. Inr (t # ts)))"

definition assert_raises :: "(pyexc \<Rightarrow> bool) \<Rightarrow> (live, 'a) act \<Rightarrow> (live, unit) act" where
  "assert_raises P m lv = (case m lv of
     (Inl e, t) \<Rightarrow> (if P e then Inr () else Inl e, t)
   | (Inr _, t) \<Rightarrow> (Inl (AssertionError ''not raised''), t))"

definition bytes_answer :: "resp_record option \<Rightarrow> bytes option" where
  \<comment> \<open>\<open>isinstance(resp, binary_type)\<close>\<close>
  "bytes_answer resp = (case resp of Some (Line l) \<Rightarrow> Some l | _ \<Rightarrow> None)"

definition resp_item :: "(bytes \<rightharpoonup> 'v) \<Rightarrow> bytes \<Rightarrow> pyexc + 'v" where
  "resp_item resp key = (case resp key of None \<Rightarrow> Inl (KeyError key) | Some v \<Rightarrow> Inr v)"

definition sel_number :: "sel_val \<Rightarrow> int option" where
  \<comment> \<open>\<open>True\<close> is the number 1\<close>
  "sel_number v = (case v of SelInt n \<Rightarrow> Some n | SelTrue \<Rightarrow> Some 1 | _ \<Rightarrow> None)"

definition check_select :: "(bytes \<rightharpoonup> sel_val) \<Rightarrow> int \<Rightarrow> (live, unit) act" where
  \<comment> \<open>the assertions the two tests of select share\<close>
  "check_select resp n =
     bindE (liftE (resp_item resp ''EXISTS'')) (\<lambda>v. bindE (assertE (sel_number v = Some n)) (\<lambda>_.
     bindE (liftE (resp_item resp ''RECENT'')) (\<lambda>v. bindE (assertE (sel_number v \<noteq> None)) (\<lambda>_.
     bindE (liftE (resp_item resp ''FLAGS'')) (\<lambda>v.
     assertE (case v of SelWords ws \<Rightarrow> 1 < length ws | _ \<Rightarrow> False))))))"

definition status_item :: "(imapval \<times> imapval) list \<Rightarrow> bytes \<Rightarrow> pyexc + imapval" where
  "status_item status key = (case map_of (rev status) (IBytes key) of None \<Rightarrow> Inl (KeyError key) | Some v \<Rightarrow> Inr v)"

definition check_status :: "(imapval \<times> imapval) list \<Rightarrow> bytes \<Rightarrow> int \<Rightarrow> (live, unit) act" where
  "check_status status key n = bindE (liftE (status_item status key)) (\<lambda>v. assertE (v = IInt n))"

section \<open>Connections and folders\<close>

fun test_alternates :: "ossl \<Rightarrow> surroundings \<Rightarrow> (bytes \<Rightarrow> pyexc \<Rightarrow> pyexc + bool) \<Rightarrow> (bytes \<times> conf) list
    \<Rightarrow> (oauth_key \<Rightarrow> bytes option, unit) act" where
  \<comment> \<open>\<open>found\<close>: whether the expected failure matches the text of an exception, in \<open>re.search\<close>\<close>
  "test_alternates ossl sr found [] = retE ()"
| "test_alternates ossl sr found ((name, conf) # alternates) = withE (\<lambda>tokens.
     case create_client_from_config ossl sr conf tokens of (r, _, tokens) \<Rightarrow>
     bindE (modE (\<lambda>_. tokens)) (\<lambda>_.
     bindE (case sbind r (\<lambda>client. fst (logout client)) of
         Inl err \<Rightarrow>
           if truthy_bytes (cf_expect_failure conf) then
             bindE (liftE (found (opt_text (cf_expect_failure conf)) err)) (\<lambda>f.
             whenE (\<not> f) (raiseE (AssertionError (''connection test '' @ py_repr name @ '' failed''))))
           else raiseE (AssertionError (''connection test '' @ py_repr name @ '' failed unexpectedly''))
       | Inr _ \<Rightarrow>
           whenE (truthy_bytes (cf_expect_failure conf))
             (raiseE (AssertionError (''connection test '' @ py_repr name @ '' didn't fail''))))
       (\<lambda>_. test_alternates ossl sr found alternates)))"

definition test_capabilities :: "(live, unit) act" where
  "test_capabilities =
     bindE (onc capabilities) (\<lambda>caps.
     bindE (assertE (1 < length caps)) (\<lambda>_.
     bindE (each (\<lambda>cap. bindE (onc (has_capability (Str cap))) assertE) caps) (\<lambda>_.
     bindE (onc (has_capability (ascii ''WONT EXIST''))) (\<lambda>has. assertE (\<not> has)))))"

definition test_namespace :: "env \<Rightarrow> (live, unit) act" where
  "test_namespace env = bindE (skip_unless_capable ''NAMESPACE'' None) (\<lambda>_. doE (onc (namespace env)))"

definition test_select_and_close :: "(live, unit) act" where
  "test_select_and_close = withE (\<lambda>lv.
     bindE (onc (select_folder (Uni (lv_base_folder lv)) False)) (\<lambda>resp.
     bindE (check_select resp 0) (\<lambda>_. doE (onc close_folder))))"

definition read_only_known :: "(live, bool) act" where
  "read_only_known = withE (\<lambda>lv. liftE (normaliser_contains (untagged_dict (lv_client lv)) (Str ''READ-ONLY'')))"

definition test_select_read_only :: "env \<Rightarrow> (live, unit) act" where
  "test_select_read_only env =
     bindE (append_msg env (ascii SIMPLE_MESSAGE) None) (\<lambda>_.
     bindE read_only_known (\<lambda>known. bindE (assertE (\<not> known)) (\<lambda>_. withE (\<lambda>lv.
     bindE (onc (select_folder (Uni (lv_base_folder lv)) True)) (\<lambda>resp.
     bindE read_only_known (\<lambda>known. bindE (assertE known) (\<lambda>_. check_select resp 1)))))))"

definition test_list_folders :: "env \<Rightarrow> (live, unit) act" where
  "test_list_folders env = withE (\<lambda>lv.
     let some_folders = [ascii ''simple'', Str ''simple2'', Uni [0x4C, 0xFF, 0x52]]
       @ (if is_fastmail lv then []
          else [ascii (''test'' @ [DOUBLE_QUOTE] @ ''folder'' @ [DOUBLE_QUOTE]), Str (''foo'' @ [BACKSLASH] @ ''bar'')]) in
     bindE (liftE (add_prefix_to_folders lv some_folders)) (\<lambda>some_folders.
     bindE (each (\<lambda>name. doE (onc (create_folder name))) some_folders) (\<lambda>_.
     bindE (all_test_folder_names env) (\<lambda>folders.
     bindE (assertE (1 < length folders)) (\<lambda>_.
     bindE (assertE (py_in (Uni (lv_base_folder lv)) folders)) (\<lambda>_.
     each (\<lambda>name. bindE (liftE (to_unicode name)) (\<lambda>u. assertE (py_in (Uni u) folders))) some_folders))))))"

definition test_gmail_xlist :: "(live, unit) act" where
  "test_gmail_xlist = bindE (onc capabilities) (\<lambda>caps. withE (\<lambda>lv.
     whenE (is_gmail lv) (assertE (''XLIST'' \<in> set caps))))"

definition upper_flag :: "imapval \<Rightarrow> pyexc + imapval" where
  \<comment> \<open>\<open>flag.upper()\<close>\<close>
  "upper_flag v = (case v of IBytes b \<Rightarrow> Inr (IBytes (py_upper b)) | _ \<Rightarrow> Inl (AttributeError ''upper''))"

fun find_inbox :: "(imapval \<times> imapval \<times> ns_text) list \<Rightarrow> pyexc + bool" where
  "find_inbox [] = Inr False"
| "find_inbox ((flags, _, _) # result) =
     sbind (seq_items flags) (\<lambda>fs. sbind (sequence (map upper_flag fs)) (\<lambda>ups.
       if IBytes (BACKSLASH # ''INBOX'') \<in> set ups then Inr True else find_inbox result))"

definition test_xlist :: "env \<Rightarrow> (live, unit) act" where
  "test_xlist env =
     bindE (skip_unless_capable ''XLIST'' None) (\<lambda>_.
     bindE (onc (xlist_folders env (ascii []) (ascii ''*''))) (\<lambda>result.
     bindE (assertE (0 < length result)) (\<lambda>_.
     bindE (liftE (find_inbox result)) assertE)))"

definition test_subscriptions :: "env \<Rightarrow> (live, unit) act" where
  "test_subscriptions env = withE (\<lambda>lv.
     bindE (liftE (add_prefix_to_folders lv [ascii ''foobar'', Str ''foobar2'', ascii ''stuff & things'',
       Str ''stuff & things2'', Uni (map of_char ''test & '' @ [0x2622])])) (\<lambda>folders.
     bindE (each (\<lambda>folder. bindE (onc (create_folder folder)) (\<lambda>_. doE (onc (subscribe_folder folder)))) folders) (\<lambda>_.
     bindE (all_test_folder_names env) (\<lambda>names.
     bindE (liftE (remove_name (Uni (lv_base_folder lv)) names)) (\<lambda>server_folders.
     bindE (all_sub_test_folder_names env) (\<lambda>subs.
     bindE (assertE (sort (map text_units server_folders) = sort (map text_units subs))) (\<lambda>_.
     bindE (each (\<lambda>folder. doE (onc (unsubscribe_folder folder))) folders) (\<lambda>_.
     bindE (all_sub_test_folder_names env) (\<lambda>subs. bindE (assertE (subs = [])) (\<lambda>_.
     bindE is_exchange (\<lambda>exchange.
     whenE (\<not> exchange)
       (assert_raises is_imap_error (onc (subscribe_folder (ascii ''this folder is not likely to exist'')))))))))))))))"

definition folder_test :: "env \<Rightarrow> bool \<Rightarrow> pystr \<Rightarrow> (live, unit) act" where
  \<comment> \<open>the body of the loop of \<open>run_folder_tests\<close>\<close>
  "folder_test env folder_encode folder =
     bindE (onc (folder_exists env folder)) (\<lambda>x. bindE (assertE (\<not> x)) (\<lambda>_.
     bindE (onc (create_folder folder)) (\<lambda>_.
     bindE (onc (folder_exists env folder)) (\<lambda>x. bindE (assertE x) (\<lambda>_.
     bindE (liftE (if folder_encode then map_sum id Uni (to_unicode folder) else map_sum id Str (to_bytes folder))) (\<lambda>name.
     bindE (all_test_folder_names env) (\<lambda>names. bindE (assertE (py_in name names)) (\<lambda>_.
     bindE (onc (select_folder folder False)) (\<lambda>_.
     bindE (onc close_folder) (\<lambda>_.
     bindE (onc (delete_folder folder)) (\<lambda>_.
     bindE (onc (folder_exists env folder)) (\<lambda>x. assertE (\<not> x)))))))))))))"

definition run_folder_tests :: "env \<Rightarrow> pystr list \<Rightarrow> bool \<Rightarrow> (live, unit) act" where
  "run_folder_tests env folder_names folder_encode =
     bindE (set_encode folder_encode) (\<lambda>_.
     finallyE (withE (\<lambda>lv.
         bindE (liftE (add_prefix_to_folders lv folder_names)) (\<lambda>folder_names.
         each (folder_test env folder_encode) folder_names)))
       (set_encode True))"

definition test_folders :: "env \<Rightarrow> (live, unit) act" where
  "test_folders env = withE (\<lambda>lv.
     let quoted = [DOUBLE_QUOTE] @ ''foobar'' @ [DOUBLE_QUOTE]; foo_bar = ''foo '' @ [DOUBLE_QUOTE] @ ''bar'' @ [DOUBLE_QUOTE] in
     bindE (onc (folder_exists env (Uni (lv_base_folder lv)))) (\<lambda>x. bindE (assertE x) (\<lambda>_.
     bindE (onc (folder_exists env (ascii ''this is very unlikely to exist''))) (\<lambda>x. bindE (assertE (\<not> x)) (\<lambda>_. withE (\<lambda>lv.
     let folders = [ascii ''foobar'', ascii ''123'', Str ''foobar'', Str ''123'']
       @ (if is_fastmail lv then [] else [ascii quoted, ascii foo_bar, Str quoted, Str foo_bar]) in
     bindE (run_folder_tests env folders False) (\<lambda>_.
     run_folder_tests env (folders @ [Uni (map of_char ''test & '' @ [0x2622]), ascii ''stuff & things'', Str ''stuff & things''])
       True)))))))"

definition with_x :: "pystr \<Rightarrow> pystr" where
  "with_x folder = (case folder of Str b \<Rightarrow> Str (b @ ''x'') | Uni u \<Rightarrow> Uni (u @ map of_char ''x''))"

definition test_rename_folder :: "env \<Rightarrow> (live, unit) act" where
  "test_rename_folder env = withE (\<lambda>lv.
     bindE (liftE (add_prefix_to_folders lv [ascii ''foobar'', Str ''foobar2'', ascii ''stuff & things'',
       Str ''stuff & things2'', ascii ''123'', Str ''1232'', Uni (map of_char ''test & '' @ [0x2622])])) (\<lambda>folders.
     each (\<lambda>folder.
       bindE (onc (create_folder folder)) (\<lambda>_.
       bindE (onc (rename_folder folder (with_x folder))) (\<lambda>resp.
       bindE (assertE (case bytes_answer resp of None \<Rightarrow> False | Some l \<Rightarrow> 0 < length l)) (\<lambda>_.
       bindE (onc (folder_exists env folder)) (\<lambda>x. bindE (assertE (\<not> x)) (\<lambda>_.
       bindE (onc (folder_exists env (with_x folder))) assertE)))))) folders))"

definition test_status :: "env \<Rightarrow> (live, unit) act" where
  "test_status env = withE (\<lambda>lv.
     bindE (onc (folder_status env (Uni (lv_base_folder lv)) None)) (\<lambda>status.
     bindE (assertE (length (remdups (map fst status)) = 5)) (\<lambda>_.
     bindE (liftE (add_prefix_to_folder lv (Uni (map of_char ''test '' @ [0x2622])))) (\<lambda>new_folder.
     bindE (onc (create_folder new_folder)) (\<lambda>_.
     finallyE
       (bindE (onc (folder_status env new_folder None)) (\<lambda>status.
        bindE (check_status status ''MESSAGES'' 0) (\<lambda>_.
        bindE (check_status status ''RECENT'' 0) (\<lambda>_.
        bindE (check_status status ''UNSEEN'' 0) (\<lambda>_.
        bindE (append_msg env (ascii SIMPLE_MESSAGE) (Some new_folder)) (\<lambda>_.
        bindE (onc (folder_status env new_folder None)) (\<lambda>status.
        bindE (check_status status ''MESSAGES'' 1) (\<lambda>_. withE (\<lambda>lv.
        bindE (whenE (\<not> is_gmail lv) (check_status status ''RECENT'' 1)) (\<lambda>_.
        check_status status ''UNSEEN'' 1))))))))))
       (doE (onc (delete_folder new_folder))))))))"

section \<open>A second client\<close>

definition second_client :: "test_env \<Rightarrow> (live, nat) act" where
  \<comment> \<open>\<open>create_client_from_config\<close> with \<open>addCleanup\<close>; the result says which of the others it is\<close>
  "second_client te = withE (\<lambda>lv.
     case create_client_from_config (tv_ossl te) (tv_sr te) (tv_conf te) (lv_tokens lv) of (r, _, tokens) \<Rightarrow>
     bindE (modE (\<lambda>lv. lv\<lparr>lv_tokens := tokens\<rparr>)) (\<lambda>_.
     bindE (liftE r) (\<lambda>client.
     bindE (modE (\<lambda>lv. lv\<lparr>lv_others := lv_others lv @ [client]\<rparr>)) (\<lambda>_. retE (length (lv_others lv))))))"

definition on_other :: "nat \<Rightarrow> (client, 'a) act \<Rightarrow> (live, 'a) act" where
  "on_other i m lv = (case m (lv_others lv ! i) of (r, c) \<Rightarrow> (r, lv\<lparr>lv_others := (lv_others lv)[i := c]\<rparr>))"

definition upload :: "test_env \<Rightarrow> nat \<Rightarrow> (live, unit) act" where
  \<comment> \<open>the other client selects the base folder and appends a message\<close>
  "upload te i = withE (\<lambda>lv.
     bindE (on_other i (select_folder (Uni (lv_base_folder lv)) False)) (\<lambda>_.
     doE (on_other i (append_message (tv_env te) (Uni (lv_base_folder lv)) (ascii SIMPLE_MESSAGE) (Many []) None))))"

definition with_cleanup :: "(live, 'a) act \<Rightarrow> (live, 'b) act \<Rightarrow> (live, 'a \<times> 'b) act" where
  \<comment> \<open>\<open>try\<close> and \<open>finally\<close> whose results are both used\<close>
  "with_cleanup m f s = (case m s of (r, t) \<Rightarrow> (case f t of
     (Inl e, u) \<Rightarrow> (Inl e, u)
   | (Inr y, u) \<Rightarrow> (case r of Inl e \<Rightarrow> (Inl e, u) | Inr x \<Rightarrow> (Inr (x, y), u))))"

definition exists_response :: "int \<Rightarrow> imapval list" where
  "exists_response n = [IInt n, IBytes ''EXISTS'']"

definition test_idle :: "test_env \<Rightarrow> bool \<times> bytes list \<times> pyexc \<Rightarrow> (live, unit) act" where
  \<comment> \<open>the second argument: whether \<open>select\<close> finds the socket ready, what is read, and what ends the reading\<close>
  "test_idle te arrived =
     bindE (onc (has_capability (ascii ''IDLE''))) (\<lambda>has.
     if \<not> has then raiseE (skipTest ''Server doesn't support IDLE'')
     else withE (\<lambda>lv.
       bindE (onc (select_folder (Uni (lv_base_folder lv)) False)) (\<lambda>_.
       bindE (onc idle) (\<lambda>_.
       bindE (with_cleanup
           (bindE (second_client te) (\<lambda>i. bindE (upload te i) (\<lambda>_.
            bindE (onc (idle_check (tv_env te) (fst arrived) (fst (snd arrived)) (snd (snd arrived)))) (\<lambda>responses.
            retE (i, responses)))))
           (onc (idle_done (tv_env te)))) (\<lambda>((i, responses), (text, more_responses)).
       bindE (assertE (exists_response 1 \<in> set responses)) (\<lambda>_.
       bindE (assertE (0 < length text)) (\<lambda>_. withE (\<lambda>lv.
       if is_gmail lv then retE ()
       else
         bindE (onc idle) (\<lambda>_.
         bindE (with_cleanup (upload te i) (onc (idle_done (tv_env te)))) (\<lambda>(_, (text, responses)).
         bindE (assertE (exists_response 2 \<in> set responses)) (\<lambda>_. assertE (0 < length text))))))))))))"

definition test_noop :: "test_env \<Rightarrow> (live, unit) act" where
  "test_noop te = withE (\<lambda>lv.
     bindE (onc (select_folder (Uni (lv_base_folder lv)) False)) (\<lambda>_.
     bindE (onc (noop (tv_env te))) (\<lambda>(text, resps).
     bindE (assertE (0 < length text)) (\<lambda>_.
     bindE (assertE (resps = [])) (\<lambda>_.
     bindE (second_client te) (\<lambda>i. bindE (upload te i) (\<lambda>_.
     bindE (onc (noop (tv_env te))) (\<lambda>(msg, resps).
     bindE (assertE (0 < length text)) (\<lambda>_. assertE (exists_response 1 \<in> set resps))))))))))"

end
