(* ===== verification/LiveUid.thy ===== *)
theory LiveUid
  imports LiveGeneral
begin

text \<open>
  livetest.py: the tests of the class \<open>createUidTestClass\<close> makes, which run once with unique identifiers and
  once with message numbers: appending, flags, labels, searching, sorting, threads, copying, fetching,
  expunging and access rights. The clock, the identifier of a message and the random string of a test are
  arguments.
\<close>

section \<open>Values of a FETCH response\<close>

definition first_id :: "search_ids \<Rightarrow> pyexc + int" where
  \<comment> \<open>\<open>[0]\<close>\<close>
  "first_id ids = (case si_ids ids of [] \<Rightarrow> Inl (IndexError ''list index out of range'') | i # _ \<Rightarrow> Inr i)"

definition search_all :: "env \<Rightarrow> (client, search_ids) act" where
  \<comment> \<open>\<open>search()\<close>\<close>
  "search_all env = search env (Whole (ascii ''ALL'')) None"

definition the_message :: "env \<Rightarrow> (live, int) act" where
  "the_message env = bindE (onc (search_all env)) (\<lambda>ids. liftE (first_id ids))"

definition fetch_one :: "env \<Rightarrow> int \<Rightarrow> pystr list \<Rightarrow> (live, int \<rightharpoonup> msg_data) act" where
  "fetch_one env msg_id items = onc (fetch env (OneId (IdInt msg_id)) (Many items) (Many []))"

definition message_item :: "(int \<rightharpoonup> 'v) \<Rightarrow> int \<Rightarrow> pyexc + 'v" where
  "message_item resp msg_id = (case resp msg_id of None \<Rightarrow> Inl (KeyError (dec_int msg_id)) | Some v \<Rightarrow> Inr v)"

fun find_bytes :: "bytes \<Rightarrow> bytes \<Rightarrow> bool" where
  \<comment> \<open>\<open>x in s\<close> for byte strings\<close>
  "find_bytes x [] = (x = [])"
| "find_bytes x (c # cs) = (starts_with x (c # cs) \<or> find_bytes x cs)"

definition val_contains :: "bytes \<Rightarrow> fetch_val \<Rightarrow> pyexc + bool" where
  "val_contains x v = (case v of
     FVal (ITuple vs) \<Rightarrow> Inr (IBytes x \<in> set vs)
   | FVal (IBytes b) \<Rightarrow> Inr (find_bytes x b)
   | _ \<Rightarrow> Inl (TypeError ''argument is not iterable''))"

definition fetch_items_of :: "fetch_val \<Rightarrow> pyexc + imapval list" where
  \<comment> \<open>\<open>set(v)\<close> and \<open>v[i]\<close>\<close>
  "fetch_items_of v = (case v of FVal x \<Rightarrow> seq_items x | _ \<Rightarrow> Inl (TypeError ''object is not iterable''))"

section \<open>Appending\<close>

definition check_append :: "env \<Rightarrow> datetime \<Rightarrow> pystr \<Rightarrow> bytes \<Rightarrow> (live, unit) act" where
  \<comment> \<open>\<open>now\<close>: the local time in whole seconds, without a time zone\<close>
  "check_append env now in_message out_message = withE (\<lambda>lv.
     let base = Uni (lv_base_folder lv) in
     bindE (onc (append_message env base in_message (Many [ascii ''abc'', ascii ''def'']) (Some now))) (\<lambda>resp.
     bindE (assertE (bytes_answer resp \<noteq> None)) (\<lambda>_.
     bindE (onc (select_folder base False)) (\<lambda>sel.
     bindE (liftE (resp_item sel ''EXISTS'')) (\<lambda>v. bindE (assertE (sel_number v = Some 1)) (\<lambda>_.
     bindE (the_message env) (\<lambda>msg_id.
     bindE (fetch_one env msg_id [ascii ''RFC822'', ascii ''FLAGS'', ascii ''INTERNALDATE'']) (\<lambda>resp.
     case sorted_list_of_set (dom resp) of
       [i] \<Rightarrow>
         bindE (liftE (message_item resp i)) (\<lambda>msginfo.
         bindE (liftE (resp_item msginfo ''INTERNALDATE'')) (\<lambda>t.
         bindE (case t of
             FDate (Some d) \<Rightarrow> bindE (assertE (dt_tz d = None)) (\<lambda>_. assertE (d = now))
           | _ \<Rightarrow> raiseE (AttributeError ''tzinfo'')) (\<lambda>_.
         bindE (liftE (resp_item msginfo ''FLAGS'')) (\<lambda>flags.
         bindE (liftE (val_contains ''abc'' flags)) (\<lambda>b. bindE (assertE b) (\<lambda>_.
         bindE (liftE (val_contains ''def'' flags)) (\<lambda>b. bindE (assertE b) (\<lambda>_.
         bindE (liftE (resp_item msginfo ''RFC822'')) (\<lambda>m. assertE (m = FVal (IBytes out_message)))))))))))
     | _ \<Rightarrow> raiseE (AssertionError '''')))))))))"

definition test_append_unicode :: "env \<Rightarrow> datetime \<Rightarrow> (live, unit) act" where
  "test_append_unicode env now = check_append env now (ascii SIMPLE_MESSAGE) SIMPLE_MESSAGE"

definition test_append_bytes :: "env \<Rightarrow> datetime \<Rightarrow> (live, unit) act" where
  "test_append_bytes env now = check_append env now (Str SIMPLE_MESSAGE) SIMPLE_MESSAGE"

section \<open>Flags and labels\<close>

definition flag_test :: "(client, int \<rightharpoonup> fetch_val) act \<Rightarrow> int \<Rightarrow> bytes list \<Rightarrow> (live, unit) act" where
  \<comment> \<open>\<open>_flagtest\<close>\<close>
  "flag_test func msg_id expected =
     bindE (onc func) (\<lambda>answer.
     bindE (assertE (msg_id \<in> dom answer)) (\<lambda>_.
     bindE (liftE (sbind (message_item answer msg_id) fetch_items_of)) (\<lambda>flags.
     assertE (set flags - {IBytes RECENT} = set (map IBytes expected)))))"

definition test_flags :: "env \<Rightarrow> (live, unit) act" where
  "test_flags env =
     bindE (append_msg env (ascii SIMPLE_MESSAGE) None) (\<lambda>_.
     bindE (the_message env) (\<lambda>msg_id.
     let m = OneId (IdInt msg_id) in
     bindE (flag_test (set_flags env m (Many [ascii ''abc'', ascii ''def''])) msg_id [''abc'', ''def'']) (\<lambda>_.
     bindE (flag_test (get_flags env m) msg_id [''abc'', ''def'']) (\<lambda>_.
     bindE (flag_test (add_flags env m (One (ascii ''boo''))) msg_id [''abc'', ''def'', ''boo'']) (\<lambda>_.
     flag_test (remove_flags env m (One (ascii ''boo''))) msg_id [''abc'', ''def''])))))"

definition label_test :: "(client, int \<rightharpoonup> fetch_val) act \<Rightarrow> int \<Rightarrow> bytes list \<Rightarrow> (live, unit) act" where
  \<comment> \<open>\<open>_labeltest\<close>\<close>
  "label_test func msg_id expected =
     bindE (onc func) (\<lambda>answer.
     bindE (assertE (dom answer = {msg_id})) (\<lambda>_.
     bindE (liftE (sbind (message_item answer msg_id) fetch_items_of)) (\<lambda>labels.
     assertE (set labels = set (map IBytes expected)))))"

definition test_gmail_labels :: "env \<Rightarrow> (live, unit) act" where
  "test_gmail_labels env =
     (let FOO = ''_imapclient_foo''; BAR = ''_imapclient_bar''; BAZ = ''_imapclient_baz'' in
     bindE (skip_unless_capable ''X-GM-EXT-1'' (Some ''labels'')) (\<lambda>_.
     bindE (append_msg env (ascii SIMPLE_MESSAGE) None) (\<lambda>_.
     bindE (the_message env) (\<lambda>msg_id.
     let m = OneId (IdInt msg_id) in
     finallyE
       (bindE (label_test (set_gmail_labels env m (Many [Str FOO, Str BAR])) msg_id [FOO, BAR]) (\<lambda>_.
        bindE (label_test (get_gmail_labels env m) msg_id [FOO, BAR]) (\<lambda>_.
        bindE (label_test (add_gmail_labels env m (One (Str BAZ))) msg_id [FOO, BAR, BAZ]) (\<lambda>_.
        label_test (remove_gmail_labels env m (One (Str BAZ))) msg_id [FOO, BAR]))))
       (each (\<lambda>label. bindE (onc (folder_exists env (Str label))) (\<lambda>x. whenE x (doE (onc (delete_folder (Str label))))))
         [FOO, BAR, BAZ])))))"

section \<open>Searching\<close>

definition search_words :: "bytes list \<Rightarrow> criteria" where
  "search_words ws = Items (map (\<lambda>w. CText (ascii w)) ws)"

definition found :: "env \<Rightarrow> criteria \<Rightarrow> pystr option \<Rightarrow> nat \<Rightarrow> (live, unit) act" where
  \<comment> \<open>\<open>self.assertEqual(len(self.client.search(criteria, charset)), n)\<close>\<close>
  "found env criteria charset n = bindE (onc (search env criteria charset)) (\<lambda>ids. assertE (length (si_ids ids) = n))"

definition append_subject :: "env \<Rightarrow> bytes \<Rightarrow> (live, unit) act" where
  "append_subject env subject = withE (\<lambda>lv. doE (onc (append_message env (Uni (lv_base_folder lv))
     (ascii (''Subject: '' @ subject @ CRLF @ CRLF @ ''Body''))
     (if subject = ''c'' then Many [Str DELETED] else Many []) None)))"

definition test_search :: "env \<Rightarrow> (live, unit) act" where
  "test_search env =
     bindE (each (append_subject env) [''a'', ''b'', ''c'']) (\<lambda>_.
     bindE (onc (noop env)) (\<lambda>_.
     bindE (onc (search env (Whole (ascii ''ALL'')) None)) (\<lambda>messages_all. withE (\<lambda>lv.
     bindE (assertE (length (si_ids messages_all) = (if is_gmail lv then 2 else 3))) (\<lambda>_.
     bindE (onc (search_all env)) (\<lambda>ids. bindE (assertE (si_ids ids = si_ids messages_all)) (\<lambda>_. withE (\<lambda>lv.
     bindE (whenE (\<not> is_gmail lv) (found env (Whole (ascii ''DELETED'')) None 1)) (\<lambda>_.
     bindE (found env (search_words [''NOT'', ''DELETED'']) None 2) (\<lambda>_.
     bindE (found env (Items [CText (ascii ''NOT''), CText (ascii ''DELETED''), CText (ascii ''SMALLER''), CInt 500]) None 2) (\<lambda>_.
     bindE (found env (Items [CText (ascii ''NOT''), CText (ascii ''DELETED''), CText (ascii ''SMALLER''), CInt 5]) None 0) (\<lambda>_.
     bindE (found env (search_words [''NOT'', ''DELETED'', ''SUBJECT'', ''a'']) None 1) (\<lambda>_.
     bindE (found env (search_words [''NOT'', ''DELETED'', ''SUBJECT'', ''c'']) None 0) (\<lambda>_.
     bindE (found env (Whole (ascii (''SUBJECT '' @ [DOUBLE_QUOTE] @ ''a'' @ [DOUBLE_QUOTE] @ '' NOT DELETED''))) None 1) (\<lambda>_.
     found env (Whole (ascii ''NOT DELETED SUBJECT SMALLER 5'')) None 0)))))))))))))))"

definition highest_modseq :: "(live, int) act" where
  \<comment> \<open>\<open>self.client.select_folder(self.base_folder)[b'HIGHESTMODSEQ']\<close>\<close>
  "highest_modseq = withE (\<lambda>lv.
     bindE (onc (select_folder (Uni (lv_base_folder lv)) False)) (\<lambda>sel.
     bindE (liftE (resp_item sel ''HIGHESTMODSEQ'')) (\<lambda>v.
     case sel_number v of Some n \<Rightarrow> retE n | None \<Rightarrow> raiseE (TypeError ''%d format: a number is required''))))"

definition modseq_tracking :: "env \<Rightarrow> (live, unit) act" where
  \<comment> \<open>the beginning of the two tests that use MODSEQ\<close>
  "modseq_tracking env = withE (\<lambda>lv.
     bindE (onc (select_folder (Uni (lv_base_folder lv)) False)) (\<lambda>_.
     bindE (append_msg env (ascii SIMPLE_MESSAGE) None) (\<lambda>_.
     bindE (the_message env) (\<lambda>msg_id.
     bindE (fetch_one env msg_id [ascii ''MODSEQ'']) (\<lambda>_.
     bindE (onc close_folder) (\<lambda>_. withE (\<lambda>lv. clear_folder env (Uni (lv_base_folder lv)))))))))"

definition exceeds :: "imapval \<Rightarrow> int \<Rightarrow> bool" where
  \<comment> \<open>\<open>v > n\<close>: None is less than every number, strings and tuples are greater\<close>
  "exceeds v n = (case v of INone \<Rightarrow> False | IInt m \<Rightarrow> n < m | _ \<Rightarrow> True)"

definition test_search_with_modseq :: "env \<Rightarrow> (live, unit) act" where
  "test_search_with_modseq env =
     bindE (onc (has_capability (ascii ''CONDSTORE''))) (\<lambda>has. withE (\<lambda>lv.
     if \<not> has then raiseE (skipTest ''Server doesn't support CONDSTORE'')
     else if is_gmail lv then raiseE (skipTest ''Gmail doesn't seem to return MODSEQ parts in SEARCH responses'')
     else
       bindE (modseq_tracking env) (\<lambda>_.
       bindE highest_modseq (\<lambda>initial_modseq.
       bindE (append_msg env (ascii SIMPLE_MESSAGE) None) (\<lambda>_.
       bindE (onc (search env (Items [CText (ascii ''MODSEQ''), CText (Str (dec_int initial_modseq))]) None)) (\<lambda>ids.
       bindE (assertE (length (si_ids ids) = 1)) (\<lambda>_.
       assertE (case si_modseq ids of None \<Rightarrow> False | Some v \<Rightarrow> exceeds v initial_modseq))))))))"

definition UTF8 :: pystr where "UTF8 = ascii ''UTF-8''"

definition text_words :: "bytes \<Rightarrow> nat list \<Rightarrow> bytes list \<Rightarrow> criteria" where
  "text_words w u ws = Items (CText (ascii w) # CText (Uni u) # map (\<lambda>w. CText (ascii w)) ws)"

definition append_to_base :: "env \<Rightarrow> pystr \<Rightarrow> (live, unit) act" where
  "append_to_base env msg = withE (\<lambda>lv. doE (onc (append_message env (Uni (lv_base_folder lv)) msg (Many []) None)))"

definition test_search_with_unicode :: "env \<Rightarrow> (live, unit) act" where
  "test_search_with_unicode env =
     bindE (append_to_base env (Str SMILE_MESSAGE)) (\<lambda>_.
     bindE (found env (text_words ''BODY'' SMILE []) (Some UTF8) 1) (\<lambda>_.
     bindE (found env (text_words ''BODY'' MICRO []) (Some UTF8) 0) (\<lambda>_.
     found env (text_words ''TEXT'' SMILE [''NOT'', ''DELETED'']) (Some UTF8) 1)))"

definition gmail_found :: "env \<Rightarrow> pystr \<Rightarrow> (nat \<Rightarrow> bool) \<Rightarrow> (live, unit) act" where
  "gmail_found env query P = bindE (onc (gmail_search env query (Some UTF8))) (\<lambda>ids. assertE (P (length (si_ids ids))))"

definition test_gmail_search :: "env \<Rightarrow> bytes \<Rightarrow> (live, unit) act" where
  "test_gmail_search env random_string =
     bindE (skip_unless_capable ''X-GM-EXT-1'' (Some ''Gmail search'')) (\<lambda>_.
     bindE (append_msg env (ascii (mail_lines [''Subject: something'', [], ''Foo'', random_string])) None) (\<lambda>_.
     bindE (append_msg env (Str SMILE_MESSAGE) None) (\<lambda>_.
     bindE (gmail_found env (ascii random_string) (\<lambda>n. n = 1)) (\<lambda>_.
     bindE (gmail_found env (ascii ''s0mewh4t unl1kely'') (\<lambda>n. n = 0)) (\<lambda>_.
     bindE (gmail_found env (Uni MICRO) (\<lambda>n. n = 0)) (\<lambda>_. gmail_found env (Uni SMILE) (\<lambda>n. 0 < n)))))))"

section \<open>Sorting and threads\<close>

definition sorted_by :: "env \<Rightarrow> bytes \<Rightarrow> criteria \<Rightarrow> (live, int list) act" where
  "sorted_by env sort_criteria criteria = onc (sort_messages env (One (ascii sort_criteria)) criteria UTF8)"

definition test_sort :: "env \<Rightarrow> (live, unit) act" where
  "test_sort env =
     bindE (skip_unless_capable ''SORT'' None) (\<lambda>_.
     bindE (each (\<lambda>line_cnt. append_to_base env (ascii (''Subject: Test'' @ CRLF @ CRLF @ ''Body''
         @ concat (replicate line_cnt (NEWLINE @ replicate 72 (CHR ''x''))))))
       [10, 20, 30]) (\<lambda>_.
     bindE (sorted_by env ''REVERSE SIZE'' (Whole (ascii ''ALL''))) (\<lambda>messages.
     bindE (assertE (length messages = 3)) (\<lambda>_.
     let expected = [messages ! 0, messages ! 0 - 1, messages ! 0 - 2] in
     bindE (assertE (messages = expected)) (\<lambda>_.
     bindE (sorted_by env ''REVERSE SIZE'' (search_words [''NOT'', ''DELETED''])) (\<lambda>messages.
     bindE (assertE (messages = expected)) (\<lambda>_.
     bindE (sorted_by env ''REVERSE SIZE'' (Whole (ascii ''NOT DELETED''))) (\<lambda>messages.
     assertE (messages = expected)))))))))"

definition test_sort_with_unicode :: "env \<Rightarrow> (live, unit) act" where
  "test_sort_with_unicode env =
     bindE (skip_unless_capable ''SORT'' None) (\<lambda>_.
     bindE (append_msg env (Str SMILE_MESSAGE) None) (\<lambda>_.
     bindE (sorted_by env ''ARRIVAL'' (text_words ''TEXT'' SMILE [])) (\<lambda>messages.
     bindE (assertE (length messages = 1)) (\<lambda>_.
     bindE (sorted_by env ''ARRIVAL'' (text_words ''TEXT'' MICRO [])) (\<lambda>messages.
     assertE (length messages = 0))))))"

definition threads_of :: "env \<Rightarrow> criteria \<Rightarrow> (live, imapval list) act" where
  "threads_of env criteria = onc (thread env (ascii ''REFERENCES'') criteria UTF8)"

definition test_thread :: "env \<Rightarrow> (live, unit) act" where
  "test_thread env =
     bindE (skip_unless_capable ''THREAD=REFERENCES'' None) (\<lambda>_.
     bindE (each (\<lambda>subject. append_msg env (ascii (''Subject: '' @ subject @ CRLF @ CRLF @ ''Body'')) None) [''a'', ''b'', ''c'']) (\<lambda>_.
     bindE (threads_of env (Whole (ascii ''ALL''))) (\<lambda>threads.
     bindE (assertE (length threads = 3)) (\<lambda>_.
     bindE (assertE (is_tuple (threads ! 0))) (\<lambda>_.
     bindE (liftE (seq_index (threads ! 0) 0)) (\<lambda>first_id.
     bindE (case first_id of IInt n \<Rightarrow> retE n | _ \<Rightarrow> raiseE (TypeError ''unsupported operand type(s) for +'')) (\<lambda>n.
     let expected = [ITuple [IInt n], ITuple [IInt (n + 1)], ITuple [IInt (n + 2)]] in
     bindE (assertE (threads = expected)) (\<lambda>_.
     bindE (threads_of env (search_words [''NOT'', ''DELETED''])) (\<lambda>threads.
     bindE (assertE (threads = expected)) (\<lambda>_.
     bindE (threads_of env (Whole (ascii ''NOT DELETED''))) (\<lambda>threads.
     assertE (threads = expected))))))))))))"

definition test_thread_with_unicode :: "env \<Rightarrow> (live, unit) act" where
  "test_thread_with_unicode env =
     bindE (skip_unless_capable ''THREAD=REFERENCES'' None) (\<lambda>_.
     bindE (append_msg env (Str SMILE_MESSAGE) None) (\<lambda>_.
     bindE (threads_of env (text_words ''TEXT'' SMILE [])) (\<lambda>threads.
     bindE (assertE (length threads = 1)) (\<lambda>_.
     bindE (liftE (seq_items (threads ! 0))) (\<lambda>vs.
     bindE (assertE (length vs = 1)) (\<lambda>_.
     bindE (threads_of env (text_words ''TEXT'' MICRO [])) (\<lambda>threads.
     assertE (length threads = 0))))))))"

end
