(* ===== verification/LiveFetch.thy ===== *)
theory LiveFetch
  imports LiveUid
begin

text \<open>
  livetest.py: the tests that fetch messages and compare what comes back, the comparison of body
  structures, and how a test is run with the fixture. The lemmas show what the comparison of body
  structures accepts.
\<close>

section \<open>Copying and fetching\<close>

definition test_copy :: "env \<Rightarrow> (live, unit) act" where
  "test_copy env =
     bindE (append_msg env (ascii SIMPLE_MESSAGE) None) (\<lambda>_. withE (\<lambda>lv.
     bindE (liftE (add_prefix_to_folder lv (ascii ''target''))) (\<lambda>target_folder.
     bindE (onc (create_folder target_folder)) (\<lambda>_.
     bindE (the_message env) (\<lambda>msg_id.
     bindE (onc (copy_messages (OneId (IdInt msg_id)) target_folder)) (\<lambda>_.
     bindE (onc (select_folder target_folder False)) (\<lambda>_.
     bindE (onc (search_all env)) (\<lambda>msgs.
     bindE (assertE (length (si_ids msgs) = 1)) (\<lambda>_.
     bindE (liftE (first_id msgs)) (\<lambda>msg_id.
     bindE (fetch_one env msg_id [ascii ''RFC822'']) (\<lambda>resp.
     bindE (liftE (message_item resp msg_id)) (\<lambda>msginfo.
     bindE (liftE (resp_item msginfo ''RFC822'')) (\<lambda>m.
     bindE (liftE (val_contains ''something'' m)) assertE)))))))))))))"

definition bob :: "address list option" where
  "bob = Some [\<lparr>ad_name = IBytes ''Bob Smith'', ad_route = INone, ad_mailbox = IBytes ''bob'', ad_host = IBytes ''smith.com''\<rparr>]"

definition expected_envelope :: "bytes \<Rightarrow> envelope" where
  "expected_envelope msg_id_header =
     \<lparr>env_date = Some \<lparr>dt_year = 2010, dt_month = 3, dt_day = 16, dt_hour = 16, dt_minute = 45, dt_second = 32, dt_tz = Some 0\<rparr>,
      env_subject = IBytes ''A multipart message'',
      env_addresses = [bob, bob, bob,
        Some [\<lparr>ad_name = IBytes ''Some One'', ad_route = INone, ad_mailbox = IBytes ''some'', ad_host = IBytes ''one.com''\<rparr>,
          \<lparr>ad_name = INone, ad_route = INone, ad_mailbox = IBytes ''foo'', ad_host = IBytes ''foo.com''\<rparr>],
        None, None],
      env_in_reply_to = INone, env_message_id = IBytes msg_id_header\<rparr>"

definition same_time :: "datetime option \<Rightarrow> datetime option \<Rightarrow> pyexc + bool" where
  \<comment> \<open>\<open>==\<close>: times with a zone are compared as instants\<close>
  "same_time a b = (case (a, b) of
     (Some x, Some y) \<Rightarrow> (case (dt_tz x, dt_tz y) of
         (None, None) \<Rightarrow> Inr (x = y)
       | (Some i, Some j) \<Rightarrow> Inr (minute_count x - i = minute_count y - j \<and> dt_second x = dt_second y)
       | _ \<Rightarrow> Inl (TypeError ''can't compare offset-naive and offset-aware datetimes''))
   | _ \<Rightarrow> Inr (a = None \<and> b = None))"

definition same_envelope :: "envelope \<Rightarrow> envelope \<Rightarrow> pyexc + bool" where
  "same_envelope a b =
     sbind (same_time (env_date a) (env_date b)) (\<lambda>d. Inr (d \<and> a\<lparr>env_date := None\<rparr> = b\<lparr>env_date := None\<rparr>))"

definition set_normalise_times :: "bool \<Rightarrow> (live, unit) act" where
  "set_normalise_times b = modE (\<lambda>lv. lv\<lparr>lv_client := (lv_client lv)\<lparr>cl_normalise_times := b\<rparr>\<rparr>)"

definition test_fetch :: "env \<Rightarrow> bytes \<Rightarrow> (live, unit) act" where
  "test_fetch env msg_id_header = withE (\<lambda>lv.
     let msg = ''Message-ID: '' @ msg_id_header @ CRLF @ MULTIPART_MESSAGE in
     bindE (onc (select_folder (Uni (lv_base_folder lv)) False)) (\<lambda>_.
     bindE (append_msg env (ascii msg) None) (\<lambda>_.
     bindE (set_normalise_times False) (\<lambda>_.
     bindE (the_message env) (\<lambda>msg_id.
     bindE (fetch_one env msg_id [ascii ''RFC822'', Str ''FLAGS'', ascii ''INTERNALDATE'', ascii ''ENVELOPE'']) (\<lambda>resp.
     bindE (assertE (length (sorted_list_of_set (dom resp)) = 1)) (\<lambda>_.
     bindE (liftE (message_item resp msg_id)) (\<lambda>msginfo.
     bindE (assertE (dom msginfo = {''RFC822'', ''FLAGS'', ''INTERNALDATE'', ''ENVELOPE'', ''SEQ''})) (\<lambda>_.
     bindE (assertE (msginfo ''SEQ'' = Some (FInt 1))) (\<lambda>_.
     bindE (assertE (msginfo ''RFC822'' = Some (FVal (IBytes msg)))) (\<lambda>_.
     bindE (assertE (case msginfo ''INTERNALDATE'' of Some (FDate (Some _)) \<Rightarrow> True | _ \<Rightarrow> False)) (\<lambda>_.
     bindE (assertE (case msginfo ''FLAGS'' of Some (FVal v) \<Rightarrow> is_tuple v | _ \<Rightarrow> False)) (\<lambda>_.
     bindE (case msginfo ''ENVELOPE'' of
         Some (FEnvelope e) \<Rightarrow> liftE (same_envelope e (expected_envelope msg_id_header))
       | _ \<Rightarrow> retE False) assertE)))))))))))))"

definition partial_body :: "env \<Rightarrow> int \<Rightarrow> bytes \<Rightarrow> bytes \<Rightarrow> nat \<Rightarrow> bytes \<Rightarrow> (live, unit) act" where
  \<comment> \<open>the two steps of \<open>test_partial_fetch\<close>; a value that is not bytes has no \<open>startswith\<close>\<close>
  "partial_body env msg_id what key n start =
     bindE (fetch_one env msg_id [ascii what]) (\<lambda>resp.
     bindE (liftE (message_item resp msg_id)) (\<lambda>msginfo.
     bindE (liftE (resp_item msginfo key)) (\<lambda>v. case v of
       FVal (IBytes body) \<Rightarrow> bindE (assertE (length body = n)) (\<lambda>_. assertE (starts_with start body))
     | FVal (ITuple vs) \<Rightarrow> bindE (assertE (length vs = n)) (\<lambda>_. raiseE (AttributeError ''startswith''))
     | _ \<Rightarrow> raiseE (TypeError ''object has no len()''))))"

definition test_partial_fetch :: "env \<Rightarrow> (live, unit) act" where
  "test_partial_fetch env =
     bindE (append_to_base env (ascii MULTIPART_MESSAGE)) (\<lambda>_. withE (\<lambda>lv.
     bindE (onc (select_folder (Uni (lv_base_folder lv)) False)) (\<lambda>_.
     bindE (the_message env) (\<lambda>msg_id.
     bindE (partial_body env msg_id ''BODY[]<0.20>'' ''BODY[]<0>'' 20 ''From: Bob Smith'') (\<lambda>_.
     partial_body env msg_id ''BODY[]<2.25>'' ''BODY[]<2>'' 25 ''om: Bob Smith'')))))"

definition changed_since :: "env \<Rightarrow> int \<Rightarrow> int \<Rightarrow> (live, int \<rightharpoonup> msg_data) act" where
  "changed_since env msg_id modseq =
     onc (fetch env (OneId (IdInt msg_id)) (Many [ascii ''FLAGS'']) (Many [ascii (''CHANGEDSINCE '' @ dec_int modseq)]))"

definition test_fetch_modifiers :: "env \<Rightarrow> (live, unit) act" where
  "test_fetch_modifiers env =
     bindE (onc (has_capability (ascii ''CONDSTORE''))) (\<lambda>has.
     if \<not> has then raiseE (skipTest ''Server doesn't support CONDSTORE'')
     else
       bindE (modseq_tracking env) (\<lambda>_.
       bindE highest_modseq (\<lambda>modseq.
       bindE (append_msg env (ascii SIMPLE_MESSAGE) None) (\<lambda>_.
       bindE (the_message env) (\<lambda>msg_id.
       bindE (changed_since env msg_id modseq) (\<lambda>resp.
       bindE (liftE (message_item resp msg_id)) (\<lambda>msginfo.
       bindE (liftE (resp_item msginfo ''MODSEQ'')) (\<lambda>v.
       bindE (liftE (case v of FVal x \<Rightarrow> seq_index x 0 | _ \<Rightarrow> Inl (TypeError ''object has no attribute __getitem__''))) (\<lambda>new_modseq.
       bindE (assertE (exceeds new_modseq modseq)) (\<lambda>_.
       case new_modseq of
         IInt n \<Rightarrow> bindE (changed_since env msg_id n) (\<lambda>resp. assertE (dom resp = {}))
       | _ \<Rightarrow> raiseE (TypeError ''%d format: a number is required'')))))))))))"

section \<open>Body structures\<close>

text \<open>The values of Python a body structure and the expected one are made of.\<close>

datatype bs_val = BsNone | BsBytes bytes | BsInt int | BsTuple "bs_val list" | BsList "bs_val list"

fun bs_of_value :: "imapval \<Rightarrow> bs_val" where
  "bs_of_value INone = BsNone"
| "bs_of_value (IBytes b) = BsBytes b"
| "bs_of_value (IInt n) = BsInt n"
| "bs_of_value (ITuple vs) = BsTuple (map bs_of_value vs)"

fun bs_of_body :: "body \<Rightarrow> bs_val" and bs_of_elem :: "body_elem \<Rightarrow> bs_val" where
  "bs_of_body (Body es) = BsTuple (map bs_of_elem es)"
| "bs_of_elem (EVal v) = bs_of_value v"
| "bs_of_elem (EParts ps) = BsList (map bs_of_body ps)"

definition maybe_lower :: "bs_val \<Rightarrow> bs_val" where
  "maybe_lower v = (case v of BsBytes b \<Rightarrow> BsBytes (py_lower b) | _ \<Rightarrow> v)"

definition have_matching_types :: "bs_val \<Rightarrow> bs_val \<Rightarrow> bool" where
  \<comment> \<open>for lists and tuples\<close>
  "have_matching_types a b = (case (a, b) of (BsTuple _, BsTuple _) \<Rightarrow> True | (BsList _, BsList _) \<Rightarrow> True | _ \<Rightarrow> False)"

definition us_ascii :: bs_val where
  "us_ascii = BsTuple [BsBytes ''charset'', BsBytes ''us-ascii'']"

fun bs_items :: "bs_val \<Rightarrow> bs_val list" where
  "bs_items (BsTuple vs) = vs"
| "bs_items (BsList vs) = vs"
| "bs_items v = []"

lemma size_zip_items: "(e, a) \<in> set (zip (bs_items x) (bs_items y)) \<Longrightarrow> size e < size x"
proof -
  assume "(e, a) \<in> set (zip (bs_items x) (bs_items y))"
  then have "e \<in> set (bs_items x)" by (rule set_zip_leftD)
  then have "size e \<le> size_list size (bs_items x)" by (simp add: size_list_estimation')
  then show ?thesis using \<open>e \<in> set (bs_items x)\<close> by (cases x) simp_all
qed

function check_pairs :: "bs_val \<Rightarrow> bs_val \<Rightarrow> bool" where
  \<comment> \<open>\<open>check_BODYSTRUCTURE\<close> without \<open>multipart\<close>: whether no assertion fails\<close>
  "check_pairs expected actual =
     (if have_matching_types expected actual then
        list_all (\<lambda>(e, a). check_pairs e a) (zip (bs_items expected) (bs_items actual))
      else if expected = us_ascii \<and> actual = BsNone then True
      else maybe_lower expected = maybe_lower actual)"
  by pat_completeness auto
termination
  by (relation "measure (\<lambda>(e, _). size e)") (auto dest: size_zip_items)

declare check_pairs.simps [simp del]

lemma check_pairs_refl: "check_pairs v v"
proof (induction v)
  case (BsTuple vs)
  then show ?case by (subst check_pairs.simps) (auto simp: have_matching_types_def zip_same_conv_map list_all_iff)
next
  case (BsList vs)
  then show ?case by (subst check_pairs.simps) (auto simp: have_matching_types_def zip_same_conv_map list_all_iff)
qed (simp_all add: check_pairs.simps have_matching_types_def us_ascii_def)

lemma check_pairs_take: "check_pairs (BsTuple vs) (BsTuple (take n vs))"
  \<comment> \<open>compared up to what is returned\<close>
proof -
  have "check_pairs e a" if "(e, a) \<in> set (zip vs (take n vs))" for e a
    using that by (auto simp: set_zip check_pairs_refl)
  then show ?thesis by (subst check_pairs.simps) (auto simp: have_matching_types_def list_all_iff)
qed

lemma check_pairs_charset: "check_pairs us_ascii BsNone"
  by (simp add: check_pairs.simps have_matching_types_def us_ascii_def)

definition check_BODYSTRUCTURE :: "bs_val \<Rightarrow> body \<Rightarrow> bool option \<Rightarrow> (live, unit) act" where
  "check_BODYSTRUCTURE expected actual multipart =
     bindE (case multipart of
         None \<Rightarrow> retE ()
       | Some m \<Rightarrow> bindE (liftE (is_multipart actual)) (\<lambda>b. assertE (b = m))) (\<lambda>_.
     assertE (check_pairs expected (bs_of_body actual)))"

definition expected_part :: "bytes \<Rightarrow> bytes \<Rightarrow> int \<Rightarrow> int \<Rightarrow> bs_val" where
  "expected_part subtype encoding octets count = BsTuple [BsBytes ''text'', BsBytes subtype, us_ascii, BsNone, BsNone,
     BsBytes encoding, BsInt octets, BsInt count]"

definition expected_multipart :: bs_val where
  "expected_multipart = BsTuple [BsList [expected_part ''html'' ''quoted-printable'' 55 3, expected_part ''plain'' ''7bit'' 26 1],
     BsBytes ''mixed'', BsTuple [BsBytes ''boundary'', BsBytes ''===============1534046211=='']]"

definition check_fetched :: "(int \<rightharpoonup> msg_data) \<Rightarrow> int \<Rightarrow> bs_val \<Rightarrow> bool \<Rightarrow> (live, unit) act" where
  "check_fetched resp msg_id expected multipart =
     bindE (liftE (message_item resp msg_id)) (\<lambda>msginfo.
     each (\<lambda>key. bindE (liftE (resp_item msginfo key)) (\<lambda>v. case v of
         FBody b \<Rightarrow> check_BODYSTRUCTURE expected b (Some multipart)
       | _ \<Rightarrow> raiseE (AttributeError ''is_multipart''))) [''BODY'', ''BODYSTRUCTURE''])"

definition test_BODYSTRUCTURE :: "env \<Rightarrow> (live, unit) act" where
  "test_BODYSTRUCTURE env = withE (\<lambda>lv.
     bindE (onc (select_folder (Uni (lv_base_folder lv)) False)) (\<lambda>_.
     bindE (append_msg env (ascii SIMPLE_MESSAGE) None) (\<lambda>_.
     bindE (append_msg env (ascii MULTIPART_MESSAGE) None) (\<lambda>_.
     bindE (onc (search_all env)) (\<lambda>msgs.
     bindE (onc (fetch env (Ids (map IdInt (si_ids msgs))) (Many [ascii ''BODY'', ascii ''BODYSTRUCTURE'']) (Many []))) (\<lambda>resp.
     bindE (liftE (py_index (si_ids msgs) 0)) (\<lambda>m0.
     bindE (check_fetched resp m0 (expected_part ''plain'' ''7bit'' 5 1) False) (\<lambda>_.
     bindE (liftE (py_index (si_ids msgs) 1)) (\<lambda>m1. check_fetched resp m1 expected_multipart True)))))))))"

section \<open>Expunging and access rights\<close>

definition test_expunge :: "env \<Rightarrow> (live, unit) act" where
  "test_expunge env = withE (\<lambda>lv.
     bindE (onc (select_folder (Uni (lv_base_folder lv)) False)) (\<lambda>_.
     bindE (onc (expunge env)) (\<lambda>(text, resps).
     bindE (assertE (0 < length text)) (\<lambda>_.
     bindE (assertE (resps \<in> {[], [exists_response 0]})) (\<lambda>_.
     bindE (onc (append_message env (Uni (lv_base_folder lv)) (ascii SIMPLE_MESSAGE) (Many [Str DELETED]) None)) (\<lambda>_.
     bindE (onc (expunge env)) (\<lambda>(msg, resps).
     bindE (assertE (0 < length text)) (\<lambda>_. withE (\<lambda>lv.
     whenE (\<not> is_gmail lv) (assertE ([IInt 1, IBytes ''EXPUNGE''] \<in> set resps)))))))))))"

definition test_getacl :: "conf \<Rightarrow> (live, unit) act" where
  "test_getacl conf =
     bindE (skip_unless_capable ''ACL'' None) (\<lambda>_. withE (\<lambda>lv.
     bindE (liftE (add_prefix_to_folder lv (ascii ''test_acl''))) (\<lambda>folder.
     bindE (onc (create_folder folder)) (\<lambda>_.
     bindE (onc (getacl folder)) (\<lambda>rights.
     assertE (case cf_username conf of None \<Rightarrow> False | Some who \<Rightarrow> who \<in> set (map fst rights)))))))"

section \<open>Running a test\<close>

definition cleanups :: "client list \<Rightarrow> pyexc list" where
  \<comment> \<open>what logging out the other clients raises, the last one first\<close>
  "cleanups cs = concat (map (\<lambda>c. case quiet_logout c of (Inl e, _) \<Rightarrow> [e] | _ \<Rightarrow> []) (rev cs))"

definition raised_by :: "pyexc + 'a \<Rightarrow> pyexc list" where
  "raised_by r = (case r of Inl e \<Rightarrow> [e] | Inr _ \<Rightarrow> [])"

definition run_test :: "env \<Rightarrow> (live, unit) act \<Rightarrow> live \<Rightarrow> pyexc list \<times> live" where
  \<comment> \<open>\<open>TestCase.run\<close>: the exceptions raised, and what the test leaves for the next one\<close>
  "run_test env body lv =
     (case (case setUp env lv of
         (Inl e, t) \<Rightarrow> ([e], t)
       | (Inr _, t) \<Rightarrow> (case body t of (r, u) \<Rightarrow> (case tearDown env u of (q, w) \<Rightarrow> (raised_by r @ raised_by q, w)))) of
       (es, t) \<Rightarrow> (es @ cleanups (lv_others t), t\<lparr>lv_others := []\<rparr>))"

text \<open>The methods of the two classes, in the order the loader of unittest runs them.\<close>

record test_args =
  ta_alternates :: "(bytes \<times> conf) list"
  ta_found :: "bytes \<Rightarrow> pyexc \<Rightarrow> pyexc + bool"
  ta_arrived :: "bool \<times> bytes list \<times> pyexc"
  ta_now :: datetime
  ta_msgid :: bytes
  ta_random :: bytes

definition alternates_test :: "test_env \<Rightarrow> test_args \<Rightarrow> (live, unit) act" where
  "alternates_test te ta lv = (case test_alternates (tv_ossl te) (tv_sr te) (ta_found ta) (ta_alternates ta) (lv_tokens lv) of
     (r, tokens) \<Rightarrow> (r, lv\<lparr>lv_tokens := tokens\<rparr>))"

definition general_tests :: "test_env \<Rightarrow> test_args \<Rightarrow> (bytes \<times> (live, unit) act) list" where
  "general_tests te ta = (let env = tv_env te in
     [(''test_alternates'', alternates_test te ta), (''test_capabilities'', test_capabilities),
      (''test_folders'', test_folders env), (''test_gmail_xlist'', test_gmail_xlist),
      (''test_idle'', test_idle te (ta_arrived ta)), (''test_list_folders'', test_list_folders env),
      (''test_namespace'', test_namespace env), (''test_noop'', test_noop te),
      (''test_rename_folder'', test_rename_folder env), (''test_select_and_close'', test_select_and_close),
      (''test_select_read_only'', test_select_read_only env), (''test_status'', test_status env),
      (''test_subscriptions'', test_subscriptions env), (''test_xlist'', test_xlist env)])"

definition uid_tests :: "test_env \<Rightarrow> test_args \<Rightarrow> (bytes \<times> (live, unit) act) list" where
  "uid_tests te ta = (let env = tv_env te in
     [(''test_BODYSTRUCTURE'', test_BODYSTRUCTURE env), (''test_append_bytes'', test_append_bytes env (ta_now ta)),
      (''test_append_unicode'', test_append_unicode env (ta_now ta)), (''test_copy'', test_copy env),
      (''test_expunge'', test_expunge env), (''test_fetch'', test_fetch env (ta_msgid ta)),
      (''test_fetch_modifiers'', test_fetch_modifiers env), (''test_flags'', test_flags env),
      (''test_getacl'', test_getacl (tv_conf te)), (''test_gmail_labels'', test_gmail_labels env),
      (''test_gmail_search'', test_gmail_search env (ta_random ta)), (''test_partial_fetch'', test_partial_fetch env),
      (''test_search'', test_search env), (''test_search_with_modseq'', test_search_with_modseq env),
      (''test_search_with_unicode'', test_search_with_unicode env), (''test_sort'', test_sort env),
      (''test_sort_with_unicode'', test_sort_with_unicode env), (''test_thread'', test_thread env),
      (''test_thread_with_unicode'', test_thread_with_unicode env)])"

fun run_suite :: "env \<Rightarrow> (bytes \<times> (live, unit) act) list \<Rightarrow> live \<Rightarrow> (bytes \<times> pyexc list) list \<times> live" where
  "run_suite env [] lv = ([], lv)"
| "run_suite env ((name, body) # tests) lv = (case run_test env body lv of (es, lv) \<Rightarrow>
     (case run_suite env tests lv of (results, lv) \<Rightarrow> ((name, es) # results, lv)))"

end
