(* ===== verification/LiveSession.thy ===== *)
theory LiveSession
  imports LiveFetch ImapSession
begin

text \<open>
  What the tests of livetest.py leave: the locale \<open>fixture_invariant\<close> carries a property of the client through
  the fixture and every test, whether it passes, fails or is skipped. It extends \<open>session_invariant\<close> by what
  a test does to the client besides calling its methods: it switches \<open>folder_encode\<close> and \<open>normalise_times\<close>.
\<close>

section \<open>Calls of a test\<close>

lemma keeps_assertE [keeps_rule]: "keeps J (assertE b)"
  unfolding assertE_def by (intro keeps_rule)

lemma keeps_catchE [keeps_rule]: "keeps J m \<Longrightarrow> (\<And>e. keeps J (h e)) \<Longrightarrow> keeps J (catchE P h m)"
  unfolding catchE_def keeps_def by (auto split: prod.splits sum.splits)

lemma keeps_finallyE [keeps_rule]: "keeps J m \<Longrightarrow> keeps J f \<Longrightarrow> keeps J (finallyE m f)"
  unfolding finallyE_def keeps_def by (auto split: prod.splits sum.splits)

lemma keeps_each [keeps_rule]: "(\<And>x. keeps J (f x)) \<Longrightarrow> keeps J (each f xs)"
  by (induction xs) (auto intro!: keeps_rule)

lemma keeps_doE [keeps_rule]: "keeps J m \<Longrightarrow> keeps J (doE m)"
  unfolding doE_def by (intro keeps_rule)

lemma keeps_assert_raises [keeps_rule]: "keeps J m \<Longrightarrow> keeps J (assert_raises P m)"
  unfolding assert_raises_def keeps_def by (auto split: prod.splits sum.splits)

lemma keeps_with_cleanup [keeps_rule]: "keeps J m \<Longrightarrow> keeps J f \<Longrightarrow> keeps J (with_cleanup m f)"
  unfolding with_cleanup_def keeps_def by (auto split: prod.splits sum.splits)

section \<open>What a test keeps\<close>

definition fixture_kept :: "(client \<Rightarrow> bool) \<Rightarrow> nat list \<Rightarrow> ns_text \<Rightarrow> live \<Rightarrow> bool" where
  "fixture_kept I base delim lv \<longleftrightarrow> I (lv_client lv) \<and> lv_base_folder lv = base \<and> lv_delimiter lv = delim"

locale fixture_invariant = session_invariant I for I +
  fixes base :: "nat list" and delim :: ns_text
  assumes encode: "\<And>cl b. I cl \<Longrightarrow> I (cl\<lparr>cl_folder_encode := b\<rparr>)"
begin

lemma onc_keeps: "keeps I m \<Longrightarrow> keeps (fixture_kept I base delim) (onc m)"
  unfolding keeps_def fixture_kept_def onc_def by (auto split: prod.splits)

lemma set_encode_keeps: "keeps (fixture_kept I base delim) (set_encode b)"
  unfolding set_encode_def by (rule keeps_modE) (simp add: fixture_kept_def encode)

lemma second_client_keeps: "keeps (fixture_kept I base delim) (second_client te)"
  unfolding second_client_def
  by (auto intro!: keeps_bindE keeps_withE keeps_basic keeps_modE simp: fixture_kept_def split: prod.split)

lemma on_other_keeps: "keeps (fixture_kept I base delim) (on_other i m)"
  by (auto simp: keeps_def fixture_kept_def on_other_def split: prod.splits)

lemmas session_calls = command_and_check_keeps command_unpacked_keeps raw_command_untagged_keeps consume_until_keeps
  save_capabilities_keeps capabilities_keeps has_capability_keeps folder_command_keeps do_list_keeps fetch_keeps
  session_keeps folder_keeps message_keeps idle_keeps

lemmas shorthands = list_folders_def xlist_folders_def list_sub_folders_def create_folder_def rename_folder_def
  delete_folder_def subscribe_folder_def unsubscribe_folder_def add_flags_def remove_flags_def set_flags_def
  add_gmail_labels_def remove_gmail_labels_def set_gmail_labels_def delete_messages_def noop_def expunge_def
  search_all_def gmail_search_def search_def[symmetric]

lemma short_calls:
  "keeps I (list_folders env d p)" "keeps I (xlist_folders env d p)" "keeps I (list_sub_folders env d p)"
  "keeps I (create_folder f)" "keeps I (rename_folder f g)" "keeps I (delete_folder f)"
  "keeps I (subscribe_folder f)" "keeps I (unsubscribe_folder f)" "keeps I (delete_messages env ms)"
  "keeps I (set_flags env ms fl)" "keeps I (add_flags env ms fl)" "keeps I (remove_flags env ms fl)"
  "keeps I (set_gmail_labels env ms fl)" "keeps I (add_gmail_labels env ms fl)" "keeps I (remove_gmail_labels env ms fl)"
  "keeps I (noop env)" "keeps I (expunge env)" "keeps I (search_all env)" "keeps I (gmail_search env q ch)"
  unfolding shorthands by (intro session_calls)+

lemmas test_rules = keeps_basic keeps_bindE keeps_withE keeps_whenE keeps_assertE keeps_catchE keeps_finallyE keeps_each
  keeps_doE keeps_assert_raises keeps_with_cleanup onc_keeps set_encode_keeps second_client_keeps on_other_keeps
  session_calls short_calls

lemma helper_keeps:
  "keeps (fixture_kept I base delim) (skip_unless_capable c n)" "keeps (fixture_kept I base delim) (all_test_folder_names env)" "keeps (fixture_kept I base delim) (all_sub_test_folder_names env)"
  "keeps (fixture_kept I base delim) is_exchange" "keeps (fixture_kept I base delim) (delete_test_folder f)" "keeps (fixture_kept I base delim) (clear_folder env f)"
  "keeps (fixture_kept I base delim) (append_msg env msg fo)" "keeps (fixture_kept I base delim) (unsub_all_test_folders env)"
  unfolding skip_unless_capable_def all_test_folder_names_def all_sub_test_folder_names_def is_exchange_def
    delete_test_folder_def clear_folder_def append_msg_def unsub_all_test_folders_def Let_def
  by (auto intro!: test_rules split: if_splits)

lemma clear_keeps: "keeps (fixture_kept I base delim) (clear_test_folders env)"
  unfolding clear_test_folders_def by (auto intro!: test_rules helper_keeps)

lemma fixture_keeps: "keeps (fixture_kept I base delim) (setUp env)" "keeps (fixture_kept I base delim) (tearDown env)" "keeps (fixture_kept I base delim) tearDownClass"
  unfolding setUp_def tearDown_def tearDownClass_def by (auto intro!: test_rules helper_keeps clear_keeps)

lemma more_helpers_keep:
  "keeps (fixture_kept I base delim) (check_select resp n)" "keeps (fixture_kept I base delim) read_only_known"
  "keeps (fixture_kept I base delim) (folder_test env b f)" "keeps (fixture_kept I base delim) (check_status st k n)"
  "keeps (fixture_kept I base delim) (upload te j)" "keeps (fixture_kept I base delim) (the_message env)"
  "keeps (fixture_kept I base delim) (fetch_one env i items)"
  "keeps (fixture_kept I base delim) (append_subject env sb)" "keeps (fixture_kept I base delim) (found env c ch j)"
  "keeps (fixture_kept I base delim) highest_modseq" "keeps (fixture_kept I base delim) (append_to_base env msg)"
  "keeps (fixture_kept I base delim) (gmail_found env q P)" "keeps (fixture_kept I base delim) (sorted_by env sc c)"
  "keeps (fixture_kept I base delim) (threads_of env c)" "keeps (fixture_kept I base delim) (changed_since env i m)"
  "keeps (fixture_kept I base delim) (check_BODYSTRUCTURE ex bd mp)"
  unfolding check_select_def read_only_known_def folder_test_def check_status_def upload_def the_message_def fetch_one_def
    append_subject_def found_def highest_modseq_def append_to_base_def gmail_found_def sorted_by_def threads_of_def
    changed_since_def check_BODYSTRUCTURE_def
  by (auto intro!: test_rules helper_keeps split: option.splits)

lemmas all_rules = test_rules helper_keeps more_helpers_keep

lemma test_parts_keep:
  "keeps (fixture_kept I base delim) (run_folder_tests env fs b)" "keeps (fixture_kept I base delim) (check_append env now inm outm)"
  "keeps (fixture_kept I base delim) (modseq_tracking env)" "keeps (fixture_kept I base delim) (partial_body env i w k j st)"
  "keeps (fixture_kept I base delim) (check_fetched resp i ex mp)"
  "keeps I f \<Longrightarrow> keeps (fixture_kept I base delim) (flag_test f i fl)"
  "keeps I f \<Longrightarrow> keeps (fixture_kept I base delim) (label_test f i fl)"
  unfolding run_folder_tests_def check_append_def modseq_tracking_def partial_body_def check_fetched_def flag_test_def
    label_test_def Let_def
  by (auto intro!: all_rules split: list.splits fetch_val.splits option.splits imapval.splits)

lemma alternates_keep: "keeps (fixture_kept I base delim) (alternates_test te ta)"
  by (auto simp: keeps_def fixture_kept_def alternates_test_def split: prod.splits)

lemma general_tests_keep: "list_all (\<lambda>(name, body). keeps (fixture_kept I base delim) body) (general_tests te ta)"
proof -
  let ?K = "fixture_kept I base delim"
  have "keeps ?K test_capabilities" unfolding test_capabilities_def by (auto intro!: all_rules)
  moreover have "keeps ?K (test_folders env)" for env
    unfolding test_folders_def Let_def by (auto intro!: all_rules test_parts_keep)
  moreover have "keeps ?K test_gmail_xlist" unfolding test_gmail_xlist_def by (auto intro!: all_rules)
  moreover have "keeps ?K (test_idle te a)" for a
    unfolding test_idle_def by (auto intro!: all_rules split: prod.splits)
  moreover have "keeps ?K (test_list_folders env)" for env
    unfolding test_list_folders_def Let_def by (auto intro!: all_rules)
  moreover have "keeps ?K (test_namespace env)" for env unfolding test_namespace_def by (auto intro!: all_rules)
  moreover have "keeps ?K (test_noop te)" unfolding test_noop_def by (auto intro!: all_rules split: prod.splits)
  moreover have "keeps ?K (test_rename_folder env)" for env unfolding test_rename_folder_def by (auto intro!: all_rules)
  moreover have "keeps ?K test_select_and_close" unfolding test_select_and_close_def by (auto intro!: all_rules)
  moreover have "keeps ?K (test_select_read_only env)" for env
    unfolding test_select_read_only_def by (auto intro!: all_rules)
  moreover have "keeps ?K (test_status env)" for env unfolding test_status_def by (auto intro!: all_rules)
  moreover have "keeps ?K (test_subscriptions env)" for env unfolding test_subscriptions_def by (auto intro!: all_rules)
  moreover have "keeps ?K (test_xlist env)" for env unfolding test_xlist_def by (auto intro!: all_rules)
  ultimately show ?thesis by (simp add: general_tests_def Let_def alternates_keep)
qed

end

locale suite_invariant = fixture_invariant I base delim for I base delim +
  assumes times: "\<And>cl b. I cl \<Longrightarrow> I (cl\<lparr>cl_normalise_times := b\<rparr>)"
begin

lemma set_times_keeps: "keeps (fixture_kept I base delim) (set_normalise_times b)"
  unfolding set_normalise_times_def by (rule keeps_modE) (simp add: fixture_kept_def times)

lemma uid_tests_keep: "list_all (\<lambda>(name, body). keeps (fixture_kept I base delim) body) (uid_tests te ta)"
proof -
  let ?K = "fixture_kept I base delim"
  note rules = all_rules test_parts_keep
  have "keeps ?K (test_BODYSTRUCTURE env)" for env unfolding test_BODYSTRUCTURE_def by (auto intro!: rules)
  moreover have "keeps ?K (test_append_bytes env now)" "keeps ?K (test_append_unicode env now)" for env now
    unfolding test_append_bytes_def test_append_unicode_def by (auto intro!: rules)
  moreover have "keeps ?K (test_copy env)" for env unfolding test_copy_def by (auto intro!: rules)
  moreover have "keeps ?K (test_expunge env)" for env unfolding test_expunge_def by (auto intro!: rules split: prod.splits)
  moreover have "keeps ?K (test_fetch env h)" for env h
    unfolding test_fetch_def Let_def by (auto intro!: rules set_times_keeps split: option.splits fetch_val.splits)
  moreover have "keeps ?K (test_fetch_modifiers env)" for env
    unfolding test_fetch_modifiers_def by (auto intro!: rules split: imapval.splits)
  moreover have "keeps ?K (test_flags env)" for env unfolding test_flags_def Let_def by (auto intro!: rules)
  moreover have "keeps ?K (test_getacl c)" for c unfolding test_getacl_def by (auto intro!: rules)
  moreover have "keeps ?K (test_gmail_labels env)" for env unfolding test_gmail_labels_def Let_def by (auto intro!: rules)
  moreover have "keeps ?K (test_gmail_search env r)" for env r unfolding test_gmail_search_def by (auto intro!: rules)
  moreover have "keeps ?K (test_partial_fetch env)" for env unfolding test_partial_fetch_def by (auto intro!: rules)
  moreover have "keeps ?K (test_search env)" for env unfolding test_search_def by (auto intro!: rules)
  moreover have "keeps ?K (test_search_with_modseq env)" for env unfolding test_search_with_modseq_def by (auto intro!: rules)
  moreover have "keeps ?K (test_search_with_unicode env)" for env unfolding test_search_with_unicode_def by (auto intro!: rules)
  moreover have "keeps ?K (test_sort env)" for env unfolding test_sort_def Let_def by (auto intro!: rules)
  moreover have "keeps ?K (test_sort_with_unicode env)" for env unfolding test_sort_with_unicode_def by (auto intro!: rules)
  moreover have "keeps ?K (test_thread env)" for env
    unfolding test_thread_def Let_def by (auto intro!: rules split: imapval.splits)
  moreover have "keeps ?K (test_thread_with_unicode env)" for env unfolding test_thread_with_unicode_def by (auto intro!: rules)
  ultimately show ?thesis by (simp add: uid_tests_def Let_def)
qed

lemma run_test_keeps:
  assumes "keeps (fixture_kept I base delim) body" and "fixture_kept I base delim lv"
  shows "fixture_kept I base delim (snd (run_test env body lv))"
proof -
  have others: "fixture_kept I base delim (l\<lparr>lv_others := cs\<rparr>) = fixture_kept I base delim l" for l cs
    by (simp add: fixture_kept_def)
  have "fixture_kept I base delim t" if "setUp env lv = (r, t)" for r t
    using keepsD[OF fixture_keeps(1) assms(2), of env] that by simp
  moreover have "fixture_kept I base delim u" if "body t = (r, u)" "fixture_kept I base delim t" for r t u
    using keepsD[OF assms(1) that(2)] that(1) by simp
  moreover have "fixture_kept I base delim w" if "tearDown env u = (r, w)" "fixture_kept I base delim u" for r w u
    using keepsD[OF fixture_keeps(2) that(2)] that(1) by (metis snd_conv)
  ultimately show ?thesis by (simp add: run_test_def others split: prod.split sum.split)
qed

theorem suite_keeps:
  assumes "set tests \<subseteq> set (general_tests te ta) \<union> set (uid_tests te ta)" and "fixture_kept I base delim lv"
  shows "fixture_kept I base delim (snd (run_suite env tests lv))"
  using assms
proof (induction tests arbitrary: lv)
  case (Cons test tests)
  obtain name body where t: "test = (name, body)" by (cases test)
  have "keeps (fixture_kept I base delim) body"
    using Cons.prems(1) general_tests_keep[of te ta] uid_tests_keep[of te ta] t by (auto simp: list_all_iff)
  from Cons.IH[OF _ run_test_keeps[OF this Cons.prems(2)], of env] Cons.prems(1) show ?case
    by (auto simp: t split: prod.split)
qed simp

end

section \<open>A client from a configuration\<close>

context session_invariant begin

lemma config_login_keeps:
  assumes "config_login sr conf (cl, cache) = (r, cl', cache')" and "I cl"
  shows "I cl'"
proof -
  note step = keepsD[OF session_keeps(1)] keepsD[OF session_keeps(2)] keepsD[OF session_keeps(3)] keepsD[OF session_keeps(4)]
  obtain q c where st: "(if cf_starttls conf then starttls (sr_starttls sr None) cl else (Inr None, cl)) = (q, c)" by fastforce
  then have c: "I c" using step(1)[OF assms(2), of "sr_starttls sr None"] assms(2) by (auto split: if_splits)
  show ?thesis
    using assms(1) st c step(2,3,4)[OF c]
    by (auto simp: config_login_def split: prod.splits sum.splits if_splits) (metis snd_conv)+
qed

lemma created_client_keeps:
  assumes "create_client_from_config ossl sr conf cache = (Inr cl, d, cache')"
    and "\<And>ctx cl. new_client (sr_connect sr ctx) (opt_text (cf_host conf)) (cf_port conf) True (cf_ssl conf) (cf_stream conf)
      (cf_timeout conf) = Inr cl \<Longrightarrow> I cl"
  shows "I cl"
  using assms config_login_keeps
  by (auto simp: create_client_from_config_def outcome split: sum.splits prod.splits)

lemma live_calls_keep:
  "keeps I m \<Longrightarrow> keeps (\<lambda>lv. I (lv_client lv)) (onc m)"
  by (auto simp: keeps_def onc_def split: prod.splits)

end

end
