(* ===== verification/LiveSpec.thy ===== *)
theory LiveSpec
  imports LiveSession TlsSpec "HOL-Library.Multiset"
begin

text \<open>
  The properties of livetest.py: the order in which test folders are deleted, the state each test starts in,
  what a whole run leaves of the client, and what the comparison of body structures lets pass.
\<close>

section \<open>Deleting folders\<close>

lemma py_count_Nil: "d \<noteq> [] \<Longrightarrow> py_count d [] = 0"
  by (subst py_count.simps) simp

lemma py_count_hit: "d \<noteq> [] \<Longrightarrow> take (length d) s = d \<Longrightarrow> py_count d s = Suc (py_count d (drop (length d) s))"
  by (subst py_count.simps) (auto split: list.splits)

lemma py_count_miss: "d \<noteq> [] \<Longrightarrow> take (length d) (c # cs) \<noteq> d \<Longrightarrow> py_count d (c # cs) = py_count d cs"
  by (subst py_count.simps) simp

lemma py_count_short: "d \<noteq> [] \<Longrightarrow> length s < length d \<Longrightarrow> py_count d s = 0"
proof (induction s)
  case (Cons c cs)
  then have "take (length d) (c # cs) \<noteq> d" by auto
  with Cons show ?case by (simp add: py_count_miss)
qed (simp add: py_count_Nil)

lemma py_count_append_sub:
  assumes "d \<noteq> []"
  shows "py_count d p < py_count d (p @ d @ r)"
  using assms
proof (induction "length p" arbitrary: p rule: less_induct)
  case less
  let ?n = "length d"
  show ?case
  proof (cases p)
    case Nil
    then show ?thesis using less.prems by (simp add: py_count_Nil py_count_hit)
  next
    case (Cons c cs)
    show ?thesis
    proof (cases "take ?n (p @ d @ r) = d")
      case True
      have whole: "py_count d (p @ d @ r) = Suc (py_count d (drop ?n (p @ d @ r)))"
        using less.prems True by (rule py_count_hit)
      show ?thesis
      proof (cases "?n \<le> length p")
        case True
        then have "take ?n p = d" using \<open>take ?n (p @ d @ r) = d\<close> by simp
        moreover have "py_count d (drop ?n p) < py_count d (drop ?n p @ d @ r)"
          using less.prems Cons True by (intro less.hyps) simp_all
        ultimately show ?thesis using whole True less.prems by (simp add: py_count_hit)
      qed (use whole less.prems in \<open>simp add: py_count_short\<close>)
    next
      case False
      have "take ?n p \<noteq> d"
      proof
        assume t: "take ?n p = d"
        from arg_cong[OF t, of length] have "?n \<le> length p" by simp
        with False t show False by simp
      qed
      moreover have "py_count d cs < py_count d (cs @ d @ r)" using less.prems Cons by (intro less.hyps) simp_all
      ultimately show ?thesis using False less.prems Cons by (simp add: py_count_miss)
    qed
  qed
qed

definition below_folder :: "bytes \<Rightarrow> pystr \<Rightarrow> pystr \<Rightarrow> bool" where
  \<comment> \<open>the second folder lies below the first\<close>
  "below_folder d parent child = (case (parent, child) of
     (Str p, Str c) \<Rightarrow> \<exists>r. c = p @ d @ r
   | (Uni p, Uni c) \<Rightarrow> \<exists>r. c = p @ map of_char d @ r
   | _ \<Rightarrow> False)"

lemma below_deeper: "d \<noteq> [] \<Longrightarrow> below_folder d parent child \<Longrightarrow> depth_below d parent < depth_below d child"
  by (auto simp: below_folder_def depth_below_def intro: py_count_append_sub split: pystr.splits)

lemma sequence_Inr_map: "sequence (map (\<lambda>x. Inr (f x)) xs) = Inr (map f xs)"
  by (induction xs) simp_all

lemma deletion_order_sorted:
  assumes "deletion_order lv names = Inr order"
  shows "mset order = mset names"
    and "delimiter_bytes lv = Inr d \<Longrightarrow> sorted (map (\<lambda>f. - int (depth_below d f)) order)"
proof -
  have "\<exists>ds. order = map snd (sort_key (\<lambda>p. - int (fst p)) (zip ds names)) \<and> length ds = length names
    \<and> (\<forall>d. delimiter_bytes lv = Inr d \<longrightarrow> ds = map (depth_below d) names)"
  proof (cases "delimiter_bytes lv")
    case (Inl e)
    then have "names = []" using assms by (cases names) (auto simp: deletion_order_def get_folder_depth_def)
    then show ?thesis using assms Inl by (auto simp: deletion_order_def)
  next
    case (Inr b)
    then have "get_folder_depth lv = (\<lambda>f. Inr (depth_below b f))" by (simp add: get_folder_depth_def fun_eq_iff)
    then show ?thesis
      using assms Inr by (auto simp: deletion_order_def sequence_Inr_map intro!: exI[of _ "map (depth_below b) names"])
  qed
  then obtain ds where o: "order = map snd (sort_key (\<lambda>p. - int (fst p)) (zip ds names))" "length ds = length names"
    and ds: "\<forall>d. delimiter_bytes lv = Inr d \<longrightarrow> ds = map (depth_below d) names" by blast
  have "mset order = mset (map snd (zip ds names))" by (simp only: o(1) mset_map mset_sort)
  also have "\<dots> = mset names" using o(2) by simp
  finally show "mset order = mset names" .
  assume d: "delimiter_bytes lv = Inr d"
  have "fst p = depth_below d (snd p)" if "p \<in> set (zip ds names)" for p
    using that ds d by (auto simp: set_zip)
  then have "map (\<lambda>f. - int (depth_below d f)) order = map (\<lambda>p. - int (fst p)) (sort_key (\<lambda>p. - int (fst p)) (zip ds names))"
    by (simp add: o(1))
  then show "sorted (map (\<lambda>f. - int (depth_below d f)) order)" by simp
qed

fun deleted_in_turn :: "pystr list \<Rightarrow> live \<Rightarrow> live \<Rightarrow> bool" where
  \<comment> \<open>each deletion is accepted by the server\<close>
  "deleted_in_turn [] s t \<longleftrightarrow> t = s"
| "deleted_in_turn (f # fs) s t \<longleftrightarrow> (\<exists>r u. onc (delete_folder f) s = (Inr r, u) \<and> deleted_in_turn fs u t)"

definition same_connection :: "client \<Rightarrow> client \<Rightarrow> bool" where
  "same_connection a b \<longleftrightarrow> cl_host b = cl_host a \<and> cl_port b = cl_port a \<and> cl_ssl b = cl_ssl a \<and> cl_stream b = cl_stream a
     \<and> cl_use_uid b = cl_use_uid a \<and> cl_timeout b = cl_timeout a"

interpretation connection: suite_invariant "same_connection a" base delim for a base delim
  by unfold_locales (simp_all add: same_connection_def)

interpretation waiting: suite_invariant timeout_applied base delim for base delim
  by unfold_locales (simp_all add: timeout_applied_def)

definition encodes :: "bool \<Rightarrow> client \<Rightarrow> bool" where
  "encodes b cl \<longleftrightarrow> cl_folder_encode cl = b"

interpretation encoding: session_invariant "encodes b"
  by unfold_locales (simp_all add: encodes_def)

definition limited :: "int option \<Rightarrow> client \<Rightarrow> bool" where
  "limited t cl \<longleftrightarrow> cl_timeout cl = t"

interpretation limit: session_invariant "limited t" for t
  by unfold_locales (simp_all add: limited_def)

lemma deleted_each:
  assumes "each delete_test_folder fs s = (Inr (), t)" and "\<not> is_fastmail s"
  shows "deleted_in_turn fs s t"
  using assms
proof (induction fs arbitrary: s)
  case (Cons f fs)
  obtain u where u: "delete_test_folder f s = (Inr (), u)" "each delete_test_folder fs u = (Inr (), t)"
    using Cons.prems(1) by (auto simp: outcome)
  have "fixture_kept (same_connection (lv_client s)) (lv_base_folder s) (lv_delimiter s) u"
    using keepsD[OF connection.helper_keeps(5), of "lv_client s" "lv_base_folder s" "lv_delimiter s" s f] u(1)
    by (simp add: fixture_kept_def same_connection_def)
  then have fast: "\<not> is_fastmail u"
    using Cons.prems(2) by (auto simp: is_fastmail_def imap_host_def fixture_kept_def same_connection_def split: if_splits)
  obtain r c where rc: "onc (delete_folder f) s = (r, c)" by fastforce
  have "fixture_kept (same_connection (lv_client s)) (lv_base_folder s) (lv_delimiter s) c"
    using keepsD[OF connection.onc_keeps[OF connection.short_calls(6)], of "lv_client s" "lv_base_folder s" "lv_delimiter s" s f] rc
    by (simp add: fixture_kept_def same_connection_def)
  then have "\<not> is_fastmail c"
    using Cons.prems(2) by (auto simp: is_fastmail_def imap_host_def fixture_kept_def same_connection_def split: if_splits)
  with u(1) rc have "\<exists>x. r = Inr x" "c = u"
    by (auto simp: delete_test_folder_def catchE_def doE_def bindE_def split: sum.splits if_splits)
  then show ?case using Cons.IH[OF u(2) fast] rc by auto
qed simp

lemma clear_test_folders_Inr:
  assumes "clear_test_folders env lv = (Inr (), lv')"
  obtains s t u names order where
    "all_test_folder_names env s = (Inr names, t)" and "\<not> cl_folder_encode (lv_client s)"
    and "deletion_order t names = Inr order" and "each delete_test_folder order t = (Inr (), u)"
    and "lv' = u\<lparr>lv_client := (lv_client u)\<lparr>cl_folder_encode := True\<rparr>\<rparr>"
  using assms by (auto simp: clear_test_folders_def set_encode_def outcome)


definition sample_live :: "reply list \<Rightarrow> live" where
  "sample_live inbox = \<lparr>lv_client = sample_client inbox, lv_base_folder = map of_char ''T'', lv_delimiter = NsText [0x2F],
     lv_others = [], lv_tokens = Map.empty\<rparr>"

definition folder_replies :: "reply list" where
  "folder_replies = [Tagged ''T1'' ''OK'' ''closed'', Untagged ''LIST'' [Line ''() / T'', Line ''() / T/A''] ''LIST'',
     Tagged ''T2'' ''OK'' ''listed'', Tagged ''T3'' ''OK'' ''gone'', Tagged ''T4'' ''OK'' ''gone'']"


section \<open>The state a test starts in\<close>

lemma state_told_apart: "u\<lparr>im_state := a\<rparr> = u\<lparr>im_state := b\<rparr> \<longleftrightarrow> a = b"
  by (auto dest: arg_cong[of _ _ im_state])

lemma selected_state:
  "select_folder f ro cl = (Inr r, cl') \<Longrightarrow> im_state (cl_imap cl') = ''SELECTED''"
  by (auto simp: select_folder_def command_and_check_def imapE_def imap_meth_def set_state_def checkok_def check_resp_def outcome
      state_told_apart split: if_splits prod.splits)

text \<open>
  A test starts with the base folder selected and the names of folders encoded, over the connection of
  its class, whatever the tests before it have left.
\<close>
theorem fixture_ready:
  assumes "setUp env lv = (Inr (), lv')"
  shows "cl_folder_encode (lv_client lv') \<and> im_state (cl_imap (lv_client lv')) = ''SELECTED''
    \<and> same_connection (lv_client lv) (lv_client lv') \<and> lv_base_folder lv' = lv_base_folder lv"
proof -
  let ?K = "fixture_kept (same_connection (lv_client lv)) (lv_base_folder lv) (lv_delimiter lv)"
  have "?K lv" by (simp add: fixture_kept_def same_connection_def)
  then have K: "?K lv'" using keepsD[OF connection.fixture_keeps(1), of _ _ _ lv env] assms by simp
  obtain a b c r where a: "clear_test_folders env lv = (Inr (), a)" and b: "unsub_all_test_folders env a = (Inr (), b)"
    and c: "onc (create_folder (Uni (lv_base_folder b))) b = (Inr r, c)"
    and s: "doE (onc (select_folder (Uni (lv_base_folder b)) False)) c = (Inr (), lv')"
    using assms by (auto simp: setUp_def outcome)
  note rules = keeps_bindE keeps_withE keeps_basic keeps_each keeps_doE encoding.live_calls_keep
  have "encodes True (lv_client a)" by (rule clear_test_folders_Inr[OF a]) (simp add: encodes_def)
  moreover have "keeps (\<lambda>lv. encodes True (lv_client lv)) (unsub_all_test_folders env)"
    unfolding unsub_all_test_folders_def all_sub_test_folder_names_def list_sub_folders_def unsubscribe_folder_def
    by (intro rules encoding.do_list_keeps encoding.folder_command_keeps)
  ultimately have "encodes True (lv_client b)" using keepsD[of _ "unsub_all_test_folders env" a] b by simp
  moreover have "keeps (\<lambda>lv. encodes True (lv_client lv)) (onc (create_folder f))" for f
    unfolding create_folder_def by (intro encoding.live_calls_keep encoding.folder_keeps)
  ultimately have "encodes True (lv_client c)"
    using keepsD[of "\<lambda>lv. encodes True (lv_client lv)" "onc (create_folder (Uni (lv_base_folder b)))" b] c by simp
  moreover have "keeps (\<lambda>lv. encodes True (lv_client lv)) (doE (onc (select_folder f ro)))" for f ro
    by (intro rules encoding.folder_keeps)
  ultimately have "encodes True (lv_client lv')"
    using keepsD[of "\<lambda>lv. encodes True (lv_client lv)" "doE (onc (select_folder (Uni (lv_base_folder b)) False))" c] s by simp
  moreover have "im_state (cl_imap (lv_client lv')) = ''SELECTED''"
    using s by (auto simp: doE_def onc_def outcome dest: selected_state split: prod.splits)
  ultimately show ?thesis using K by (simp add: encodes_def fixture_kept_def)
qed

definition set_up_replies :: "reply list" where
  "set_up_replies = [Tagged ''T1'' ''OK'' ''closed'', Untagged ''LIST'' [Line ''() / T''] ''LIST'', Tagged ''T2'' ''OK'' ''listed'',
     Tagged ''T3'' ''OK'' ''gone'', Untagged ''LSUB'' [Line []] ''LSUB'', Tagged ''T4'' ''OK'' ''none'', Tagged ''T5'' ''OK'' ''made'',
     Tagged ''T6'' ''OK'' ''selected'']"

theorem fixture_ready_witness:
  "im_state (cl_imap (lv_client (snd (setUp sample_env (sample_live set_up_replies))))) = ''SELECTED''"
proof -
  have "fst (setUp sample_env (sample_live set_up_replies)) = Inr ()" by code_simp
  then have "setUp sample_env (sample_live set_up_replies) = (Inr (), snd (setUp sample_env (sample_live set_up_replies)))"
    by (metis prod.collapse)
  from fixture_ready[OF this] show ?thesis by blast
qed

section \<open>A whole run\<close>

text \<open>
  C39: A run of any tests of the two classes, in any order and whatever they raise, runs each of them and
  leaves the client with the connection, the timeout and the use of identifiers its class was set up
  with, and the test folders under the same name.
\<close>
theorem suite_keeps_settings:
  assumes "setUpClass te nsp use_uid tokens = Inr lv"
    and "set tests \<subseteq> set (general_tests te ta) \<union> set (uid_tests te ta)"
    and "run_suite (tv_env te) tests lv = (results, lv')"
  shows "map fst results = map fst tests \<and> same_connection (lv_client lv) (lv_client lv')
    \<and> cl_use_uid (lv_client lv') = use_uid \<and> cl_sock_timeout (lv_client lv') = cf_timeout (tv_conf te)
    \<and> lv_base_folder lv' = lv_base_folder lv"
proof -
  have "run_suite (tv_env te) ts l = (rs, l') \<Longrightarrow> map fst rs = map fst ts" for ts l rs l'
    by (induction ts arbitrary: l rs l') (auto split: prod.splits)
  then have 1: "map fst results = map fst tests" using assms(3) .
  obtain cl d tokens' where made: "create_client_from_config (tv_ossl te) (tv_sr te) (tv_conf te) tokens = (Inr cl, d, tokens')"
    and lv: "lv_client lv = cl\<lparr>cl_use_uid := use_uid\<rparr>"
    using assms(1) by (auto simp: setUpClass_def outcome split: sum.splits prod.splits)
  have "timeout_applied cl" by (rule socket.created_client_keeps[OF made]) (use new_client_timeout in blast)
  moreover have "same_connection (lv_client lv) (lv_client lv')" "lv_base_folder lv' = lv_base_folder lv"
    using connection.suite_keeps[OF assms(2), of "lv_client lv" "lv_base_folder lv" "lv_delimiter lv" lv "tv_env te"] assms(3)
    by (simp_all add: fixture_kept_def same_connection_def)
  moreover have "timeout_applied (lv_client lv) \<Longrightarrow> timeout_applied (lv_client lv')"
    using waiting.suite_keeps[OF assms(2), of "lv_base_folder lv" "lv_delimiter lv" lv "tv_env te"] assms(3)
    by (simp add: fixture_kept_def)
  moreover have "cl_timeout cl = cf_timeout (tv_conf te)"
    using limit.created_client_keeps[OF made, of "cf_timeout (tv_conf te)"] new_client_timeout by (auto simp: limited_def)
  ultimately show ?thesis using 1 lv by (simp add: same_connection_def timeout_applied_def)
qed

definition sample_test_env :: test_env where
  "sample_test_env = \<lparr>tv_env = sample_env, tv_ossl = sample_ossl, tv_sr = sample_surroundings, tv_conf = sample_conf\<rparr>"

definition sample_args :: test_args where
  "sample_args = \<lparr>ta_alternates = [], ta_found = (\<lambda>_ _. Inr True), ta_arrived = (False, [], ImapAbort []),
     ta_now = \<lparr>dt_year = 2012, dt_month = 2, dt_day = 3, dt_hour = 4, dt_minute = 5, dt_second = 6, dt_tz = None\<rparr>,
     ta_msgid = ''id'', ta_random = ''zzz''\<rparr>"

theorem suite_keeps_settings_witness:
  "\<exists>lv results lv'. setUpClass sample_test_env (NsText [], NsText [0x2F]) False Map.empty = Inr lv
     \<and> run_suite sample_env (general_tests sample_test_env sample_args @ uid_tests sample_test_env sample_args) lv = (results, lv')
     \<and> length results = 33 \<and> \<not> cl_use_uid (lv_client lv') \<and> cl_sock_timeout (lv_client lv') = None"
proof -
  let ?tests = "general_tests sample_test_env sample_args @ uid_tests sample_test_env sample_args"
  obtain lv where lv: "setUpClass sample_test_env (NsText [], NsText [0x2F]) False Map.empty = Inr lv"
    using sample_client_made by (auto simp: setUpClass_def sample_test_env_def)
  obtain results lv' where r: "run_suite sample_env ?tests lv = (results, lv')" by fastforce
  have "set ?tests \<subseteq> set (general_tests sample_test_env sample_args) \<union> set (uid_tests sample_test_env sample_args)" by simp
  note kept = suite_keeps_settings[OF lv this, of results lv']
  have e: "tv_env sample_test_env = sample_env" "cf_timeout (tv_conf sample_test_env) = None"
    by (simp_all add: sample_test_env_def sample_conf_def)
  have "length (map fst results) = length (map fst ?tests)" using kept r e by metis
  then have "length results = 33" by (simp add: general_tests_def uid_tests_def Let_def)
  then show ?thesis using kept r e lv by auto
qed

end
