(* ===== verification/Spec2Isabelle.thy ===== *)
theory Spec2Isabelle
  imports OleSpec MailSpec ImapSpec TlsSpec WireSpec StartSpec ToolSpec SixSpec LiveSpec
begin

text \<open>
  A verification development of the Python programs of the repository: the mail and document parsers
  under src/synoce/scripts and the check src/synodr/sbin/check_snapreplica.py. The language is
  Python 2.7.

  \<^bold>\<open>The program.\<close> msg_parser/olefile.py reads and changes compound files, the container of Outlook
  messages. msg_parser/msg_parser.py takes a message out of such a file and prints it as JSON;
  eml_parser.py does the same for a MIME message, rtf2txt.py for RTF. msg_parser/imapclient is an IMAP
  client: imapclient.py drives a connection of the standard library's imaplib, response_lexer.py,
  response_parser.py and response_types.py read what the server sends, datetime_util.py and
  fixed_offset.py time stamps, imap_utf7.py folder names; tls.py and backports/ssl/core.py put TLS from
  pyOpenSSL under imaplib, subject_alt_name.py finds the names of a certificate, monkey.py puts the
  attributes of core.py into the module ssl; imap4.py and imaplib_ssl_fix.py change what imaplib does for
  plain and old connections. config.py makes a client from a file, interact.py from a command line; livetest.py runs tests with
  such a client against a mail server. six.py gives modules and functions that Python 2 and 3 name
  differently one name. msg_parser.py uses olefile.py and the
  decoder of imap_utf7.py. check_snapreplica.py asks the system for snapshots and exits with a code.

  \<^bold>\<open>How the code is modelled.\<close> A byte string is a list of characters, a unicode string a list of code
  units or code points. A function that can raise has a result of type \<open>pyexc + 'a\<close>, \<open>Inl\<close> for the
  exception. A method of an object is a function from the object, a record, to the result and the
  changed object, so that what a raising method leaves behind is part of the model; \<open>bindE\<close>, \<open>whenE\<close>
  and the others of PyBase sequence such calls. A definition is named after its function; where the
  name is taken it has the class or the module in front.

  \<^bold>\<open>The theories.\<close>
  \<^item> PyBase: the prelude. Exceptions, sequencing, the slices, joins and string methods the code uses,
    decimal numbers, \<open>keeps\<close> for properties every call preserves, and the collection \<open>outcome\<close> that
    takes results of sequences apart.
  \<^item> PyText: what Python's repr writes.
  \<^item> OleBytes, OleState, OleStream, OleDir, OleFile, OleWrite, OleProps: olefile.py. The bytes and
    constants; the object \<open>OleFileIO\<close> with the policy for defects; sector chains; the directory;
    opening, finding, listing; replacing a stream; property sets and metadata. OleDump: what olefile.py
    prints, with its command line.
  \<^item> OleTree, OleOpen: what the directory methods and opening establish. OleReads: that reading leaves a
    file as it is, with the locale \<open>reading\<close>. OleSample: a whole file.
    OleSpec: the properties.
  \<^item> MailText, EmlFile, Rtf: the text helpers that two scripts share, eml_parser.py, rtf2txt.py.
    MailSpec: the properties.
  \<^item> ImapLex, ImapParse, ImapFetch, ImapDate, ImapUtf7: the readers of imapclient. ImapParse also has
    what a server prints for a value, for the round trips.
  \<^item> ImapCmd: util.py and the functions at the end of imapclient.py. ImapConn: what is used of imaplib,
    over a list of replies to come and a list of what has been sent. ImapClient: the class \<open>IMAPClient\<close>.
    ImapSession: a session as a step relation, with the locale \<open>session_invariant\<close>. ImapWire: what a
    command writes and how a reply is taken. ImapLog: the debugging output. ImapSample and ImapSpec: a
    client, and the properties.
  \<^item> SslFile: the guarded calls and the file object of backports/ssl/core.py, with the locale
    \<open>line_source\<close>. SslCore: certificates, the handshake, contexts. ImapTls: tls.py. ImapConfig:
    config.py. TlsSpec: the properties.
  \<^item> ImapLine: how imaplib splits the bytes of the connection into lines and literals. WireSpec: from
    the bytes to the messages, and logging.
  \<^item> SslAlt, SslPatch, ImapStart, ImapShell: subject_alt_name.py, monkey.py, the start of imapclient, and
    interact.py. StartSpec: the properties.
  \<^item> MsgFile: msg_parser.py. MsgTool: the command lines of the three mail scripts. SnapCheck: check_snapreplica.py. ToolSpec: the properties, with the locale
    \<open>message_invariant\<close> for calls on a message.
  \<^item> SixMoves: six.py, the lazy modules below \<open>six.moves\<close>, their tables and the importer. SixLazy: what an
    import means, without the caches, with the locale \<open>import_cache\<close>. SixCache: the invariant of the caches, and
    that importing and reading deliver what the import means. SixCompat: the rest of six.py. SixSpec: the
    properties.
  \<^item> LiveBase: the fixture of livetest.py and its command line. LiveGeneral, LiveUid, LiveFetch: the tests, as
    calls on the client, and how unittest runs them. LiveSession: what every test keeps, with the locales
    \<open>fixture_invariant\<close> and \<open>suite_invariant\<close>, which extend \<open>session_invariant\<close>. LiveSpec: the properties.

  \<^bold>\<open>What the lemmas show.\<close> For olefile.py: a stream opens exactly when its chain is well formed, what
  write_stream has written is read back and other streams are untouched, a file opened in the strict
  mode lists exactly its storage tree and finds every path it lists, and a message delivers the same after
  any calls. For the text side: tags, line
  ends and addresses, the walk over a message, groups and escapes of RTF. For IMAP: printed responses
  are parsed to their values, every parse ends with values or a parser's error, the lexer with its
  push-back is a plain scanner, names survive modified UTF-7 and quoting, a command is written as the
  grammar has it and its answer delivered, no method changes a client's settings. For TLS: the file
  object refines the stream of bytes, its buffer is bounded, writes are kept, a wrapped socket has a
  certificate for the host, which a DNS name in one of its extensions gives; reading responses byte by byte
  from that file object refines the queue of replies the client is modelled on, and the line reader put
  into old versions of imaplib is equivalent to it. Patching keeps the originals, logging changes nothing. Importing through
  six ends, and a move is read as its table says. The live tests delete folders below others first, each
  test starts with the base folder selected, and no test changes the connection of its class.
  Where the code does not do what it means to, the theorem says what it does:
  two spaces between literals, lost partial lines, wildcard certificates, cyclic directories, moves that
  stay when they are replaced.

  \<^bold>\<open>Bounds.\<close> The recursion of olefile.py over directories has the interpreter's recursion limit as an
  argument; in the strict mode twice the number of entries is enough, in the default mode a cyclic
  directory needs more than any limit. Nested tuples of a response are limited by \<open>depth\<close> in the same
  way. The fuel of the parser is the number of tokens, that of \<open>readlines\<close> the number of bytes
  left, that of collecting untagged responses the number of replies to come, of which each pass takes
  one. Importing and
  reading attributes through six call each other to a depth of four at most. That these bounds are enough
  is proved for the parser, \<open>readlines\<close> and six. All other loops are total
  functions.

  \<^bold>\<open>Parameters.\<close> The MIME parser, header decoder and date functions of the standard library, the codecs
  other than ASCII, UTF-7 and UTF-16, the parsers of INI files and command lines (as their results), JSON,
  glob, the commands check_snapreplica.py runs, pyOpenSSL (as a schedule of what its calls do), pyasn1, the
  certificates of Windows, the clock and time zone, the answers of a user, the servers an OAuth token comes
  from, the modules the importers other than that of six find, the random strings of the live tests and what
  arrives while one of them idles. What imaplib does for the client is modelled from its documentation in ImapConn, over a queue of
  replies; ImapLine relates this queue to bytes.

  \<^bold>\<open>Not modelled.\<close> The debugging messages of olefile.py; closing files; what a mail server answers (the live tests take its replies as
  they come); the shell scripts, PHP, binaries and data of the system. Files are read whole: what a script does between two
  reads of a file that changes is left out.
\<close>

end
